(* ===== verification/Go_Path.thy ===== *)
theory Go_Path
  imports Prelude
begin

text \<open>
  Go's package \<open>path\<close>, as far as the program uses it: \<open>path.Clean\<close>, \<open>path.Join\<close>, \<open>path.Dir\<close>,
  \<open>path.Base\<close> and \<open>path.Ext\<close>. A path is split at its slashes; \<open>Clean\<close> processes the
  segments left to right with the already cleaned ones on a stack, exactly as the library's lazy
  buffer does: an empty segment and \<open>.\<close> are dropped, \<open>..\<close> removes the previous segment, stays when
  there is none to remove, and vanishes at the root.

  The lemmas say that \<open>Clean\<close> is idempotent and that it is the identity on the paths written as
  normal segments, which is what the locator of \<open>Located\<close> and the candidate detection rest on.
\<close>

abbreviation slash :: char where "slash \<equiv> CHR ''/''"

subsection \<open>Clean\<close>

definition clean_step :: "bool \<Rightarrow> string list \<Rightarrow> string \<Rightarrow> string list" where
  "clean_step rooted stack seg =
     (if seg = [] \<or> seg = ''.'' then stack
      else if seg = ''..'' then
        (case stack of
           [] \<Rightarrow> if rooted then [] else [''..'']
         | prev # rest \<Rightarrow> if prev = ''..'' then ''..'' # stack else rest)
      else seg # stack)"

definition clean_stack :: "bool \<Rightarrow> string list \<Rightarrow> string list" where
  "clean_stack rooted segs = foldl (clean_step rooted) [] segs"

definition is_rooted :: "string \<Rightarrow> bool" where
  "is_rooted p \<longleftrightarrow> has_prefix p ''/''"

definition path_clean :: "string \<Rightarrow> string" where
  "path_clean p =
     (let body = join ''/'' (rev (clean_stack (is_rooted p) (split_on slash p)))
      in if is_rooted p then ''/'' @ body else if body = [] then ''.'' else body)"

definition path_join :: "string list \<Rightarrow> string" where
  "path_join elems =
     (let es = filter (\<lambda>e. e \<noteq> []) elems in if es = [] then [] else path_clean (join ''/'' es))"

definition path_dir :: "string \<Rightarrow> string" where
  "path_dir p =
     (let ss = split_on slash p
      in path_clean (if length ss \<le> 1 then [] else join ''/'' (butlast ss) @ ''/''))"

definition trim_right_slash :: "string \<Rightarrow> string" where
  "trim_right_slash p = rev (dropWhile (\<lambda>c. c = slash) (rev p))"

definition path_base :: "string \<Rightarrow> string" where
  "path_base p =
     (if p = [] then ''.''
      else let b = last (split_on slash (trim_right_slash p)) in if b = [] then ''/'' else b)"

definition path_ext :: "string \<Rightarrow> string" where
  "path_ext p =
     (let b = last (split_on slash p)
      in if CHR ''.'' \<in> set b then CHR ''.'' # last (split_on (CHR ''.'') b) else [])"

subsection \<open>Normal segments\<close>

definition plain_seg :: "string \<Rightarrow> bool" where
  "plain_seg w \<longleftrightarrow> w \<noteq> [] \<and> w \<noteq> ''.'' \<and> w \<noteq> ''..'' \<and> slash \<notin> set w"

definition path_of :: "string list \<Rightarrow> string" where
  "path_of segs = join ''/'' segs"

text \<open>The stack of a cleaned path: plain segments on top of parent references, the latter only
  when the path is not rooted.\<close>

definition stack_ok :: "bool \<Rightarrow> string list \<Rightarrow> bool" where
  "stack_ok rooted st \<longleftrightarrow>
     (\<exists>us n. st = us @ replicate n ''..'' \<and> (\<forall>u\<in>set us. plain_seg u) \<and> (rooted \<longrightarrow> n = 0))"

lemma stack_ok_Nil [simp]: "stack_ok rooted []"
  by (auto simp: stack_ok_def)

lemma stack_ok_step:
  assumes "stack_ok rooted st" and "slash \<notin> set seg"
  shows "stack_ok rooted (clean_step rooted st seg)"
proof -
  from assms(1) obtain us n where st: "st = us @ replicate n ''..''"
    and us: "\<forall>u\<in>set us. plain_seg u" and n: "rooted \<longrightarrow> n = 0"
    by (auto simp: stack_ok_def)
  consider "seg = [] \<or> seg = ''.''" | "seg = ''..''" | "plain_seg seg"
    using assms(2) by (auto simp: plain_seg_def)
  then show ?thesis
  proof cases
    case 1
    with assms(1) show ?thesis by (auto simp: clean_step_def)
  next
    case 2
    show ?thesis
    proof (cases us)
      case Nil
      have "stack_ok rooted [''..'']" if "\<not> rooted"
        using that by (auto simp: stack_ok_def intro!: exI [of _ "[]"] exI [of _ "1::nat"])
      moreover have "stack_ok rooted (replicate (Suc n) ''..'')" if "0 < n"
        using that n by (auto simp: stack_ok_def intro!: exI [of _ "[]"] exI [of _ "Suc n"])
      ultimately show ?thesis using Nil st 2 n by (cases n) (auto simp: clean_step_def)
    next
      case (Cons v vs)
      with us st 2 have "clean_step rooted st seg = vs @ replicate n ''..''"
        by (auto simp: plain_seg_def clean_step_def)
      with us n Cons show ?thesis by (auto simp: stack_ok_def)
    qed
  next
    case 3
    then have "clean_step rooted st seg = (seg # us) @ replicate n ''..''"
      by (simp add: st plain_seg_def clean_step_def)
    with us n 3 show ?thesis unfolding stack_ok_def
      by (intro exI [of _ "seg # us"] exI [of _ n]) auto
  qed
qed

lemma stack_ok_foldl:
  "stack_ok rooted st \<Longrightarrow> \<forall>w\<in>set segs. slash \<notin> set w \<Longrightarrow>
   stack_ok rooted (foldl (clean_step rooted) st segs)"
  by (induction segs arbitrary: st) (simp_all add: stack_ok_step)

lemma stack_ok_clean: "\<forall>w\<in>set segs. slash \<notin> set w \<Longrightarrow> stack_ok rooted (clean_stack rooted segs)"
  by (simp add: clean_stack_def stack_ok_foldl)

lemma foldl_clean_plain:
  "\<forall>u\<in>set us. plain_seg u \<Longrightarrow> foldl (clean_step rooted) st us = rev us @ st"
  by (induction us arbitrary: st) (auto simp: plain_seg_def clean_step_def)

lemma clean_step_dots: "clean_step False (replicate m ''..'') ''..'' = replicate (Suc m) ''..''"
  by (cases m) (auto simp: clean_step_def)

lemma foldl_clean_dots:
  "foldl (clean_step False) (replicate m ''..'') (replicate n ''..'') = replicate (m + n) ''..''"
proof (induction n arbitrary: m)
  case 0
  then show ?case by simp
next
  case (Suc n)
  from Suc [of "Suc m"] show ?case
    using clean_step_dots [of m] by (simp del: replicate_Suc add: replicate_Suc [of n])
qed

lemma clean_stack_fixpoint:
  assumes "stack_ok rooted st"
  shows "clean_stack rooted (rev st) = st"
proof -
  from assms obtain us n where st: "st = us @ replicate n ''..''"
    and us: "\<forall>u\<in>set us. plain_seg u" and n: "rooted \<longrightarrow> n = 0"
    by (auto simp: stack_ok_def)
  have "foldl (clean_step rooted) [] (replicate n ''..'') = replicate n ''..''"
    using n foldl_clean_dots [of 0 n] by (cases rooted) auto
  with us show ?thesis by (simp add: st clean_stack_def foldl_clean_plain)
qed

lemma rooted_slash [simp]: "is_rooted (slash # s)"
  by (simp add: is_rooted_def has_prefix_def)

lemma rooted_iff: "is_rooted p \<longleftrightarrow> (\<exists>s. p = slash # s)"
  by (cases p) (auto simp: is_rooted_def has_prefix_def)

lemma stack_ok_segs: "stack_ok rooted st \<Longrightarrow> w \<in> set st \<Longrightarrow> w \<noteq> [] \<and> w \<noteq> ''.'' \<and> slash \<notin> set w"
proof -
  assume "stack_ok rooted st" and w: "w \<in> set st"
  then obtain us n where "st = us @ replicate n ''..''" and us: "\<forall>u\<in>set us. plain_seg u"
    by (auto simp: stack_ok_def)
  with w have "w \<in> set us \<or> w = ''..''" by (cases n) auto
  with us show ?thesis by (elim disjE) (simp_all add: plain_seg_def)
qed

lemma clean_stack_cons_empty [simp]: "clean_stack rooted ([] # segs) = clean_stack rooted segs"
  by (simp add: clean_stack_def clean_step_def)

lemma join_not_rooted:
  assumes "ws \<noteq> []" and "\<forall>w\<in>set ws. w \<noteq> [] \<and> slash \<notin> set w"
  shows "\<not> is_rooted (join ''/'' ws) \<and> join ''/'' ws \<noteq> []"
proof (cases ws)
  case (Cons w vs)
  with assms(2) obtain c cs where "w = c # cs" and "c \<noteq> slash" by (cases w) auto
  with Cons show ?thesis by (cases vs) (auto simp: rooted_iff)
qed (use assms in simp)

text \<open>Cleaning a path written from a stack that is already clean changes nothing.\<close>

lemma path_clean_of_stack:
  assumes "stack_ok rooted st"
  shows "path_clean (if rooted then ''/'' @ join ''/'' (rev st)
                     else if st = [] then ''.'' else join ''/'' (rev st))
    = (if rooted then ''/'' @ join ''/'' (rev st)
       else if st = [] then ''.'' else join ''/'' (rev st))"
proof (cases "st = []")
  case True
  then show ?thesis
    by (simp add: path_clean_def clean_stack_def clean_step_def is_rooted_def has_prefix_def)
next
  case False
  have segs: "\<forall>w\<in>set (rev st). w \<noteq> [] \<and> slash \<notin> set w"
    using stack_ok_segs [OF assms] by auto
  then have split: "split_on slash (join ''/'' (rev st)) = rev st"
    using False by (intro split_on_join) auto
  have body: "join ''/'' (rev st) \<noteq> []" and not_rooted: "\<not> is_rooted (join ''/'' (rev st))"
    using join_not_rooted [of "rev st"] False segs by auto
  have fix_st: "clean_stack rooted (rev st) = st" by (rule clean_stack_fixpoint [OF assms])
  show ?thesis
    by (cases rooted)
      (use fix_st False body not_rooted split in \<open>simp_all add: path_clean_def Let_def\<close>)
qed

lemma path_clean_idem [simp]: "path_clean (path_clean p) = path_clean p"
proof -
  let ?st = "clean_stack (is_rooted p) (split_on slash p)"
  have ok: "stack_ok (is_rooted p) ?st"
    by (intro stack_ok_clean ballI) (rule split_on_no_sep)
  have "join ''/'' (rev ?st) = [] \<longleftrightarrow> ?st = []"
  proof (cases "?st = []")
    case False
    then show ?thesis
      using join_not_rooted [of "rev ?st"] stack_ok_segs [OF ok] by auto
  qed simp
  then have "path_clean p = (if is_rooted p then ''/'' @ join ''/'' (rev ?st)
      else if ?st = [] then ''.'' else join ''/'' (rev ?st))"
    by (cases "is_rooted p") (simp_all add: path_clean_def Let_def)
  with path_clean_of_stack [OF ok] show ?thesis by simp
qed

lemma path_clean_nonempty [simp]: "path_clean p \<noteq> []"
  by (simp add: path_clean_def Let_def)

lemma path_clean_path_of [seg_simps]:
  assumes "segs \<noteq> []" and "\<forall>s\<in>set segs. plain_seg s"
  shows "path_clean (path_of segs) = path_of segs"
proof -
  have "stack_ok False (rev segs)"
    using assms(2) by (auto simp: stack_ok_def intro!: exI [of _ "rev segs"] exI [of _ "0::nat"])
  from path_clean_of_stack [OF this] assms(1) show ?thesis by (simp add: path_of_def)
qed

lemma join_append:
  "xs \<noteq> [] \<Longrightarrow> ys \<noteq> [] \<Longrightarrow> join sep (xs @ ys) = join sep xs @ sep @ join sep ys"
proof (induction xs)
  case (Cons x xs)
  then show ?case by (cases xs; cases ys) auto
qed simp

lemma path_of_nonempty:
  "segs \<noteq> [] \<Longrightarrow> \<forall>s\<in>set segs. plain_seg s \<Longrightarrow> path_of segs \<noteq> []"
  using join_not_rooted [of segs] by (auto simp: path_of_def plain_seg_def)

lemma path_join_path_of [seg_simps]:
  assumes "as \<noteq> []" "bs \<noteq> []" "\<forall>s\<in>set as. plain_seg s" "\<forall>s\<in>set bs. plain_seg s"
  shows "path_join [path_of as, path_of bs] = path_of (as @ bs)"
proof -
  have "path_join [path_of as, path_of bs] = path_clean (path_of as @ ''/'' @ path_of bs)"
    using assms by (simp add: path_join_def path_of_nonempty)
  also have "path_of as @ ''/'' @ path_of bs = path_of (as @ bs)"
    using assms by (simp add: path_of_def join_append)
  also have "path_clean \<dots> = path_of (as @ bs)"
    using assms by (intro path_clean_path_of) auto
  finally show ?thesis .
qed

lemma split_path_of:
  "segs \<noteq> [] \<Longrightarrow> \<forall>s\<in>set segs. plain_seg s \<Longrightarrow> split_on slash (path_of segs) = segs"
  unfolding path_of_def by (rule split_on_join) (auto simp: plain_seg_def)

lemma path_dir_path_of [seg_simps]:
  assumes "segs \<noteq> []" "\<forall>s\<in>set segs. plain_seg s" "plain_seg b"
  shows "path_dir (path_of (segs @ [b])) = path_of segs"
proof -
  have "split_on slash (path_of (segs @ [b])) = segs @ [b]"
    using assms by (intro split_path_of) auto
  then have "path_dir (path_of (segs @ [b])) = path_clean (path_of segs @ ''/'')"
    using assms(1) by (simp add: path_dir_def Let_def path_of_def)
  also have "path_clean (path_of segs @ ''/'') = path_clean (path_of segs)"
  proof -
    have "split_on slash (path_of segs @ ''/'') = segs @ [[]]"
      using assms split_on_join [of "segs @ [[]]" slash]
      by (auto simp: path_of_def join_append plain_seg_def)
    moreover have "is_rooted (path_of segs @ ''/'') = is_rooted (path_of segs)"
      using path_of_nonempty [OF assms(1,2)] by (auto simp: rooted_iff neq_Nil_conv)
    ultimately show ?thesis
      using split_path_of [OF assms(1,2)]
      by (simp add: path_clean_def clean_stack_def clean_step_def Let_def)
  qed
  finally show ?thesis using assms by (simp add: path_clean_path_of)
qed

end
