(* ===== verification/Domain.thy ===== *)
theory Domain
  imports Go_Path
begin

text \<open>
  The vocabulary of \<open>internal/domain\<close>: the classification enumerations with their ranks
  (\<open>classification.go\<close>), findings and their canonical order (\<open>finding.go\<close>), the change model
  (\<open>change.go\<close>), the certificate (\<open>certificate.go\<close>) and the locator that puts every path-keyed
  decision in one namespace (\<open>located.go\<close>).

  An enumeration of the source is a Go string type, so besides its named values every other string
  is a value of it, the zero value \<open>""\<close> included; the constructors ending in \<open>_other\<close> hold those.
  A slice is a list, and \<open>nil\<close> and the empty slice are both \<open>[]\<close>.
\<close>

subsection \<open>Reversibility\<close>

datatype reversibility =
    Reversible | Costly | Irreversible | Unknown | WillFail | Rev_other string

fun rev_text :: "reversibility \<Rightarrow> string" where
  "rev_text Reversible = ''REVERSIBLE''"
| "rev_text Costly = ''COSTLY''"
| "rev_text Irreversible = ''IRREVERSIBLE''"
| "rev_text Unknown = ''UNKNOWN''"
| "rev_text WillFail = ''WILL_FAIL''"
| "rev_text (Rev_other s) = s"

definition rev_of :: "string \<Rightarrow> reversibility" where
  "rev_of s =
     (if s = ''REVERSIBLE'' then Reversible
      else if s = ''COSTLY'' then Costly
      else if s = ''IRREVERSIBLE'' then Irreversible
      else if s = ''UNKNOWN'' then Unknown
      else if s = ''WILL_FAIL'' then WillFail
      else Rev_other s)"

fun rev_valid :: "reversibility \<Rightarrow> bool" where
  "rev_valid (Rev_other s) = False"
| "rev_valid _ = True"

fun rev_severity :: "reversibility \<Rightarrow> int" where
  "rev_severity Reversible = 0"
| "rev_severity Costly = 1"
| "rev_severity Unknown = 2"
| "rev_severity Irreversible = 3"
| "rev_severity WillFail = 4"
| "rev_severity (Rev_other s) = 5"

lemma rev_text_of [simp]: "rev_text (rev_of s) = s"
  by (simp add: rev_of_def)

lemma rev_severity_bounds [verdict_simps]: "0 \<le> rev_severity r" "rev_severity r \<le> 5"
  by (cases r; simp)+

lemma rev_severity_valid [verdict_simps]: "rev_valid r \<longleftrightarrow> rev_severity r < 5"
  by (cases r) simp_all

lemma rev_severity_inj: "rev_severity r = rev_severity q \<Longrightarrow> rev_valid r \<Longrightarrow> r = q"
  by (cases r; cases q) simp_all

subsection \<open>Lock hazards\<close>

datatype lock_hazard =
    LockNone | LockShort | LockFullScan | LockTableRewrite | LockExclusive | Lock_other string

fun lock_text :: "lock_hazard \<Rightarrow> string" where
  "lock_text LockNone = ''NONE''"
| "lock_text LockShort = ''SHORT''"
| "lock_text LockFullScan = ''FULL_SCAN''"
| "lock_text LockTableRewrite = ''TABLE_REWRITE''"
| "lock_text LockExclusive = ''EXCLUSIVE''"
| "lock_text (Lock_other s) = s"

fun lock_valid :: "lock_hazard \<Rightarrow> bool" where
  "lock_valid (Lock_other s) = False"
| "lock_valid _ = True"

fun lock_severity :: "lock_hazard \<Rightarrow> int" where
  "lock_severity LockNone = 0"
| "lock_severity LockShort = 1"
| "lock_severity LockFullScan = 2"
| "lock_severity LockTableRewrite = 3"
| "lock_severity LockExclusive = 4"
| "lock_severity (Lock_other s) = 5"

definition at_least :: "lock_hazard \<Rightarrow> lock_hazard \<Rightarrow> bool" where
  "at_least l other \<longleftrightarrow> lock_severity other \<le> lock_severity l"

lemma lock_severity_nonneg [verdict_simps]: "0 \<le> lock_severity l"
  by (cases l) simp_all

lemma at_least_refl [simp]: "at_least l l"
  by (simp add: at_least_def)

lemma at_least_trans: "at_least a b \<Longrightarrow> at_least b c \<Longrightarrow> at_least a c"
  by (simp add: at_least_def)

lemma at_least_total: "at_least a b \<or> at_least b a"
  by (auto simp: at_least_def)

subsection \<open>Grades\<close>

datatype grade = GradeA | GradeB | GradeC | GradeF | GradeNA | Grade_other string

abbreviation no_grade :: grade where "no_grade \<equiv> Grade_other []"

fun grade_text :: "grade \<Rightarrow> string" where
  "grade_text GradeA = ''A''"
| "grade_text GradeB = ''B''"
| "grade_text GradeC = ''C''"
| "grade_text GradeF = ''F''"
| "grade_text GradeNA = ''N/A''"
| "grade_text (Grade_other s) = s"

definition grade_of :: "string \<Rightarrow> grade" where
  "grade_of s =
     (if s = ''A'' then GradeA else if s = ''B'' then GradeB else if s = ''C'' then GradeC
      else if s = ''F'' then GradeF else if s = ''N/A'' then GradeNA else Grade_other s)"

fun grade_valid :: "grade \<Rightarrow> bool" where
  "grade_valid (Grade_other s) = False"
| "grade_valid _ = True"

fun grade_threshold :: "grade \<Rightarrow> bool" where
  "grade_threshold (Grade_other s) = False"
| "grade_threshold GradeNA = False"
| "grade_threshold _ = True"

fun grade_rank :: "grade \<Rightarrow> int" where
  "grade_rank GradeF = 0"
| "grade_rank GradeC = 1"
| "grade_rank GradeB = 2"
| "grade_rank GradeA = 3"
| "grade_rank GradeNA = -1"
| "grade_rank (Grade_other s) = -1"

definition grade_cap :: "grade \<Rightarrow> grade \<Rightarrow> grade" where
  "grade_cap g limit = (if grade_rank limit < grade_rank g then limit else g)"

lemma grade_text_of [simp]: "grade_text (grade_of s) = s"
  by (simp add: grade_of_def)

lemma grade_threshold_rank [verdict_simps]: "grade_threshold g \<longleftrightarrow> 0 \<le> grade_rank g"
  by (cases g) simp_all

lemma grade_rank_le3 [verdict_simps]: "grade_rank g \<le> 3"
  by (cases g) simp_all

lemma grade_rank_A [verdict_simps]: "grade_rank g = 3 \<longleftrightarrow> g = GradeA"
  by (cases g) simp_all

lemma grade_rank_inj: "grade_rank g = grade_rank h \<Longrightarrow> grade_threshold g \<Longrightarrow> g = h"
  by (cases g; cases h) simp_all

subsection \<open>Ceilings\<close>

text \<open>The contract of a ceiling: the result is one of the two, and it is the lower one by rank.
  Applying a list of ceilings in any order then gives the least rank of them all.\<close>

locale ceiling =
  fixes cap :: "'g \<Rightarrow> 'g \<Rightarrow> 'g" and rank :: "'g \<Rightarrow> int"
  assumes cap_choice: "cap g l = g \<or> cap g l = l"
    and cap_rank: "rank (cap g l) = min (rank g) (rank l)"
begin

lemma cap_le: "rank (cap g l) \<le> rank g" "rank (cap g l) \<le> rank l"
  by (simp_all add: cap_rank)

lemma caps_rank: "rank (foldl cap g ls) = Min (set (map rank (g # ls)))"
proof (induction ls arbitrary: g)
  case Nil
  then show ?case by simp
next
  case (Cons l ls)
  have "Min (set (map rank (cap g l # ls))) = Min (set (map rank (g # l # ls)))"
    by (cases ls) (simp_all add: cap_rank Min_insert2 min.assoc)
  with Cons show ?case by simp
qed

lemma caps_lower: "rank (foldl cap g ls) \<le> rank g"
  by (simp only: caps_rank) simp

lemma caps_order: "mset ls = mset ks \<Longrightarrow> rank (foldl cap g ls) = rank (foldl cap g ks)"
  by (simp add: caps_rank) (metis list.set_map mset_eq_setD)

lemma caps_member: "foldl cap g ls \<in> set (g # ls)"
proof (induction ls arbitrary: g)
  case (Cons l ls)
  from Cons [of "cap g l"] cap_choice [of g l] show ?case by auto
qed simp

end

interpretation gc: ceiling grade_cap grade_rank
  by unfold_locales (auto simp: grade_cap_def)

subsection \<open>Coverage, outcomes and the merge gate\<close>

datatype coverage = CoverageFull | CoveragePartial | Coverage_other string

fun coverage_valid :: "coverage \<Rightarrow> bool" where
  "coverage_valid c \<longleftrightarrow> c = CoverageFull \<or> c = CoveragePartial"

fun coverage_full :: "coverage \<Rightarrow> bool" where
  "coverage_full c \<longleftrightarrow> c = CoverageFull"

datatype gate_status = GatePass | GateFail | GateNotApplicable

record gate_conditions =
  g_coverage :: coverage
  g_policy_ignored :: int

definition gate :: "grade \<Rightarrow> gate_conditions \<Rightarrow> gate_status" where
  "gate g c =
     (if g = GradeNA then GateNotApplicable
      else if g = GradeA \<and> coverage_full (g_coverage c) \<and> g_policy_ignored c = 0 then GatePass
      else GateFail)"

datatype analysis_outcome =
    OutcomeAnalyzed | OutcomeNoCandidates | OutcomeUnsupportedContent | Outcome_other string

fun outcome_valid :: "analysis_outcome \<Rightarrow> bool" where
  "outcome_valid (Outcome_other s) = False"
| "outcome_valid _ = True"

definition certifies :: "analysis_outcome \<Rightarrow> bool" where
  "certifies o' \<longleftrightarrow> o' = OutcomeAnalyzed"

lemma gate_pass_iff [verdict_simps]:
  "gate g c = GatePass \<longleftrightarrow> g = GradeA \<and> g_coverage c = CoverageFull \<and> g_policy_ignored c = 0"
  by (simp add: gate_def)

subsection \<open>Findings\<close>

definition max_statement_length :: nat where "max_statement_length = 200"

definition rule_engine_panic :: string where "rule_engine_panic = ''ENGINE_PANIC''"

definition rule_provider_error :: string where "rule_provider_error = ''PROVIDER_ERROR''"

datatype lock_duration_band =
    BandNegligible | BandNoticeable | BandDisruptive | BandOutage | Band_other string

abbreviation no_band :: lock_duration_band where "no_band \<equiv> Band_other []"

fun band_text :: "lock_duration_band \<Rightarrow> string" where
  "band_text BandNegligible = ''NEGLIGIBLE''"
| "band_text BandNoticeable = ''NOTICEABLE''"
| "band_text BandDisruptive = ''DISRUPTIVE''"
| "band_text BandOutage = ''OUTAGE''"
| "band_text (Band_other s) = s"

fun band_valid :: "lock_duration_band \<Rightarrow> bool" where
  "band_valid (Band_other s) = False"
| "band_valid _ = True"

fun band_cap :: "lock_duration_band \<Rightarrow> grade" where
  "band_cap BandDisruptive = GradeB"
| "band_cap BandOutage = GradeC"
| "band_cap _ = no_grade"

record subject =
  s_relation :: string
  s_object :: string

record finding_context =
  x_row_estimate :: int
  x_size_bytes :: int
  x_estimated_lock_duration :: string
  x_context_note :: string
  x_band :: lock_duration_band

record finding =
  f_rule_id :: string
  f_file :: string
  f_line :: int
  f_statement :: string
  f_reversibility :: reversibility
  f_lock :: lock_hazard
  f_rationale :: string
  f_undo :: string
  f_subject :: subject
  f_context :: "finding_context option"

definition no_subject :: subject where
  "no_subject = \<lparr>s_relation = [], s_object = []\<rparr>"

definition finding_key :: "finding \<Rightarrow> string \<times> int \<times> string" where
  "finding_key f = (f_file f, f_line f, f_rule_id f)"

definition sort_findings :: "finding list \<Rightarrow> finding list" where
  "sort_findings fs = sort_key finding_key fs"

record waived_finding =
  w_finding :: finding
  w_reason :: string
  w_expires :: string
  w_approved_by :: string

lemma set_sort_findings [simp]: "set (sort_findings fs) = set fs"
  by (simp add: sort_findings_def)

lemma mset_sort_findings [simp]: "mset (sort_findings fs) = mset fs"
  by (simp add: sort_findings_def)

lemma sort_findings_nil [simp]: "sort_findings fs = [] \<longleftrightarrow> fs = []"
  by (metis mset_sort_findings mset_zero_iff)

lemma sort_findings_sorted: "sorted (map finding_key (sort_findings fs))"
  by (simp add: sort_findings_def)

lemma sort_findings_stable:
  "filter (\<lambda>f. finding_key f = k) (sort_findings fs) = filter (\<lambda>f. finding_key f = k) fs"
  unfolding sort_findings_def by (rule sort_key_stable)

subsection \<open>The change model\<close>

datatype change_status =
    StatusAdded | StatusModified | StatusRemoved | StatusRenamed | Status_other string

fun status_text :: "change_status \<Rightarrow> string" where
  "status_text StatusAdded = ''ADDED''"
| "status_text StatusModified = ''MODIFIED''"
| "status_text StatusRemoved = ''REMOVED''"
| "status_text StatusRenamed = ''RENAMED''"
| "status_text (Status_other s) = s"

fun status_valid :: "change_status \<Rightarrow> bool" where
  "status_valid (Status_other s) = False"
| "status_valid _ = True"

text \<open>\<open>domain.Located\<close>: a path in the namespace decisions are made in.\<close>

type_synonym located = string

record changed_file =
  p_path :: string
  p_previous_path :: string
  p_status :: change_status
  p_previous :: string
  p_current :: string
  p_at :: located

definition location_of :: "changed_file \<Rightarrow> located" where
  "location_of f = (if p_at f \<noteq> [] then p_at f else p_path f)"

definition is_added :: "changed_file \<Rightarrow> bool" where
  "is_added f \<longleftrightarrow> p_status f = StatusAdded"

definition is_removed :: "changed_file \<Rightarrow> bool" where
  "is_removed f \<longleftrightarrow> p_status f = StatusRemoved"

subsection \<open>The decision namespace\<close>

definition loc_dir :: "located \<Rightarrow> located" where
  "loc_dir l = path_dir l"

definition loc_ext :: "located \<Rightarrow> string" where
  "loc_ext l = to_lower (path_ext l)"

definition loc_segments :: "located \<Rightarrow> string list" where
  "loc_segments l = split_on slash (to_lower l)"

definition normalize_slashes :: "string \<Rightarrow> string" where
  "normalize_slashes p =
     (let slashed = replace_char (CHR 0x5C) slash p in if slashed = [] then [] else path_clean slashed)"

definition new_locator :: "string \<Rightarrow> string \<Rightarrow> located" where
  "new_locator prefix' =
     (let clean = normalize_slashes prefix' in
      if clean = [] \<or> clean = ''.'' then (\<lambda>p. normalize_slashes p)
      else (\<lambda>p. path_join [clean, normalize_slashes p]))"

definition identity_locator :: "string \<Rightarrow> located" where
  "identity_locator = new_locator []"

text \<open>Segments as a repository has them: plain and without a backslash.\<close>

definition repo_segs :: "string list \<Rightarrow> bool" where
  "repo_segs segs \<longleftrightarrow> segs \<noteq> [] \<and> (\<forall>s\<in>set segs. plain_seg s \<and> CHR 0x5C \<notin> set s)"

lemma replace_char_id: "a \<notin> set s \<Longrightarrow> replace_char a b s = s"
  by (induction s) (auto simp: replace_char_def)

lemma set_join: "set (join sep ws) \<subseteq> set sep \<union> \<Union> (set ` set ws)"
  by (induction sep ws rule: join.induct) auto

lemma normalize_repo [seg_simps]: "repo_segs segs \<Longrightarrow> normalize_slashes (path_of segs) = path_of segs"
proof -
  assume r: "repo_segs segs"
  then have "CHR 0x5C \<notin> set (path_of segs)"
    using set_join [of "''/''" segs] by (auto simp: path_of_def repo_segs_def)
  moreover have "path_clean (path_of segs) = path_of segs" and "path_of segs \<noteq> []"
    using r path_of_nonempty [of segs] by (auto simp: repo_segs_def intro!: path_clean_path_of)
  ultimately show ?thesis
    by (simp add: normalize_slashes_def replace_char_id)
qed

lemma path_of_not_dot: "repo_segs segs \<Longrightarrow> path_of segs \<noteq> [] \<and> path_of segs \<noteq> ''.''"
proof -
  assume r: "repo_segs segs"
  then have s: "split_on slash (path_of segs) = segs" and "path_of segs \<noteq> []"
    using path_of_nonempty [of segs] by (auto simp: repo_segs_def intro!: split_path_of)
  moreover have "path_of segs \<noteq> ''.''"
  proof
    assume "path_of segs = ''.''"
    with s have "segs = [''.'']" by simp
    with r show False by (simp add: repo_segs_def plain_seg_def)
  qed
  ultimately show ?thesis by simp
qed

lemma locate_rooted [seg_simps]:
  "repo_segs as \<Longrightarrow> repo_segs bs \<Longrightarrow> new_locator (path_of as) (path_of bs) = path_of (as @ bs)"
  using path_of_not_dot [of as]
  by (simp add: new_locator_def normalize_repo path_join_path_of repo_segs_def)

lemma locate_identity [seg_simps]: "repo_segs bs \<Longrightarrow> new_locator [] (path_of bs) = path_of bs"
  by (simp add: new_locator_def normalize_slashes_def [of "[]"] replace_char_def normalize_repo)

lemma repo_segs_append [simp]: "repo_segs as \<Longrightarrow> repo_segs bs \<Longrightarrow> repo_segs (as @ bs)"
  by (auto simp: repo_segs_def)

subsection \<open>The certificate\<close>

definition schema_version :: string where "schema_version = ''1.5.0''"

record down_migration_status =
  d_migration :: string
  d_up_file :: string
  d_down_file :: string
  d_exists :: bool
  d_parses :: bool
  d_symmetric :: bool
  d_symmetry_notes :: "string list"

record unanalyzed_file =
  u_path :: string
  u_reason :: string

record certificate =
  c_schema_version :: string
  c_grade :: grade
  c_outcome :: analysis_outcome
  c_effective_grade :: grade
  c_gate :: gate_status
  c_coverage :: coverage
  c_unanalyzed :: "unanalyzed_file list"
  c_ignored_by_policy :: "string list"
  c_applicable :: bool
  c_input_digest :: string
  c_findings :: "finding list"
  c_waived :: "waived_finding list"
  c_policy_digest :: string
  c_catalog_version :: string
  c_context_warnings :: "string list"
  c_policy_warnings :: "string list"
  c_path_anchor :: string
  c_path_prefix :: string
  c_undo_plan :: "string list"
  c_blockers :: "string list"
  c_grade_causes :: "string list"
  c_down_migrations :: "down_migration_status list"

text \<open>An added file, for examples.\<close>

definition bare_file :: "string \<Rightarrow> changed_file" where
  "bare_file p = \<lparr>p_path = p, p_previous_path = [], p_status = StatusAdded, p_previous = [],
     p_current = ''SELECT 1'', p_at = []\<rparr>"

end
