(* ===== verification/Go_Match.thy ===== *)
theory Go_Match
  imports Go_Path
begin

text \<open>
  Go's \<open>path.Match\<close>, which \<open>internal/policy/match.go\<close> delegates each segment to. The definitions
  follow the library's \<open>scanChunk\<close>, \<open>matchChunk\<close> and \<open>getEsc\<close>; \<open>None\<close> is \<open>ErrBadPattern\<close>. One
  byte is one character, as on ASCII patterns. The result that the policy needs is
  \<open>path_match_literal\<close>: a pattern without metacharacters matches itself and nothing else.
\<close>

abbreviation backslash :: char where "backslash \<equiv> CHR 0x5C"

fun scan_end :: "bool \<Rightarrow> string \<Rightarrow> string \<times> string" where
  "scan_end inrange [] = ([], [])"
| "scan_end inrange (c # cs) =
     (if c = backslash then
        (case cs of
           [] \<Rightarrow> ([c], [])
         | d # ds \<Rightarrow> apfst (\<lambda>a. c # d # a) (scan_end inrange ds))
      else if c = CHR ''*'' \<and> \<not> inrange then ([], c # cs)
      else
        apfst (Cons c)
          (scan_end (if c = CHR ''['' then True else if c = CHR '']'' then False else inrange) cs))"

definition scan_chunk :: "string \<Rightarrow> bool \<times> string \<times> string" where
  "scan_chunk pat =
     (has_prefix pat ''*'', scan_end False (dropWhile (\<lambda>c. c = CHR ''*'') pat))"

definition get_esc :: "string \<Rightarrow> (char \<times> string) option" where
  "get_esc chunk =
     (case chunk of
        [] \<Rightarrow> None
      | c # cs \<Rightarrow>
          if c = CHR ''-'' \<or> c = CHR '']'' then None
          else if c = backslash then
            (case cs of [] \<Rightarrow> None | d # ds \<Rightarrow> if ds = [] then None else Some (d, ds))
          else if cs = [] then None else Some (c, cs))"

lemma get_esc_shorter: "get_esc chunk = Some (c, rest) \<Longrightarrow> length rest < length chunk \<and> rest \<noteq> []"
  by (auto simp: get_esc_def split: list.splits if_splits)

lemma get_esc_tl_shorter: "get_esc (tl chunk) = Some (c, rest) \<Longrightarrow> length rest < length chunk"
  by (drule get_esc_shorter) auto

function match_ranges :: "char \<Rightarrow> bool \<Rightarrow> nat \<Rightarrow> string \<Rightarrow> (bool \<times> string) option" where
  "match_ranges r m nrange chunk =
     (if has_prefix chunk '']'' \<and> 0 < nrange then Some (m, tl chunk)
      else
        (case get_esc chunk of
           None \<Rightarrow> None
         | Some (lo, c1) \<Rightarrow>
             if has_prefix c1 ''-'' then
               (case get_esc (tl c1) of
                  None \<Rightarrow> None
                | Some (hi, c2) \<Rightarrow> match_ranges r (m \<or> lo \<le> r \<and> r \<le> hi) (Suc nrange) c2)
             else match_ranges r (m \<or> r = lo) (Suc nrange) c1))"
  by pat_completeness auto
termination
  by (relation "measure (\<lambda>(r, m, n, chunk). length chunk)")
    (auto dest!: get_esc_tl_shorter, (auto dest!: get_esc_shorter))

declare match_ranges.simps [simp del]

lemma match_ranges_shorter:
  "match_ranges r m n chunk = Some (b, rest) \<Longrightarrow> length rest < length chunk"
proof (induction r m n chunk rule: match_ranges.induct)
  case (1 r m n chunk)
  show ?case
  proof (cases "has_prefix chunk '']'' \<and> 0 < n")
    case True
    with "1.prems" have "rest = tl chunk" and "chunk \<noteq> []"
      by (auto simp: match_ranges.simps [of r m n chunk] has_prefix_def)
    then show ?thesis by simp
  next
    case False
    with "1.prems" obtain lo c1 where esc: "get_esc chunk = Some (lo, c1)"
      by (auto simp: match_ranges.simps [of r m n chunk] split: option.splits)
    show ?thesis
    proof (cases "has_prefix c1 ''-''")
      case True
      with "1.prems" False esc obtain hi c2 where esc2: "get_esc (tl c1) = Some (hi, c2)"
        by (auto simp: match_ranges.simps [of r m n chunk] split: option.splits)
      with "1.prems" False esc True "1.IH"(1) have "length rest < length c2"
        by (auto simp: match_ranges.simps [of r m n chunk])
      with get_esc_shorter [OF esc] get_esc_tl_shorter [OF esc2] show ?thesis by auto
    next
      case no: False
      with "1.prems" False esc "1.IH"(2) have "length rest < length c1"
        by (auto simp: match_ranges.simps [of r m n chunk])
      with get_esc_shorter [OF esc] show ?thesis by simp
    qed
  qed
qed

text \<open>\<open>matchChunk\<close>: after a failure the chunk is still read for syntax, but \<open>s\<close> is not.\<close>

function match_chunk :: "bool \<Rightarrow> string \<Rightarrow> string \<Rightarrow> (bool \<times> string) option" where
  "match_chunk failed [] s = Some (\<not> failed, s)"
| "match_chunk failed (c # cs) s =
     (let f = failed \<or> s = [] in
      if c = CHR ''['' then
        (let negated = has_prefix cs ''^'';
             body = (if negated then tl cs else cs)
         in case match_ranges (if f then CHR 0x00 else hd s) False 0 body of
              None \<Rightarrow> None
            | Some (m, rest) \<Rightarrow>
                if length rest < length (c # cs)
                then match_chunk (f \<or> m = negated) rest (if f then s else tl s)
                else None)
      else if c = CHR ''?'' then
        match_chunk (f \<or> hd s = slash) cs (if f then s else tl s)
      else if c = backslash then
        (case cs of
           [] \<Rightarrow> None
         | d # ds \<Rightarrow> match_chunk (f \<or> d \<noteq> hd s) ds (if f then s else tl s))
      else match_chunk (f \<or> c \<noteq> hd s) cs (if f then s else tl s))"
  by pat_completeness auto
termination
  by (relation "measure (\<lambda>(failed, chunk, s). length chunk)") (auto split: list.splits)

fun star_search :: "string \<Rightarrow> bool \<Rightarrow> string \<Rightarrow> string option option" where
  "star_search chunk at_end [] = Some None"
| "star_search chunk at_end (c # cs) =
     (if c = slash then Some None
      else
        (case match_chunk False chunk cs of
           None \<Rightarrow> None
         | Some (ok, t) \<Rightarrow>
             if ok \<and> \<not> (at_end \<and> t \<noteq> []) then Some (Some t) else star_search chunk at_end cs))"

lemma scan_end_length: "length (fst (scan_end b p)) + length (snd (scan_end b p)) = length p"
  by (induction b p rule: scan_end.induct) (auto split: list.splits)

lemma scan_end_takes: "c \<noteq> CHR ''*'' \<Longrightarrow> fst (scan_end b (c # cs)) \<noteq> []"
  by (simp split: list.split)

lemma scan_end_progress: "p \<noteq> [] \<Longrightarrow> \<not> has_prefix p ''*'' \<Longrightarrow> length (snd (scan_end b p)) < length p"
proof (cases p)
  case (Cons c cs)
  assume "\<not> has_prefix p ''*''"
  with Cons have "fst (scan_end b p) \<noteq> []"
    using scan_end_takes [of c b cs] by (auto simp: has_prefix_def simp del: scan_end.simps)
  with scan_end_length [of b p] show ?thesis by (cases "fst (scan_end b p)") auto
qed simp

lemma scan_chunk_shorter:
  assumes "scan_chunk pat = (star, chunk, rest)" and "pat \<noteq> []"
  shows "length rest < length pat"
proof -
  let ?q = "dropWhile (\<lambda>c. c = CHR ''*'') pat"
  from assms(1) have rest: "rest = snd (scan_end False ?q)"
    by (auto simp: scan_chunk_def)
  show ?thesis
  proof (cases "has_prefix pat ''*''")
    case True
    with assms(2) obtain p where "pat = CHR ''*'' # p"
      by (cases pat) (auto simp: has_prefix_def)
    then have "length ?q < length pat"
      using length_dropWhile_le [of "\<lambda>c. c = CHR ''*''" p] by simp
    moreover have "length rest \<le> length ?q"
      using rest scan_end_length [of False ?q] by simp
    ultimately show ?thesis by simp
  next
    case False
    then have "?q = pat" by (cases pat) (auto simp: has_prefix_def)
    with rest scan_end_progress [OF assms(2) False] show ?thesis by simp
  qed
qed

function check_rest :: "string \<Rightarrow> bool option" where
  "check_rest pat =
     (if pat = [] then Some False
      else
        (case scan_chunk pat of (star, chunk, rest) \<Rightarrow>
          (case match_chunk False chunk [] of None \<Rightarrow> None | Some _ \<Rightarrow> check_rest rest)))"
  by pat_completeness auto
termination
  by (relation "measure length") (auto dest: scan_chunk_shorter [OF sym])

declare check_rest.simps [simp del]

function path_match :: "string \<Rightarrow> string \<Rightarrow> bool option" where
  "path_match pat name =
     (if pat = [] then Some (name = [])
      else
        (case scan_chunk pat of (star, chunk, rest) \<Rightarrow>
          if star \<and> chunk = [] then Some (slash \<notin> set name)
          else
            (case match_chunk False chunk name of
               None \<Rightarrow> None
             | Some (ok, t) \<Rightarrow>
                 if ok \<and> (t = [] \<or> rest \<noteq> []) then path_match rest t
                 else if star then
                   (case star_search chunk (rest = []) name of
                      None \<Rightarrow> None
                    | Some (Some u) \<Rightarrow> path_match rest u
                    | Some None \<Rightarrow> check_rest rest)
                 else check_rest rest)))"
  by pat_completeness auto
termination
  by (relation "measure (\<lambda>(pat, name). length pat)") (auto dest: scan_chunk_shorter [OF sym])

declare path_match.simps [simp del]

text \<open>A pattern without metacharacters matches itself and nothing else.\<close>

definition literal_pattern :: "string \<Rightarrow> bool" where
  "literal_pattern w \<longleftrightarrow> set w \<inter> {CHR ''*'', CHR ''?'', CHR ''['', CHR '']'', backslash} = {}"

lemma scan_end_literal: "literal_pattern w \<Longrightarrow> scan_end b w = (w, [])"
  by (induction w arbitrary: b) (auto simp: literal_pattern_def)

lemma scan_chunk_literal: "literal_pattern w \<Longrightarrow> scan_chunk w = (False, w, [])"
proof -
  assume w: "literal_pattern w"
  then have "dropWhile (\<lambda>c. c = CHR ''*'') w = w" and "\<not> has_prefix w ''*''"
    by (cases w; auto simp: literal_pattern_def has_prefix_def)+
  with scan_end_literal [OF w] show ?thesis by (simp add: scan_chunk_def)
qed

lemma match_chunk_failed_literal: "literal_pattern w \<Longrightarrow> match_chunk True w s = Some (False, s)"
  by (induction w arbitrary: s) (auto simp: literal_pattern_def)

lemma match_chunk_literal:
  "literal_pattern w \<Longrightarrow>
   \<exists>t. match_chunk False w s = Some (has_prefix s w, t) \<and> (has_prefix s w \<longrightarrow> s = w @ t)"
proof (induction w arbitrary: s)
  case Nil
  then show ?case by (simp add: has_prefix_def)
next
  case (Cons c w)
  then have w: "literal_pattern w" by (auto simp: literal_pattern_def)
  show ?case
  proof (cases s)
    case Nil
    with Cons.prems w show ?thesis
      by (auto simp: literal_pattern_def has_prefix_def match_chunk_failed_literal)
  next
    case (Cons d ds)
    with Cons.prems w Cons.IH [OF w, of ds] show ?thesis
      by (cases "c = d") (auto simp: literal_pattern_def has_prefix_def match_chunk_failed_literal)
  qed
qed

lemma path_match_literal: "literal_pattern w \<Longrightarrow> path_match w name = Some (name = w)"
proof -
  assume w: "literal_pattern w"
  obtain t where "match_chunk False w name = Some (has_prefix name w, t)"
    and "has_prefix name w \<longrightarrow> name = w @ t"
    using match_chunk_literal [OF w] by blast
  then show ?thesis
    by (auto simp: path_match.simps [of w name] scan_chunk_literal [OF w]
        path_match.simps [of "[]"] check_rest.simps [of "[]"] has_prefix_def)
qed

end
