(* ===== verification/Policy_Match.thy ===== *)
theory Policy_Match
  imports Domain Go_Match
begin

text \<open>
  Glob matching of policy patterns, \<open>internal/policy/match.go\<close>: a pattern and a path are split
  into segments, \<open>**\<close> matches zero or more whole segments, every other segment is delegated to
  \<open>path.Match\<close>. The inductive relation \<open>glob\<close> is what the documentation promises; the executable
  \<open>match_segments\<close> is proved to decide it.
\<close>

abbreviation double_star :: string where "double_star \<equiv> ''**''"

subsection \<open>The code\<close>

definition push_segment :: "string list \<Rightarrow> string \<Rightarrow> string list" where
  "push_segment out p =
     (if p = [] \<or> p = ''.'' then out
      else if p = double_star \<and> out \<noteq> [] \<and> last out = double_star then out
      else out @ [p])"

definition segments :: "string \<Rightarrow> string list" where
  "segments s = foldl push_segment [] (split_on slash s)"

fun match_segments :: "string list \<Rightarrow> string list \<Rightarrow> bool" where
  "match_segments [] name = (name = [])"
| "match_segments (p # ps) name =
     (if p = double_star
      then list_ex (\<lambda>i. match_segments ps (drop i name)) [0..<Suc (length name)]
      else
        (case name of
           [] \<Rightarrow> False
         | n # ns \<Rightarrow> path_match p n = Some True \<and> match_segments ps ns))"

definition policy_match :: "string \<Rightarrow> located \<Rightarrow> bool" where
  "policy_match pattern name = match_segments (segments pattern) (segments name)"

datatype pattern_error = EmptyPattern | BadSegment string

fun bad_segment :: "string list \<Rightarrow> pattern_error option" where
  "bad_segment [] = None"
| "bad_segment (seg # segs) =
     (if seg = double_star then bad_segment segs
      else if path_match seg [] = None then Some (BadSegment seg) else bad_segment segs)"

definition validate_pattern :: "string \<Rightarrow> pattern_error option" where
  "validate_pattern pattern =
     (if trim_space pattern = [] then Some EmptyPattern else bad_segment (segments pattern))"

subsection \<open>What a pattern means\<close>

inductive glob :: "string list \<Rightarrow> string list \<Rightarrow> bool" where
  glob_nil: "glob [] []"
| glob_seg: "p \<noteq> double_star \<Longrightarrow> path_match p n = Some True \<Longrightarrow> glob ps ns \<Longrightarrow> glob (p # ps) (n # ns)"
| glob_none: "glob ps ns \<Longrightarrow> glob (double_star # ps) ns"
| glob_more: "glob (double_star # ps) ns \<Longrightarrow> glob (double_star # ps) (n # ns)"

inductive_cases glob_nilE: "glob [] ns"
inductive_cases glob_starE: "glob (p # ps) ns"

inductive_simps glob_nil_iff: "glob [] ns"
inductive_simps glob_empty_iff: "glob (p # ps) []"
inductive_simps glob_cons_iff: "glob (p # ps) (n # ns)"

lemma glob_star_drop: "glob (double_star # ps) ns \<longleftrightarrow> (\<exists>i\<le>length ns. glob ps (drop i ns))"
proof (induction ns)
  case Nil
  then show ?case by (simp add: glob_empty_iff)
next
  case (Cons n ns)
  have "glob (double_star # ps) (n # ns) \<longleftrightarrow> glob ps (n # ns) \<or> glob (double_star # ps) ns"
    by (subst glob_cons_iff) auto
  also have "\<dots> \<longleftrightarrow> (\<exists>i\<le>length (n # ns). glob ps (drop i (n # ns)))"
  proof -
    have "(\<exists>i\<le>Suc k. P i) \<longleftrightarrow> P 0 \<or> (\<exists>i\<le>k. P (Suc i))" for P k
      by (metis Suc_le_mono not0_implies_Suc le0)
    then show ?thesis by (simp add: Cons)
  qed
  finally show ?case .
qed

lemma match_segments_glob: "match_segments ps ns = glob ps ns"
proof (induction ps arbitrary: ns)
  case Nil
  then show ?case by (auto simp: glob_nil_iff)
next
  case (Cons p ps)
  show ?case
  proof (cases "p = double_star")
    case True
    with Cons show ?thesis
      by (auto simp: glob_star_drop list_ex_iff less_Suc_eq_le Bex_def simp del: upt_Suc)
  next
    case False
    with Cons show ?thesis
      by (cases ns) (auto simp: glob_empty_iff glob_cons_iff)
  qed
qed

lemma glob_star_star: "glob (double_star # double_star # ps) ns \<longleftrightarrow> glob (double_star # ps) ns"
proof
  assume "glob (double_star # double_star # ps) ns"
  then have "\<exists>i\<le>length ns. glob (double_star # ps) (drop i ns)"
    by (rule iffD1 [OF glob_star_drop])
  then obtain i where i: "i \<le> length ns" and gi: "glob (double_star # ps) (drop i ns)"
    by (elim exE conjE)
  from gi have "\<exists>j\<le>length (drop i ns). glob ps (drop j (drop i ns))"
    by (rule iffD1 [OF glob_star_drop])
  then obtain j where j: "j \<le> length (drop i ns)" and g: "glob ps (drop j (drop i ns))"
    by (elim exE conjE)
  from i j have "i + j \<le> length ns" by simp
  moreover from g have "glob ps (drop (i + j) ns)" by (simp only: drop_drop add.commute [of j i])
  ultimately have "i + j \<le> length ns \<and> glob ps (drop (i + j) ns)" ..
  then have "\<exists>k\<le>length ns. glob ps (drop k ns)" ..
  then show "glob (double_star # ps) ns"
    by (rule iffD2 [OF glob_star_drop])
qed (rule glob_none)

subsection \<open>Segments\<close>

fun no_adjacent_stars :: "string list \<Rightarrow> bool" where
  "no_adjacent_stars (a # b # cs) \<longleftrightarrow> \<not> (a = double_star \<and> b = double_star) \<and> no_adjacent_stars (b # cs)"
| "no_adjacent_stars _ = True"

lemma no_adjacent_stars_snoc:
  "no_adjacent_stars (xs @ [p]) \<longleftrightarrow>
     no_adjacent_stars xs \<and> \<not> (p = double_star \<and> xs \<noteq> [] \<and> last xs = double_star)"
  by (induction xs rule: no_adjacent_stars.induct) auto

definition segs_ok :: "string list \<Rightarrow> bool" where
  "segs_ok out \<longleftrightarrow>
     no_adjacent_stars out \<and> (\<forall>w\<in>set out. w \<noteq> [] \<and> w \<noteq> ''.'' \<and> slash \<notin> set w)"

lemma segs_ok_push: "segs_ok out \<Longrightarrow> slash \<notin> set p \<Longrightarrow> segs_ok (push_segment out p)"
  by (simp add: segs_ok_def push_segment_def no_adjacent_stars_snoc)

lemma segs_ok_foldl:
  "segs_ok out \<Longrightarrow> \<forall>p\<in>set ps. slash \<notin> set p \<Longrightarrow> segs_ok (foldl push_segment out ps)"
  by (induction ps arbitrary: out) (simp_all add: segs_ok_push)

lemma segs_ok_segments: "segs_ok (segments s)"
  unfolding segments_def
  by (intro segs_ok_foldl ballI split_on_no_sep) (simp_all add: segs_ok_def)

lemma foldl_push_plain:
  "\<forall>w\<in>set ws. plain_seg w \<and> w \<noteq> double_star \<Longrightarrow> foldl push_segment out ws = out @ ws"
  by (induction ws arbitrary: out) (auto simp: push_segment_def plain_seg_def)

lemma segments_path_of [seg_simps]:
  assumes "ws \<noteq> []" and "\<forall>w\<in>set ws. plain_seg w \<and> w \<noteq> double_star"
  shows "segments (path_of ws) = ws"
  using assms foldl_push_plain [of ws "[]"] split_path_of [of ws] by (auto simp: segments_def)

lemma glob_literal:
  "\<forall>w\<in>set ws. literal_pattern w \<and> w \<noteq> double_star \<Longrightarrow> glob ws ns \<longleftrightarrow> ns = ws"
proof (induction ws arbitrary: ns)
  case Nil
  then show ?case by (auto simp: glob_nil_iff)
next
  case (Cons w ws)
  then show ?case
    by (cases ns) (auto simp: glob_empty_iff glob_cons_iff path_match_literal)
qed

subsection \<open>Properties\<close>

text \<open>C21. Glob matching by the policy's recursive segment matcher is exactly the documented
  relation: \<open>**\<close> stands for zero or more whole segments and every other segment must match by
  \<open>path.Match\<close>.\<close>

theorem policy_match_decides_glob: "policy_match pattern name = glob (segments pattern) (segments name)"
  by (simp add: policy_match_def match_segments_glob)

text \<open>Splitting a pattern never leaves two adjacent \<open>**\<close> (what keeps the matcher from
  branching on itself), an empty segment, a dot or a slash, and collapsing a run of \<open>**\<close> does not
  change what the pattern matches.\<close>

theorem segments_collapse_sound:
  "segs_ok (segments pattern)
   \<and> match_segments (double_star # double_star # ps) ns = match_segments (double_star # ps) ns"
  by (simp only: match_segments_glob glob_star_star segs_ok_segments simp_thms)

end
