(* ===== verification/Field_Writer.thy ===== *)
theory Field_Writer
  imports Prelude
begin

text \<open>
  The length-prefixed field writer. Four packages of the program declare the same function
  \<open>writeField\<close> (\<open>internal/engine/digest.go\<close>, \<open>internal/policy/load.go\<close>,
  \<open>internal/analyzer/terraform/catalog.go\<close>, \<open>internal/snapshot/load.go\<close>): eight bytes of
  big-endian length, then the bytes. What a \<open>hash.Hash\<close> has consumed is the list of bytes
  written to it, so a writer is the function that appends to that list, and a digest is a hash
  function applied to the list at the end. SHA-256 itself is a parameter \<open>sha\<close> of the
  definitions that use it.

  The locale \<open>field_code\<close> is the contract the digests rely on: an encoding that can be peeled off
  the front of a stream. Its lemmas say that a stream of such fields determines the fields.
\<close>

subsection \<open>The big-endian length prefix\<close>

fun be_bytes :: "nat \<Rightarrow> nat \<Rightarrow> string" where
  "be_bytes 0 n = []"
| "be_bytes (Suc k) n = be_bytes k (n div 256) @ [char_of n]"

definition put_uint64 :: "64 word \<Rightarrow> string" where
  "put_uint64 w = be_bytes 8 (unat w)"

definition write_field :: "string \<Rightarrow> string" where
  "write_field b = put_uint64 (of_nat (length b)) @ b"

lemma length_be_bytes [simp]: "length (be_bytes k n) = k"
  by (induction k arbitrary: n) auto

lemma char_of_eq_mod: "(char_of m :: char) = char_of n \<longleftrightarrow> m mod 256 = (n::nat) mod 256"
  by (metis char_of_mod_256 of_char_of)

lemma be_bytes_inject:
  "m < 256 ^ k \<Longrightarrow> n < 256 ^ k \<Longrightarrow> be_bytes k m = be_bytes k n \<longleftrightarrow> m = n"
proof (induction k arbitrary: m n)
  case 0
  then show ?case by simp
next
  case (Suc k)
  then have "m div 256 < 256 ^ k" and "n div 256 < 256 ^ k"
    by (auto intro: less_mult_imp_div_less simp: mult.commute)
  with Suc.IH have "be_bytes (Suc k) m = be_bytes (Suc k) n
    \<longleftrightarrow> m div 256 = n div 256 \<and> m mod 256 = n mod 256"
    by (simp add: char_of_eq_mod)
  also have "\<dots> \<longleftrightarrow> m = n" by (metis div_mult_mod_eq)
  finally show ?case .
qed

lemma length_put_uint64 [simp]: "length (put_uint64 w) = 8"
  by (simp add: put_uint64_def)

lemma put_uint64_inject [simp]: "put_uint64 v = put_uint64 w \<longleftrightarrow> v = w"
proof -
  have "unat x < 256 ^ 8" for x :: "64 word"
    using unsigned_less [of x] by simp
  then show ?thesis
    by (simp add: put_uint64_def be_bytes_inject word_unat_eq_iff)
qed

text \<open>A Go slice length is a non-negative \<open>int\<close>, so it is below \<open>2 ^ 63\<close>.\<close>

definition go_len :: "'a list \<Rightarrow> bool" where
  "go_len xs \<longleftrightarrow> length xs < 2 ^ 63"

lemma write_field_cancel:
  assumes "go_len a" and "go_len b"
  shows "write_field a @ s = write_field b @ t \<longleftrightarrow> a = b \<and> s = t"
proof
  assume eq: "write_field a @ s = write_field b @ t"
  then have "put_uint64 (of_nat (length a)) = put_uint64 (of_nat (length b)) \<and> a @ s = b @ t"
    by (simp add: write_field_def)
  moreover from this have "length a = length b"
    using assms by (simp add: go_len_def word_of_nat_eq_iff take_bit_nat_eq_self)
  ultimately show "a = b \<and> s = t" by simp
qed simp

subsection \<open>The contract of an encoding\<close>

locale field_code =
  fixes enc :: "'a \<Rightarrow> string" and ok :: "'a \<Rightarrow> bool"
  assumes enc_cancel: "ok x \<Longrightarrow> ok y \<Longrightarrow> enc x @ s = enc y @ t \<Longrightarrow> x = y \<and> s = t"
    and enc_nonempty: "ok x \<Longrightarrow> enc x \<noteq> []"
begin

lemma enc_inject: "ok x \<Longrightarrow> ok y \<Longrightarrow> enc x = enc y \<longleftrightarrow> x = y"
  using enc_cancel [of x y "[]" "[]"] by auto

lemma stream_inject:
  "\<forall>x\<in>set xs. ok x \<Longrightarrow> \<forall>y\<in>set ys. ok y \<Longrightarrow>
   concat (map enc xs) = concat (map enc ys) \<Longrightarrow> xs = ys"
proof (induction xs arbitrary: ys)
  case Nil
  then show ?case by (cases ys) (auto simp: enc_nonempty)
next
  case (Cons x xs)
  from Cons.prems obtain y zs where ys: "ys = y # zs"
    by (cases ys) (auto simp: enc_nonempty)
  with Cons.prems have "x = y \<and> concat (map enc xs) = concat (map enc zs)"
    by (intro enc_cancel) simp_all
  moreover from this have "xs = zs"
    using Cons.prems ys by (intro Cons.IH) simp_all
  ultimately show ?case using ys by simp
qed

lemma stream_cancel:
  assumes "length xs = length ys" and "\<forall>x\<in>set xs. ok x" and "\<forall>y\<in>set ys. ok y"
    and "concat (map enc xs) @ s = concat (map enc ys) @ t"
  shows "xs = ys \<and> s = t"
  using assms
proof (induction xs ys rule: list_induct2)
  case Nil
  then show ?case by simp
next
  case (Cons x xs y ys)
  then have "x = y \<and> concat (map enc xs) @ s = concat (map enc ys) @ t"
    by (intro enc_cancel) simp_all
  with Cons show ?case by simp
qed

end

interpretation wf: field_code write_field go_len
proof unfold_locales
  show "x = y \<and> s = t" if "go_len x" "go_len y" "write_field x @ s = write_field y @ t" for x y s t
    using that write_field_cancel by blast
  show "write_field x \<noteq> []" for x
  proof -
    have "length (write_field x) = 8 + length x" by (simp add: write_field_def)
    then show ?thesis by auto
  qed
qed

end
