(* ===== verification/Policy.thy ===== *)
theory Policy
  imports Policy_Match Field_Writer
begin

text \<open>
  A resolved \<open>.reversibility.yml\<close> and what it may do to findings: \<open>internal/policy/policy.go\<close>.
  Overrides raise classifications first, then live waivers set findings aside; nothing is deleted.
  A \<open>nil\<close> policy is \<open>None\<close>. The mutable set of matched patterns of \<open>IgnoreMatcher\<close> is passed
  explicitly. Time is an instant in seconds of UTC; \<open>time.Parse\<close> with the layout \<open>2006-01-02\<close> is
  \<open>parse_date\<close>, which yields the instant at which the day begins.
\<close>

subsection \<open>Calendar days\<close>

type_synonym instant = int

definition leap_year :: "int \<Rightarrow> bool" where
  "leap_year y \<longleftrightarrow> y mod 4 = 0 \<and> (y mod 100 \<noteq> 0 \<or> y mod 400 = 0)"

definition days_in_month :: "int \<Rightarrow> int \<Rightarrow> int" where
  "days_in_month y m =
     (if m = 2 then (if leap_year y then 29 else 28)
      else if m = 4 \<or> m = 6 \<or> m = 9 \<or> m = 11 then 30 else 31)"

definition days_before_year :: "int \<Rightarrow> int" where
  "days_before_year y = 365 * (y - 1) + (y - 1) div 4 - (y - 1) div 100 + (y - 1) div 400"

definition day_number :: "int \<Rightarrow> int \<Rightarrow> int \<Rightarrow> int" where
  "day_number y m d =
     days_before_year y + sum_list (map (days_in_month y) [1..m - 1]) + d - 1 - days_before_year 1970"

definition two_digits :: "char \<Rightarrow> char \<Rightarrow> int option" where
  "two_digits a b =
     (if 48 \<le> (of_char a :: int) \<and> (of_char a :: int) \<le> 57
         \<and> 48 \<le> (of_char b :: int) \<and> (of_char b :: int) \<le> 57
      then Some (10 * (of_char a - 48) + (of_char b - 48)) else None)"

definition parse_civil :: "string \<Rightarrow> (int \<times> int \<times> int) option" where
  "parse_civil s =
     (case s of
        [y1, y2, y3, y4, s1, m1, m2, s2, d1, d2] \<Rightarrow>
          (case (two_digits y1 y2, two_digits y3 y4, two_digits m1 m2, two_digits d1 d2) of
             (Some c, Some y', Some m, Some d) \<Rightarrow>
               if s1 = CHR ''-'' \<and> s2 = CHR ''-'' \<and> 1 \<le> m \<and> m \<le> 12
                  \<and> 1 \<le> d \<and> d \<le> days_in_month (100 * c + y') m
               then Some (100 * c + y', m, d) else None
           | _ \<Rightarrow> None)
      | _ \<Rightarrow> None)"

definition parse_date :: "string \<Rightarrow> instant option" where
  "parse_date s = map_option (\<lambda>(y, m, d). 86400 * day_number y m d) (parse_civil s)"

definition truncate_to_day :: "instant \<Rightarrow> instant" where
  "truncate_to_day t = 86400 * (t div 86400)"

lemma truncate_to_day_le: "truncate_to_day t \<le> t" and truncate_to_day_gt: "t < truncate_to_day t + 86400"
  unfolding truncate_to_day_def by presburger+

subsection \<open>The policy\<close>

record waiver =
  v_rule :: string
  v_path :: string
  v_reason :: string
  v_expires :: string
  v_approved_by :: string

record override =
  o_rule :: string
  o_severity :: reversibility

record terraform_type =
  t_type :: string
  t_class :: string

record policy =
  l_source :: string
  l_gate :: grade
  l_ignore :: "string list"
  l_waivers :: "waiver list"
  l_overrides :: "override list"
  l_terraform_types :: "terraform_type list"
  l_digest :: string

record decision =
  n_all :: "finding list"
  n_findings :: "finding list"
  n_waived :: "waived_finding list"
  n_dead_waivers :: "string list"

subsection \<open>Ignore patterns\<close>

definition ignores :: "policy option \<Rightarrow> located \<Rightarrow> bool" where
  "ignores p at =
     (case p of None \<Rightarrow> False | Some l \<Rightarrow> list_ex (\<lambda>pattern. policy_match pattern at) (l_ignore l))"

record ignore_matcher =
  m_policy :: "policy option"
  m_matched :: "string list"

definition matcher :: "policy option \<Rightarrow> ignore_matcher" where
  "matcher p = \<lparr>m_policy = p, m_matched = []\<rparr>"

definition matcher_ignores :: "ignore_matcher \<Rightarrow> located \<Rightarrow> bool \<times> ignore_matcher" where
  "matcher_ignores m at =
     (case m_policy m of
        None \<Rightarrow> (False, m)
      | Some l \<Rightarrow>
          foldl (\<lambda>(ignored, m') pattern.
                   if policy_match pattern at
                   then (True, m'\<lparr>m_matched := pattern # m_matched m'\<rparr>) else (ignored, m'))
            (False, m) (l_ignore l))"

definition matcher_dead :: "ignore_matcher \<Rightarrow> string list" where
  "matcher_dead m =
     (case m_policy m of
        None \<Rightarrow> []
      | Some l \<Rightarrow> filter (\<lambda>pattern. pattern \<notin> set (m_matched m)) (l_ignore l))"

text \<open>The include predicate is asked about one path after another.\<close>

fun matcher_run :: "ignore_matcher \<Rightarrow> located list \<Rightarrow> bool list \<times> ignore_matcher" where
  "matcher_run m [] = ([], m)"
| "matcher_run m (a # as) =
     (case matcher_ignores m a of (b, m') \<Rightarrow> apfst (Cons b) (matcher_run m' as))"

subsection \<open>Waivers\<close>

definition describe :: "waiver \<Rightarrow> string" where
  "describe w = (if v_path w = [] then v_rule w @ '' (every file)'' else v_rule w @ '' at '' @ v_path w)"

definition expired :: "waiver \<Rightarrow> instant \<Rightarrow> bool" where
  "expired w today =
     (case parse_date (v_expires w) of
        None \<Rightarrow> True
      | Some expires \<Rightarrow> expires < truncate_to_day today)"

definition waivable :: "finding \<Rightarrow> bool" where
  "waivable f \<longleftrightarrow> \<not> (f_reversibility f = Unknown \<or> f_reversibility f = WillFail
                     \<or> \<not> rev_valid (f_reversibility f))"

definition covers :: "(string \<Rightarrow> located) \<Rightarrow> instant \<Rightarrow> finding \<Rightarrow> waiver \<Rightarrow> bool" where
  "covers locate today f w \<longleftrightarrow>
     v_rule w = f_rule_id f
     \<and> \<not> (v_path w \<noteq> [] \<and> \<not> policy_match (v_path w) (locate (f_file f)))
     \<and> \<not> expired w today"

fun first_covering :: "(string \<Rightarrow> located) \<Rightarrow> instant \<Rightarrow> finding \<Rightarrow> nat \<Rightarrow> waiver list \<Rightarrow> (waiver \<times> nat) option"
  where
  "first_covering locate today f i [] = None"
| "first_covering locate today f i (w # ws) =
     (if covers locate today f w then Some (w, i) else first_covering locate today f (Suc i) ws)"

definition waiver_for :: "policy \<Rightarrow> finding \<Rightarrow> instant \<Rightarrow> (string \<Rightarrow> located) \<Rightarrow> (waiver \<times> nat) option" where
  "waiver_for p f today locate =
     (if \<not> waivable f then None else first_covering locate today f 0 (l_waivers p))"

subsection \<open>Overrides\<close>

datatype policy_error = Weakens string reversibility reversibility string

definition policy_error_text :: "policy_error \<Rightarrow> string" where
  "policy_error_text e =
     (case e of Weakens rule sev found file \<Rightarrow>
        ''domain: invalid policy: override for '' @ rule @ '' sets '' @ rev_text sev
        @ '', which is weaker than the '' @ rev_text found @ '' the analyzer found at '' @ file
        @ ''; an override may only make a rule stricter'')"

fun override_finding :: "override list \<Rightarrow> finding \<Rightarrow> policy_error + finding" where
  "override_finding [] f = Inr f"
| "override_finding (ov # ovs) f =
     (if o_rule ov \<noteq> f_rule_id f then override_finding ovs f
      else if rev_severity (o_severity ov) < rev_severity (f_reversibility f)
      then Inl (Weakens (o_rule ov) (o_severity ov) (f_reversibility f) (f_file f))
      else override_finding ovs (f\<lparr>f_reversibility := o_severity ov\<rparr>))"

fun override_all :: "override list \<Rightarrow> finding list \<Rightarrow> policy_error + finding list" where
  "override_all ovs [] = Inr []"
| "override_all ovs (f # fs) =
     (case override_finding ovs f of
        Inl e \<Rightarrow> Inl e
      | Inr f' \<Rightarrow> (case override_all ovs fs of Inl e \<Rightarrow> Inl e | Inr fs' \<Rightarrow> Inr (f' # fs')))"

definition apply_overrides :: "policy \<Rightarrow> finding list \<Rightarrow> policy_error + finding list" where
  "apply_overrides p fs = (if l_overrides p = [] then Inr fs else override_all (l_overrides p) fs)"

subsection \<open>Apply\<close>

text \<open>The loop over the tightened findings: findings kept, findings waived, and the indices of the
  waivers that fired.\<close>

fun waive_loop :: "policy \<Rightarrow> instant \<Rightarrow> (string \<Rightarrow> located) \<Rightarrow> finding list
    \<Rightarrow> finding list \<times> waived_finding list \<times> nat list" where
  "waive_loop p today locate [] = ([], [], [])"
| "waive_loop p today locate (f # fs) =
     (case waive_loop p today locate fs of (kept, waived, fired) \<Rightarrow>
        (case waiver_for p f today locate of
           None \<Rightarrow> (f # kept, waived, fired)
         | Some (w, i) \<Rightarrow>
             (kept,
              \<lparr>w_finding = f, w_reason = v_reason w, w_expires = v_expires w,
               w_approved_by = v_approved_by w\<rparr> # waived,
              i # fired)))"

definition dead_waivers :: "policy \<Rightarrow> nat list \<Rightarrow> string list" where
  "dead_waivers p fired =
     map (\<lambda>i. describe (l_waivers p ! i)) (filter (\<lambda>i. i \<notin> set fired) [0..<length (l_waivers p)])"

definition apply_policy :: "policy option \<Rightarrow> finding list \<Rightarrow> instant \<Rightarrow> (string \<Rightarrow> located) option
    \<Rightarrow> policy_error + decision" where
  "apply_policy p findings today locate =
     (case p of
        None \<Rightarrow> Inr \<lparr>n_all = findings, n_findings = findings, n_waived = [], n_dead_waivers = []\<rparr>
      | Some l \<Rightarrow>
          (let loc = (case locate of None \<Rightarrow> identity_locator | Some g \<Rightarrow> g) in
           case apply_overrides l findings of
             Inl e \<Rightarrow> Inl e
           | Inr tightened \<Rightarrow>
               (case waive_loop l today loc tightened of (kept, waived, fired) \<Rightarrow>
                  Inr \<lparr>n_all = tightened, n_findings = kept,
                       n_waived = sort_key (\<lambda>w. finding_key (w_finding w)) waived,
                       n_dead_waivers = dead_waivers l fired\<rparr>)))"

definition is_policy_file :: "string \<Rightarrow> bool" where
  "is_policy_file p \<longleftrightarrow> path_base p = ''.reversibility.yml''"

subsection \<open>Stages that only tighten\<close>

text \<open>What the engine relies on from every stage between analysis and scoring: the findings keep
  their identity and no classification becomes milder. Overrides are one such stage, production
  context is the other.\<close>

definition tightens :: "finding \<Rightarrow> finding \<Rightarrow> bool" where
  "tightens f g \<longleftrightarrow>
     finding_key g = finding_key f \<and> f_lock g = f_lock f \<and> f_statement g = f_statement f
     \<and> f_undo g = f_undo f \<and> rev_severity (f_reversibility f) \<le> rev_severity (f_reversibility g)"

lemma tightens_refl [simp]: "tightens f f"
  by (simp add: tightens_def)

lemma tightens_trans: "tightens f g \<Longrightarrow> tightens g h \<Longrightarrow> tightens f h"
  by (auto simp: tightens_def)

lemma finding_key_update [simp]: "finding_key (f\<lparr>f_reversibility := r\<rparr>) = finding_key f"
  by (simp add: finding_key_def)

locale tightening =
  fixes stage :: "finding list \<Rightarrow> finding list \<Rightarrow> bool"
  assumes stage_tightens: "stage fs gs \<Longrightarrow> list_all2 tightens fs gs"
begin

lemma stage_length: "stage fs gs \<Longrightarrow> length gs = length fs"
  by (drule stage_tightens) (simp add: list_all2_lengthD)

lemma stage_keys: "stage fs gs \<Longrightarrow> map finding_key gs = map finding_key fs"
  by (drule stage_tightens, induction fs gs rule: list_all2_induct) (auto simp: tightens_def)

lemma stage_sorted: "stage fs gs \<Longrightarrow> sorted (map finding_key fs) \<Longrightarrow> sorted (map finding_key gs)"
  by (simp add: stage_keys)

lemma stage_keeps_severe:
  assumes "stage fs gs" and "f \<in> set fs" and "k \<le> rev_severity (f_reversibility f)"
  shows "\<exists>g\<in>set gs. k \<le> rev_severity (f_reversibility g)"
proof -
  from assms(2) obtain i where i: "i < length fs" "fs ! i = f" by (auto simp: in_set_conv_nth)
  with stage_tightens [OF assms(1)] have "tightens f (gs ! i)" and "i < length gs"
    by (auto simp: list_all2_conv_all_nth)
  with assms(3) show ?thesis by (auto simp: tightens_def intro!: bexI [of _ "gs ! i"])
qed

end

lemma override_finding_tightens: "override_finding ovs f = Inr g \<Longrightarrow> tightens f g"
proof (induction ovs arbitrary: f)
  case Nil
  then show ?case by simp
next
  case (Cons ov ovs)
  show ?case
  proof (cases "o_rule ov = f_rule_id f")
    case True
    with Cons.prems have "tightens (f\<lparr>f_reversibility := o_severity ov\<rparr>) g"
      and "rev_severity (f_reversibility f) \<le> rev_severity (o_severity ov)"
      by (auto split: if_splits intro: Cons.IH)
    moreover from this have "tightens f (f\<lparr>f_reversibility := o_severity ov\<rparr>)"
      by (simp add: tightens_def)
    ultimately show ?thesis by (blast intro: tightens_trans)
  next
    case False
    with Cons show ?thesis by simp
  qed
qed

lemma override_all_tightens: "override_all ovs fs = Inr gs \<Longrightarrow> list_all2 tightens fs gs"
  by (induction fs arbitrary: gs) (auto split: sum.splits dest: override_finding_tightens)

interpretation ov: tightening "\<lambda>fs gs. apply_overrides p fs = Inr gs" for p
proof
  fix fs gs
  assume "apply_overrides p fs = Inr gs"
  then show "list_all2 tightens fs gs"
    by (auto simp: apply_overrides_def list_all2_refl split: if_splits intro: override_all_tightens)
qed

subsection \<open>What waiving does\<close>

lemma first_covering_Some:
  "first_covering locate today f i ws = Some (w, j) \<Longrightarrow>
   i \<le> j \<and> j < i + length ws \<and> ws ! (j - i) = w \<and> covers locate today f w"
proof (induction ws arbitrary: i)
  case Nil
  then show ?case by simp
next
  case (Cons v ws)
  show ?case
  proof (cases "covers locate today f v")
    case True
    with Cons.prems show ?thesis by auto
  next
    case False
    with Cons.prems Cons.IH [of "Suc i"] have *: "Suc i \<le> j \<and> j < Suc i + length ws
        \<and> ws ! (j - Suc i) = w \<and> covers locate today f w" by simp
    then have "(v # ws) ! (j - i) = ws ! (j - Suc i)" by (simp add: nth_Cons')
    with * show ?thesis by simp
  qed
qed

lemma first_covering_None:
  "first_covering locate today f i ws = None \<longleftrightarrow> (\<forall>w\<in>set ws. \<not> covers locate today f w)"
  by (induction ws arbitrary: i) auto

lemma waiver_for_Some:
  assumes "waiver_for p f today locate = Some (w, j)"
  shows "waivable f \<and> j < length (l_waivers p) \<and> l_waivers p ! j = w \<and> covers locate today f w"
  using assms first_covering_Some [of locate today f 0 "l_waivers p" w j]
  by (auto simp: waiver_for_def split: if_splits)

lemma waiver_for_None:
  "waiver_for p f today locate = None \<longleftrightarrow>
     \<not> (waivable f \<and> (\<exists>w\<in>set (l_waivers p). covers locate today f w))"
  by (auto simp: waiver_for_def first_covering_None)

lemma waive_loop_mset:
  "waive_loop p today locate fs = (kept, waived, fired) \<Longrightarrow>
   mset kept + mset (map w_finding waived) = mset fs"
  by (induction fs arbitrary: kept waived fired) (auto split: prod.splits option.splits)

lemma waive_loop_kept:
  "waive_loop p today locate fs = (kept, waived, fired) \<Longrightarrow>
   kept = filter (\<lambda>f. waiver_for p f today locate = None) fs"
  by (induction fs arbitrary: kept waived fired) (auto split: prod.splits option.splits)

lemma waive_loop_waived:
  "waive_loop p today locate fs = (kept, waived, fired) \<Longrightarrow>
   map w_finding waived = filter (\<lambda>f. waiver_for p f today locate \<noteq> None) fs"
  by (induction fs arbitrary: kept waived fired) (auto split: prod.splits option.splits)

lemma waive_loop_fired:
  "waive_loop p today locate fs = (kept, waived, fired) \<Longrightarrow>
   set fired = {i. \<exists>f\<in>set fs. \<exists>w. waiver_for p f today locate = Some (w, i)}"
  by (induction fs arbitrary: kept waived fired) (auto split: prod.splits option.splits)

text \<open>Everything the engine uses of a successful \<open>Apply\<close>.\<close>

lemma apply_policy_Some:
  assumes "apply_policy (Some p) fs today (Some locate) = Inr d"
  shows "apply_overrides p fs = Inr (n_all d)"
    and "n_findings d = filter (\<lambda>f. waiver_for p f today locate = None) (n_all d)"
    and "mset (map w_finding (n_waived d))
         = mset (filter (\<lambda>f. waiver_for p f today locate \<noteq> None) (n_all d))"
    and "sorted (map (\<lambda>w. finding_key (w_finding w)) (n_waived d))"
    and "n_dead_waivers d
         = map (\<lambda>i. describe (l_waivers p ! i))
             (filter (\<lambda>i. \<not> (\<exists>f\<in>set (n_all d). \<exists>w. waiver_for p f today locate = Some (w, i)))
                [0..<length (l_waivers p)])"
proof -
  obtain tight where t: "apply_overrides p fs = Inr tight"
    using assms by (auto simp: apply_policy_def split: sum.splits)
  obtain kept waived fired where loop: "waive_loop p today locate tight = (kept, waived, fired)"
    by (metis prod_cases3)
  have d: "d = \<lparr>n_all = tight, n_findings = kept,
      n_waived = sort_key (\<lambda>w. finding_key (w_finding w)) waived, n_dead_waivers = dead_waivers p fired\<rparr>"
    using assms t loop by (simp add: apply_policy_def)
  show "apply_overrides p fs = Inr (n_all d)" using t d by simp
  show "n_findings d = filter (\<lambda>f. waiver_for p f today locate = None) (n_all d)"
    using waive_loop_kept [OF loop] d by simp
  show "mset (map w_finding (n_waived d))
      = mset (filter (\<lambda>f. waiver_for p f today locate \<noteq> None) (n_all d))"
    using waive_loop_waived [OF loop] d by (metis decision.select_convs(1,3) mset_map mset_sort)
  show "sorted (map (\<lambda>w. finding_key (w_finding w)) (n_waived d))" using d by simp
  show "n_dead_waivers d
      = map (\<lambda>i. describe (l_waivers p ! i))
          (filter (\<lambda>i. \<not> (\<exists>f\<in>set (n_all d). \<exists>w. waiver_for p f today locate = Some (w, i)))
             [0..<length (l_waivers p)])"
    using waive_loop_fired [OF loop] d by (simp add: dead_waivers_def)
qed

lemma apply_policy_None [simp]:
  "apply_policy None fs today locate
   = Inr \<lparr>n_all = fs, n_findings = fs, n_waived = [], n_dead_waivers = []\<rparr>"
  by (simp add: apply_policy_def)

lemma apply_policy_tightens:
  "apply_policy p fs today (Some locate) = Inr d \<Longrightarrow> list_all2 tightens fs (n_all d)"
  by (cases p) (auto simp: list_all2_refl dest!: apply_policy_Some(1) intro: ov.stage_tightens)

subsection \<open>The ignore matcher\<close>

lemma matcher_fold:
  "foldl (\<lambda>(ignored, m') pattern.
            if policy_match pattern at
            then (True, m'\<lparr>m_matched := pattern # m_matched m'\<rparr>) else (ignored, m')) (b, m) ps
   = (b \<or> list_ex (\<lambda>pattern. policy_match pattern at) ps,
      m\<lparr>m_matched := rev (filter (\<lambda>pattern. policy_match pattern at) ps) @ m_matched m\<rparr>)"
  by (induction ps arbitrary: b m) auto

lemma matcher_ignores_Some:
  assumes "m_policy m = Some l"
  shows "matcher_ignores m at
    = (ignores (Some l) at,
       m\<lparr>m_matched := rev (filter (\<lambda>pattern. policy_match pattern at) (l_ignore l)) @ m_matched m\<rparr>)"
  by (simp add: matcher_ignores_def assms matcher_fold ignores_def)

lemma matcher_run_inv:
  assumes "m_policy m = Some l"
  shows "fst (matcher_run m as) = map (ignores (Some l)) as
    \<and> m_policy (snd (matcher_run m as)) = Some l
    \<and> set (m_matched (snd (matcher_run m as)))
      = set (m_matched m) \<union> {p \<in> set (l_ignore l). \<exists>a\<in>set as. policy_match p a}"
  using assms
proof (induction as arbitrary: m)
  case Nil
  then show ?case by simp
next
  case (Cons a as)
  let ?m = "m\<lparr>m_matched := rev (filter (\<lambda>pattern. policy_match pattern a) (l_ignore l)) @ m_matched m\<rparr>"
  have "m_policy ?m = Some l" using Cons.prems by simp
  from Cons.IH [OF this] show ?case
    by (auto simp: matcher_ignores_Some [OF Cons.prems])
qed

lemma matcher_run_nil: "m_policy m = None \<Longrightarrow> matcher_run m as = (map (\<lambda>a. False) as, m)"
  by (induction as) (simp_all add: matcher_ignores_def)

subsection \<open>A sample policy\<close>

definition sample_policy :: policy where
  "sample_policy = \<lparr>l_source = ''f'', l_gate = no_grade, l_ignore = [],
     l_waivers = [\<lparr>v_rule = ''PG012'', v_path = [], v_reason = ''agreed'', v_expires = ''1970-05-01'',
                   v_approved_by = []\<rparr>],
     l_overrides = [\<lparr>o_rule = ''PG014'', o_severity = Irreversible\<rparr>],
     l_terraform_types = [], l_digest = []\<rparr>"

definition sample_costly :: "string \<Rightarrow> finding" where
  "sample_costly rule = \<lparr>f_rule_id = rule, f_file = ''a.sql'', f_line = 1, f_statement = [],
     f_reversibility = Costly, f_lock = LockShort, f_rationale = [], f_undo = [], f_subject = no_subject,
     f_context = None\<rparr>"

lemma sample_applies:
  "apply_policy (Some sample_policy) [sample_costly ''PG012'', sample_costly ''PG001''] 0 (Some (\<lambda>p. p)) =
     Inr \<lparr>n_all = [sample_costly ''PG012'', sample_costly ''PG001''],
          n_findings = [sample_costly ''PG001''],
          n_waived = [\<lparr>w_finding = sample_costly ''PG012'', w_reason = ''agreed'',
                       w_expires = ''1970-05-01'', w_approved_by = []\<rparr>],
          n_dead_waivers = []\<rparr>"
  by code_simp

subsection \<open>Properties\<close>

text \<open>Overrides only tighten: when \<open>applyOverrides\<close> succeeds every finding keeps its place,
  file, line, rule, lock, statement and undo, and its severity does not drop.\<close>

theorem overrides_only_tighten:
  assumes "apply_overrides p fs = Inr gs"
  shows "list_all2 tightens fs gs \<and> map finding_key gs = map finding_key fs"
  using ov.stage_tightens [OF assms] ov.stage_keys [OF assms] by simp

theorem overrides_only_tighten_witness:
  "list_all2 tightens [sample_costly ''PG014''] [(sample_costly ''PG014'')\<lparr>f_reversibility := Irreversible\<rparr>]"
  by (rule overrides_only_tighten [of sample_policy, THEN conjunct1]) code_simp

text \<open>An override that would weaken the analyzer's verdict is refused, with the rule and the
  file in the error, and no finding is returned.\<close>

theorem weakening_override_refused:
  assumes "l_overrides p = [ov]" and "o_rule ov = f_rule_id f"
    and "rev_severity (o_severity ov) < rev_severity (f_reversibility f)"
    and "\<forall>g\<in>set fs. f_rule_id g \<noteq> f_rule_id f"
  shows "apply_overrides p (fs @ f # rest)
    = Inl (Weakens (f_rule_id f) (o_severity ov) (f_reversibility f) (f_file f))"
proof -
  have "override_all [ov] (fs @ f # rest)
      = Inl (Weakens (f_rule_id f) (o_severity ov) (f_reversibility f) (f_file f))"
    using assms(2-4) by (induction fs) (auto split: sum.splits)
  with assms(1) show ?thesis by (simp add: apply_overrides_def)
qed

theorem weakening_override_refused_witness:
  "apply_overrides sample_policy [sample_costly ''PG012'', (sample_costly ''PG014'')\<lparr>f_reversibility := WillFail\<rparr>]
     = Inl (Weakens ''PG014'' Irreversible WillFail ''a.sql'')"
  using weakening_override_refused [of sample_policy "\<lparr>o_rule = ''PG014'', o_severity = Irreversible\<rparr>"
      "(sample_costly ''PG014'')\<lparr>f_reversibility := WillFail\<rparr>" "[sample_costly ''PG012'']" "[]"]
  by (simp add: sample_policy_def sample_costly_def)

text \<open>Waivers set findings aside and never delete one: kept and waived findings together are
  all findings, a waived finding is covered by a live waiver of its own rule and path, and a verdict
  nobody understood (\<open>UNKNOWN\<close>), one that will not apply, or an unreadable one is never waived.\<close>

theorem waivers_partition:
  assumes "apply_policy (Some p) fs today (Some locate) = Inr d"
  shows "mset (n_findings d) + mset (map w_finding (n_waived d)) = mset (n_all d)
    \<and> (\<forall>w\<in>set (n_waived d).
         f_reversibility (w_finding w) \<in> {Reversible, Costly, Irreversible}
         \<and> (\<exists>v\<in>set (l_waivers p). covers locate today (w_finding w) v))
    \<and> (\<forall>f\<in>set (n_findings d).
         waivable f \<longrightarrow> (\<forall>v\<in>set (l_waivers p). \<not> covers locate today f v))"
proof (intro conjI ballI)
  note ap = apply_policy_Some [OF assms]
  show "mset (n_findings d) + mset (map w_finding (n_waived d)) = mset (n_all d)"
    unfolding ap(2,3) by (simp only: mset_filter multiset_partition [symmetric])
  show "waivable f \<longrightarrow> (\<forall>v\<in>set (l_waivers p). \<not> covers locate today f v)"
    if "f \<in> set (n_findings d)" for f
    using that unfolding ap(2) by (auto simp: waiver_for_None)
  fix w
  assume "w \<in> set (n_waived d)"
  then have "w_finding w \<in> set_mset (mset (map w_finding (n_waived d)))" by simp
  then have *: "waivable (w_finding w) \<and> (\<exists>v\<in>set (l_waivers p). covers locate today (w_finding w) v)"
    unfolding ap(3) by (auto simp: waiver_for_None)
  then show "\<exists>v\<in>set (l_waivers p). covers locate today (w_finding w) v" by blast
  from * show "f_reversibility (w_finding w) \<in> {Reversible, Costly, Irreversible}"
    by (cases "f_reversibility (w_finding w)") (auto simp: waivable_def)
qed

theorem waivers_partition_witness:
  "mset [sample_costly ''PG001''] + mset [sample_costly ''PG012'']
     = mset [sample_costly ''PG012'', sample_costly ''PG001'']"
  using waivers_partition [OF sample_applies] by simp

text \<open>A waiver covers the whole of its expiry day and nothing after it: with a readable date it
  has lapsed exactly from the first second of the following day, it never comes back, and an
  unreadable date is not honoured.\<close>

theorem waiver_expiry:
  "expired w today = (case parse_date (v_expires w) of
                        None \<Rightarrow> True | Some day \<Rightarrow> day + 86400 \<le> today)"
proof (cases "parse_date (v_expires w)")
  case (Some day)
  then obtain k where k: "day = 86400 * k"
    by (auto simp: parse_date_def)
  define q where "q = today div 86400"
  have "today = 86400 * q + today mod 86400" and "0 \<le> today mod 86400" and "today mod 86400 < 86400"
    by (simp_all add: q_def)
  then have "k < q \<longleftrightarrow> 86400 * k + 86400 \<le> today" by linarith
  then have "day < truncate_to_day today \<longleftrightarrow> day + 86400 \<le> today"
    by (simp add: truncate_to_day_def k q_def)
  with Some show ?thesis by (simp add: expired_def)
qed (simp add: expired_def)

text \<open>The ignore matcher answers exactly as the policy does for every path it is asked about,
  and at the end reports as dead exactly the patterns, in file order, that matched none of them.\<close>

theorem matcher_reports_dead:
  "matcher_run (matcher (Some l)) as
   = (map (ignores (Some l)) as, snd (matcher_run (matcher (Some l)) as))
   \<and> matcher_dead (snd (matcher_run (matcher (Some l)) as))
     = filter (\<lambda>pattern. \<not> list_ex (policy_match pattern) as) (l_ignore l)"
proof -
  have "m_policy (matcher (Some l)) = Some l" by (simp add: matcher_def)
  note inv = matcher_run_inv [OF this, of as]
  then have "matcher_dead (snd (matcher_run (matcher (Some l)) as))
      = filter (\<lambda>pattern. \<not> list_ex (policy_match pattern) as) (l_ignore l)"
    by (auto simp: matcher_dead_def matcher_def list_ex_iff intro!: filter_cong)
  with inv show ?thesis by (metis prod.collapse)
qed

text \<open>Dead waivers are reported in file order and by position: a waiver is listed exactly when
  no finding selected it, even when a textually identical one before it fired.\<close>

theorem dead_waivers_exact:
  assumes "apply_policy (Some p) fs today (Some locate) = Inr d"
  shows "n_dead_waivers d = map (\<lambda>i. describe (l_waivers p ! i))
    (filter (\<lambda>i. \<not> (\<exists>f\<in>set (n_all d). \<exists>w. waiver_for p f today locate = Some (w, i)))
       [0..<length (l_waivers p)])"
  by (rule apply_policy_Some(5) [OF assms])

theorem dead_waivers_exact_witness:
  "[] = map (\<lambda>i. describe (l_waivers sample_policy ! i))
    (filter (\<lambda>i. \<not> (\<exists>f\<in>set [sample_costly ''PG012'', sample_costly ''PG001'']. \<exists>w.
        waiver_for sample_policy f 0 (\<lambda>p. p) = Some (w, i)))
       [0..<length (l_waivers sample_policy)])"
  using dead_waivers_exact [OF sample_applies] by simp

end
