(* ===== verification/Go_Float.thy ===== *)
theory Go_Float
  imports Prelude
begin

text \<open>
  Go's \<open>float64\<close> as the program uses it: conversion from \<open>int64\<close>, division and multiplication
  rounded to nearest, ties to even, with a significand of 53 bits, comparison, conversion back,
  \<open>math.Round\<close>, and the verbs \<open>%.0f\<close>, \<open>%.1f\<close>, \<open>%.2f\<close>. A finite value is a significand times a
  power of two. The program reaches neither infinities nor subnormal numbers: its values are
  quotients and products of integers of 64 bits and of fractions that were decoded from JSON.
  A conversion to \<open>int64\<close> out of range is left to the implementation by the language; it is the least
  \<open>int64\<close> here, as on amd64. Arithmetic on \<open>int64\<close> that can overflow is written with \<open>wrap64\<close>.
\<close>

definition wrap64 :: "int \<Rightarrow> int" where
  "wrap64 x = (x + 2 ^ 63) mod 2 ^ 64 - 2 ^ 63"

datatype float64 = Fl int int

function bit_length :: "int \<Rightarrow> int" where
  "bit_length n = (if n \<le> 0 then 0 else 1 + bit_length (n div 2))"
  by pat_completeness auto

termination by (relation "measure nat") auto

declare bit_length.simps [simp del]

definition half_even :: "int \<Rightarrow> int \<Rightarrow> int" where
  "half_even n d =
     (let q = n div d; r = n mod d in
      if 2 * r < d then q else if d < 2 * r then q + 1 else if even q then q else q + 1)"

text \<open>The fraction \<open>n / d\<close>, divided by \<open>2 ^ e\<close>.\<close>

definition scale :: "int \<Rightarrow> int \<Rightarrow> int \<Rightarrow> int \<times> int" where
  "scale n d e = (if 0 \<le> e then (n, d * 2 ^ nat e) else (n * 2 ^ nat (- e), d))"

definition fl_round :: "int \<Rightarrow> int \<Rightarrow> float64" where
  "fl_round n d =
     (if n = 0 then Fl 0 0
      else
        (let s = bit_length \<bar>n\<bar> - bit_length d - 53;
             e = (case scale n d s of (a, b) \<Rightarrow> if 2 ^ 53 * b \<le> \<bar>a\<bar> then s + 1 else s)
         in case scale n d e of (a, b) \<Rightarrow> Fl (half_even a b) e))"

definition fl_of_int :: "int \<Rightarrow> float64" where
  "fl_of_int i = fl_round i 1"

text \<open>The divisors of the program are positive.\<close>

fun fl_div :: "float64 \<Rightarrow> float64 \<Rightarrow> float64" where
  "fl_div (Fl m e) (Fl n f) = (case scale m n (f - e) of (a, b) \<Rightarrow> fl_round a b)"

fun fl_mult :: "float64 \<Rightarrow> float64 \<Rightarrow> float64" where
  "fl_mult (Fl m e) (Fl n f) = (case scale (m * n) 1 (- (e + f)) of (a, b) \<Rightarrow> fl_round a b)"

fun fl_less :: "float64 \<Rightarrow> float64 \<Rightarrow> bool" where
  "fl_less (Fl m e) (Fl n f) \<longleftrightarrow> m * 2 ^ nat (e - min e f) < n * 2 ^ nat (f - min e f)"

fun fl_trunc :: "float64 \<Rightarrow> int" where
  "fl_trunc (Fl m e) =
     (if 0 \<le> e then m * 2 ^ nat e
      else if 0 \<le> m then m div 2 ^ nat (- e) else - ((- m) div 2 ^ nat (- e)))"

definition fl_to_int64 :: "float64 \<Rightarrow> int" where
  "fl_to_int64 x = (if - (2 ^ 63) \<le> fl_trunc x \<and> fl_trunc x < 2 ^ 63 then fl_trunc x else - (2 ^ 63))"

text \<open>\<open>int(math.Round(x))\<close>: halves go away from zero.\<close>

fun fl_round_int :: "float64 \<Rightarrow> int" where
  "fl_round_int (Fl m e) =
     (if 0 \<le> e then m * 2 ^ nat e
      else if 0 \<le> m then (2 * m + 2 ^ nat (- e)) div (2 * 2 ^ nat (- e))
      else - ((- 2 * m + 2 ^ nat (- e)) div (2 * 2 ^ nat (- e))))"

definition pad_zeros :: "nat \<Rightarrow> string \<Rightarrow> string" where
  "pad_zeros p s = replicate (p - length s) (CHR ''0'') @ s"

fun fl_fixed :: "nat \<Rightarrow> float64 \<Rightarrow> string" where
  "fl_fixed p (Fl m e) =
     (case scale (\<bar>m\<bar> * 10 ^ p) 1 (- e) of (a, b) \<Rightarrow>
        let s = half_even a b in
        (if m < 0 then ''-'' else []) @ itoa (s div 10 ^ p)
        @ (if p = 0 then [] else ''.'' @ pad_zeros p (itoa (s mod 10 ^ p))))"

lemma wrap64_id: "- (2 ^ 63) \<le> x \<Longrightarrow> x < 2 ^ 63 \<Longrightarrow> wrap64 x = x"
  by (simp add: wrap64_def)

end
