(* ===== verification/Snapshot.thy ===== *)
theory Snapshot
  imports Policy Go_Float Field_Writer
begin

text \<open>
  Production metadata, \<open>internal/snapshot/snapshot.go\<close> and \<open>load.go\<close>: the snapshot file, its
  validation and canonical order, and the merge of several files into the context of one run. The
  JSON decoder and the file system are parameters, as are SHA-256 and the verb \<open>%g\<close>. Time is in
  seconds of UTC, as in the policy. \<open>sort.Slice\<close> is not stable; it is modelled as a stable sort, which
  differs only where two entries of a file have one key: a table, an index and an object of a cluster have
  their own, a column whose statistics the server reports twice does not.
\<close>

subsection \<open>The file\<close>

record table_stat =
  tb_schema :: string
  tb_name :: string
  tb_rows :: int
  tb_bytes :: int
  tb_total :: int

record index_stat =
  ix_schema :: string
  ix_table :: string
  ix_name :: string
  ix_bytes :: int
  ix_scans :: int
  ix_reset :: "instant option"

record column_stat =
  cl_schema :: string
  cl_table :: string
  cl_name :: string
  cl_null :: float64
  cl_width :: int

record storage_class =
  sc_name :: string
  sc_policy :: string

record claim_stat =
  pv_namespace :: string
  pv_name :: string
  pv_phase :: string
  pv_class :: string
  pv_capacity :: string

record workload_stat =
  wl_namespace :: string
  wl_kind :: string
  wl_name :: string
  wl_replicas :: int

record postgres_data =
  pg_tables :: "table_stat list"
  pg_indexes :: "index_stat list"
  pg_columns :: "column_stat list"

record kubernetes_data =
  k_classes :: "storage_class list"
  k_claims :: "claim_stat list"
  k_workloads :: "workload_stat list"

record snapshot =
  sn_schema_version :: string
  sn_kind :: string
  sn_environment :: string
  sn_collected :: instant
  sn_fingerprint :: string
  sn_postgres :: "postgres_data option"
  sn_kubernetes :: "kubernetes_data option"

definition snapshot_schema_version :: string where "snapshot_schema_version = ''1.0.0''"
definition kind_postgres :: string where "kind_postgres = ''postgres''"
definition kind_kubernetes :: string where "kind_kubernetes = ''kubernetes''"

definition kind_valid :: "string \<Rightarrow> bool" where
  "kind_valid k \<longleftrightarrow> k = kind_postgres \<or> k = kind_kubernetes"

text \<open>The zero \<open>time.Time\<close>, the first of January of the year 1.\<close>

definition zero_time :: instant where "zero_time = - 62135596800"

definition validate_snapshot :: "snapshot \<Rightarrow> string option" where
  "validate_snapshot s =
     (if sn_schema_version s \<noteq> snapshot_schema_version then
        Some (''schema version '' @ go_quote (sn_schema_version s)
          @ '' is not supported; this build reads '' @ go_quote snapshot_schema_version)
      else if \<not> kind_valid (sn_kind s) then
        Some (''kind '' @ go_quote (sn_kind s) @ '' is not a snapshot kind; want ''
          @ go_quote kind_postgres @ '' or '' @ go_quote kind_kubernetes)
      else if sn_fingerprint s = [] then
        Some ''sourceFingerprint is empty, so this snapshot cannot be attributed to any source''
      else if sn_collected s = zero_time then
        Some (''collectedAt is unset, so the snapshot'' @ [CHR 0x27] @ ''s age cannot be judged'')
      else if sn_kind s = kind_postgres \<and> sn_postgres s = None then
        Some (''kind is '' @ go_quote kind_postgres @ '' but no postgres data is present'')
      else if sn_kind s = kind_kubernetes \<and> sn_kubernetes s = None then
        Some (''kind is '' @ go_quote kind_kubernetes @ '' but no kubernetes data is present'')
      else None)"

definition canonical_postgres :: "postgres_data \<Rightarrow> postgres_data" where
  "canonical_postgres d =
     \<lparr>pg_tables = sort_key (\<lambda>t. (tb_schema t, tb_name t)) (pg_tables d),
      pg_indexes = sort_key (\<lambda>i. (ix_schema i, ix_table i, ix_name i)) (pg_indexes d),
      pg_columns = sort_key (\<lambda>c. (cl_schema c, cl_table c, cl_name c)) (pg_columns d)\<rparr>"

definition canonical_kubernetes :: "kubernetes_data \<Rightarrow> kubernetes_data" where
  "canonical_kubernetes d =
     \<lparr>k_classes = sort_key sc_name (k_classes d),
      k_claims = sort_key (\<lambda>c. (pv_namespace c, pv_name c)) (k_claims d),
      k_workloads = sort_key (\<lambda>w. (wl_namespace w, wl_kind w, wl_name w)) (k_workloads d)\<rparr>"

definition canonicalize :: "snapshot \<Rightarrow> snapshot" where
  "canonicalize s = s\<lparr>sn_postgres := map_option canonical_postgres (sn_postgres s),
                      sn_kubernetes := map_option canonical_kubernetes (sn_kubernetes s)\<rparr>"

definition qualify :: "string \<Rightarrow> string \<Rightarrow> string" where
  "qualify schema name = (if schema = [] \<or> schema = ''public'' then name else schema @ ''.'' @ name)"

text \<open>The text before and after the last occurrence of a character, as the uses of
  \<open>strings.LastIndex\<close> have it.\<close>

definition split_last :: "char \<Rightarrow> string \<Rightarrow> string \<times> string" where
  "split_last c s =
     (if c \<in> set s then
        (let after = rev (takeWhile (\<lambda>x. x \<noteq> c) (rev s))
         in (take (length s - length after - 1) s, after))
      else ([], s))"

definition split_qualified :: "string \<Rightarrow> string \<times> string" where
  "split_qualified s = split_last (CHR ''.'') (trim_space s)"

subsection \<open>Merging\<close>

record source =
  so_fingerprint :: string
  so_environment :: string

record context_set =
  cs_postgres :: "postgres_data option"
  cs_kubernetes :: "kubernetes_data option"
  cs_warnings :: "string list"
  cs_digest :: string
  cs_sources :: "string \<Rightarrow> source option"

definition default_stale_after :: int where "default_stale_after = 7 * 24 * 3600"

definition short :: "string \<Rightarrow> string" where
  "short s = (if 12 < length s then take 12 s else s)"

definition describe_source :: "source \<Rightarrow> string" where
  "describe_source s =
     (if so_environment s = [] then ''fingerprint '' @ short (so_fingerprint s)
      else go_quote (so_environment s) @ '', fingerprint '' @ short (so_fingerprint s))"

datatype context_error =
    Unreadable string string | Undecodable string string | Mismatch string string source source

definition invalid_context :: string where "invalid_context = ''domain: invalid production context''"

fun context_error_text :: "context_error \<Rightarrow> string" where
  "context_error_text (Unreadable path e) = invalid_context @ '': reading '' @ path @ '': '' @ e"
| "context_error_text (Undecodable path e) = invalid_context @ '': '' @ path @ '': '' @ e"
| "context_error_text (Mismatch path kind current previous) =
     invalid_context @ '': '' @ path @ '' is a '' @ kind
     @ '' snapshot of a different source than the one already loaded ''
     @ ''('' @ describe_source current @ ''; expected '' @ describe_source previous
     @ ''); snapshots of two environments cannot be merged''"

text \<open>The civil date of a day, \<open>Format("2006-01-02")\<close>, by the usual division of the days into eras of
  400 years that begin in March.\<close>

definition civil_of_day :: "int \<Rightarrow> int \<times> int \<times> int" where
  "civil_of_day day =
     (let z = day + 719468; era = z div 146097; doe = z mod 146097;
          yoe = (doe - doe div 1460 + doe div 36524 - doe div 146096) div 365;
          doy = doe - (365 * yoe + yoe div 4 - yoe div 100);
          mp = (5 * doy + 2) div 153;
          d = doy - (153 * mp + 2) div 5 + 1;
          m = (if mp < 10 then mp + 3 else mp - 9)
      in (yoe + era * 400 + (if m \<le> 2 then 1 else 0), m, d))"

definition format_date :: "instant \<Rightarrow> string" where
  "format_date t =
     (case civil_of_day (t div 86400) of (y, m, d) \<Rightarrow>
        pad_zeros 4 (itoa y) @ ''-'' @ pad_zeros 2 (itoa m) @ ''-'' @ pad_zeros 2 (itoa d))"

definition whole_days :: "int \<Rightarrow> int" where
  "whole_days age = (if 0 \<le> age then age div 86400 else - ((- age) div 86400))"

definition add_postgres :: "postgres_data option \<Rightarrow> postgres_data \<Rightarrow> postgres_data" where
  "add_postgres old new =
     (let d = (case old of None \<Rightarrow> \<lparr>pg_tables = [], pg_indexes = [], pg_columns = []\<rparr> | Some d \<Rightarrow> d)
      in \<lparr>pg_tables = pg_tables d @ pg_tables new, pg_indexes = pg_indexes d @ pg_indexes new,
          pg_columns = pg_columns d @ pg_columns new\<rparr>)"

definition add_kubernetes :: "kubernetes_data option \<Rightarrow> kubernetes_data \<Rightarrow> kubernetes_data" where
  "add_kubernetes old new =
     (let d = (case old of None \<Rightarrow> \<lparr>k_classes = [], k_claims = [], k_workloads = []\<rparr> | Some d \<Rightarrow> d)
      in \<lparr>k_classes = k_classes d @ k_classes new, k_claims = k_claims d @ k_claims new,
          k_workloads = k_workloads d @ k_workloads new\<rparr>)"

text \<open>A snapshot that was validated has the data of its kind.\<close>

definition merge_snapshot ::
  "context_set \<Rightarrow> snapshot \<Rightarrow> string \<Rightarrow> instant \<Rightarrow> int \<Rightarrow> context_error + context_set" where
  "merge_snapshot s snap path now stale_after =
     (let current = \<lparr>so_fingerprint = sn_fingerprint snap, so_environment = sn_environment snap\<rparr>;
          conflict = (case cs_sources s (sn_kind snap) of
                        Some previous \<Rightarrow>
                          (if so_fingerprint previous \<noteq> so_fingerprint current then Some previous else None)
                      | None \<Rightarrow> None)
      in case conflict of
           Some previous \<Rightarrow> Inl (Mismatch path (sn_kind snap) current previous)
         | None \<Rightarrow>
             (let age = now - sn_collected snap;
                  s1 = s\<lparr>cs_sources := (cs_sources s)(sn_kind snap \<mapsto> current)\<rparr>;
                  s2 = (if stale_after < age then
                          s1\<lparr>cs_warnings := cs_warnings s1
                             @ [''the '' @ sn_kind snap @ '' snapshot is '' @ itoa (whole_days age)
                                @ '' days old (collected '' @ format_date (sn_collected snap)
                                @ ''); its numbers describe a system that has since moved on'']\<rparr>
                        else s1)
              in if sn_kind snap = kind_postgres then
                   Inr (s2\<lparr>cs_postgres := map_option (add_postgres (cs_postgres s2)) (sn_postgres snap)\<rparr>)
                 else if sn_kind snap = kind_kubernetes then
                   Inr (s2\<lparr>cs_kubernetes := map_option (add_kubernetes (cs_kubernetes s2)) (sn_kubernetes snap)\<rparr>)
                 else Inr s2))"

subsection \<open>The digest\<close>

definition write_int :: "int \<Rightarrow> string" where
  "write_int v = put_uint64 (word_of_int v)"

definition postgres_stream :: "(float64 \<Rightarrow> string) \<Rightarrow> postgres_data \<Rightarrow> string" where
  "postgres_stream fmt_g d =
     write_field ''postgres''
     @ concat (map (\<lambda>t. write_field (qualify (tb_schema t) (tb_name t))
         @ write_int (tb_rows t) @ write_int (tb_bytes t) @ write_int (tb_total t)) (pg_tables d))
     @ concat (map (\<lambda>i. write_field (qualify (ix_schema i) (ix_name i)) @ write_field (ix_table i)
         @ write_int (ix_bytes i) @ write_int (ix_scans i)) (pg_indexes d))
     @ concat (map (\<lambda>c. write_field (qualify (cl_schema c) (cl_table c)) @ write_field (cl_name c)
         @ write_field (fmt_g (cl_null c)) @ write_int (cl_width c)) (pg_columns d))"

definition kubernetes_stream :: "kubernetes_data \<Rightarrow> string" where
  "kubernetes_stream d =
     write_field ''kubernetes''
     @ concat (map (\<lambda>c. write_field (sc_name c) @ write_field (sc_policy c)) (k_classes d))
     @ concat (map (\<lambda>c. write_field (pv_namespace c) @ write_field (pv_name c)
         @ write_field (pv_phase c) @ write_field (pv_class c) @ write_field (pv_capacity c)) (k_claims d))
     @ concat (map (\<lambda>w. write_field (wl_namespace w) @ write_field (wl_kind w)
         @ write_field (wl_name w) @ write_int (wl_replicas w)) (k_workloads d))"

definition context_digest :: "(string \<Rightarrow> string) \<Rightarrow> (float64 \<Rightarrow> string) \<Rightarrow> context_set \<Rightarrow> string" where
  "context_digest sha fmt_g s =
     hex_encode (sha
       ((case cs_postgres s of None \<Rightarrow> [] | Some d \<Rightarrow> postgres_stream fmt_g d)
        @ (case cs_kubernetes s of None \<Rightarrow> [] | Some d \<Rightarrow> kubernetes_stream d)))"

subsection \<open>Loading\<close>

datatype file_read = Missing | ReadError string | Content string

definition decode_snapshot :: "(string \<Rightarrow> string + snapshot) \<Rightarrow> string \<Rightarrow> string + snapshot" where
  "decode_snapshot json raw =
     (case json raw of
        Inl e \<Rightarrow> Inl (''decoding: '' @ e)
      | Inr snap \<Rightarrow>
          (case validate_snapshot snap of Some e \<Rightarrow> Inl e | None \<Rightarrow> Inr (canonicalize snap)))"

fun load_files ::
  "(string \<Rightarrow> file_read) \<Rightarrow> (string \<Rightarrow> string + snapshot) \<Rightarrow> instant \<Rightarrow> int \<Rightarrow> string list \<Rightarrow>
     context_set \<Rightarrow> nat \<Rightarrow> context_error + context_set \<times> nat" where
  "load_files read json now stale [] s loaded = Inr (s, loaded)"
| "load_files read json now stale (path # paths) s loaded =
     (case read path of
        Missing \<Rightarrow> load_files read json now stale paths s loaded
      | ReadError e \<Rightarrow> Inl (Unreadable path e)
      | Content raw \<Rightarrow>
          (case decode_snapshot json raw of
             Inl e \<Rightarrow> Inl (Undecodable path e)
           | Inr snap \<Rightarrow>
               (case merge_snapshot s snap path now stale of
                  Inl e \<Rightarrow> Inl e
                | Inr s' \<Rightarrow> load_files read json now stale paths s' (Suc loaded))))"

definition empty_context :: context_set where
  "empty_context = \<lparr>cs_postgres = None, cs_kubernetes = None, cs_warnings = [], cs_digest = [],
     cs_sources = (\<lambda>k. None)\<rparr>"

definition load_context ::
  "(string \<Rightarrow> string) \<Rightarrow> (float64 \<Rightarrow> string) \<Rightarrow> (string \<Rightarrow> file_read) \<Rightarrow> (string \<Rightarrow> string + snapshot) \<Rightarrow>
     instant \<Rightarrow> int \<Rightarrow> string list \<Rightarrow> context_error + context_set option" where
  "load_context sha fmt_g read json now stale_after paths =
     (if paths = [] then Inr None
      else
        (let stale = (if stale_after = 0 then default_stale_after else stale_after) in
         case load_files read json now stale paths empty_context 0 of
           Inl e \<Rightarrow> Inl e
         | Inr (s, loaded) \<Rightarrow>
             if loaded = 0 then Inr None
             else Inr (Some (s\<lparr>cs_digest := context_digest sha fmt_g s,
                              cs_warnings := sort (cs_warnings s)\<rparr>))))"

subsection \<open>Lemmas\<close>

text \<open>Folding a file into the set records its source and keeps the fingerprint of every kind that was
  already recorded.\<close>

lemma merge_sources:
  assumes "merge_snapshot s snap path now stale = Inr s'"
  shows "map_option so_fingerprint (cs_sources s' (sn_kind snap)) = Some (sn_fingerprint snap)"
    and "cs_sources s k = Some previous \<Longrightarrow>
      map_option so_fingerprint (cs_sources s' k) = Some (so_fingerprint previous)"
proof -
  let ?current = "\<lparr>so_fingerprint = sn_fingerprint snap, so_environment = sn_environment snap\<rparr>"
  have src: "cs_sources s' = (cs_sources s)(sn_kind snap \<mapsto> ?current)"
    using assms by (auto simp: merge_snapshot_def Let_def split: option.splits if_splits)
  then show "map_option so_fingerprint (cs_sources s' (sn_kind snap)) = Some (sn_fingerprint snap)"
    by simp
  have agree: "so_fingerprint previous = sn_fingerprint snap"
    if "cs_sources s (sn_kind snap) = Some previous" for previous
    using assms that by (auto simp: merge_snapshot_def Let_def split: if_splits)
  show "cs_sources s k = Some previous \<Longrightarrow>
      map_option so_fingerprint (cs_sources s' k) = Some (so_fingerprint previous)"
    using agree by (auto simp: src)
qed

lemma load_files_sources:
  assumes "load_files read json now stale paths s n = Inr (s', n')"
  shows "cs_sources s k = Some previous \<Longrightarrow>
      map_option so_fingerprint (cs_sources s' k) = Some (so_fingerprint previous)"
    and "path \<in> set paths \<Longrightarrow> read path = Content raw \<Longrightarrow> decode_snapshot json raw = Inr snap \<Longrightarrow>
      map_option so_fingerprint (cs_sources s' (sn_kind snap)) = Some (sn_fingerprint snap)"
  using assms
proof (induction paths arbitrary: s n k previous)
  case (Cons p ps)
  { case 1
    show ?case
    proof (cases "read p")
      case (Content raw')
      then obtain snap' s1 where "decode_snapshot json raw' = Inr snap'"
        and m: "merge_snapshot s snap' p now stale = Inr s1"
        and rest: "load_files read json now stale ps s1 (Suc n) = Inr (s', n')"
        using 1(2) by (auto split: sum.splits)
      from merge_sources(2) [OF m 1(1)] obtain previous1
        where "cs_sources s1 k = Some previous1" and "so_fingerprint previous1 = so_fingerprint previous"
        by auto
      with Cons.IH(1) [OF _ rest] show ?thesis by metis
    qed (use 1 Cons.IH(1) in auto)
  next
    case 2
    show ?case
    proof (cases "path \<in> set ps")
      case True
      then show ?thesis
        using 2(2-4) Cons.IH(2) by (auto split: file_read.splits sum.splits)
    next
      case False
      with 2 obtain s1 where m: "merge_snapshot s snap p now stale = Inr s1"
        and rest: "load_files read json now stale ps s1 (Suc n) = Inr (s', n')"
        by (auto split: sum.splits)
      from merge_sources(1) [OF m] obtain src where "cs_sources s1 (sn_kind snap) = Some src"
        and "so_fingerprint src = sn_fingerprint snap" by auto
      with Cons.IH(1) [OF _ rest] show ?thesis by metis
    qed }
qed simp_all

subsection \<open>Properties\<close>

text \<open>Two environments are never merged: when loading succeeds, any two files that were read and
  describe the same kind of source carry the same fingerprint.\<close>

theorem loaded_sources_agree:
  assumes "load_context sha fmt_g read json now stale_after paths = Inr c"
    and "p \<in> set paths" and "read p = Content raw1" and "decode_snapshot json raw1 = Inr snap1"
    and "q \<in> set paths" and "read q = Content raw2" and "decode_snapshot json raw2 = Inr snap2"
    and "sn_kind snap1 = sn_kind snap2"
  shows "sn_fingerprint snap1 = sn_fingerprint snap2"
proof -
  have "paths \<noteq> []" using assms(2) by auto
  then obtain s n where l: "load_files read json now
      (if stale_after = 0 then default_stale_after else stale_after) paths empty_context 0 = Inr (s, n)"
    using assms(1) by (auto simp: load_context_def Let_def split: sum.splits)
  show ?thesis
    using load_files_sources(2) [OF l assms(2-4)] load_files_sources(2) [OF l assms(5-7)] assms(8)
    by simp
qed

definition tiny_snapshot :: snapshot where
  "tiny_snapshot = \<lparr>sn_schema_version = ''1.0.0'', sn_kind = ''postgres'', sn_environment = ''prod'',
     sn_collected = 0, sn_fingerprint = ''f1'',
     sn_postgres = Some \<lparr>pg_tables = [], pg_indexes = [], pg_columns = []\<rparr>, sn_kubernetes = None\<rparr>"

theorem loaded_sources_agree_witness: "sn_fingerprint tiny_snapshot = ''f1''"
proof -
  have d: "decode_snapshot (\<lambda>raw. Inr tiny_snapshot) [] = Inr (canonicalize tiny_snapshot)"
    by code_simp
  have "load_files (\<lambda>p. Content []) (\<lambda>raw. Inr tiny_snapshot) 0 default_stale_after [''a'', ''b'']
      empty_context 0 \<noteq> Inl e" for e
    by (simp add: d merge_snapshot_def Let_def empty_context_def)
  then obtain a n where "load_files (\<lambda>p. Content []) (\<lambda>raw. Inr tiny_snapshot) 0 default_stale_after
      [''a'', ''b''] empty_context 0 = Inr (a, n)"
    by (metis sum.exhaust surj_pair)
  then have "\<exists>c. load_context (\<lambda>b. b) (\<lambda>x. []) (\<lambda>p. Content []) (\<lambda>raw. Inr tiny_snapshot) 0 0
      [''a'', ''b''] = Inr c"
    unfolding load_context_def by simp
  then obtain c where l: "load_context (\<lambda>b. b) (\<lambda>x. []) (\<lambda>p. Content []) (\<lambda>raw. Inr tiny_snapshot) 0 0
      [''a'', ''b''] = Inr c" by blast
  have "sn_fingerprint (canonicalize tiny_snapshot) = sn_fingerprint (canonicalize tiny_snapshot)"
    by (rule loaded_sources_agree [where p = "''a''" and q = "''b''", OF l _ _ d _ _ d]) simp_all
  then show ?thesis by (simp add: tiny_snapshot_def)
qed

text \<open>A file that is not there is not an error: paths that do not exist can be dropped from the
  list without changing the result, and when none exists there is no context.\<close>

theorem missing_files_are_ignored:
  "load_context sha fmt_g read json now stale_after (filter (\<lambda>p. read p \<noteq> Missing) paths)
     = load_context sha fmt_g read json now stale_after paths"
proof -
  have same: "load_files read json now stale (filter (\<lambda>p. read p \<noteq> Missing) paths) s n
      = load_files read json now stale paths s n" for stale s n
    by (induction paths arbitrary: s n) (auto split: file_read.splits sum.splits)
  have "load_files read json now stale paths s 0 = Inr (s, 0)"
    if "filter (\<lambda>p. read p \<noteq> Missing) paths = []" for stale s
    using that by (induction paths) (auto split: if_splits)
  then show ?thesis
    unfolding load_context_def Let_def same by auto
qed

end
