(* ===== verification/Estimate.thy ===== *)
theory Estimate
  imports Go_Float Domain
begin

text \<open>
  The arithmetic behind every duration and size the enrichment prints,
  \<open>internal/snapshot/estimate.go\<close>: throughput constants, lock duration bands and the formatting of
  approximate figures. A \<open>time.Duration\<close> is its number of nanoseconds.
\<close>

definition rewrite_bytes_per_second :: int where "rewrite_bytes_per_second = 50 * 2 ^ 20"
definition scan_bytes_per_second :: int where "scan_bytes_per_second = 200 * 2 ^ 20"
definition second :: int where "second = 1000000000"
definition negligible_under :: int where "negligible_under = 1 * second"
definition noticeable_under :: int where "noticeable_under = 30 * second"
definition disruptive_under :: int where "disruptive_under = 5 * 60 * second"

definition rate_for :: "lock_hazard \<Rightarrow> int option" where
  "rate_for l =
     (case l of
        LockTableRewrite \<Rightarrow> Some rewrite_bytes_per_second
      | LockFullScan \<Rightarrow> Some scan_bytes_per_second
      | _ \<Rightarrow> None)"

definition duration_of :: "int \<Rightarrow> int \<Rightarrow> int" where
  "duration_of bytes rate =
     fl_to_int64 (fl_mult (fl_div (fl_of_int bytes) (fl_of_int rate)) (fl_of_int second))"

definition band_for :: "int \<Rightarrow> lock_hazard \<Rightarrow> lock_duration_band" where
  "band_for bytes l =
     (if \<not> at_least l LockFullScan \<or> bytes \<le> 0 then no_band
      else
        (case rate_for l of
           None \<Rightarrow> no_band
         | Some rate \<Rightarrow>
             (let d = duration_of bytes rate in
              if d < negligible_under then BandNegligible
              else if d < noticeable_under then BandNoticeable
              else if d < disruptive_under then BandDisruptive
              else BandOutage)))"

definition estimate :: "int \<Rightarrow> int \<Rightarrow> string" where
  "estimate bytes rate =
     (if bytes \<le> 0 \<or> rate \<le> 0 then []
      else
        (let seconds = fl_div (fl_of_int bytes) (fl_of_int rate) in
         if fl_less seconds (fl_of_int 1) then ''~<1s''
         else if fl_less seconds (fl_of_int 90) then ''~'' @ itoa (fl_round_int seconds) @ ''s''
         else if fl_less seconds (fl_of_int (90 * 60)) then
           ''~'' @ itoa (fl_round_int (fl_div seconds (fl_of_int 60))) @ ''m''
         else
           (let hours = fl_div seconds (fl_of_int 3600) in
            if fl_less hours (fl_of_int 10) then ''~'' @ fl_fixed 1 hours @ ''h''
            else ''~'' @ itoa (fl_round_int hours) @ ''h'')))"

definition estimate_for :: "int \<Rightarrow> lock_hazard \<Rightarrow> string" where
  "estimate_for bytes l = (case rate_for l of None \<Rightarrow> [] | Some rate \<Rightarrow> estimate bytes rate)"

definition estimated_duration :: "int \<Rightarrow> string \<Rightarrow> int" where
  "estimated_duration bytes kind =
     (let rate = (if kind = ''rewrite'' then rewrite_bytes_per_second else scan_bytes_per_second)
      in if bytes \<le> 0 then 0 else duration_of bytes rate)"

text \<open>The loop over the units divides by 1024 until the value is below it or the units are used up.\<close>

fun pick_unit :: "float64 \<Rightarrow> string \<Rightarrow> string list \<Rightarrow> float64 \<times> string" where
  "pick_unit v u [] = (v, u)"
| "pick_unit v u (w # ws) =
     (let v' = fl_div v (fl_of_int 1024) in
      if fl_less v' (fl_of_int 1024) then (v', w) else pick_unit v' w ws)"

definition format_bytes :: "int \<Rightarrow> string" where
  "format_bytes b =
     (if b < 0 then ''an unknown size''
      else if b < 1024 then itoa b @ '' B''
      else
        (case pick_unit (fl_of_int b) [] [''KiB'', ''MiB'', ''GiB'', ''TiB'', ''PiB''] of
           (v, u) \<Rightarrow>
             if \<not> fl_less v (fl_of_int 100) then fl_fixed 0 v @ '' '' @ u
             else fl_fixed 1 v @ '' '' @ u))"

definition trim_zero :: "float64 \<Rightarrow> string" where
  "trim_zero v = (if \<not> fl_less v (fl_of_int 100) then fl_fixed 0 v else fl_fixed 1 v)"

definition format_rows :: "int \<Rightarrow> string" where
  "format_rows n =
     (if n < 0 then ''an unknown number of''
      else if n < 1000 then itoa n
      else if n < 1000000 then fl_fixed 0 (fl_div (fl_of_int n) (fl_of_int 1000)) @ ''K''
      else if n < 1000000000 then trim_zero (fl_div (fl_of_int n) (fl_of_int 1000000)) @ ''M''
      else trim_zero (fl_div (fl_of_int n) (fl_of_int 1000000000)) @ ''B'')"

definition format_percent :: "float64 \<Rightarrow> string" where
  "format_percent f =
     (if \<not> fl_less (fl_of_int 0) f then ''0%''
      else if fl_less f (fl_round 1 10000) then ''<0.01%''
      else if fl_less f (fl_round 1 100) then fl_fixed 2 (fl_mult f (fl_of_int 100)) @ ''%''
      else fl_fixed 0 (fl_mult f (fl_of_int 100)) @ ''%'')"

end
