(* ===== verification/Candidate.thy ===== *)
theory Candidate
  imports Domain
begin

text \<open>
  Candidate detection and coverage, \<open>internal/engine/candidate.go\<close>: was there anything in the
  changeset the engine ought to have been able to read? The registry of analyzers enters as the
  predicate \<open>supports\<close>, which is what \<open>Engine.Supports\<close> computes from it, and the namespace of the
  run as the function \<open>locate\<close>. \<open>located\<close>, which stamps the files, is in \<open>engine.go\<close>.
\<close>

subsection \<open>One path\<close>

definition migration_dirs :: "string list" where
  "migration_dirs = [''migrations'', ''migration'', ''migrate'']"

definition candidate_extensions :: "string list" where
  "candidate_extensions = [''.py'', ''.rb'', ''.js'', ''.ts'']"

definition in_migration_dir :: "located \<Rightarrow> bool" where
  "in_migration_dir l \<longleftrightarrow> list_ex (\<lambda>seg. seg \<in> set migration_dirs) (loc_segments (loc_dir l))"

definition classify_candidate :: "located \<Rightarrow> bool \<times> string" where
  "classify_candidate l =
     (let clean = to_lower l; ext = loc_ext l in
      if has_suffix clean ''.sql'' then (True, ''no analyzer claimed this .sql file'')
      else if ext \<notin> set candidate_extensions then
        (if in_migration_dir l then (False, ''not analyzed, and it sits in a migration directory'')
         else (False, []))
      else if list_ex (\<lambda>seg. seg \<in> set migration_dirs) (loc_segments (loc_dir l)) then
        (True, ''no analyzer reads '' @ ext @ '' migrations'')
      else (False, []))"

definition candidate :: "located \<Rightarrow> bool" where
  "candidate l = fst (classify_candidate l)"

definition unanalyzed_files :: "string list \<Rightarrow> (string \<Rightarrow> located) \<Rightarrow> unanalyzed_file list" where
  "unanalyzed_files paths locate =
     map (\<lambda>p. let reason = snd (classify_candidate (locate p)) in
            \<lparr>u_path = p,
             u_reason = (if reason = [] then ''not analyzed, and it sits in a migration directory''
                         else reason)\<rparr>) paths"

subsection \<open>The way forward\<close>

definition partial_coverage_blocker :: string where
  "partial_coverage_blocker =
     ''Cannot guarantee reversibility. Unanalyzed files found in '' @
     ''migration directories. Remove them or explicitly ignore them in the config.''"

definition render_to_sql :: string where
  "render_to_sql = ''Render these migrations to SQL and point the engine at the output.''"

definition rendering_remedies :: "string \<Rightarrow> string option" where
  "rendering_remedies =
     [''.py'' \<mapsto> ''Django: `python manage.py sqlmigrate <app> <name> > rendered/<name>.sql`. '' @
        ''Alembic: `alembic upgrade <rev> --sql > rendered/<rev>.sql`.'',
      ''.rb'' \<mapsto> ''Rails: set `config.active_record.schema_format = :sql`, run `bin/rails db:migrate`, '' @
        ''and point the engine at `db/structure.sql`.'']"

definition slashed :: "string \<Rightarrow> string" where
  "slashed p = replace_char (CHR 0x5C) slash p"

definition rendering_remedy :: "string list \<Rightarrow> string list" where
  "rendering_remedy paths =
     (let exts = sorted_keys (filter (\<lambda>e. e \<in> set candidate_extensions)
                   (map (\<lambda>p. to_lower (path_ext (slashed p))) paths))
      in if exts = [] then []
         else render_to_sql # List.map_filter rendering_remedies exts)"

definition plural :: "nat \<Rightarrow> string \<Rightarrow> string" where
  "plural n noun = (if n = 1 then ''1 '' @ noun else utoa n @ '' '' @ noun @ ''s'')"

definition group_dir :: "string \<Rightarrow> string" where
  "group_dir p =
     (let dir = path_dir (slashed p) in
      if dir = ''.'' \<or> dir = ''/'' then ''the changeset root'' else dir)"

definition unsupported_content_blockers :: "string list \<Rightarrow> string list" where
  "unsupported_content_blockers paths =
     map (\<lambda>dir.
        let group = filter (\<lambda>p. group_dir p = dir) paths;
            exts = sorted_keys (filter (\<lambda>e. e \<noteq> []) (map (\<lambda>p. to_lower (path_ext (slashed p))) group))
        in ''found '' @ plural (length group) ''file'' @ '' in '' @ dir @
           '' that no analyzer supports ('' @ join '', '' exts @
           '' migrations). Reversibility was not assessed.'')
       (sorted_keys (map group_dir paths))
     @ rendering_remedy paths"

subsection \<open>The changeset\<close>

definition stamp_located :: "changed_file list \<Rightarrow> (string \<Rightarrow> located) \<Rightarrow> changed_file list" where
  "stamp_located files locate = map (\<lambda>f. f\<lparr>p_at := locate (p_path f)\<rparr>) files"

definition migration_directories ::
  "(located \<Rightarrow> bool) \<Rightarrow> string list \<Rightarrow> (string \<Rightarrow> located) \<Rightarrow> located list" where
  "migration_directories supports enumerated locate =
     map (\<lambda>p. loc_dir (locate p))
       (filter (\<lambda>p. supports (locate p) \<or> in_migration_dir (locate p)) enumerated)"

definition outcome ::
  "(located \<Rightarrow> bool) \<Rightarrow> changed_file list \<Rightarrow> string list \<Rightarrow> (string \<Rightarrow> located) \<Rightarrow>
     analysis_outcome \<times> string list" where
  "outcome supports files enumerated locate =
     (let read = map p_path files;
          claimed = list_ex (\<lambda>f. supports (location_of f)) files;
          dirs = migration_directories supports enumerated locate;
          unsupported = sort (filter (\<lambda>p.
            \<not> (p \<in> set read \<and> supports (locate p))
            \<and> (loc_dir (locate p) \<in> set dirs \<or> candidate (locate p))) enumerated)
      in if claimed then (OutcomeAnalyzed, unsupported)
         else if unsupported \<noteq> [] then (OutcomeUnsupportedContent, unsupported)
         else (OutcomeNoCandidates, []))"

subsection \<open>Lemmas\<close>

lemma in_migration_dir_iff:
  "in_migration_dir l \<longleftrightarrow> (\<exists>seg\<in>set (loc_segments (loc_dir l)). seg \<in> set migration_dirs)"
  by (auto simp: in_migration_dir_def list_ex_iff)

lemma candidate_iff:
  "candidate l \<longleftrightarrow> has_suffix (to_lower l) ''.sql''
     \<or> loc_ext l \<in> set candidate_extensions \<and> in_migration_dir l"
  by (simp add: candidate_def classify_candidate_def Let_def in_migration_dir_def)

lemma unanalyzed_reason_nonempty: "u \<in> set (unanalyzed_files paths locate) \<Longrightarrow> u_reason u \<noteq> []"
  by (auto simp: unanalyzed_files_def Let_def split: if_splits)

lemma map_u_path [simp]: "map u_path (unanalyzed_files paths locate) = paths"
  by (simp add: unanalyzed_files_def Let_def comp_def)

lemma set_migration_directories:
  "d \<in> set (migration_directories supports enumerated locate) \<longleftrightarrow>
     (\<exists>p\<in>set enumerated. loc_dir (locate p) = d \<and> (supports (locate p) \<or> in_migration_dir (locate p)))"
  by (auto simp: migration_directories_def)

text \<open>What a path has to be to count against coverage.\<close>

definition uncovered ::
  "(located \<Rightarrow> bool) \<Rightarrow> changed_file list \<Rightarrow> string list \<Rightarrow> (string \<Rightarrow> located) \<Rightarrow> string \<Rightarrow> bool" where
  "uncovered supports files enumerated locate p \<longleftrightarrow>
     \<not> (p \<in> p_path ` set files \<and> supports (locate p))
     \<and> ((\<exists>q\<in>set enumerated. loc_dir (locate q) = loc_dir (locate p)
            \<and> (supports (locate q) \<or> in_migration_dir (locate q)))
        \<or> candidate (locate p))"

lemma outcome_eq:
  "outcome supports files enumerated locate =
     (let bad = sort (filter (uncovered supports files enumerated locate) enumerated) in
      if \<exists>f\<in>set files. supports (location_of f) then (OutcomeAnalyzed, bad)
      else if bad \<noteq> [] then (OutcomeUnsupportedContent, bad) else (OutcomeNoCandidates, []))"
  unfolding outcome_def Let_def
  by (simp add: set_migration_directories uncovered_def [abs_def] list_ex_iff image_def)

lemma set_outcome:
  "set (snd (outcome supports files enumerated locate)) =
     {p \<in> set enumerated. uncovered supports files enumerated locate p}"
proof -
  have "set (sort (filter P xs)) = {x \<in> set xs. P x}" for P and xs :: "string list" by auto
  moreover have "sort (filter P xs) = [] \<longleftrightarrow> {x \<in> set xs. P x} = {}" for P and xs :: "string list"
    by (metis calculation set_empty)
  ultimately show ?thesis
    by (simp add: outcome_eq Let_def)
qed

lemma sorted_outcome: "sorted (snd (outcome supports files enumerated locate))"
  by (simp add: outcome_eq Let_def)

lemma sort_map_append:
  fixes xs :: "string list"
  shows "sort (map (\<lambda>x. w @ x) xs) = map (\<lambda>x. w @ x) (sort xs)"
proof (rule properties_for_sort)
  have "w @ x \<le> w @ y" if "x \<le> y" for x y
    using that by (induction w) auto
  then show "sorted (map (\<lambda>x. w @ x) (sort xs))"
    by (intro sorted_map_mono) (auto intro: mono_onI)
qed simp

text \<open>A changeset of repository files, read from a root \<open>as\<close>: the provider names each file by its
  path below the root.\<close>

definition named_from :: "string list \<Rightarrow> (string list \<Rightarrow> changed_file) \<Rightarrow> string list list \<Rightarrow> changed_file list" where
  "named_from as content reads = map (\<lambda>s. (content s)\<lparr>p_path := path_of (as @ s)\<rparr>) reads"

lemma uncovered_rooted:
  assumes "repo_segs as" and "\<forall>s\<in>set reads \<union> set paths. repo_segs s" and "s \<in> set paths"
  shows "uncovered supports (stamp_located (named_from [] content reads) (new_locator (path_of as)))
           (map path_of paths) (new_locator (path_of as)) (path_of s)
     \<longleftrightarrow> uncovered supports (stamp_located (named_from as content reads) identity_locator)
           (map (\<lambda>s. path_of (as @ s)) paths) identity_locator (path_of (as @ s))"
proof -
  have L: "new_locator (path_of as) (path_of t) = path_of (as @ t)"
    and I: "identity_locator (path_of (as @ t)) = path_of (as @ t)" if "repo_segs t" for t
    using assms(1) that by (simp_all add: locate_rooted identity_locator_def locate_identity)
  have inj: "path_of t = path_of u \<longleftrightarrow> t = u" if "repo_segs t" "repo_segs u" for t u
    using that by (metis split_path_of repo_segs_def)
  have inj2: "path_of (as @ t) = path_of (as @ u) \<longleftrightarrow> t = u" if "repo_segs t" "repo_segs u" for t u
    using that inj [of "as @ t" "as @ u"] assms(1) by simp
  have read1: "path_of s \<in> p_path ` set (stamp_located (named_from [] content reads) l) \<longleftrightarrow> s \<in> set reads" for l
    using assms inj by (force simp: stamp_located_def named_from_def image_def)
  have read2: "path_of (as @ s) \<in> p_path ` set (stamp_located (named_from as content reads) l)
      \<longleftrightarrow> s \<in> set reads" for l
    using assms inj2 by (force simp: stamp_located_def named_from_def image_def)
  show ?thesis
    unfolding uncovered_def read1 read2
    using assms L I by auto
qed

lemma path_of_append: "as \<noteq> [] \<Longrightarrow> bs \<noteq> [] \<Longrightarrow> path_of (as @ bs) = path_of as @ ''/'' @ path_of bs"
  unfolding path_of_def
proof (induction as)
  case (Cons a as)
  then show ?case by (cases as; cases bs) auto
qed simp

lemma filter_map_cong:
  "(\<And>x. x \<in> set xs \<Longrightarrow> P (f x) = Q (g x)) \<Longrightarrow> filter P (map f xs) = map f (filter (\<lambda>x. Q (g x)) xs)"
  by (induction xs) auto

lemma claimed_rooted:
  assumes "repo_segs as" and "\<forall>s\<in>set reads. repo_segs s"
  shows "(\<exists>f\<in>set (stamp_located (named_from [] content reads) (new_locator (path_of as))).
            supports (location_of f))
     \<longleftrightarrow> (\<exists>f\<in>set (stamp_located (named_from as content reads) identity_locator).
            supports (location_of f))"
  using assms path_of_not_dot
  by (simp add: stamp_located_def named_from_def location_of_def locate_rooted identity_locator_def
      locate_identity)

subsection \<open>Properties\<close>

text \<open>The answer does not depend on how the analysis root was named: analysing a directory of a
  repository, with its position as the prefix of the run, gives the outcome of analysing the
  repository, and reports the same files, each by its path below the root.\<close>

theorem outcome_root_independent:
  assumes "repo_segs as" and "\<forall>s\<in>set reads \<union> set paths. repo_segs s"
  shows "outcome supports (stamp_located (named_from as content reads) identity_locator)
           (map (\<lambda>s. path_of (as @ s)) paths) identity_locator
     = map_prod id (map (\<lambda>p. path_of as @ ''/'' @ p))
         (outcome supports (stamp_located (named_from [] content reads) (new_locator (path_of as)))
           (map path_of paths) (new_locator (path_of as)))"
proof -
  let ?u = "uncovered supports (stamp_located (named_from as content reads) identity_locator)
      (map (\<lambda>s. path_of (as @ s)) paths) identity_locator"
  let ?r = "uncovered supports (stamp_located (named_from [] content reads) (new_locator (path_of as)))
      (map path_of paths) (new_locator (path_of as))"
  have pre: "path_of (as @ s) = path_of as @ ''/'' @ path_of s" if "s \<in> set paths" for s
    using that assms by (simp add: path_of_append repo_segs_def)
  have "filter ?r (map path_of paths) = map path_of (filter (\<lambda>s. ?u (path_of (as @ s))) paths)"
    using uncovered_rooted [OF assms] by (intro filter_map_cong) blast
  moreover have "filter ?u (map (\<lambda>s. path_of (as @ s)) paths)
      = map (\<lambda>s. path_of (as @ s)) (filter (\<lambda>s. ?u (path_of (as @ s))) paths)"
    by (simp add: filter_map comp_def)
  moreover have "map (\<lambda>s. path_of (as @ s)) (filter Q paths)
      = map (\<lambda>p. (path_of as @ ''/'') @ p) (map path_of (filter Q paths))" for Q
    using pre by auto
  ultimately have "sort (filter ?u (map (\<lambda>s. path_of (as @ s)) paths))
      = map (\<lambda>p. (path_of as @ ''/'') @ p) (sort (filter ?r (map path_of paths)))"
    by (simp only: sort_map_append)
  then show ?thesis
    unfolding outcome_eq Let_def using claimed_rooted [OF assms(1), of reads] assms(2) by auto
qed

definition blank_file :: changed_file where
  "blank_file = \<lparr>p_path = [], p_previous_path = [], p_status = StatusAdded, p_previous = [],
     p_current = [], p_at = []\<rparr>"

theorem outcome_root_independent_witness:
  "outcome (\<lambda>l. False) (stamp_located (named_from [] (\<lambda>s. blank_file) []) (new_locator ''auth/migrations''))
     [''0001_initial.py''] (new_locator ''auth/migrations'')
     = (OutcomeUnsupportedContent, [''0001_initial.py''])
   \<and> outcome (\<lambda>l. False) (stamp_located (named_from [''auth'', ''migrations''] (\<lambda>s. blank_file) []) identity_locator)
     [''auth/migrations/0001_initial.py''] identity_locator
     = (OutcomeUnsupportedContent, [''auth/migrations/0001_initial.py''])"
proof -
  have segs: "repo_segs [''auth'', ''migrations'']" "repo_segs [''0001_initial.py'']" by code_simp+
  have paths: "path_of [''auth'', ''migrations''] = ''auth/migrations''"
    "path_of ([''auth'', ''migrations''] @ [''0001_initial.py'']) = ''auth/migrations/0001_initial.py''"
    "path_of [''0001_initial.py''] = ''0001_initial.py''"
    by code_simp+
  have o': "outcome (\<lambda>l. False) (stamp_located (named_from [] (\<lambda>s. blank_file) []) (new_locator ''auth/migrations''))
     [''0001_initial.py''] (new_locator ''auth/migrations'')
     = (OutcomeUnsupportedContent, [''0001_initial.py''])" by code_simp
  show ?thesis
    using outcome_root_independent [of "[''auth'', ''migrations'']" "[]" "[[''0001_initial.py'']]"
        "\<lambda>l. False" "\<lambda>s. blank_file"] segs o'
    by (simp only: list.map paths list.set map_prod_simp) simp
qed

text \<open>Coverage is strict: when a run is analysed with nothing reported, every file that exists in
  a migration directory, by its name or because an analyzer claims a file beside it, and every
  migration-shaped file anywhere, was read and is claimed by an analyzer.\<close>

theorem analyzed_clean_covers_directories:
  assumes "outcome supports files enumerated locate = (OutcomeAnalyzed, [])"
    and "p \<in> set enumerated"
    and "(\<exists>q\<in>set enumerated. loc_dir (locate q) = loc_dir (locate p)
            \<and> (supports (locate q) \<or> in_migration_dir (locate q))) \<or> candidate (locate p)"
  shows "p \<in> p_path ` set files \<and> supports (locate p)"
proof -
  have "{p \<in> set enumerated. uncovered supports files enumerated locate p} = {}"
    using set_outcome [of supports files enumerated locate] assms(1) by simp
  then show ?thesis using assms(2,3) by (auto simp: uncovered_def)
qed

theorem analyzed_clean_covers_directories_witness:
  "''db/1.sql'' \<in> p_path ` set [blank_file\<lparr>p_path := ''db/1.sql''\<rparr>]
   \<and> has_suffix (identity_locator ''db/1.sql'') ''.sql''"
proof (rule analyzed_clean_covers_directories [where enumerated = "[''db/1.sql'']"
      and locate = identity_locator and supports = "\<lambda>l. has_suffix l ''.sql''"])
  show "outcome (\<lambda>l. has_suffix l ''.sql'') [blank_file\<lparr>p_path := ''db/1.sql''\<rparr>] [''db/1.sql'']
      identity_locator = (OutcomeAnalyzed, [])" by code_simp
  show "''db/1.sql'' \<in> set [''db/1.sql'']" by simp
  have "candidate (identity_locator ''db/1.sql'')" by code_simp
  then show "(\<exists>q\<in>set [''db/1.sql'']. loc_dir (identity_locator q) = loc_dir (identity_locator ''db/1.sql'')
      \<and> (has_suffix (identity_locator q) ''.sql'' \<or> in_migration_dir (identity_locator q)))
    \<or> candidate (identity_locator ''db/1.sql'')" by blast
qed

text \<open>A run is reported as having nothing to assess exactly when no file that was read is claimed
  by an analyzer and no file that exists is migration-shaped or sits in a migration directory.\<close>

theorem no_candidates_exact:
  "fst (outcome supports files enumerated locate) = OutcomeNoCandidates \<longleftrightarrow>
     {f \<in> set files. supports (location_of f)} = {}
     \<and> {p \<in> set enumerated. uncovered supports files enumerated locate p} = {}"
proof -
  have "sort (filter P xs) = [] \<longleftrightarrow> {x \<in> set xs. P x} = {}" for P and xs :: "string list"
    by (metis set_empty set_filter set_sort)
  then show ?thesis
    by (auto simp: outcome_eq Let_def)
qed

end
