(* ===== verification/Scorer.thy ===== *)
theory Scorer
  imports Candidate
begin

text \<open>
  The scoring rules, \<open>internal/engine/scorer.go\<close>. \<open>score\<close> has the code's order of checks: analyzer
  errors, blocking findings, the shape of the run, and only then a grade, assigned and then lowered
  by every ceiling in turn. The ceilings are the calls of the closure \<open>applyCap\<close>, each with its
  reason, in the order of the code; \<open>grade_cap\<close> is an instance of the locale \<open>ceiling\<close>, from which
  the independence of that order follows.
\<close>

record score_input =
  i_findings :: "finding list"
  i_down_migrations :: "down_migration_status list"
  i_analyzer_errors :: "string list"
  i_outcome :: analysis_outcome
  i_unsupported :: "string list"

record score_result =
  r_grade :: grade
  r_blockers :: "string list"
  r_causes :: "string list"

subsection \<open>Findings and down migrations\<close>

definition location :: "finding \<Rightarrow> string" where
  "location f = (if 0 < f_line f then f_file f @ '':'' @ itoa (f_line f) else f_file f)"

definition blocking_finding :: "finding \<Rightarrow> string option" where
  "blocking_finding f =
     (if \<not> rev_valid (f_reversibility f) then
        Some (f_rule_id f @ '' at '' @ location f @ '': produced an unrecognised verdict ''
          @ go_quote (rev_text (f_reversibility f)))
      else
        (case f_reversibility f of
           Irreversible \<Rightarrow>
             Some (f_rule_id f @ '' at '' @ location f @ '': irreversible '' @ emdash @ '' '' @ f_rationale f)
         | Unknown \<Rightarrow>
             Some (f_rule_id f @ '' at '' @ location f @ '': unknown '' @ emdash @ '' '' @ f_rationale f)
         | WillFail \<Rightarrow>
             Some (f_rule_id f @ '' at '' @ location f @ '': will not apply '' @ emdash @ '' '' @ f_rationale f)
         | _ \<Rightarrow> None))"

definition blocking_findings :: "finding list \<Rightarrow> string list" where
  "blocking_findings findings = sort (List.map_filter blocking_finding findings)"

definition down_migrations_are_sound :: "down_migration_status list \<Rightarrow> bool" where
  "down_migrations_are_sound statuses \<longleftrightarrow> \<not> list_ex (\<lambda>s. \<not> d_exists s \<or> \<not> d_parses s) statuses"

definition unsound_down_migrations :: "down_migration_status list \<Rightarrow> string list" where
  "unsound_down_migrations statuses =
     (let out = map (\<lambda>s. or_else (d_up_file s) (d_migration s))
                  (filter (\<lambda>s. \<not> d_exists s \<or> \<not> d_parses s) statuses)
      in if out = [] then [''a migration in this changeset''] else sort out)"

definition failed_a_row_conditions :: "bool \<Rightarrow> lock_hazard \<Rightarrow> bool \<Rightarrow> string" where
  "failed_a_row_conditions all_reversible worst_lock down_ok =
     join '', ''
       ((if \<not> all_reversible then [''not every finding is REVERSIBLE''] else [])
        @ (if at_least worst_lock LockFullScan then [''the worst lock is '' @ lock_text worst_lock] else [])
        @ (if \<not> down_ok then [''a down migration is missing or unparseable''] else []))"

subsection \<open>The measured grade\<close>

definition costly_count :: "finding list \<Rightarrow> nat" where
  "costly_count findings = length (filter (\<lambda>f. f_reversibility f = Costly) findings)"

definition all_reversible :: "finding list \<Rightarrow> bool" where
  "all_reversible findings \<longleftrightarrow> \<not> list_ex (\<lambda>f. f_reversibility f \<noteq> Reversible) findings"

definition worst_lock :: "finding list \<Rightarrow> lock_hazard" where
  "worst_lock findings =
     foldl (\<lambda>worst f. if at_least (f_lock f) worst then f_lock f else worst) LockNone findings"

definition assignment :: "nat \<Rightarrow> grade \<times> string list" where
  "assignment costly =
     (if 3 \<le> costly then (GradeC, [''assigned C: '' @ utoa costly @ '' findings are COSTLY to reverse''])
      else if 1 \<le> costly then
        (GradeB, [''assigned B: '' @ utoa costly @ '' finding(s) are COSTLY to reverse''])
      else (GradeA, [''assigned A: every finding is REVERSIBLE'']))"

definition apply_cap :: "grade \<times> string list \<Rightarrow> grade \<times> string \<Rightarrow> grade \<times> string list" where
  "apply_cap st c =
     (case st of (grade, causes) \<Rightarrow> case c of (limit, reason) \<Rightarrow>
        let capped = grade_cap grade limit in
        (capped, if capped \<noteq> grade
                 then causes @ [''capped at '' @ grade_text limit @ '': '' @ reason] else causes))"

definition band_ceiling :: "finding \<Rightarrow> (grade \<times> string) option" where
  "band_ceiling f =
     (case f_context f of
        None \<Rightarrow> None
      | Some x \<Rightarrow>
          (if band_cap (x_band x) \<noteq> no_grade then
             Some (band_cap (x_band x),
               f_rule_id f @ '' at '' @ location f @ '' holds its lock for an estimated ''
               @ x_estimated_lock_duration x @ '' ('' @ band_text (x_band x) @ '')'')
           else None))"

definition ceilings :: "finding list \<Rightarrow> down_migration_status list \<Rightarrow> (grade \<times> string) list" where
  "ceilings findings down =
     (let reversible = all_reversible findings; worst = worst_lock findings;
          down_ok = down_migrations_are_sound down
      in (if \<not> down_ok then
            [(GradeC, ''no usable down migration for '' @ join '', '' (unsound_down_migrations down))]
          else [])
         @ (if at_least worst LockTableRewrite then
              [(GradeB, ''a '' @ lock_text worst @ '' lock is held while the change is applied'')]
            else [])
         @ List.map_filter band_ceiling findings
         @ (if \<not> reversible \<or> at_least worst LockFullScan \<or> \<not> down_ok then
              [(GradeB, ''grade A requires every finding REVERSIBLE, a lock no worse than SHORT, ''
                 @ ''and a valid down migration; '' @ failed_a_row_conditions reversible worst down_ok)]
            else []))"

definition measured :: "finding list \<Rightarrow> down_migration_status list \<Rightarrow> score_result" where
  "measured findings down =
     (case foldl apply_cap (assignment (costly_count findings)) (ceilings findings down) of
        (grade, causes) \<Rightarrow>
          \<lparr>r_grade = grade, r_blockers = [],
           r_causes = (if grade = GradeA then causes @ [''nothing capped this grade''] else causes)\<rparr>)"

subsection \<open>Scoring\<close>

definition score :: "score_input \<Rightarrow> score_result" where
  "score i =
     (if i_analyzer_errors i \<noteq> [] then
        \<lparr>r_grade = GradeF,
         r_blockers = sort (map (\<lambda>e. ''analysis did not complete: '' @ e) (i_analyzer_errors i)),
         r_causes = [''graded F: the analysis did not complete, so nothing about this change could be established'']\<rparr>
      else if blocking_findings (i_findings i) \<noteq> [] then
        \<lparr>r_grade = GradeF, r_blockers = blocking_findings (i_findings i),
         r_causes = [''graded F by '' @ utoa (length (blocking_findings (i_findings i)))
                     @ '' blocking finding(s), listed above'']\<rparr>
      else
        (case i_outcome i of
           OutcomeAnalyzed \<Rightarrow>
             (if i_unsupported i \<noteq> [] then
                \<lparr>r_grade = GradeF,
                 r_blockers = [partial_coverage_blocker]
                   @ map (\<lambda>p. ''not analyzed: '' @ p) (i_unsupported i)
                   @ rendering_remedy (i_unsupported i),
                 r_causes = [''graded F: coverage is PARTIAL '' @ emdash @ '' ''
                   @ utoa (length (i_unsupported i))
                   @ '' file(s) in migration directories were not analyzed'']\<rparr>
              else measured (i_findings i) (i_down_migrations i))
         | OutcomeNoCandidates \<Rightarrow>
             \<lparr>r_grade = GradeNA, r_blockers = [],
              r_causes = [''not graded: the changeset held no file any analyzer could claim'']\<rparr>
         | OutcomeUnsupportedContent \<Rightarrow>
             \<lparr>r_grade = GradeNA, r_blockers = unsupported_content_blockers (i_unsupported i),
              r_causes = [''not graded: no analyzer could read the files in this changeset'']\<rparr>
         | _ \<Rightarrow>
             \<lparr>r_grade = GradeF,
              r_blockers = [''the engine could not establish what this run analyzed, so nothing about it can be certified''],
              r_causes = [''graded F: the shape of this run could not be established'']\<rparr>))"

subsection \<open>Lemmas\<close>

definition blocks :: "finding \<Rightarrow> bool" where
  "blocks f \<longleftrightarrow> f_reversibility f \<noteq> Reversible \<and> f_reversibility f \<noteq> Costly"

lemma blocking_finding_None [simp]: "blocking_finding f = None \<longleftrightarrow> \<not> blocks f"
  by (cases "f_reversibility f") (simp_all add: blocking_finding_def blocks_def)

lemma map_filter_nil: "List.map_filter g xs = [] \<longleftrightarrow> list_all (\<lambda>x. g x = None) xs"
  by (induction xs) (auto simp: map_filter_simps split: option.splits)

lemma sort_nil_iff [simp]: "sort xs = [] \<longleftrightarrow> xs = []" for xs :: "'a::linorder list"
  by (metis mset_sort mset_zero_iff)

lemma blocking_findings_nil: "blocking_findings fs = [] \<longleftrightarrow> list_all (\<lambda>f. \<not> blocks f) fs"
  by (simp add: blocking_findings_def map_filter_nil)

lemma mset_map_filter:
  "mset xs = mset ys \<Longrightarrow> mset (List.map_filter g xs) = mset (List.map_filter g ys)"
  by (metis List.map_filter_def mset_filter mset_map)

lemma list_all_mset: "mset xs = mset ys \<Longrightarrow> list_all P xs = list_all P ys"
  by (metis list.pred_set mset_eq_setD)

lemma fst_apply_cap: "fst (apply_cap st c) = grade_cap (fst st) (fst c)"
  by (simp add: apply_cap_def Let_def split: prod.splits)

lemma fst_foldl_apply_cap: "fst (foldl apply_cap st cs) = foldl grade_cap (fst st) (map fst cs)"
  by (induction cs arbitrary: st) (simp_all add: fst_apply_cap)

lemma foldl_apply_cap_causes: "snd (foldl apply_cap (g, causes) cs) = [] \<Longrightarrow> causes = []"
proof (induction cs arbitrary: g causes)
  case (Cons c cs)
  obtain g' causes' where st: "apply_cap (g, causes) c = (g', causes')" by force
  then have "causes' = [] \<longrightarrow> causes = []"
    by (cases c) (auto simp: apply_cap_def Let_def split: if_splits)
  with Cons st show ?case by (metis foldl_Cons)
qed simp

lemma measured_grade:
  "r_grade (measured fs down)
     = foldl grade_cap (fst (assignment (costly_count fs))) (map fst (ceilings fs down))"
proof -
  obtain g cs where st: "foldl apply_cap (assignment (costly_count fs)) (ceilings fs down) = (g, cs)"
    by force
  then show ?thesis
    using fst_foldl_apply_cap [of "assignment (costly_count fs)" "ceilings fs down"]
    by (simp add: measured_def)
qed

lemma measured_blockers [simp]: "r_blockers (measured fs down) = []"
  by (simp add: measured_def split: prod.splits)

lemma assignment_cause [simp]: "snd (assignment n) \<noteq> []"
  by (simp add: assignment_def)

lemma measured_causes: "r_causes (measured fs down) \<noteq> []"
proof -
  obtain g cs where st: "foldl apply_cap (assignment (costly_count fs)) (ceilings fs down) = (g, cs)"
    by force
  moreover obtain a as where a: "assignment (costly_count fs) = (a, as)" and "as \<noteq> []"
    by (metis assignment_cause prod.collapse)
  ultimately have "cs \<noteq> []"
    using foldl_apply_cap_causes [of a as "ceilings fs down"] by auto
  with st show ?thesis by (simp add: measured_def)
qed

lemma at_least_fold:
  "at_least (foldl (\<lambda>worst f. if at_least (f_lock f) worst then f_lock f else worst) w fs) l
     \<longleftrightarrow> at_least w l \<or> list_ex (\<lambda>f. at_least (f_lock f) l) fs"
proof (induction fs arbitrary: w)
  case (Cons f fs)
  have "at_least (if at_least (f_lock f) w then f_lock f else w) l
      \<longleftrightarrow> at_least w l \<or> at_least (f_lock f) l"
    by (auto simp: at_least_def)
  with Cons show ?case by simp
qed simp

text \<open>The worst lock reaches a level exactly when one of the locks does.\<close>

lemma at_least_worst_simps [verdict_simps]:
  "at_least (worst_lock fs) LockFullScan \<longleftrightarrow> list_ex (\<lambda>f. at_least (f_lock f) LockFullScan) fs"
  "at_least (worst_lock fs) LockTableRewrite \<longleftrightarrow> list_ex (\<lambda>f. at_least (f_lock f) LockTableRewrite) fs"
  unfolding worst_lock_def at_least_fold by (simp_all add: at_least_def)

lemma set_ceilings:
  "g \<in> fst ` set (ceilings fs down) \<longleftrightarrow>
     g = GradeC \<and> \<not> down_migrations_are_sound down
     \<or> g = GradeB \<and> (list_ex (\<lambda>f. at_least (f_lock f) LockFullScan) fs
         \<or> \<not> list_all (\<lambda>f. f_reversibility f = Reversible) fs \<or> \<not> down_migrations_are_sound down)
     \<or> (\<exists>f\<in>set fs. \<exists>x. f_context f = Some x \<and> g = band_cap (x_band x) \<and> g \<noteq> no_grade)"
proof -
  have band: "g \<in> fst ` set (List.map_filter band_ceiling fs)
      \<longleftrightarrow> (\<exists>f\<in>set fs. \<exists>x. f_context f = Some x \<and> g = band_cap (x_band x) \<and> g \<noteq> no_grade)"
    by (force simp: List.map_filter_def band_ceiling_def image_iff split: option.splits if_splits)
  have rewrite: "list_ex (\<lambda>f. at_least (f_lock f) LockTableRewrite) fs
      \<Longrightarrow> list_ex (\<lambda>f. at_least (f_lock f) LockFullScan) fs"
    by (force simp: list_ex_iff at_least_def)
  have rev: "all_reversible fs \<longleftrightarrow> list_all (\<lambda>f. f_reversibility f = Reversible) fs"
    by (auto simp: all_reversible_def list_ex_iff list_all_iff)
  show ?thesis
    unfolding ceilings_def Let_def
    using rewrite by (simp add: image_Un band at_least_worst_simps rev) blast
qed

lemma set_ceilings_cong:
  assumes "set fs = set fs'" and "down_migrations_are_sound down = down_migrations_are_sound down'"
  shows "fst ` set (ceilings fs down) = fst ` set (ceilings fs' down')"
  by (rule set_eqI) (simp only: set_ceilings list_ex_iff list_all_iff assms)

lemma rank_measured:
  "k \<le> grade_rank (r_grade (measured fs down)) \<longleftrightarrow>
     k \<le> grade_rank (fst (assignment (costly_count fs)))
     \<and> (\<forall>g\<in>fst ` set (ceilings fs down). k \<le> grade_rank g)"
  unfolding measured_grade gc.caps_rank by (simp add: Min_ge_iff)

lemma rank_ceilings: "g \<in> fst ` set (ceilings fs down) \<Longrightarrow> 1 \<le> grade_rank g"
  unfolding set_ceilings
proof (elim disjE bexE exE conjE)
  fix f x
  assume "g = band_cap (x_band x)" and "g \<noteq> no_grade"
  then show ?thesis by (cases "x_band x") simp_all
qed simp_all

lemma measured_not_F: "1 \<le> grade_rank (r_grade (measured fs down))"
  unfolding rank_measured using rank_ceilings by (simp add: assignment_def)

lemma measured_mono:
  assumes "mset fs \<subseteq># mset fs'"
  shows "grade_rank (r_grade (measured fs' down)) \<le> grade_rank (r_grade (measured fs down))"
proof -
  have sub: "set fs \<subseteq> set fs'" using assms by (metis set_mset_mono set_mset_mset)
  have "costly_count fs \<le> costly_count fs'"
    using assms unfolding costly_count_def
    by (metis multiset_filter_mono mset_filter size_mset size_mset_mono)
  then have costly: "grade_rank (fst (assignment (costly_count fs'))) \<le> grade_rank (fst (assignment (costly_count fs)))"
    by (simp add: assignment_def)
  have caps: "g \<in> fst ` set (ceilings fs' down)" if "g \<in> fst ` set (ceilings fs down)" for g
    using that sub unfolding set_ceilings list_ex_iff list_all_iff by blast
  have low: "grade_rank (r_grade (measured fs' down)) \<le> grade_rank (fst (assignment (costly_count fs')))"
    and each: "\<forall>g\<in>fst ` set (ceilings fs' down). grade_rank (r_grade (measured fs' down)) \<le> grade_rank g"
    using rank_measured [of "grade_rank (r_grade (measured fs' down))" fs' down] by simp_all
  show ?thesis
    using order_trans [OF low costly] each caps
    by (simp only: rank_measured [where fs = fs]) blast
qed

definition clean_finding :: "finding \<Rightarrow> bool" where
  "clean_finding f \<longleftrightarrow> f_reversibility f = Reversible \<and> \<not> at_least (f_lock f) LockFullScan
     \<and> (case f_context f of None \<Rightarrow> True | Some x \<Rightarrow> band_cap (x_band x) = no_grade)"

lemma no_ceilings:
  "fst ` set (ceilings fs down) = {} \<longleftrightarrow> list_all clean_finding fs \<and> down_migrations_are_sound down"
proof (rule iffI)
  assume e: "fst ` set (ceilings fs down) = {}"
  have none: "\<not> (g = GradeC \<and> \<not> down_migrations_are_sound down
     \<or> g = GradeB \<and> (list_ex (\<lambda>f. at_least (f_lock f) LockFullScan) fs
         \<or> \<not> list_all (\<lambda>f. f_reversibility f = Reversible) fs \<or> \<not> down_migrations_are_sound down)
     \<or> (\<exists>f\<in>set fs. \<exists>x. f_context f = Some x \<and> g = band_cap (x_band x) \<and> g \<noteq> no_grade))" for g
    unfolding set_ceilings [symmetric] e by simp
  have "clean_finding f" if "f \<in> set fs" for f
    using none [of GradeB] none that unfolding clean_finding_def list_ex_iff list_all_iff
    by (cases "f_context f") auto
  then show "list_all clean_finding fs \<and> down_migrations_are_sound down"
    using none [of GradeC] by (simp add: list_all_iff)
next
  assume c: "list_all clean_finding fs \<and> down_migrations_are_sound down"
  then have "\<not> list_ex (\<lambda>f. at_least (f_lock f) LockFullScan) fs"
    and "list_all (\<lambda>f. f_reversibility f = Reversible) fs"
    by (simp_all add: list_all_iff list_ex_iff clean_finding_def)
  moreover have "band_cap (x_band x) = no_grade" if "f \<in> set fs" "f_context f = Some x" for f x
    using c that by (auto simp: list_all_iff clean_finding_def)
  ultimately have "\<not> g \<in> fst ` set (ceilings fs down)" for g
    using c unfolding set_ceilings by blast
  then show "fst ` set (ceilings fs down) = {}" by (simp only: set_eq_iff) simp
qed

lemma measured_A:
  "r_grade (measured fs down) = GradeA \<longleftrightarrow> list_all clean_finding fs \<and> down_migrations_are_sound down"
proof -
  have band: "grade_rank (band_cap b) < 3" for b by (cases b) simp_all
  have low: "\<not> 3 \<le> grade_rank g" if "g \<in> fst ` set (ceilings fs down)" for g
    using that band unfolding set_ceilings by (auto simp: not_le)
  have assigned: "3 \<le> grade_rank (fst (assignment n)) \<longleftrightarrow> n = 0" for n
    by (auto simp: assignment_def)
  have costly: "list_all clean_finding fs \<Longrightarrow> costly_count fs = 0"
    by (auto simp: costly_count_def list_all_iff filter_empty_conv clean_finding_def)
  have "r_grade (measured fs down) = GradeA \<longleftrightarrow> 3 \<le> grade_rank (r_grade (measured fs down))"
    using grade_rank_le3 [of "r_grade (measured fs down)"] grade_rank_A [of "r_grade (measured fs down)"]
    by linarith
  also have "\<dots> \<longleftrightarrow> costly_count fs = 0 \<and> fst ` set (ceilings fs down) = {}"
  proof -
    have "(\<forall>g\<in>S. 3 \<le> grade_rank g) \<longleftrightarrow> S = {}" if "\<And>g. g \<in> S \<Longrightarrow> \<not> 3 \<le> grade_rank g" for S
      using that by blast
    then show ?thesis unfolding rank_measured assigned using low by presburger
  qed
  finally show ?thesis
    unfolding no_ceilings using costly by blast
qed

subsection \<open>Properties\<close>

lemma score_A:
  "r_grade (score i) = GradeA \<longleftrightarrow>
     i_analyzer_errors i = [] \<and> i_outcome i = OutcomeAnalyzed \<and> i_unsupported i = []
     \<and> list_all clean_finding (i_findings i)
     \<and> list_all (\<lambda>s. d_exists s \<and> d_parses s) (i_down_migrations i)"
proof -
  have "list_all clean_finding (i_findings i) \<Longrightarrow> blocking_findings (i_findings i) = []"
    by (auto simp: blocking_findings_nil list_all_iff blocks_def clean_finding_def)
  moreover have "down_migrations_are_sound (i_down_migrations i)
      \<longleftrightarrow> list_all (\<lambda>s. d_exists s \<and> d_parses s) (i_down_migrations i)"
    by (auto simp: down_migrations_are_sound_def list_all_iff list_ex_iff)
  ultimately show ?thesis
    by (cases "i_outcome i") (auto simp: score_def measured_A)
qed

text \<open>When the grade is A: the analysis finished, files were read and none in scope was left out,
  every finding is reversible with a lock no worse than SHORT and no capping lock duration, and every
  migration has a down migration that exists and parses.\<close>

theorem grade_A_exact:
  "r_grade (score i) = GradeA \<longleftrightarrow>
     i_analyzer_errors i = [] \<and> i_outcome i = OutcomeAnalyzed \<and> i_unsupported i = []
     \<and> list_all clean_finding (i_findings i)
     \<and> list_all (\<lambda>s. d_exists s \<and> d_parses s) (i_down_migrations i)"
  by (rule score_A)

lemma score_F:
  "r_grade (score i) = GradeF \<longleftrightarrow>
     i_analyzer_errors i \<noteq> []
     \<or> list_ex (\<lambda>f. f_reversibility f \<noteq> Reversible \<and> f_reversibility f \<noteq> Costly) (i_findings i)
     \<or> i_outcome i = OutcomeAnalyzed \<and> i_unsupported i \<noteq> []
     \<or> \<not> outcome_valid (i_outcome i)"
proof -
  have "r_grade (measured fs down) \<noteq> GradeF" for fs down
    using measured_not_F [of fs down] by auto
  moreover have "blocking_findings (i_findings i) = [] \<longleftrightarrow>
      \<not> list_ex (\<lambda>f. f_reversibility f \<noteq> Reversible \<and> f_reversibility f \<noteq> Costly) (i_findings i)"
    by (auto simp: blocking_findings_nil list_all_iff list_ex_iff blocks_def)
  ultimately show ?thesis
    by (cases "i_outcome i") (simp_all add: score_def)
qed

text \<open>When the grade is F, exactly: an analyzer failed, a finding is neither REVERSIBLE nor COSTLY
  (an unrecognised verdict included), a file in scope was not read though others were, or the shape
  of the run is not one the domain knows. Partial coverage of an analysed run therefore fails it.\<close>

theorem grade_F_exact:
  "r_grade (score i) = GradeF \<longleftrightarrow>
     0 < length (i_analyzer_errors i)
     \<or> list_ex (\<lambda>f. f_reversibility f \<noteq> Reversible \<and> f_reversibility f \<noteq> Costly) (i_findings i)
     \<or> i_outcome i = OutcomeAnalyzed \<and> i_unsupported i \<noteq> []
     \<or> outcome_valid (i_outcome i) = False"
  by (simp add: score_F)

definition in_band :: "lock_duration_band \<Rightarrow> finding \<Rightarrow> bool" where
  "in_band b f \<longleftrightarrow> (case f_context f of None \<Rightarrow> False | Some x \<Rightarrow> x_band x = b)"

lemma measured_C_or_worse:
  "2 \<le> grade_rank (r_grade (measured fs down)) \<longleftrightarrow>
     costly_count fs < 3 \<and> down_migrations_are_sound down \<and> \<not> list_ex (in_band BandOutage) fs"
proof -
  have assigned: "2 \<le> grade_rank (fst (assignment n)) \<longleftrightarrow> n < 3" for n by (auto simp: assignment_def)
  have band: "\<not> 2 \<le> grade_rank (band_cap b) \<and> band_cap b \<noteq> no_grade \<longleftrightarrow> b = BandOutage" for b by (cases b) simp_all
  have outage: "list_ex (in_band BandOutage) fs \<longleftrightarrow> (\<exists>f\<in>set fs. \<exists>x. f_context f = Some x \<and> x_band x = BandOutage)"
    by (auto simp: list_ex_iff in_band_def split: option.splits)
  have "(\<forall>g\<in>fst ` set (ceilings fs down). 2 \<le> grade_rank g)
      \<longleftrightarrow> down_migrations_are_sound down \<and> \<not> list_ex (in_band BandOutage) fs"
    unfolding Ball_def set_ceilings outage using band by fastforce
  then show ?thesis unfolding rank_measured assigned by blast
qed

lemma measured_table:
  assumes "\<not> list_ex blocks fs"
  shows "r_grade (measured fs down) =
     (if list_ex (\<lambda>s. \<not> d_exists s \<or> \<not> d_parses s) down \<or> 3 \<le> costly_count fs \<or> list_ex (in_band BandOutage) fs then GradeC
      else if list_ex (\<lambda>f. f_reversibility f = Costly \<or> at_least (f_lock f) LockFullScan \<or> in_band BandDisruptive f) fs
      then GradeB else GradeA)"
proof -
  let ?g = "r_grade (measured fs down)"
  have cap: "band_cap b = no_grade \<longleftrightarrow> b \<noteq> BandOutage \<and> b \<noteq> BandDisruptive" for b by (cases b) simp_all
  have clean: "clean_finding f \<longleftrightarrow> \<not> (f_reversibility f = Costly \<or> at_least (f_lock f) LockFullScan \<or> in_band BandDisruptive f)
      \<and> \<not> in_band BandOutage f" if "f \<in> set fs" for f
    using assms that by (auto simp: clean_finding_def list_ex_iff blocks_def in_band_def cap split: option.splits)
  have A: "?g = GradeA \<longleftrightarrow> list_all clean_finding fs \<and> down_migrations_are_sound down" by (rule measured_A)
  have none: "costly_count fs = 0" if "list_all clean_finding fs"
    using that by (auto simp: costly_count_def list_all_iff filter_empty_conv clean_finding_def)
  have sound: "down_migrations_are_sound down \<longleftrightarrow> \<not> list_ex (\<lambda>s. \<not> d_exists s \<or> \<not> d_parses s) down"
    by (simp add: down_migrations_are_sound_def)
  have all: "list_all clean_finding fs \<longleftrightarrow>
      \<not> list_ex (\<lambda>f. f_reversibility f = Costly \<or> at_least (f_lock f) LockFullScan \<or> in_band BandDisruptive f) fs
      \<and> \<not> list_ex (in_band BandOutage) fs"
    using clean by (auto simp: list_all_iff list_ex_iff)
  show ?thesis
    using measured_not_F [of fs down] measured_C_or_worse [of fs down] A none all sound
    by (cases ?g) auto
qed

definition reversible_finding :: finding where
  "reversible_finding = \<lparr>f_rule_id = ''PG001'', f_file = ''a.sql'', f_line = 1, f_statement = [],
     f_reversibility = Reversible, f_lock = LockShort, f_rationale = [], f_undo = [],
     f_subject = no_subject, f_context = None\<rparr>"

text \<open>C9. The grade of a run that analyzed something and read everything in scope, exactly as the scoring table of
  \<open>docs/RULES.md\<close> lists it: F for an analyzer that failed or a finding that is neither REVERSIBLE nor COSTLY, an
  unrecognised verdict included; otherwise C for a down migration that is missing or does not parse, for three
  COSTLY findings or more, and for a lock estimated to be an outage; otherwise B for a COSTLY finding, for a lock
  worse than SHORT, and for one estimated to be disruptive; and A for everything else.\<close>

theorem scoring_table_followed:
  assumes "i_outcome i = OutcomeAnalyzed" and "i_unsupported i = []"
  shows "r_grade (score i) =
     (if i_analyzer_errors i \<noteq> []
         \<or> list_ex (\<lambda>f. f_reversibility f \<noteq> Reversible \<and> f_reversibility f \<noteq> Costly) (i_findings i) then GradeF
      else if list_ex (\<lambda>s. \<not> d_exists s \<or> \<not> d_parses s) (i_down_migrations i)
         \<or> 3 \<le> length (filter (\<lambda>f. f_reversibility f = Costly) (i_findings i))
         \<or> list_ex (in_band BandOutage) (i_findings i) then GradeC
      else if list_ex (\<lambda>f. f_reversibility f = Costly) (i_findings i)
         \<or> list_ex (\<lambda>f. f_lock f \<noteq> LockNone \<and> f_lock f \<noteq> LockShort) (i_findings i)
         \<or> list_ex (in_band BandDisruptive) (i_findings i) then GradeB
      else GradeA)"
proof -
  have blocked: "blocking_findings (i_findings i) \<noteq> [] \<longleftrightarrow> list_ex blocks (i_findings i)"
    by (auto simp: blocking_findings_nil list_all_iff list_ex_iff)
  have lock: "at_least l LockFullScan \<longleftrightarrow> l \<noteq> LockNone \<and> l \<noteq> LockShort" for l
    by (cases l) (simp_all add: at_least_def)
  have "list_ex (\<lambda>f. P f \<or> Q f \<or> R f) xs \<longleftrightarrow> list_ex P xs \<or> list_ex Q xs \<or> list_ex R xs" for P Q R and xs :: "finding list"
    by (auto simp: list_ex_iff)
  then show ?thesis
    using measured_table [of "i_findings i" "i_down_migrations i"] blocked assms score_F [of i]
    unfolding lock by (auto simp: score_def costly_count_def blocks_def)
qed

theorem scoring_table_followed_witness:
  "map (\<lambda>fs. r_grade (score \<lparr>i_findings = fs, i_down_migrations = [], i_analyzer_errors = [],
       i_outcome = OutcomeAnalyzed, i_unsupported = []\<rparr>))
     [[reversible_finding\<lparr>f_reversibility := Reversible, f_lock := LockShort\<rparr>],
      [reversible_finding\<lparr>f_reversibility := Reversible, f_lock := LockFullScan\<rparr>],
      replicate 2 (reversible_finding\<lparr>f_reversibility := Costly, f_lock := LockNone\<rparr>),
      replicate 3 (reversible_finding\<lparr>f_reversibility := Costly, f_lock := LockNone\<rparr>),
      [reversible_finding\<lparr>f_reversibility := WillFail, f_lock := LockNone\<rparr>]]
   = [GradeA, GradeB, GradeB, GradeC, GradeF]"
  by (simp add: scoring_table_followed reversible_finding_def in_band_def numeral_eq_Suc)

lemma score_reasons:
  "r_causes (score i) \<noteq> [] \<and> (r_grade (score i) = GradeF \<longleftrightarrow>
     r_blockers (score i) \<noteq> [] \<and> r_grade (score i) \<noteq> GradeNA)"
proof -
  have "r_grade (measured fs down) \<noteq> GradeF" for fs down
    using measured_not_F [of fs down] by auto
  then show ?thesis
    by (cases "i_outcome i") (simp_all add: score_def measured_causes)
qed

text \<open>Every grade is explained: there is always a cause, and there are blockers exactly for a grade
  F, apart from a run that could not be assessed at all.\<close>

theorem score_explained:
  "r_causes (score i) \<noteq> [] \<and> (r_grade (score i) = GradeF \<longleftrightarrow>
     r_blockers (score i) \<noteq> [] \<and> r_grade (score i) \<noteq> GradeNA)"
  by (rule score_reasons)

lemma score_mono:
  assumes "i_outcome i = OutcomeAnalyzed" and "mset (i_findings i) \<subseteq># mset fs"
  shows "grade_rank (r_grade (score (i\<lparr>i_findings := fs\<rparr>))) \<le> grade_rank (r_grade (score i))"
proof -
  have "blocking_findings fs = [] \<Longrightarrow> blocking_findings (i_findings i) = []"
    using assms(2) by (auto simp: blocking_findings_nil list_all_iff dest: mset_subset_eqD)
  moreover have "0 \<le> grade_rank (r_grade (measured gs down))" for gs down
    using measured_not_F [of gs down] by simp
  ultimately show ?thesis
    using assms measured_mono [OF assms(2)] by (simp add: score_def)
qed

text \<open>C10. More evidence never improves a grade: adding findings to an analysed run, wherever they are
  inserted, cannot raise the rank of its grade.\<close>

theorem findings_never_improve_grade:
  assumes "i_outcome i = OutcomeAnalyzed" and "mset (i_findings i) \<subseteq># mset fs"
  shows "grade_rank (r_grade (score (i\<lparr>i_findings := fs\<rparr>))) \<le> grade_rank (r_grade (score i))"
  using assms by (rule score_mono)

theorem findings_never_improve_grade_witness:
  "grade_rank (r_grade (score \<lparr>i_findings = [reversible_finding\<lparr>f_reversibility := Costly\<rparr>, reversible_finding],
      i_down_migrations = [], i_analyzer_errors = [], i_outcome = OutcomeAnalyzed, i_unsupported = []\<rparr>)) \<le> 3"
proof -
  let ?i = "\<lparr>i_findings = [reversible_finding], i_down_migrations = [], i_analyzer_errors = [],
      i_outcome = OutcomeAnalyzed, i_unsupported = []\<rparr>"
  have "r_grade (score ?i) = GradeA" by code_simp
  then show ?thesis
    using findings_never_improve_grade [of ?i "[reversible_finding\<lparr>f_reversibility := Costly\<rparr>, reversible_finding]"]
    by simp
qed

text \<open>Only what was found counts, not the order it was found in: permuting the findings, the down
  migrations and the analyzer errors changes neither the grade nor the blockers.\<close>

theorem score_order_independent:
  assumes "mset (i_findings i) = mset (i_findings j)"
    and "mset (i_down_migrations i) = mset (i_down_migrations j)"
    and "mset (i_analyzer_errors i) = mset (i_analyzer_errors j)"
    and "i_outcome i = i_outcome j" and "i_unsupported i = i_unsupported j"
  shows "r_grade (score i) = r_grade (score j) \<and> r_blockers (score i) = r_blockers (score j)"
proof -
  have sorted: "sort xs = sort ys" if "mset xs = mset ys" for xs ys :: "string list"
    using that by (rule sort_key_permutation) simp
  have blockers: "blocking_findings (i_findings i) = blocking_findings (i_findings j)"
    unfolding blocking_findings_def using assms(1) by (intro sorted mset_map_filter)
  have down: "down_migrations_are_sound (i_down_migrations i) = down_migrations_are_sound (i_down_migrations j)"
    using list_all_mset [OF assms(2), of "\<lambda>s. d_exists s \<and> d_parses s"]
    by (auto simp: down_migrations_are_sound_def list_all_iff list_ex_iff)
  have "set (i_findings i) = set (i_findings j)" using assms(1) by (rule mset_eq_setD)
  then have ceilings: "fst ` set (ceilings (i_findings i) (i_down_migrations i))
      = fst ` set (ceilings (i_findings j) (i_down_migrations j))"
    using down by (rule set_ceilings_cong)
  have costly: "costly_count (i_findings i) = costly_count (i_findings j)"
    unfolding costly_count_def using assms(1) by (metis mset_filter size_mset)
  have "grade_rank (r_grade (measured (i_findings i) (i_down_migrations i)))
      = grade_rank (r_grade (measured (i_findings j) (i_down_migrations j)))"
    using rank_measured [of _ "i_findings i" "i_down_migrations i"]
      rank_measured [of _ "i_findings j" "i_down_migrations j"]
    unfolding ceilings costly by (metis order_antisym order_refl)
  then have "r_grade (measured (i_findings i) (i_down_migrations i))
      = r_grade (measured (i_findings j) (i_down_migrations j))"
    using measured_not_F [of "i_findings i" "i_down_migrations i"]
    by (intro grade_rank_inj) (auto simp: grade_threshold_rank)
  moreover have "i_analyzer_errors i = [] \<longleftrightarrow> i_analyzer_errors j = []"
    using assms(3) by (metis mset_zero_iff)
  moreover have "mset (map h (i_analyzer_errors i)) = mset (map h (i_analyzer_errors j))" for h :: "string \<Rightarrow> string"
    using assms(3) by simp
  ultimately show ?thesis
    using sorted assms(4,5) blockers
    by (cases "i_outcome j") (simp_all add: score_def del: append_Cons append_Nil)
qed

theorem score_order_independent_witness:
  "r_grade (score \<lparr>i_findings = [reversible_finding, reversible_finding\<lparr>f_reversibility := Costly\<rparr>],
      i_down_migrations = [], i_analyzer_errors = [], i_outcome = OutcomeAnalyzed, i_unsupported = []\<rparr>) = GradeB"
proof -
  let ?c = "reversible_finding\<lparr>f_reversibility := Costly\<rparr>"
  let ?i = "\<lambda>fs. \<lparr>i_findings = fs, i_down_migrations = [], i_analyzer_errors = [],
      i_outcome = OutcomeAnalyzed, i_unsupported = []\<rparr>"
  have "r_grade (score (?i [?c, reversible_finding])) = GradeB" by code_simp
  then show ?thesis
    using score_order_independent [of "?i [reversible_finding, ?c]" "?i [?c, reversible_finding]"] by simp
qed

end
