(* ===== verification/Enrich.thy ===== *)
theory Enrich
  imports Snapshot Estimate Scorer
begin

text \<open>
  What production metadata adds to a finding, \<open>internal/snapshot/enrich.go\<close>: a context with sizes and
  an estimated lock duration, and for one rule the classification \<open>WILL_FAIL\<close>. The lookups count
  matches and report whether there was exactly one; a lookup that fails still hands back the last
  match, or the zero value, as the code does.
\<close>

subsection \<open>Lookups\<close>

definition lookup :: "('a \<Rightarrow> bool) \<Rightarrow> 'a list \<Rightarrow> 'a \<Rightarrow> 'a \<times> bool" where
  "lookup P xs zero =
     (let matches = filter P xs
      in (if matches = [] then zero else last matches, length matches = 1))"

definition zero_table :: table_stat where
  "zero_table = \<lparr>tb_schema = [], tb_name = [], tb_rows = 0, tb_bytes = 0, tb_total = 0\<rparr>"

definition zero_column :: column_stat where
  "zero_column = \<lparr>cl_schema = [], cl_table = [], cl_name = [], cl_null = Fl 0 0, cl_width = 0\<rparr>"

definition zero_index :: index_stat where
  "zero_index = \<lparr>ix_schema = [], ix_table = [], ix_name = [], ix_bytes = 0, ix_scans = 0, ix_reset = None\<rparr>"

definition zero_claim :: claim_stat where
  "zero_claim = \<lparr>pv_namespace = [], pv_name = [], pv_phase = [], pv_class = [], pv_capacity = []\<rparr>"

definition same_object :: "string \<Rightarrow> string \<Rightarrow> string \<Rightarrow> string \<Rightarrow> bool" where
  "same_object ref_schema ref_name obj_schema obj_name \<longleftrightarrow>
     (if \<not> equal_fold ref_name obj_name then False
      else if ref_schema = [] then True
      else equal_fold ref_schema obj_schema)"

definition split_namespaced :: "string \<Rightarrow> string \<times> string" where
  "split_namespaced s = split_last slash s"

definition qualified_object :: "string \<Rightarrow> string \<Rightarrow> string" where
  "qualified_object relation obj = (if relation = [] then obj else relation @ ''.'' @ obj)"

definition find_table :: "context_set \<Rightarrow> string \<Rightarrow> table_stat \<times> bool" where
  "find_table s relation =
     (case cs_postgres s of
        None \<Rightarrow> (zero_table, False)
      | Some d \<Rightarrow>
          if relation = [] then (zero_table, False)
          else
            (case split_qualified relation of (schema, name) \<Rightarrow>
               lookup (\<lambda>t. same_object schema name (tb_schema t) (tb_name t)) (pg_tables d) zero_table))"

definition find_column :: "context_set \<Rightarrow> string \<Rightarrow> string \<Rightarrow> column_stat \<times> bool" where
  "find_column s relation column =
     (case cs_postgres s of
        None \<Rightarrow> (zero_column, False)
      | Some d \<Rightarrow>
          if relation = [] \<or> column = [] then (zero_column, False)
          else
            (case split_qualified relation of (schema, name) \<Rightarrow>
               lookup (\<lambda>c. \<not> (\<not> same_object schema name (cl_schema c) (cl_table c)
                             \<or> \<not> equal_fold (cl_name c) column)) (pg_columns d) zero_column))"

definition find_index :: "context_set \<Rightarrow> string \<Rightarrow> string \<Rightarrow> index_stat \<times> bool" where
  "find_index s name relation =
     (case cs_postgres s of
        None \<Rightarrow> (zero_index, False)
      | Some d \<Rightarrow>
          if name = [] then (zero_index, False)
          else
            (case split_qualified name of (schema, bare) \<Rightarrow>
             case split_qualified relation of (_, table) \<Rightarrow>
               lookup (\<lambda>i. same_object schema bare (ix_schema i) (ix_name i)
                         \<and> \<not> (table \<noteq> [] \<and> \<not> equal_fold table (ix_table i))) (pg_indexes d) zero_index))"

definition find_claim :: "context_set \<Rightarrow> string \<Rightarrow> claim_stat \<times> bool" where
  "find_claim s name =
     (case cs_kubernetes s of
        None \<Rightarrow> (zero_claim, False)
      | Some d \<Rightarrow>
          if name = [] then (zero_claim, False)
          else
            (case split_namespaced name of (namespace, bare) \<Rightarrow>
               lookup (\<lambda>c. equal_fold (pv_name c) bare
                         \<and> \<not> (namespace \<noteq> [] \<and> \<not> equal_fold (pv_namespace c) namespace))
                 (k_claims d) zero_claim))"

definition reclaim_policy :: "context_set \<Rightarrow> string \<Rightarrow> string option" where
  "reclaim_policy s class_name =
     (case cs_kubernetes s of
        None \<Rightarrow> None
      | Some d \<Rightarrow>
          if class_name = [] then None
          else
            (case find (\<lambda>c. sc_name c = class_name) (k_classes d) of
               None \<Rightarrow> None
             | Some c \<Rightarrow> if sc_policy c \<noteq> [] then Some (sc_policy c) else None))"

subsection \<open>Sizes\<close>

definition row_width :: "context_set \<Rightarrow> string \<Rightarrow> string \<Rightarrow> int" where
  "row_width s schema name =
     (case cs_postgres s of
        None \<Rightarrow> 0
      | Some d \<Rightarrow>
          foldl (\<lambda>width c.
            if equal_fold (cl_schema c) schema \<and> equal_fold (cl_table c) name
            then wrap64 (width + cl_width c) else width) 0 (pg_columns d))"

definition table_size :: "context_set \<Rightarrow> table_stat \<Rightarrow> int option" where
  "table_size s t =
     (if 0 < tb_bytes t then Some (tb_bytes t)
      else if tb_rows t \<le> 0 then None
      else
        (let width = row_width s (tb_schema t) (tb_name t)
         in if width \<le> 0 then None else Some (wrap64 (tb_rows t * width))))"

subsection \<open>Contexts\<close>

definition no_context :: finding_context where
  "no_context = \<lparr>x_row_estimate = 0, x_size_bytes = 0, x_estimated_lock_duration = [],
     x_context_note = [], x_band = no_band\<rparr>"

definition type_change_context :: "context_set \<Rightarrow> finding \<Rightarrow> finding_context option" where
  "type_change_context s f =
     (case find_table s (s_relation (f_subject f)) of (t, ok) \<Rightarrow>
        if \<not> ok then None
        else
          (case table_size s t of
             None \<Rightarrow> None
           | Some bytes \<Rightarrow>
               Some \<lparr>x_row_estimate = tb_rows t, x_size_bytes = bytes,
                 x_estimated_lock_duration = estimate_for bytes (f_lock f),
                 x_context_note =
                   ''Rewrites the whole of '' @ qualify (tb_schema t) (tb_name t) @ '': about ''
                   @ format_rows (tb_rows t) @ '' rows, '' @ format_bytes bytes @ '' of heap''
                   @ (if bytes < tb_total t
                      then '' and '' @ format_bytes (tb_total t) @ '' including indexes'' else [])
                   @ ''.'',
                 x_band = band_for bytes (f_lock f)\<rparr>))"

definition null_note :: "finding \<Rightarrow> column_stat \<Rightarrow> string" where
  "null_note f col = qualified_object (s_relation (f_subject f)) (cl_name col)"

definition will_fail_context :: "finding \<Rightarrow> table_stat \<times> bool \<Rightarrow> column_stat \<Rightarrow> finding_context" where
  "will_fail_context f found col =
     (case found of (t, table_ok) \<Rightarrow>
        no_context\<lparr>x_row_estimate := tb_rows t,
          x_context_note :=
            ''Confirmed against production: about '' @ format_percent (cl_null col) @ '' of rows in ''
            @ null_note f col @ '' are null.''
            @ (if table_ok \<and> 0 < tb_rows t then
                 '' That is roughly ''
                 @ format_rows (fl_to_int64 (fl_mult (cl_null col) (fl_of_int (tb_rows t))))
                 @ '' rows to backfill before this migration can apply.''
               else [])\<rparr>)"

definition set_not_null :: "context_set \<Rightarrow> finding \<Rightarrow> finding" where
  "set_not_null s f =
     (case find_table s (s_relation (f_subject f)) of (t, table_ok) \<Rightarrow>
      case find_column s (s_relation (f_subject f)) (s_object (f_subject f)) of (col, col_ok) \<Rightarrow>
        if col_ok \<and> fl_less (fl_of_int 0) (cl_null col) then
          f\<lparr>f_reversibility := WillFail,
            f_rationale := ''NULL values exist in '' @ null_note f col
              @ ''; SET NOT NULL will fail and roll back the transaction.'',
            f_context := Some (will_fail_context f (t, table_ok) col)\<rparr>
        else if \<not> table_ok then f
        else
          (case table_size s t of
             None \<Rightarrow> f
           | Some bytes \<Rightarrow>
               f\<lparr>f_context := Some
                 \<lparr>x_row_estimate = tb_rows t, x_size_bytes = bytes,
                  x_estimated_lock_duration = estimate_for bytes (f_lock f),
                  x_context_note =
                    (if col_ok then
                       ''Column '' @ null_note f col
                       @ '' has no nulls in the snapshot, so the constraint should validate '' @ emdash
                       @ '' though any null written between the snapshot and the migration will still abort it. The scan covers about ''
                       @ format_rows (tb_rows t) @ '' rows.''
                     else
                       ''Scans about '' @ format_rows (tb_rows t) @ '' rows of ''
                       @ qualify (tb_schema t) (tb_name t) @ '' under lock. No statistics exist for column ''
                       @ s_object (f_subject f) @ '', so whether it contains nulls is unknown.''),
                  x_band = band_for bytes (f_lock f)\<rparr>\<rparr>))"

definition drop_index_context :: "context_set \<Rightarrow> finding \<Rightarrow> finding_context option" where
  "drop_index_context s f =
     (case find_index s (s_object (f_subject f)) (s_relation (f_subject f)) of (idx, ok) \<Rightarrow>
        if \<not> ok then None
        else if ix_scans idx = 0 then
          Some (no_context\<lparr>x_size_bytes := ix_bytes idx,
            x_context_note :=
              ''The planner has not used index '' @ ix_name idx
              @ '' once since statistics were last reset, and it occupies '' @ format_bytes (ix_bytes idx)
              @ ''. Dropping an unused index is cheap; rebuilding it is the cost, and that cost is known.''
              @ (case ix_reset idx of
                   Some reset \<Rightarrow> '' Statistics have been running since '' @ format_date reset @ ''.''
                 | None \<Rightarrow> '' The statistics reset time is unknown, so a zero count may only mean the counters are young.'')\<rparr>)
        else
          Some (no_context\<lparr>x_size_bytes := ix_bytes idx,
            x_context_note :=
              ''Index '' @ ix_name idx @ '' occupies '' @ format_bytes (ix_bytes idx)
              @ '' and the planner has used it '' @ format_rows (ix_scans idx)
              @ '' times since statistics were last reset, so dropping it will change query plans.''\<rparr>))"

definition validation_context :: "context_set \<Rightarrow> finding \<Rightarrow> finding_context option" where
  "validation_context s f =
     (case find_table s (s_relation (f_subject f)) of (t, ok) \<Rightarrow>
        if \<not> ok then None
        else
          (case table_size s t of
             None \<Rightarrow> None
           | Some bytes \<Rightarrow>
               Some \<lparr>x_row_estimate = tb_rows t, x_size_bytes = bytes,
                 x_estimated_lock_duration = estimate_for bytes (f_lock f),
                 x_context_note =
                   ''Validating this constraint scans about '' @ format_rows (tb_rows t) @ '' rows of ''
                   @ qualify (tb_schema t) (tb_name t) @ '' ('' @ format_bytes bytes
                   @ '') while holding a lock.'',
                 x_band = band_for bytes (f_lock f)\<rparr>))"

definition claim_removal_context :: "context_set \<Rightarrow> finding \<Rightarrow> finding_context option" where
  "claim_removal_context s f =
     (case find_claim s (s_relation (f_subject f)) of (claim, ok) \<Rightarrow>
        if \<not> ok then None
        else
          (case reclaim_policy s (pv_class claim) of
             Some policy \<Rightarrow>
               if policy = ''Retain'' then
                 Some (no_context\<lparr>x_context_note :=
                   ''The cluster reports StorageClass '' @ go_quote (pv_class claim)
                   @ '' with reclaimPolicy Retain, so deleting this claim releases the volume rather than erasing it and the data can be recovered by binding a new claim to it. The finding stands: recovery is a manual operation, and no tool should grade it as reversible on your behalf.''\<rparr>)
               else
                 Some (no_context\<lparr>x_context_note :=
                   ''Confirmed against the cluster: StorageClass '' @ go_quote (pv_class claim)
                   @ '' has reclaimPolicy '' @ policy
                   @ '', so deleting this claim destroys the volume. The claim is currently ''
                   @ to_lower (pv_phase claim) @ '' with a capacity of ''
                   @ or_else (pv_capacity claim) ''an unreported size'' @ ''.''\<rparr>)
           | None \<Rightarrow>
               Some (no_context\<lparr>x_context_note :=
                 ''The cluster has a claim '' @ pv_name claim @ '' in phase '' @ to_lower (pv_phase claim)
                 @ '', but its StorageClass '' @ go_quote (pv_class claim)
                 @ '' is not in the snapshot, so the reclaim policy is still unknown.''\<rparr>)))"

definition storage_decrease_context :: "context_set \<Rightarrow> finding \<Rightarrow> finding_context option" where
  "storage_decrease_context s f =
     (case find_claim s (s_relation (f_subject f)) of (claim, ok) \<Rightarrow>
        if \<not> ok then None
        else if pv_capacity claim = [] then
          Some (no_context\<lparr>x_context_note :=
            ''The cluster reports claim '' @ pv_name claim @ '' in phase '' @ to_lower (pv_phase claim)
            @ '' with no bound capacity, so there is nothing to shrink yet.''\<rparr>)
        else
          Some (no_context\<lparr>x_context_note :=
            ''The bound volume behind '' @ pv_name claim @ '' is currently '' @ pv_capacity claim
            @ '', which is what the request has to be measured against '' @ emdash
            @ '' not the previous manifest.''\<rparr>))"

subsection \<open>Enrichment\<close>

definition enrich_rule :: "context_set \<Rightarrow> finding \<Rightarrow> finding" where
  "enrich_rule s f =
     (if f_rule_id f = ''PG006'' \<or> f_rule_id f = ''PG007'' then f\<lparr>f_context := type_change_context s f\<rparr>
      else if f_rule_id f = ''PG017'' then set_not_null s f
      else if f_rule_id f = ''PG014'' \<or> f_rule_id f = ''PG015'' then f\<lparr>f_context := drop_index_context s f\<rparr>
      else if f_rule_id f = ''PG021'' then f\<lparr>f_context := validation_context s f\<rparr>
      else if f_rule_id f = ''K8S003'' then f\<lparr>f_context := claim_removal_context s f\<rparr>
      else if f_rule_id f = ''K8S004'' then f\<lparr>f_context := storage_decrease_context s f\<rparr>
      else f)"

text \<open>The ratchet: a classification that came out milder is put back, and the lock always is.\<close>

definition enrich_one :: "context_set \<Rightarrow> finding \<Rightarrow> finding" where
  "enrich_one s before =
     (let out = enrich_rule s before;
          kept = (if rev_severity (f_reversibility out) < rev_severity (f_reversibility before)
                  then out\<lparr>f_reversibility := f_reversibility before, f_rationale := f_rationale before\<rparr>
                  else out)
      in kept\<lparr>f_lock := f_lock before\<rparr>)"

definition enrich :: "context_set option \<Rightarrow> finding list \<Rightarrow> finding list" where
  "enrich s findings =
     (case s of None \<Rightarrow> findings | Some c \<Rightarrow> map (enrich_one c) findings)"

subsection \<open>Lemmas\<close>

lemmas enrich_defs = enrich_one_def enrich_rule_def set_not_null_def Let_def

text \<open>A rule either leaves the classification alone or sets it to \<open>WILL_FAIL\<close>.\<close>

lemma enrich_rule_cases:
  "f_reversibility (enrich_rule s f) = f_reversibility f \<or> f_reversibility (enrich_rule s f) = WillFail"
  by (simp add: enrich_rule_def set_not_null_def split: prod.splits option.splits)

lemma enrich_rule_same:
  "f_rule_id (enrich_rule s f) = f_rule_id f" "f_file (enrich_rule s f) = f_file f"
  "f_line (enrich_rule s f) = f_line f" "f_statement (enrich_rule s f) = f_statement f"
  "f_undo (enrich_rule s f) = f_undo f" "f_lock (enrich_rule s f) = f_lock f"
  "f_subject (enrich_rule s f) = f_subject f"
  by (simp_all add: enrich_rule_def set_not_null_def split: prod.splits option.splits)

lemma enrich_one_same:
  "f_rule_id (enrich_one s f) = f_rule_id f" "f_file (enrich_one s f) = f_file f"
  "f_line (enrich_one s f) = f_line f" "f_statement (enrich_one s f) = f_statement f"
  "f_undo (enrich_one s f) = f_undo f" "f_lock (enrich_one s f) = f_lock f"
  "f_subject (enrich_one s f) = f_subject f"
  by (simp_all add: enrich_one_def Let_def enrich_rule_same)

lemma enrich_one_severity: "rev_severity (f_reversibility f) \<le> rev_severity (f_reversibility (enrich_one s f))"
  by (simp add: enrich_one_def Let_def)

lemma enrich_one_cases:
  "f_reversibility (enrich_one s f) = f_reversibility f \<or> f_reversibility (enrich_one s f) = WillFail"
  using enrich_rule_cases [of s f] by (auto simp: enrich_one_def Let_def)

lemma enrich_one_tightens: "tightens f (enrich_one s f)"
  by (simp add: tightens_def finding_key_def enrich_one_same enrich_one_severity)

lemma enrich_tightens: "list_all2 tightens fs (enrich s fs)"
  by (cases s) (simp_all add: enrich_def list_all2_map2 enrich_one_tightens list.rel_refl)

text \<open>Enrichment is a stage that only tightens, like the overrides of a policy.\<close>

interpretation en: tightening "\<lambda>fs gs. \<exists>s. gs = enrich s fs"
  by unfold_locales (auto intro: enrich_tightens)

definition without_context :: "finding list \<Rightarrow> bool" where
  "without_context fs \<longleftrightarrow> list_all (\<lambda>f. f_context f = None) fs"

lemma enriched_measured:
  assumes "without_context fs" and "list_all (\<lambda>f. \<not> blocks f) (enrich s fs)"
  shows "grade_rank (r_grade (measured (enrich s fs) down)) \<le> grade_rank (r_grade (measured fs down))"
proof (cases s)
  case (Some c)
  let ?gs = "map (enrich_one c) fs"
  have same: "f_reversibility (enrich_one c f) = f_reversibility f" if "f \<in> set fs" for f
    using that assms(2) enrich_one_cases [of c f] Some
    by (auto simp: enrich_def list_all_iff blocks_def)
  then have "filter (\<lambda>f. f_reversibility (enrich_one c f) = Costly) fs
      = filter (\<lambda>f. f_reversibility f = Costly) fs"
    by (intro filter_cong) simp_all
  then have costly: "costly_count ?gs = costly_count fs"
    by (simp add: costly_count_def filter_map comp_def)
  have caps: "g \<in> fst ` set (ceilings ?gs down)" if g: "g \<in> fst ` set (ceilings fs down)" for g
  proof -
    have "\<not> (\<exists>f\<in>set fs. \<exists>x. f_context f = Some x \<and> g = band_cap (x_band x) \<and> g \<noteq> no_grade)"
      using assms(1) by (auto simp: without_context_def list_all_iff)
    with g have "g = GradeC \<and> \<not> down_migrations_are_sound down
      \<or> g = GradeB \<and> (list_ex (\<lambda>f. at_least (f_lock f) LockFullScan) fs
         \<or> \<not> list_all (\<lambda>f. f_reversibility f = Reversible) fs \<or> \<not> down_migrations_are_sound down)"
      unfolding set_ceilings by blast
    moreover have "list_ex (\<lambda>f. at_least (f_lock f) LockFullScan) ?gs
        \<longleftrightarrow> list_ex (\<lambda>f. at_least (f_lock f) LockFullScan) fs"
      by (simp add: list_ex_iff enrich_one_same)
    moreover have "list_all (\<lambda>f. f_reversibility f = Reversible) ?gs
        \<longleftrightarrow> list_all (\<lambda>f. f_reversibility f = Reversible) fs"
      using same by (simp add: list_all_iff)
    ultimately show ?thesis unfolding set_ceilings by blast
  qed
  have low: "grade_rank (r_grade (measured ?gs down)) \<le> grade_rank (fst (assignment (costly_count fs)))"
    and each: "\<forall>g\<in>fst ` set (ceilings ?gs down). grade_rank (r_grade (measured ?gs down)) \<le> grade_rank g"
    using rank_measured [of "grade_rank (r_grade (measured ?gs down))" ?gs down] costly by simp_all
  have "grade_rank (r_grade (measured ?gs down)) \<le> grade_rank (r_grade (measured fs down))"
    using low each caps by (simp only: rank_measured [where fs = fs]) blast
  then show ?thesis by (simp add: Some enrich_def)
qed (simp add: enrich_def)

lemma lookup_ok: "lookup P xs z = (x, True) \<longleftrightarrow> filter P xs = [x]"
  by (auto simp: lookup_def Let_def length_Suc_conv)

subsection \<open>Properties\<close>

text \<open>C23. Enrichment only makes findings worse: it keeps every finding in its order, with its rule, place,
  statement, subject, undo step and lock, and never lowers the severity of a classification: the verdict stays
  or becomes \<open>WILL_FAIL\<close>. What it may change are the rationale and the production context.\<close>

theorem enrichment_only_worsens:
  "length (enrich s fs) = length fs
   \<and> map finding_key (enrich s fs) = map finding_key fs
   \<and> list_all2 (\<lambda>f g. f_rule_id g = f_rule_id f \<and> f_file g = f_file f \<and> f_line g = f_line f
       \<and> f_statement g = f_statement f \<and> f_subject g = f_subject f
       \<and> f_lock g = f_lock f \<and> f_undo g = f_undo f
       \<and> rev_severity (f_reversibility f) \<le> rev_severity (f_reversibility g)
       \<and> (f_reversibility g = f_reversibility f \<or> f_reversibility g = WillFail)) fs (enrich s fs)"
proof -
  have "list_all2 (\<lambda>f g. f_rule_id g = f_rule_id f \<and> f_file g = f_file f \<and> f_line g = f_line f
       \<and> f_statement g = f_statement f \<and> f_subject g = f_subject f
       \<and> f_lock g = f_lock f \<and> f_undo g = f_undo f
       \<and> rev_severity (f_reversibility f) \<le> rev_severity (f_reversibility g)
       \<and> (f_reversibility g = f_reversibility f \<or> f_reversibility g = WillFail)) fs (enrich s fs)"
    by (cases s) (simp_all add: enrich_def list_all2_map2 enrich_one_same enrich_one_severity
        enrich_one_cases list.rel_refl)
  then show ?thesis using en.stage_length en.stage_keys by blast
qed

text \<open>Production context never raises a grade: for findings as the analyzers produce them, without
  a context, the grade of an analysed run after enrichment is at most the grade before it.\<close>

theorem enrichment_never_raises_grade:
  assumes "i_outcome i = OutcomeAnalyzed" and "without_context (i_findings i)"
  shows "grade_rank (r_grade (score (i\<lparr>i_findings := enrich s (i_findings i)\<rparr>)))
     \<le> grade_rank (r_grade (score i))"
proof -
  let ?fs = "i_findings i"
  have blocked: "list_all (\<lambda>f. \<not> blocks f) ?fs" if "list_all (\<lambda>f. \<not> blocks f) (enrich s ?fs)"
  proof (cases s)
    case (Some c)
    have "\<not> blocks f" if "f \<in> set ?fs" for f
      using that \<open>list_all _ (enrich s ?fs)\<close> enrich_one_cases [of c f] Some
      by (auto simp: enrich_def list_all_iff blocks_def)
    then show ?thesis by (simp add: list_all_iff)
  qed (use that in \<open>simp add: enrich_def\<close>)
  have "0 \<le> grade_rank (r_grade (measured gs down))" for gs down
    using measured_not_F [of gs down] by simp
  then show ?thesis
    using assms(1) blocked enriched_measured [OF assms(2)]
    by (simp add: score_def blocking_findings_nil)
qed

text \<open>A production database with one table, of which a column holds nulls.\<close>

definition big_table :: table_stat where
  "big_table = \<lparr>tb_schema = ''public'', tb_name = ''users'', tb_rows = 1000000, tb_bytes = 80000000000,
     tb_total = 90000000000\<rparr>"

definition email_column :: column_stat where
  "email_column = \<lparr>cl_schema = ''public'', cl_table = ''users'', cl_name = ''email'',
     cl_null = fl_round 1 100, cl_width = 32\<rparr>"

definition production :: context_set where
  "production = empty_context\<lparr>cs_postgres := Some \<lparr>pg_tables = [big_table], pg_indexes = [],
     pg_columns = [email_column]\<rparr>\<rparr>"

definition set_not_null_finding :: finding where
  "set_not_null_finding = reversible_finding\<lparr>f_rule_id := ''PG017'', f_lock := LockFullScan,
     f_subject := \<lparr>s_relation = ''users'', s_object = ''email''\<rparr>\<rparr>"

theorem enrichment_never_raises_grade_witness:
  "grade_rank (r_grade (score \<lparr>i_findings = enrich (Some production) [set_not_null_finding],
      i_down_migrations = [], i_analyzer_errors = [], i_outcome = OutcomeAnalyzed, i_unsupported = []\<rparr>)) \<le> 2"
proof -
  let ?i = "\<lparr>i_findings = [set_not_null_finding], i_down_migrations = [], i_analyzer_errors = [],
      i_outcome = OutcomeAnalyzed, i_unsupported = []\<rparr>"
  have "r_grade (score ?i) = GradeB" and "without_context [set_not_null_finding]" by code_simp+
  then show ?thesis
    using enrichment_never_raises_grade [of ?i "Some production"] by simp
qed

text \<open>Nulls in production fail the run: when the statistics know exactly one column for a
  \<open>SET NOT NULL\<close> and it holds nulls, the finding becomes \<open>WILL_FAIL\<close> and the grade of every run that
  contains it is F, whatever else was found.\<close>

theorem nulls_fail_the_run:
  assumes "f_rule_id f = ''PG017''" and "rev_valid (f_reversibility f)"
    and "find_column s (s_relation (f_subject f)) (s_object (f_subject f)) = (col, True)"
    and "fl_less (fl_of_int 0) (cl_null col)"
    and "f \<in> set fs" and "i_findings i = enrich (Some s) fs"
  shows "r_grade (score i) = GradeF"
proof -
  have "f_reversibility (enrich_rule s f) = WillFail"
    using assms(1,3,4) by (simp add: enrich_rule_def set_not_null_def split: prod.splits)
  then have "f_reversibility (enrich_one s f) = WillFail"
    using assms(2) rev_severity_valid [of "f_reversibility f"] by (simp add: enrich_one_def Let_def)
  then have "blocks (enrich_one s f)" and "enrich_one s f \<in> set (i_findings i)"
    using assms(5,6) by (simp_all add: blocks_def enrich_def)
  then have "blocking_findings (i_findings i) \<noteq> []"
    by (auto simp: blocking_findings_nil list_all_iff)
  then show ?thesis by (simp add: score_def)
qed

theorem nulls_fail_the_run_witness:
  "r_grade (score \<lparr>i_findings = enrich (Some production) [set_not_null_finding], i_down_migrations = [],
     i_analyzer_errors = [], i_outcome = OutcomeAnalyzed, i_unsupported = []\<rparr>) = GradeF"
proof (rule nulls_fail_the_run [where s = production and f = set_not_null_finding
      and fs = "[set_not_null_finding]" and col = email_column])
  show "find_column production (s_relation (f_subject set_not_null_finding))
      (s_object (f_subject set_not_null_finding)) = (email_column, True)" by code_simp
  show "fl_less (fl_of_int 0) (cl_null email_column)" by code_simp
qed (simp_all add: set_not_null_finding_def reversible_finding_def)

text \<open>Context can cap a grade that no rule lowered: with a large enough table, validating a
  constraint that is otherwise graded B is capped at C by the estimated duration of its lock.\<close>

definition validate_finding :: finding where
  "validate_finding = reversible_finding\<lparr>f_rule_id := ''PG021'', f_lock := LockFullScan,
     f_subject := \<lparr>s_relation = ''users'', s_object = []\<rparr>\<rparr>"

theorem enrichment_moves_a_grade:
  "r_grade (score \<lparr>i_findings = [validate_finding], i_down_migrations = [], i_analyzer_errors = [],
      i_outcome = OutcomeAnalyzed, i_unsupported = []\<rparr>) = GradeB
   \<and> r_grade (score \<lparr>i_findings = enrich (Some production) [validate_finding], i_down_migrations = [],
      i_analyzer_errors = [], i_outcome = OutcomeAnalyzed, i_unsupported = []\<rparr>) = GradeC"
  by (intro conjI) code_simp+

text \<open>The digest of the context leaves out a fact the enrichment reads: changing the time the
  statistics were reset changes the note on a finding, and not the digest.\<close>

definition idle_index :: index_stat where
  "idle_index = \<lparr>ix_schema = ''public'', ix_table = ''users'', ix_name = ''i'', ix_bytes = 8192,
     ix_scans = 0, ix_reset = None\<rparr>"

definition idle_production :: "instant option \<Rightarrow> context_set" where
  "idle_production reset = empty_context\<lparr>cs_postgres := Some \<lparr>pg_tables = [],
     pg_indexes = [idle_index\<lparr>ix_reset := reset\<rparr>], pg_columns = []\<rparr>\<rparr>"

definition drop_index_finding :: finding where
  "drop_index_finding = reversible_finding\<lparr>f_rule_id := ''PG014'',
     f_subject := \<lparr>s_relation = ''users'', s_object = ''i''\<rparr>\<rparr>"

theorem context_digest_misses_reset_time:
  "context_digest sha fmt_g (idle_production None) = context_digest sha fmt_g (idle_production (Some 0))
   \<and> enrich (Some (idle_production None)) [drop_index_finding]
     \<noteq> enrich (Some (idle_production (Some 0))) [drop_index_finding]"
proof
  show "context_digest sha fmt_g (idle_production None) = context_digest sha fmt_g (idle_production (Some 0))"
    by (simp add: context_digest_def idle_production_def postgres_stream_def)
  show "enrich (Some (idle_production None)) [drop_index_finding]
     \<noteq> enrich (Some (idle_production (Some 0))) [drop_index_finding]"
    by code_simp
qed

definition two_schemas :: context_set where
  "two_schemas = empty_context\<lparr>cs_postgres := Some \<lparr>
     pg_tables = [big_table, big_table\<lparr>tb_schema := ''archive'', tb_rows := 7\<rparr>], pg_indexes = [],
     pg_columns = [email_column]\<rparr>\<rparr>"

text \<open>An ambiguous table can still reach a finding: with two tables of one name and statistics for
  a column of only one of them, the row estimate that is attached is that of the other table.\<close>

theorem ambiguous_table_is_attached:
  "snd (find_table two_schemas ''users'') = False
   \<and> map_option x_row_estimate (f_context (enrich_one two_schemas set_not_null_finding)) = Some 7"
  by (intro conjI) code_simp+

end
