(* ===== verification/Digest.thy ===== *)
theory Digest
  imports Field_Writer Candidate
begin

text \<open>
  What attributes a certificate to an exact input, \<open>internal/engine/digest.go\<close>. SHA-256 is the
  parameter \<open>sha\<close>, from bytes to bytes; what is proved is about the bytes it is applied to, and
  about digests under the hypothesis that \<open>sha\<close> does not collide on the two inputs compared.
\<close>

definition change_fields :: "changed_file \<Rightarrow> string list" where
  "change_fields f = [p_path f, p_previous_path f, status_text (p_status f), p_previous f, p_current f]"

definition write_change :: "changed_file \<Rightarrow> string" where
  "write_change f = concat (map write_field (change_fields f))"

definition input_stream :: "changed_file list \<Rightarrow> string" where
  "input_stream files = concat (map write_change (sort_key p_path files))"

definition input_digest :: "(string \<Rightarrow> string) \<Rightarrow> changed_file list \<Rightarrow> string" where
  "input_digest sha files = hex_encode (sha (input_stream files))"

definition combine_digests :: "(string \<Rightarrow> string) \<Rightarrow> string \<Rightarrow> string \<Rightarrow> string" where
  "combine_digests sha input policy = hex_encode (sha (write_field input @ write_field policy))"

subsection \<open>Lemmas\<close>

text \<open>Five fields are one unit of the stream: a second instance of the contract of an encoding.\<close>

definition five_fields :: "string list \<Rightarrow> bool" where
  "five_fields xs \<longleftrightarrow> length xs = 5 \<and> (\<forall>x\<in>set xs. go_len x)"

definition write_fields :: "string list \<Rightarrow> string" where
  "write_fields xs = concat (map write_field xs)"

interpretation five: field_code write_fields five_fields
proof unfold_locales
  fix x y :: "string list" and s t :: string
  assume "five_fields x" and "five_fields y" and "write_fields x @ s = write_fields y @ t"
  then show "x = y \<and> s = t"
    by (intro wf.stream_cancel) (simp_all add: five_fields_def write_fields_def)
next
  fix x :: "string list"
  assume "five_fields x"
  then show "write_fields x \<noteq> []"
    by (cases x) (auto simp: five_fields_def write_fields_def wf.enc_nonempty)
qed

lemma input_stream_fields:
  "input_stream files = concat (map write_fields (map change_fields (sort_key p_path files)))"
  by (simp add: input_stream_def write_change_def [abs_def] write_fields_def [abs_def] comp_def)

lemma hex_digit_inject: "m < 16 \<Longrightarrow> n < 16 \<Longrightarrow> hex_digit m = hex_digit n \<longleftrightarrow> m = n"
  by (auto simp: hex_digit_def split: if_splits)

lemma hex_encode_inject: "hex_encode s = hex_encode t \<longleftrightarrow> s = t"
proof
  show "hex_encode s = hex_encode t \<Longrightarrow> s = t"
  proof (induction s arbitrary: t)
    case Nil
    then show ?case by (cases t) (simp_all add: hex_encode_def)
  next
    case (Cons c s)
    then obtain d u where t: "t = d # u" by (cases t) (auto simp: hex_encode_def)
    have small: "(of_char a :: nat) div 16 < 16" for a
      using nat_of_char_less_256 [of a] by (simp add: div_less_iff_less_mult)
    have "(of_char c :: nat) div 16 = of_char d div 16" and "(of_char c :: nat) mod 16 = of_char d mod 16"
      and "hex_encode s = hex_encode u"
      using Cons.prems t small by (auto simp: hex_encode_def hex_digit_inject)
    then have "(of_char c :: nat) = of_char d" by (metis div_mult_mod_eq)
    then show ?case using t Cons.IH \<open>hex_encode s = hex_encode u\<close> by simp
  qed
qed simp

definition hashable :: "changed_file list \<Rightarrow> bool" where
  "hashable files \<longleftrightarrow> distinct (map p_path files)
     \<and> (\<forall>f\<in>set files. \<forall>x\<in>set (change_fields f). go_len x)"

lemma input_stream_inject:
  assumes "hashable files" and "hashable files'" and "input_stream files = input_stream files'"
  shows "map change_fields (sort_key p_path files) = map change_fields (sort_key p_path files')"
proof (rule five.stream_inject)
  show "concat (map write_fields (map change_fields (sort_key p_path files)))
      = concat (map write_fields (map change_fields (sort_key p_path files')))"
    using assms(3) by (simp only: input_stream_fields)
qed (use assms(1,2) in \<open>auto simp: five_fields_def change_fields_def hashable_def\<close>)

lemma sort_by_path_permutation:
  "mset files = mset files' \<Longrightarrow> distinct (map p_path files) \<Longrightarrow>
   sort_key p_path files = sort_key p_path files'"
  by (rule sort_key_permutation) (simp_all add: distinct_map)

lemma change_fields_at [simp]: "change_fields (f\<lparr>p_at := l\<rparr>) = change_fields f"
  by (simp add: change_fields_def)

lemma map_key_sort: "(\<And>x. k (f x) = k x) \<Longrightarrow> map f (sort_key k xs) = sort_key k (map f xs)"
proof -
  assume k: "\<And>x. k (f x) = k x"
  have insort: "map f (insort_key k x ys) = insort_key k (f x) (map f ys)" for x ys
    by (induction ys) (simp_all add: k)
  show ?thesis by (induction xs) (simp_all add: insort)
qed

lemma input_stream_stamped: "input_stream (stamp_located files locate) = input_stream files"
proof -
  have "sort_key p_path (stamp_located files locate)
      = map (\<lambda>f. f\<lparr>p_at := locate (p_path f)\<rparr>) (sort_key p_path files)"
    unfolding stamp_located_def by (rule map_key_sort [symmetric]) simp
  then show ?thesis by (simp add: input_stream_def write_change_def [abs_def] comp_def)
qed

subsection \<open>Properties\<close>

text \<open>C22. A digest is attributable to one input: if two changesets with distinct paths have the same
  digest and the hash does not collide on them, they hold the same changes, each with the same path,
  previous path, status, previous content and current content.\<close>

theorem digest_attributes_input:
  assumes "hashable files" and "hashable files'"
    and "sha (input_stream files) = sha (input_stream files') \<Longrightarrow> input_stream files = input_stream files'"
    and "input_digest sha files = input_digest sha files'"
  shows "change_fields ` set files = change_fields ` set files'"
proof -
  have "map change_fields (sort_key p_path files) = map change_fields (sort_key p_path files')"
    using assms by (intro input_stream_inject) (simp_all add: input_digest_def hex_encode_inject)
  then have "set (map change_fields (sort_key p_path files)) = set (map change_fields (sort_key p_path files'))"
    by (rule arg_cong)
  then show ?thesis by simp
qed

definition one_change :: changed_file where
  "one_change = \<lparr>p_path = ''a'', p_previous_path = [], p_status = StatusAdded, p_previous = [],
     p_current = ''x'', p_at = []\<rparr>"

theorem digest_attributes_input_witness:
  "change_fields ` set [one_change] = change_fields ` set [one_change\<lparr>p_at := ''db/a''\<rparr>]"
proof (rule digest_attributes_input [where sha = "\<lambda>b. b"])
  show "hashable [one_change]" and "hashable [one_change\<lparr>p_at := ''db/a''\<rparr>]"
    by (simp_all add: hashable_def change_fields_def one_change_def go_len_def)
  show "input_digest (\<lambda>b. b) [one_change] = input_digest (\<lambda>b. b) [one_change\<lparr>p_at := ''db/a''\<rparr>]"
    by (simp add: input_digest_def input_stream_def write_change_def change_fields_def)
qed

text \<open>The digest is of the changeset and of nothing else: neither the order in which the provider
  listed the files nor where the run was rooted can change it.\<close>

theorem digest_ignores_order_and_root:
  assumes "mset files = mset files'" and "distinct (map p_path files)"
  shows "input_digest sha (stamp_located files locate) = input_digest sha (stamp_located files' locate')"
  unfolding input_digest_def input_stream_stamped
  by (simp add: input_stream_def sort_by_path_permutation [OF assms])

theorem digest_ignores_order_and_root_witness:
  "input_digest id (stamp_located [one_change, one_change\<lparr>p_path := ''b''\<rparr>] (new_locator []))
     = input_digest id (stamp_located [one_change\<lparr>p_path := ''b''\<rparr>, one_change] (new_locator ''db''))"
  by (rule digest_ignores_order_and_root) (simp_all add: one_change_def)

end
