(* ===== verification/Undo.thy ===== *)
theory Undo
  imports Scorer
begin

text \<open>
  The undo plan, \<open>internal/engine/undo.go\<close>: the undo steps of the findings in reverse order of
  application, or, when a finding has no reverse, an explicit statement that no complete undo exists.
\<close>

definition no_complete_undo :: string where
  "no_complete_undo = ''-- NO COMPLETE UNDO EXISTS. This changeset cannot be fully reversed.''"

definition statement_of :: "finding \<Rightarrow> string" where
  "statement_of f = (if f_statement f = [] then ''(statement unavailable)'' else f_statement f)"

definition why_blocked :: "finding \<Rightarrow> string option" where
  "why_blocked f =
     (case f_reversibility f of
        Irreversible \<Rightarrow> Some ''cannot be undone''
      | Unknown \<Rightarrow> Some ''was not understood, so no undo can be written for it''
      | WillFail \<Rightarrow>
          Some ''will not apply, so there is nothing to undo; fix the migration instead''
      | _ \<Rightarrow> None)"

definition blocked_step :: "finding \<Rightarrow> string option" where
  "blocked_step f =
     (case why_blocked f of
        None \<Rightarrow> None
      | Some why \<Rightarrow>
          Some (''--   '' @ f_rule_id f @ '' at '' @ location f @ '': '' @ statement_of f
                @ '' '' @ emdash @ '' '' @ why))"

definition unreversible_findings :: "finding list \<Rightarrow> string list" where
  "unreversible_findings findings =
     (let blocked = List.map_filter blocked_step findings in
      if blocked = [] then []
      else no_complete_undo # ''-- The following changes have no reverse:'' # blocked)"

definition build_undo_plan :: "finding list \<Rightarrow> string list" where
  "build_undo_plan findings =
     (let blockers = unreversible_findings findings in
      if blockers \<noteq> [] then blockers
      else filter (\<lambda>step. step \<noteq> []) (map f_undo (rev findings)))"

subsection \<open>Lemmas\<close>

definition undoable :: "finding \<Rightarrow> bool" where
  "undoable f \<longleftrightarrow> f_reversibility f \<notin> {Irreversible, Unknown, WillFail}"

lemma blocked_step_None [simp]: "blocked_step f = None \<longleftrightarrow> undoable f"
  by (cases "f_reversibility f") (simp_all add: blocked_step_def why_blocked_def undoable_def)

lemma unreversible_nil: "unreversible_findings fs = [] \<longleftrightarrow> list_all undoable fs"
  by (simp add: unreversible_findings_def map_filter_nil Let_def)

lemma build_undo_plan_all:
  "list_all undoable fs \<Longrightarrow> build_undo_plan fs = filter (\<lambda>step. step \<noteq> []) (map f_undo (rev fs))"
  using unreversible_nil by (simp add: build_undo_plan_def)

lemma length_map_filter: "length (List.map_filter g xs) = length (filter (\<lambda>x. g x \<noteq> None) xs)"
  by (induction xs) (auto simp: map_filter_simps split: option.splits)

lemma blocked_step_comment: "blocked_step f = Some step \<Longrightarrow> has_prefix step ''-- ''"
  by (auto simp: blocked_step_def has_prefix_def split: option.splits)

subsection \<open>Properties\<close>

text \<open>A plan unwinds the changeset: while everything in it can be undone, the plan of one sequence
  of changes followed by another is the plan of the second followed by the plan of the first; once a
  finding cannot be undone, no step of anything else is offered: the plan is a heading, a second line
  and one comment for each change without a reverse.\<close>

theorem undo_plan_unwinds:
  "if list_all undoable (fs @ gs)
   then build_undo_plan (fs @ gs) = build_undo_plan gs @ build_undo_plan fs
   else hd (build_undo_plan (fs @ gs)) = no_complete_undo
     \<and> length (build_undo_plan (fs @ gs)) = 2 + length (filter (\<lambda>f. \<not> undoable f) (fs @ gs))
     \<and> list_all (\<lambda>step. has_prefix step ''-- '') (build_undo_plan (fs @ gs))"
proof (cases "list_all undoable (fs @ gs)")
  case True
  then have "list_all undoable fs" and "list_all undoable gs" by simp_all
  with True show ?thesis by (simp add: build_undo_plan_all)
next
  case False
  let ?hs = "fs @ gs"
  let ?bs = "List.map_filter blocked_step ?hs"
  from False have "?bs \<noteq> []" by (simp only: map_filter_nil blocked_step_None) simp
  then have plan: "build_undo_plan ?hs
      = no_complete_undo # ''-- The following changes have no reverse:'' # ?bs"
    by (simp add: build_undo_plan_def unreversible_findings_def Let_def)
  have "list_all (\<lambda>step. has_prefix step ''-- '') ?bs"
    using blocked_step_comment by (force simp: list_all_iff List.map_filter_def)
  then show ?thesis
    unfolding if_not_P [OF False] plan using length_map_filter [of blocked_step ?hs]
    by (simp add: has_prefix_def no_complete_undo_def)
qed

text \<open>The plan and the score disagree about a verdict the domain does not recognise: the score
  blocks it like an UNKNOWN finding, but the undo plan treats it as a change that can be undone and
  offers its step as a complete plan.\<close>

theorem unrecognised_verdict_gets_a_plan:
  "r_grade (score \<lparr>i_findings = [reversible_finding\<lparr>f_reversibility := Rev_other s, f_undo := ''DROP x''\<rparr>],
      i_down_migrations = [], i_analyzer_errors = [], i_outcome = OutcomeAnalyzed, i_unsupported = []\<rparr>) = GradeF
   \<and> build_undo_plan [reversible_finding\<lparr>f_reversibility := Rev_other s, f_undo := ''DROP x''\<rparr>] = [''DROP x'']"
  by (simp add: score_def blocking_findings_nil blocks_def build_undo_plan_all undoable_def)

end
