(* ===== verification/Engine.thy ===== *)
theory Engine
  imports Policy Enrich Digest Undo
begin

text \<open>
  The orchestrator, \<open>internal/engine/engine.go\<close>, and the interface it runs analyzers through,
  \<open>internal/analyzer/analyzer.go\<close>. An analyzer is a record of functions; a call returns, fails or
  panics (\<open>run\<close>), and the optional capabilities are optional fields. \<open>certify\<close> is the pipeline in the
  code's order, with the recover boundary as the case for \<open>Panicked\<close>. The \<open>context.Context\<close> is its
  error at the start of the run, if any; logging is left out.
\<close>

subsection \<open>Analyzers\<close>

record analyzer =
  a_name :: string
  a_supports :: "located \<Rightarrow> bool"
  a_analyze :: "changed_file list \<Rightarrow> finding list run"
  a_validate :: "(changed_file list \<Rightarrow> down_migration_status list run) option"
  a_catalog :: "(string \<times> string) option"

record engine =
  e_analyzers :: "analyzer list"
  e_policy :: "policy option"
  e_today :: instant
  e_context :: "context_set option"

record run_config =
  rc_enumerated :: "string list"
  rc_ignored_by_policy :: "string list"
  rc_dead_ignores :: "string list"
  rc_root :: string
  rc_anchor :: string

definition new_engine :: "analyzer list \<Rightarrow> policy option \<Rightarrow> instant \<Rightarrow> context_set option \<Rightarrow> engine" where
  "new_engine analyzers policy today context =
     \<lparr>e_analyzers = sort_key a_name analyzers, e_policy = policy, e_today = today, e_context = context\<rparr>"

definition locator :: "run_config \<Rightarrow> string \<Rightarrow> located" where
  "locator c = new_locator (rc_root c)"

definition anchored_prefix :: "run_config \<Rightarrow> string" where
  "anchored_prefix c = (if rc_anchor c = [] then [] else rc_root c)"

definition supports :: "engine \<Rightarrow> located \<Rightarrow> bool" where
  "supports e l \<longleftrightarrow> list_ex (\<lambda>a. a_supports a l) (e_analyzers e)"

definition paths_of :: "changed_file list \<Rightarrow> string list" where
  "paths_of files = map p_path files"

definition catalogs :: "engine \<Rightarrow> changed_file list \<Rightarrow> string \<times> string" where
  "catalogs e files =
     (let applied = List.map_filter (\<lambda>a.
            case a_catalog a of
              None \<Rightarrow> None
            | Some vd \<Rightarrow> if list_ex (\<lambda>f. a_supports a (location_of f)) files then Some vd else None)
          (e_analyzers e)
      in if applied = [] then ([], [])
         else (join '','' (map fst applied), join '','' (map snd applied)))"

definition policy_digest :: "engine \<Rightarrow> string" where
  "policy_digest e = (case e_policy e of None \<Rightarrow> [] | Some p \<Rightarrow> l_digest p)"

definition context_warnings :: "engine \<Rightarrow> string list" where
  "context_warnings e = (case e_context e of None \<Rightarrow> [] | Some s \<Rightarrow> cs_warnings s)"

definition policy_warnings :: "string list \<Rightarrow> string list \<Rightarrow> string \<Rightarrow> string list" where
  "policy_warnings dead_ignores dead_waiver_names anchor =
     (if dead_ignores = [] \<and> dead_waiver_names = [] then []
      else
        map (\<lambda>pattern. ''ignore pattern '' @ pattern @ '' matched no file in this changeset'') dead_ignores
        @ map (\<lambda>w. ''waiver '' @ w @ '' covered no finding in this changeset'') dead_waiver_names
        @ (if anchor = [] then
             [''no project root was found (no .git, .hg, .svn or .reversibility.yml above the analysis root), ''
              @ ''so paths were resolved absolutely and a project-relative pattern cannot match'']
           else []))"

subsection \<open>Running the analyzers\<close>

text \<open>The loop of \<open>Engine.run\<close>, with findings, statuses and failures in the order of the registry. A
  panic ends the loop.\<close>

fun run_loop :: "analyzer list \<Rightarrow> changed_file list
    \<Rightarrow> (finding list \<times> down_migration_status list \<times> string list) run" where
  "run_loop [] files = Done ([], [], [])"
| "run_loop (a # as) files =
     (case (case a_analyze a files of
              Panicked r \<Rightarrow> Panicked r
            | Failed e \<Rightarrow> Done ([], [], [a_name a @ '': '' @ e])
            | Done got \<Rightarrow>
                (case a_validate a of
                   None \<Rightarrow> Done (got, [], [])
                 | Some validate \<Rightarrow>
                     (case validate files of
                        Panicked r \<Rightarrow> Panicked r
                      | Failed e \<Rightarrow>
                          Done (got, [], [a_name a @ '' down-migration validation: '' @ e])
                      | Done statuses \<Rightarrow> Done (got, statuses, [])))) of
        Panicked r \<Rightarrow> Panicked r
      | Failed e \<Rightarrow> Failed e
      | Done (findings, down, failures) \<Rightarrow>
          (case run_loop as files of
             Panicked r \<Rightarrow> Panicked r
           | Failed e \<Rightarrow> Failed e
           | Done (findings', down', failures') \<Rightarrow>
               Done (findings @ findings', down @ down', failures @ failures')))"

definition run_analyzers :: "engine \<Rightarrow> changed_file list
    \<Rightarrow> (finding list \<times> down_migration_status list \<times> string list) run" where
  "run_analyzers e files =
     (case run_loop (e_analyzers e) files of
        Panicked r \<Rightarrow> Panicked r
      | Failed x \<Rightarrow> Failed x
      | Done (findings, down, failures) \<Rightarrow>
          Done (findings, sort_key d_migration down, sort failures))"

subsection \<open>Certificates of runs that failed\<close>

definition blank_finding :: finding where
  "blank_finding = \<lparr>f_rule_id = [], f_file = [], f_line = 0, f_statement = [], f_reversibility = Unknown,
     f_lock = LockExclusive, f_rationale = [], f_undo = [], f_subject = no_subject, f_context = None\<rparr>"

definition failure_certificate :: "string \<Rightarrow> finding list \<Rightarrow> string \<Rightarrow> certificate" where
  "failure_certificate digest findings blocker =
     \<lparr>c_schema_version = schema_version, c_grade = GradeF, c_outcome = OutcomeAnalyzed,
      c_effective_grade = GradeF,
      c_gate = gate GradeF \<lparr>g_coverage = CoverageFull, g_policy_ignored = 0\<rparr>,
      c_coverage = CoverageFull, c_unanalyzed = [], c_ignored_by_policy = [], c_applicable = True,
      c_input_digest = digest, c_findings = findings, c_waived = [], c_policy_digest = [],
      c_catalog_version = [], c_context_warnings = [], c_policy_warnings = [], c_path_anchor = [],
      c_path_prefix = [], c_undo_plan = [no_complete_undo], c_blockers = [blocker],
      c_grade_causes = [''graded F: the engine could not complete this run''],
      c_down_migrations = []\<rparr>"

definition panic_certificate :: "string \<Rightarrow> string \<Rightarrow> certificate" where
  "panic_certificate digest r =
     failure_certificate digest
       [blank_finding\<lparr>f_rule_id := rule_engine_panic,
          f_rationale := ''The engine panicked while analyzing this changeset, so no part of its verdict can be trusted.''\<rparr>]
       (''the engine panicked: '' @ r)"

definition failed_certificate :: "string \<Rightarrow> string \<Rightarrow> certificate" where
  "failed_certificate digest err = failure_certificate digest [] (''analysis did not run: '' @ err)"

definition unavailable_certificate :: "string \<Rightarrow> string \<Rightarrow> certificate" where
  "unavailable_certificate rule cause =
     (let rationale = ''The changeset could not be retrieved, so nothing about it could be analyzed: ''
            @ cause @ ''.''
      in failure_certificate [] [blank_finding\<lparr>f_rule_id := rule, f_rationale := rationale\<rparr>] rationale)"

subsection \<open>Certify\<close>

definition run_digest :: "(string \<Rightarrow> string) \<Rightarrow> engine \<Rightarrow> changed_file list \<Rightarrow> string" where
  "run_digest sha e files =
     (let d0 = input_digest sha files;
          d1 = (case e_policy e of None \<Rightarrow> d0 | Some p \<Rightarrow> combine_digests sha d0 (l_digest p));
          d2 = (case e_context e of None \<Rightarrow> d1 | Some s \<Rightarrow> combine_digests sha d1 (cs_digest s));
          c = snd (catalogs e files)
      in if c \<noteq> [] then combine_digests sha d2 c else d2)"

definition score_of :: "finding list \<Rightarrow> down_migration_status list \<Rightarrow> string list \<Rightarrow>
    analysis_outcome \<Rightarrow> string list \<Rightarrow> score_result" where
  "score_of findings down errors out unsupported =
     score \<lparr>i_findings = findings, i_down_migrations = down, i_analyzer_errors = errors,
            i_outcome = out, i_unsupported = unsupported\<rparr>"

text \<open>From a policy's decision to the certificate.\<close>

definition conclude :: "engine \<Rightarrow> run_config \<Rightarrow> changed_file list \<Rightarrow> string \<Rightarrow> string \<Rightarrow> decision \<Rightarrow>
    down_migration_status list \<Rightarrow> string list \<Rightarrow> certificate" where
  "conclude e c files digest catalog_version decision down errors =
     (let locate = locator c;
          enumerated = (if rc_enumerated c = [] then paths_of files else rc_enumerated c);
          ignored = sort (rc_ignored_by_policy c)
      in case outcome (supports e) files enumerated locate of
           (out, unsupported) \<Rightarrow>
             (let scored = score_of (n_all decision) down errors out unsupported;
                  effective = (if n_waived decision \<noteq> []
                               then r_grade (score_of (n_findings decision) down errors out unsupported)
                               else r_grade scored);
                  cov = (if unsupported \<noteq> [] then CoveragePartial else CoverageFull);
                  ignored_candidates = length (filter (\<lambda>p. candidate (locate p)) ignored)
              in \<lparr>c_schema_version = schema_version, c_grade = r_grade scored, c_outcome = out,
                  c_effective_grade = effective,
                  c_gate = gate (r_grade scored)
                    \<lparr>g_coverage = cov, g_policy_ignored = int ignored_candidates\<rparr>,
                  c_coverage = cov, c_unanalyzed = unanalyzed_files unsupported locate,
                  c_ignored_by_policy = ignored, c_applicable = certifies out,
                  c_input_digest = digest, c_findings = n_findings decision, c_waived = n_waived decision,
                  c_policy_digest = policy_digest e, c_catalog_version = catalog_version,
                  c_context_warnings = context_warnings e,
                  c_policy_warnings =
                    policy_warnings (rc_dead_ignores c) (n_dead_waivers decision) (rc_anchor c),
                  c_path_anchor = rc_anchor c, c_path_prefix = anchored_prefix c,
                  c_undo_plan = build_undo_plan (n_all decision), c_blockers = r_blockers scored,
                  c_grade_causes = r_causes scored, c_down_migrations = down\<rparr>))"

definition certify :: "(string \<Rightarrow> string) \<Rightarrow> engine \<Rightarrow> string option \<Rightarrow> run_config \<Rightarrow>
    changed_file list \<Rightarrow> certificate \<times> string option" where
  "certify sha e cancelled c given =
     (let locate = locator c;
          files = stamp_located given locate;
          digest = run_digest sha e files;
          fail = (\<lambda>err. (failed_certificate digest (''engine: '' @ err), Some (''engine: '' @ err)))
      in case cancelled of
           Some err \<Rightarrow> fail err
         | None \<Rightarrow>
             (case run_analyzers e files of
                Panicked r \<Rightarrow> (panic_certificate digest r, Some (''domain: analyzer panicked: '' @ r))
              | Failed err \<Rightarrow> fail err
              | Done (findings, down, errors) \<Rightarrow>
                  (case apply_policy (e_policy e) (enrich (e_context e) (sort_findings findings))
                          (e_today e) (Some locate) of
                     Inl err \<Rightarrow> fail (policy_error_text err)
                   | Inr decision \<Rightarrow>
                       (conclude e c files digest (fst (catalogs e files)) decision down errors,
                        if errors = [] then None
                        else Some (''engine: '' @ utoa (length errors) @ '' analyzer(s) failed: ''
                                   @ ''['' @ join '' '' errors @ '']'')))))"

end
