(* ===== verification/Guarantees.thy ===== *)
theory Guarantees
  imports Engine
begin

text \<open>
  What the pipeline guarantees about every certificate it returns: the properties of
  \<open>internal/engine\<close>, \<open>internal/policy\<close> and \<open>internal/snapshot\<close> together, over \<open>certify\<close>.
\<close>

subsection \<open>The two shapes of a result\<close>

definition failure_result :: "certificate \<times> string option \<Rightarrow> bool" where
  "failure_result r \<longleftrightarrow> (\<exists>digest fs blocker. fst r = failure_certificate digest fs blocker) \<and> snd r \<noteq> None"

lemma run_loop_not_failed: "run_loop as files \<noteq> Failed e"
  by (induction as arbitrary: e) (auto split: run.splits option.splits)

lemma run_analyzers_not_failed: "run_analyzers e files \<noteq> Failed x"
  using run_loop_not_failed [of "e_analyzers e" files]
  by (auto simp: run_analyzers_def split: run.splits)

lemma certify_cases:
  obtains "failure_result (certify sha e cancelled c given)"
  | findings down errors decision digest version
  where "run_analyzers e (stamp_located given (locator c)) = Done (findings, down, errors)"
    and "apply_policy (e_policy e) (enrich (e_context e) (sort_findings findings)) (e_today e)
           (Some (locator c)) = Inr decision"
    and "fst (certify sha e cancelled c given)
           = conclude e c (stamp_located given (locator c)) digest version decision down errors"
    and "snd (certify sha e cancelled c given) = None \<longleftrightarrow> errors = []"
proof -
  let ?files = "stamp_located given (locator c)"
  show ?thesis
  proof (cases cancelled)
    case (Some err)
    then show ?thesis
      by (intro that(1)) (auto simp: certify_def failure_result_def failed_certificate_def Let_def)
  next
    case ok: None
    show ?thesis
    proof (cases "run_analyzers e ?files")
      case (Failed x)
      then show ?thesis using run_analyzers_not_failed by blast
    next
      case (Panicked r)
      with ok show ?thesis
        by (intro that(1)) (auto simp: certify_def failure_result_def panic_certificate_def Let_def)
    next
      case (Done q)
      obtain findings down errors where q: "q = (findings, down, errors)" by (metis prod_cases3)
      show ?thesis
      proof (cases "apply_policy (e_policy e) (enrich (e_context e) (sort_findings findings)) (e_today e)
          (Some (locator c))")
        case (Inl err)
        with ok Done q show ?thesis
          by (intro that(1)) (auto simp: certify_def failure_result_def failed_certificate_def Let_def)
      next
        case (Inr decision)
        with ok Done q show ?thesis
          by (intro that(2)) (auto simp: certify_def Let_def)
      qed
    qed
  qed
qed

text \<open>A certificate that was concluded, field by field.\<close>

lemma conclude_fields:
  assumes "outcome (supports e) files
      (if rc_enumerated c = [] then paths_of files else rc_enumerated c) (locator c) = (out, bad)"
  shows "c_grade (conclude e c files digest version d down errors) = r_grade (score_of (n_all d) down errors out bad)"
    and "c_effective_grade (conclude e c files digest version d down errors)
      = (if n_waived d \<noteq> [] then r_grade (score_of (n_findings d) down errors out bad)
         else r_grade (score_of (n_all d) down errors out bad))"
    and "c_gate (conclude e c files digest version d down errors)
      = gate (r_grade (score_of (n_all d) down errors out bad))
          \<lparr>g_coverage = (if bad \<noteq> [] then CoveragePartial else CoverageFull),
           g_policy_ignored = int (length (filter (\<lambda>p. candidate (locator c p)) (rc_ignored_by_policy c)))\<rparr>"
    and "c_outcome (conclude e c files digest version d down errors) = out"
    and "c_coverage (conclude e c files digest version d down errors)
      = (if bad \<noteq> [] then CoveragePartial else CoverageFull)"
    and "map u_path (c_unanalyzed (conclude e c files digest version d down errors)) = bad"
    and "c_applicable (conclude e c files digest version d down errors) \<longleftrightarrow> out = OutcomeAnalyzed"
    and "c_blockers (conclude e c files digest version d down errors)
      = r_blockers (score_of (n_all d) down errors out bad)"
    and "c_grade_causes (conclude e c files digest version d down errors)
      = r_causes (score_of (n_all d) down errors out bad)"
    and "c_undo_plan (conclude e c files digest version d down errors) = build_undo_plan (n_all d)"
proof -
  have ignored: "length (filter P (sort xs)) = length (filter P xs)" for P and xs :: "string list"
    by (metis filter_sort length_sort)
  show "c_grade (conclude e c files digest version d down errors) = r_grade (score_of (n_all d) down errors out bad)"
    and "c_effective_grade (conclude e c files digest version d down errors)
      = (if n_waived d \<noteq> [] then r_grade (score_of (n_findings d) down errors out bad)
         else r_grade (score_of (n_all d) down errors out bad))"
    and "c_gate (conclude e c files digest version d down errors)
      = gate (r_grade (score_of (n_all d) down errors out bad))
          \<lparr>g_coverage = (if bad \<noteq> [] then CoveragePartial else CoverageFull),
           g_policy_ignored = int (length (filter (\<lambda>p. candidate (locator c p)) (rc_ignored_by_policy c)))\<rparr>"
    and "c_outcome (conclude e c files digest version d down errors) = out"
    and "c_coverage (conclude e c files digest version d down errors)
      = (if bad \<noteq> [] then CoveragePartial else CoverageFull)"
    and "map u_path (c_unanalyzed (conclude e c files digest version d down errors)) = bad"
    and "c_applicable (conclude e c files digest version d down errors) \<longleftrightarrow> out = OutcomeAnalyzed"
    and "c_blockers (conclude e c files digest version d down errors)
      = r_blockers (score_of (n_all d) down errors out bad)"
    and "c_grade_causes (conclude e c files digest version d down errors)
      = r_causes (score_of (n_all d) down errors out bad)"
    and "c_undo_plan (conclude e c files digest version d down errors) = build_undo_plan (n_all d)"
    by (simp_all add: conclude_def Let_def assms(1) ignored certifies_def)
qed

lemma failure_certificate_fields [simp]:
  "c_grade (failure_certificate d fs b) = GradeF"
  "c_effective_grade (failure_certificate d fs b) = GradeF"
  "c_gate (failure_certificate d fs b) = GateFail"
  "c_outcome (failure_certificate d fs b) = OutcomeAnalyzed"
  "c_coverage (failure_certificate d fs b) = CoverageFull"
  "c_unanalyzed (failure_certificate d fs b) = []"
  "c_applicable (failure_certificate d fs b)"
  "c_blockers (failure_certificate d fs b) = [b]"
  "c_grade_causes (failure_certificate d fs b) \<noteq> []"
  by (simp_all add: failure_certificate_def gate_def)

definition consistent :: "certificate \<Rightarrow> bool" where
  "consistent x \<longleftrightarrow>
     (c_gate x = GateNotApplicable \<longleftrightarrow> c_grade x = GradeNA)
     \<and> (c_applicable x \<longleftrightarrow> c_outcome x = OutcomeAnalyzed)
     \<and> (c_coverage x = CoverageFull \<longleftrightarrow> c_unanalyzed x = [])
     \<and> c_grade_causes x \<noteq> []
     \<and> (c_grade x = GradeF \<longleftrightarrow> c_blockers x \<noteq> [] \<and> c_grade x \<noteq> GradeNA)
     \<and> \<not> (c_grade x = GradeNA \<and> c_applicable x)
     \<and> (c_gate x = GatePass \<longrightarrow> c_grade x = GradeA \<and> c_applicable x \<and> c_coverage x = CoverageFull
         \<and> c_blockers x = [])"

lemma outcome_pair: obtains out bad where "outcome claims files enumerated loc = (out, bad)"
  by (rule prod.exhaust)

lemma score_NA: "r_grade (score i) = GradeNA \<Longrightarrow> i_outcome i \<noteq> OutcomeAnalyzed"
proof
  assume na: "r_grade (score i) = GradeNA" and a: "i_outcome i = OutcomeAnalyzed"
  have "r_grade (measured fs down) \<noteq> GradeNA" for fs down
    using measured_not_F [of fs down] by auto
  with na a show False by (auto simp: score_def split: if_splits)
qed

lemma consistent_conclude: "consistent (conclude e c files digest version d down errors)"
proof -
  obtain out bad where o: "outcome (supports e) files
      (if rc_enumerated c = [] then paths_of files else rc_enumerated c) (locator c) = (out, bad)"
    by (rule outcome_pair)
  let ?i = "\<lparr>i_findings = n_all d, i_down_migrations = down, i_analyzer_errors = errors, i_outcome = out,
      i_unsupported = bad\<rparr>"
  note f = conclude_fields [OF o, of digest version d down errors, unfolded score_of_def]
  have bad: "c_unanalyzed (conclude e c files digest version d down errors) = [] \<longleftrightarrow> bad = []"
    using f(6) by (metis map_is_Nil_conv)
  show ?thesis
    using score_reasons [of ?i] score_NA [of ?i] score_A [of ?i]
    unfolding consistent_def bad f by (auto simp: gate_def)
qed

lemma consistent_failure: "failure_result r \<Longrightarrow> consistent (fst r)"
  by (auto simp: failure_result_def consistent_def)

subsection \<open>Passing takes evidence\<close>

lemma tightened_clean:
  assumes "list_all2 tightens fs gs" and "list_all clean_finding gs"
  shows "list_all (\<lambda>f. f_reversibility f = Reversible \<and> \<not> at_least (f_lock f) LockFullScan) fs"
  using assms
proof (induction rule: list_all2_induct)
  case (Cons f fs g gs)
  then have "f_lock g = f_lock f" and "rev_severity (f_reversibility f) \<le> 0"
    and "\<not> at_least (f_lock g) LockFullScan"
    by (auto simp: clean_finding_def tightens_def)
  moreover from this have "f_reversibility f = Reversible" by (cases "f_reversibility f") simp_all
  ultimately show ?case using Cons by simp
qed simp

lemma list_all_sorted [simp]: "list_all P (sort_findings fs) = list_all P fs"
  by (simp add: list_all_iff)

lemma decision_tightens:
  assumes "apply_policy p (enrich s fs) today (Some loc) = Inr d"
  shows "list_all2 tightens fs (n_all d)"
  using enrich_tightens [of fs s] apply_policy_tightens [OF assms]
  unfolding list_all2_conv_all_nth by (metis tightens_trans)

text \<open>Everything a \<open>PASS\<close> establishes.\<close>

definition evidence :: "engine \<Rightarrow> run_config \<Rightarrow> changed_file list \<Rightarrow> bool" where
  "evidence e c files \<longleftrightarrow>
     (\<exists>findings down.
        run_analyzers e files = Done (findings, down, [])
        \<and> list_all (\<lambda>f. f_reversibility f = Reversible \<and> \<not> at_least (f_lock f) LockFullScan) findings
        \<and> list_all (\<lambda>s. d_exists s \<and> d_parses s) down)
     \<and> (\<exists>f\<in>set files. supports e (location_of f))
     \<and> (\<forall>p\<in>set (if rc_enumerated c = [] then paths_of files else rc_enumerated c).
          \<not> uncovered (supports e) files (if rc_enumerated c = [] then paths_of files else rc_enumerated c)
             (locator c) p)
     \<and> (\<forall>p\<in>set (rc_ignored_by_policy c). \<not> candidate (locator c p))"

lemma pass_evidence:
  assumes "c_gate (fst (certify sha e cancelled c given)) = GatePass"
  shows "snd (certify sha e cancelled c given) = None \<and> evidence e c (stamp_located given (locator c))"
proof (cases rule: certify_cases [of sha e cancelled c given])
  case 1
  with assms show ?thesis by (auto simp: failure_result_def)
next
  case (2 findings down errors decision digest version)
  let ?files = "stamp_located given (locator c)"
  let ?enum = "if rc_enumerated c = [] then paths_of ?files else rc_enumerated c"
  obtain out bad where o: "outcome (supports e) ?files ?enum (locator c) = (out, bad)"
    by (rule outcome_pair)
  let ?i = "\<lparr>i_findings = n_all decision, i_down_migrations = down, i_analyzer_errors = errors,
      i_outcome = out, i_unsupported = bad\<rparr>"
  have gate: "r_grade (score ?i) = GradeA" and full: "bad = []"
    and ignored: "filter (\<lambda>p. candidate (locator c p)) (rc_ignored_by_policy c) = []"
    using assms unfolding 2(3) conclude_fields(3) [OF o] score_of_def
    by (auto simp: gate_pass_iff split: if_splits)
  then have clean: "list_all clean_finding (n_all decision)" and errors: "errors = []"
    and out: "out = OutcomeAnalyzed" and sound: "list_all (\<lambda>s. d_exists s \<and> d_parses s) down"
    using score_A [of ?i] by auto
  have "list_all (\<lambda>f. f_reversibility f = Reversible \<and> \<not> at_least (f_lock f) LockFullScan) findings"
    using tightened_clean [OF decision_tightens [OF 2(2)] clean] by simp
  moreover have "\<exists>f\<in>set ?files. supports e (location_of f)"
    using o out by (auto simp: outcome_eq Let_def split: if_splits)
  moreover have "{p \<in> set ?enum. uncovered (supports e) ?files ?enum (locator c) p} = {}"
    using set_outcome [of "supports e" ?files ?enum "locator c"] o full by simp
  then have "\<forall>p\<in>set ?enum. \<not> uncovered (supports e) ?files ?enum (locator c) p" by blast
  ultimately show ?thesis
    using 2(1,4) errors sound ignored by (auto simp: evidence_def filter_empty_conv)
qed


subsection \<open>A registered analyzer\<close>

lemma run_loop_member:
  assumes "run_loop as files = Done (fs, down, [])" and "a \<in> set as"
  shows "\<exists>got. a_analyze a files = Done got \<and> set got \<subseteq> set fs
    \<and> (\<forall>v. a_validate a = Some v \<longrightarrow> (\<exists>sts. v files = Done sts \<and> set sts \<subseteq> set down))"
  using assms
proof (induction as arbitrary: fs down)
  case (Cons b bs)
  then obtain got sts fs' down' where
    b: "a_analyze b files = Done got" "a_validate b = None \<and> sts = [] \<or> (\<exists>v. a_validate b = Some v \<and> v files = Done sts)"
    and bs: "run_loop bs files = Done (fs', down', [])" "fs = got @ fs'" "down = sts @ down'"
    by (auto split: run.splits option.splits prod.splits)
  show ?case
  proof (cases "a = b")
    case True
    with b bs show ?thesis by auto
  next
    case False
    with Cons.prems(2) have "a \<in> set bs" by simp
    from Cons.IH [OF bs(1) this] obtain got' where "a_analyze a files = Done got'" "set got' \<subseteq> set fs'"
      and "\<And>v. a_validate a = Some v \<Longrightarrow> \<exists>sts. v files = Done sts \<and> set sts \<subseteq> set down'" by blast
    moreover have "set fs' \<subseteq> set fs" "set down' \<subseteq> set down" using bs(2,3) by auto
    ultimately show ?thesis by (meson order_trans)
  qed
qed simp

definition blocks_nothing :: "finding \<Rightarrow> bool" where
  "blocks_nothing f \<longleftrightarrow> f_reversibility f = Reversible \<and> \<not> at_least (f_lock f) LockFullScan"

text \<open>What a \<open>PASS\<close> says of one analyzer of the engine: it returned, its findings block nothing, and so
  do its reports on down migrations.\<close>

lemma registered_pass:
  assumes "c_gate (fst (certify sha e cancelled c given)) = GatePass" and "a \<in> set (e_analyzers e)"
  shows "\<exists>got. a_analyze a (stamp_located given (locator c)) = Done got \<and> list_all blocks_nothing got
    \<and> (\<forall>v. a_validate a = Some v \<longrightarrow>
         (\<exists>sts. v (stamp_located given (locator c)) = Done sts \<and> list_all (\<lambda>s. d_exists s \<and> d_parses s) sts))"
proof -
  let ?files = "stamp_located given (locator c)"
  from pass_evidence [OF assms(1)] obtain findings down where
    run: "run_analyzers e ?files = Done (findings, down, [])"
    and rev: "list_all blocks_nothing findings"
    and sound: "list_all (\<lambda>s. d_exists s \<and> d_parses s) down"
    unfolding evidence_def blocks_nothing_def by blast
  then obtain down0 where loop: "run_loop (e_analyzers e) ?files = Done (findings, down0, [])"
    and down: "set down0 = set down"
    by (auto simp: run_analyzers_def split: run.splits)
  from run_loop_member [OF loop assms(2)] obtain got where got: "a_analyze a ?files = Done got" "set got \<subseteq> set findings"
    and val: "\<And>v. a_validate a = Some v \<Longrightarrow> \<exists>sts. v ?files = Done sts \<and> set sts \<subseteq> set down0" by blast
  have "list_all blocks_nothing got" using got(2) rev by (auto simp: list_all_iff)
  moreover have "\<exists>sts. v ?files = Done sts \<and> list_all (\<lambda>s. d_exists s \<and> d_parses s) sts" if v: "a_validate a = Some v" for v
    using val [OF v] sound unfolding down list_all_iff by blast
  ultimately show ?thesis using got(1) by blast
qed

subsection \<open>Waivers\<close>

lemma apply_policy_waivers:
  "case apply_policy (Some p) fs today locate of
     Inl err \<Rightarrow> apply_policy (Some (p\<lparr>l_waivers := ws\<rparr>)) fs today locate = Inl err
   | Inr d \<Rightarrow> \<exists>d'. apply_policy (Some (p\<lparr>l_waivers := ws\<rparr>)) fs today locate = Inr d' \<and> n_all d' = n_all d"
  by (auto simp: apply_policy_def apply_overrides_def split: sum.splits prod.splits)

text \<open>What a certificate says of a change, without what was decided about it.\<close>

definition verdict :: "certificate \<Rightarrow> grade \<times> gate_status \<times> coverage \<times> string list \<times> string list \<times> string" where
  "verdict x = (c_grade x, c_gate x, c_coverage x, c_blockers x, c_undo_plan x, c_input_digest x)"

lemma supports_policy [simp]: "supports (e\<lparr>e_policy := p\<rparr>) = supports e"
  by (rule ext) (simp add: supports_def)

lemma conclude_verdict:
  "n_all d = n_all d' \<Longrightarrow>
   verdict (conclude e c files digest version d down errors)
     = verdict (conclude (e\<lparr>e_policy := p\<rparr>) c files digest version d' down errors)"
  by (simp add: verdict_def conclude_def Let_def split: prod.split)

lemma verdict_waivers:
  assumes "e_policy e = Some p"
  shows "verdict (fst (certify sha e cancelled c given))
       = verdict (fst (certify sha (e\<lparr>e_policy := Some (p\<lparr>l_waivers := ws\<rparr>)\<rparr>) cancelled c given))
     \<and> snd (certify sha e cancelled c given)
       = snd (certify sha (e\<lparr>e_policy := Some (p\<lparr>l_waivers := ws\<rparr>)\<rparr>) cancelled c given)"
proof -
  let ?e = "e\<lparr>e_policy := Some (p\<lparr>l_waivers := ws\<rparr>)\<rparr>"
  have digest: "run_digest sha ?e files = run_digest sha e files" for files
    by (simp add: run_digest_def catalogs_def assms Let_def)
  have run: "run_analyzers ?e files = run_analyzers e files" for files
    by (simp add: run_analyzers_def)
  have cat: "catalogs ?e files = catalogs e files" for files
    by (simp add: catalogs_def)
  show ?thesis
  proof (cases cancelled)
    case None
    show ?thesis
    proof (cases "run_analyzers e (stamp_located given (locator c))")
      case (Done q)
      obtain findings down errors where q: "q = (findings, down, errors)" by (metis prod_cases3)
      show ?thesis
        using apply_policy_waivers [where p = p and ws = ws and locate = "Some (locator c)"
            and fs = "enrich (e_context e) (sort_findings findings)" and today = "e_today e"] None Done q
        by (auto simp: certify_def Let_def run digest cat assms split: sum.splits intro: conclude_verdict)
    qed (use None in \<open>simp_all add: certify_def Let_def run digest\<close>)
  qed (simp add: certify_def Let_def digest)
qed

subsection \<open>Properties\<close>

text \<open>C5. A \<open>PASS\<close> is only ever given on evidence: no error is reported, every analyzer finished, every
  finding the analyzers produced is reversible with a lock no worse than SHORT, every down migration
  exists and parses, some file was analysed, every file that exists in scope was read and claimed, and
  no migration-shaped file was ignored by policy. No policy, waiver or snapshot can buy it.\<close>

theorem pass_requires_evidence:
  assumes "c_gate (fst (certify sha e cancelled c given)) = GatePass"
  shows "snd (certify sha e cancelled c given) = None \<and> evidence e c (stamp_located given (locator c))"
  using assms by (rule pass_evidence)

text \<open>An engine with one analyzer, which claims SQL files and finds nothing.\<close>

definition quiet_analyzer :: analyzer where
  "quiet_analyzer = \<lparr>a_name = ''quiet'', a_supports = (\<lambda>l. has_suffix l ''.sql''),
     a_analyze = (\<lambda>files. Done []), a_validate = None, a_catalog = None\<rparr>"

definition plain_run :: run_config where
  "plain_run = \<lparr>rc_enumerated = [''a.sql''], rc_ignored_by_policy = [], rc_dead_ignores = [],
     rc_root = [], rc_anchor = []\<rparr>"

definition sql_change :: changed_file where
  "sql_change = one_change\<lparr>p_path := ''a.sql''\<rparr>"

theorem pass_requires_evidence_witness:
  "snd (certify (\<lambda>b. b) (new_engine [quiet_analyzer] None 0 None) None plain_run [sql_change]) = None"
proof -
  have "c_gate (fst (certify (\<lambda>b. b) (new_engine [quiet_analyzer] None 0 None) None plain_run [sql_change]))
      = GatePass" by code_simp
  from pass_requires_evidence [OF this] show ?thesis ..
qed

text \<open>C7. Every certificate is coherent, those of failed runs included: it is always explained, F means
  blockers, N/A means that nothing was analysed, partial coverage names the files, and a gate that
  passes means grade A with full coverage and no blocker.\<close>

theorem every_certificate_consistent: "consistent (fst (certify sha e cancelled c given))"
proof (cases rule: certify_cases [of sha e cancelled c given])
  case 1
  then show ?thesis by (rule consistent_failure)
next
  case 2
  then show ?thesis by (simp add: consistent_conclude)
qed

text \<open>C8. A waiver accepts a risk and does not change the evidence: whatever the waivers of a policy
  are, the grade, the gate, the coverage, the blockers, the undo plan and the error are the same.\<close>

theorem waivers_never_move_the_verdict:
  "verdict (fst (certify sha (new_engine as (Some p) today context) cancelled c given))
     = verdict (fst (certify sha (new_engine as (Some (p\<lparr>l_waivers := ws\<rparr>)) today context) cancelled c given))
   \<and> snd (certify sha (new_engine as (Some p) today context) cancelled c given)
     = snd (certify sha (new_engine as (Some (p\<lparr>l_waivers := ws\<rparr>)) today context) cancelled c given)"
  using verdict_waivers [where e = "new_engine as (Some p) today context" and p = p] by (simp add: new_engine_def)

lemma run_loop_fails:
  assumes "a \<in> set as" and "\<not> is_done (a_analyze a files)"
    and "run_loop as files = Done (findings, down, errors)"
  shows "errors \<noteq> []"
  using assms
proof (induction as arbitrary: findings down errors)
  case (Cons b bs)
  then show ?case
    by (cases "a = b") (auto split: run.splits option.splits prod.splits)
qed simp

text \<open>C6. The run fails closed: when any analyzer returns an error or panics, the certificate is a grade
  F with the gate closed and a reason, and the error is returned beside it.\<close>

theorem analyzer_failure_fails_closed:
  assumes "a \<in> set as" and "\<not> is_done (a_analyze a (stamp_located given (locator c)))"
  shows "c_grade (fst (certify sha (new_engine as p today context) cancelled c given)) = GradeF
    \<and> c_gate (fst (certify sha (new_engine as p today context) cancelled c given)) = GateFail
    \<and> c_blockers (fst (certify sha (new_engine as p today context) cancelled c given)) \<noteq> []
    \<and> snd (certify sha (new_engine as p today context) cancelled c given) \<noteq> None"
proof (cases rule: certify_cases [of sha "new_engine as p today context" cancelled c given])
  case 1
  then show ?thesis by (auto simp: failure_result_def)
next
  case (2 findings down errors decision digest version)
  let ?e = "new_engine as p today context"
  let ?files = "stamp_located given (locator c)"
  obtain raw where "run_loop (e_analyzers ?e) ?files = Done (findings, raw)"
    and "sort (snd raw) = errors"
    using 2(1) by (auto simp: run_analyzers_def split: run.splits)
  moreover from this have "snd raw \<noteq> []"
    using run_loop_fails [of a "e_analyzers ?e" ?files findings "fst raw" "snd raw"] assms
    by (simp add: new_engine_def)
  ultimately have errors: "errors \<noteq> []" by auto
  obtain out bad where o: "outcome (supports ?e) ?files
      (if rc_enumerated c = [] then paths_of ?files else rc_enumerated c) (locator c) = (out, bad)"
    by (rule outcome_pair)
  let ?i = "\<lparr>i_findings = n_all decision, i_down_migrations = down, i_analyzer_errors = errors,
      i_outcome = out, i_unsupported = bad\<rparr>"
  have F: "r_grade (score ?i) = GradeF" using score_F [of ?i] errors by simp
  have b: "r_blockers (score ?i) \<noteq> []" using F score_reasons [of ?i] by simp
  show ?thesis
    unfolding 2(3) conclude_fields(1,3,8) [OF o] score_of_def
    using F b 2(4) errors by (simp add: gate_def)
qed

definition broken_analyzer :: "(finding list) run \<Rightarrow> analyzer" where
  "broken_analyzer result = quiet_analyzer\<lparr>a_name := ''broken'', a_analyze := (\<lambda>files. result)\<rparr>"

theorem analyzer_failure_fails_closed_witness:
  "c_grade (fst (certify (\<lambda>b. b) (new_engine [quiet_analyzer, broken_analyzer (Panicked ''x'')] None 0 None)
     None plain_run [sql_change])) = GradeF
   \<and> c_grade (fst (certify (\<lambda>b. b) (new_engine [quiet_analyzer, broken_analyzer (Failed ''x'')] None 0 None)
     None plain_run [sql_change])) = GradeF"
  using analyzer_failure_fails_closed [where a = "broken_analyzer (Panicked ''x'')"
      and as = "[quiet_analyzer, broken_analyzer (Panicked ''x'')]"]
    analyzer_failure_fails_closed [where a = "broken_analyzer (Failed ''x'')"
      and as = "[quiet_analyzer, broken_analyzer (Failed ''x'')]"]
  by (simp add: broken_analyzer_def)

text \<open>The effective grade, which a waiver can lift, is never below the grade, unless setting the
  waived findings aside leaves a run in which nothing was analysed.\<close>

theorem effective_grade_not_below:
  "c_effective_grade (fst (certify sha e cancelled c given)) = GradeNA
   \<or> grade_rank (c_grade (fst (certify sha e cancelled c given)))
       \<le> grade_rank (c_effective_grade (fst (certify sha e cancelled c given)))"
proof (cases rule: certify_cases [of sha e cancelled c given])
  case 1
  then show ?thesis by (auto simp: failure_result_def)
next
  case (2 findings down errors decision digest version)
  let ?files = "stamp_located given (locator c)"
  obtain out bad where o: "outcome (supports e) ?files
      (if rc_enumerated c = [] then paths_of ?files else rc_enumerated c) (locator c) = (out, bad)"
    by (rule outcome_pair)
  let ?i = "\<lambda>fs. \<lparr>i_findings = fs, i_down_migrations = down, i_analyzer_errors = errors,
      i_outcome = out, i_unsupported = bad\<rparr>"
  have sub: "mset (n_findings decision) \<subseteq># mset (n_all decision)"
  proof (cases "e_policy e")
    case (Some p)
    then show ?thesis using 2(2) by (simp add: apply_policy_Some(2) mset_filter)
  qed (use 2(2) in auto)
  have "r_grade (score (?i (n_findings decision))) = GradeNA
      \<or> grade_rank (r_grade (score (?i (n_all decision)))) \<le> grade_rank (r_grade (score (?i (n_findings decision))))"
  proof (cases "out = OutcomeAnalyzed")
    case True
    then show ?thesis using score_mono [of "?i (n_findings decision)" "n_all decision"] sub by simp
  next
    case False
    have "blocking_findings (n_all decision) = [] \<Longrightarrow> blocking_findings (n_findings decision) = []"
      using sub by (auto simp: blocking_findings_nil list_all_iff dest: mset_subset_eqD)
    with False show ?thesis by (cases out) (simp_all add: score_def)
  qed
  then show ?thesis
    unfolding 2(3) conclude_fields(1,2) [OF o] score_of_def by auto
qed

text \<open>A certificate does not depend on the order in which analyzers are registered.\<close>

theorem registry_order_irrelevant:
  assumes "mset as = mset bs" and "distinct (map a_name as)"
  shows "certify sha (new_engine as p today context) cancelled c given
       = certify sha (new_engine bs p today context) cancelled c given"
proof -
  have "sort_key a_name as = sort_key a_name bs"
    using assms by (intro sort_key_permutation) (simp_all add: distinct_map)
  then show ?thesis by (simp add: new_engine_def)
qed

theorem registry_order_irrelevant_witness:
  "certify id (new_engine [quiet_analyzer, broken_analyzer (Failed ''e'')] None 0 None) None plain_run [sql_change]
     = certify id (new_engine [broken_analyzer (Failed ''e''), quiet_analyzer] None 0 None) None plain_run [sql_change]"
  by (rule registry_order_irrelevant) (simp_all add: broken_analyzer_def quiet_analyzer_def)

end
