(* ===== verification/Go_Json.thy ===== *)
theory Go_Json
  imports Go_Float
begin

text \<open>
  The values \<open>encoding/json\<close> decodes into \<open>any\<close>, which the Terraform and the Kubernetes analyzer read:
  \<open>nil\<close>, \<open>bool\<close>, \<open>float64\<close>, \<open>string\<close>, \<open>[]any\<close> and \<open>map[string]any\<close>. A map is the list of its entries in
  the order of their keys, each key once, so that two values are equal exactly when \<open>reflect.DeepEqual\<close>
  says so; a missing map and an empty one are both \<open>[]\<close>, as no code here tells them apart.
\<close>

datatype json =
    JNull | JBool bool | JNum float64 | JStr string | JList "json list" | JObj "(string \<times> json) list"

type_synonym attributes = "(string \<times> json) list"

definition attr :: "attributes \<Rightarrow> string \<Rightarrow> json option" where
  "attr m k = map_of m k"

lemma attr_Nil [simp]: "attr [] k = None"
  by (simp add: attr_def)

lemma attr_Cons [simp]: "attr ((k', v) # m) k = (if k = k' then Some v else attr m k)"
  by (simp add: attr_def)

text \<open>Type assertions in the form with two results, with the zero value when they fail.\<close>

fun as_bool :: "json \<Rightarrow> bool option" where
  "as_bool (JBool b) = Some b"
| "as_bool _ = None"

fun as_string :: "json \<Rightarrow> string" where
  "as_string (JStr s) = s"
| "as_string _ = []"

fun as_list :: "json \<Rightarrow> json list" where
  "as_list (JList xs) = xs"
| "as_list _ = []"

fun as_object :: "json \<Rightarrow> attributes option" where
  "as_object (JObj m) = Some m"
| "as_object _ = None"

text \<open>Comparison of \<open>float64\<close> values.\<close>

definition fl_equal :: "float64 \<Rightarrow> float64 \<Rightarrow> bool" where
  "fl_equal x y \<longleftrightarrow> \<not> fl_less x y \<and> \<not> fl_less y x"

end
