(* ===== verification/Terraform_Plan.thy ===== *)
theory Terraform_Plan
  imports Domain Go_Json
begin

text \<open>
  Terraform plans and the evidence in them: \<open>plan.go\<close> and \<open>evidence.go\<close> of
  \<open>internal/analyzer/terraform\<close>. A plan holds the fields the analyzer decodes, an attribute map is a JSON
  object. How \<open>json.Unmarshal\<close> fills these fields from the bytes of a file is a parameter of
  \<open>decode_plan\<close>, with the text of its error.
\<close>

subsection \<open>Plans\<close>

record plan_change =
  ch_actions :: "string list"
  ch_before :: attributes
  ch_after :: attributes

record resource_change =
  rs_address :: string
  rs_mode :: string
  rs_type :: string
  rs_name :: string
  rs_provider :: string
  rs_change :: plan_change

record tf_plan =
  pl_format :: string
  pl_terraform :: string
  pl_changes :: "resource_change list"

definition change_destroys :: "plan_change \<Rightarrow> bool" where
  "change_destroys c \<longleftrightarrow> list_ex (\<lambda>a. a = ''delete'') (ch_actions c)"

definition change_replaces :: "plan_change \<Rightarrow> bool" where
  "change_replaces c \<longleftrightarrow> change_destroys c \<and> list_ex (\<lambda>a. a = ''create'') (ch_actions c)"

definition change_updates :: "plan_change \<Rightarrow> bool" where
  "change_updates c \<longleftrightarrow> ch_actions c = [''update'']"

definition change_creates :: "plan_change \<Rightarrow> bool" where
  "change_creates c \<longleftrightarrow> ch_actions c = [''create'']"

definition supported_format_versions :: "string list" where
  "supported_format_versions = [''1.0'', ''1.1'']"

definition supported_version_list :: string where
  "supported_version_list =
     (let out = sort supported_format_versions in
      case out of
        [] \<Rightarrow> ''none''
      | [v] \<Rightarrow> v
      | _ \<Rightarrow> join '', '' (butlast out) @ '' and '' @ last out)"

definition decode_plan :: "(string \<Rightarrow> string + tf_plan) \<Rightarrow> string \<Rightarrow> string + tf_plan" where
  "decode_plan unmarshal raw =
     (case unmarshal raw of
        Inl err \<Rightarrow> Inl (''this file is not a Terraform plan document: '' @ err)
      | Inr p \<Rightarrow>
          (if pl_format p = [] then
             Inl ''this file has no format_version, so it is not the output of `terraform show -json`''
           else if pl_format p \<notin> set supported_format_versions then
             Inl (''plan format version '' @ go_quote (pl_format p)
                  @ '' is not one this build reads (it understands '' @ supported_version_list
                  @ ''), so nothing in it can be classified'')
           else Inr p))"

subsection \<open>Evidence\<close>

definition stateful_evidence_keys :: "string list" where
  "stateful_evidence_keys =
     [''allocated_storage'', ''backup_retention_period'', ''deletion_protection'',
      ''final_snapshot_identifier'', ''kms_key_id'', ''point_in_time_recovery'', ''snapshot_identifier'',
      ''storage_encrypted'', ''versioning'', ''ephemeral_block_device'', ''private_key'']"

definition disabled_safety_keys :: "string list" where
  "disabled_safety_keys = [''force_destroy'', ''skip_final_snapshot'']"

fun meaningfully_set :: "json \<Rightarrow> bool" where
  "meaningfully_set JNull = False"
| "meaningfully_set (JStr s) = (s \<noteq> [])"
| "meaningfully_set (JList xs) = (xs \<noteq> [])"
| "meaningfully_set (JObj m) = (m \<noteq> [])"
| "meaningfully_set (JBool b) = True"
| "meaningfully_set (JNum x) = True"

definition has_stateful_evidence :: "attributes \<Rightarrow> string option" where
  "has_stateful_evidence before =
     find (\<lambda>key. case attr before key of None \<Rightarrow> False | Some v \<Rightarrow> meaningfully_set v)
       (sort stateful_evidence_keys)"

definition has_disabled_safety :: "attributes \<Rightarrow> string option" where
  "has_disabled_safety before =
     find (\<lambda>key. case attr before key of None \<Rightarrow> False | Some v \<Rightarrow> as_bool v = Some True)
       (sort disabled_safety_keys)"

subsection \<open>Safety transitions\<close>

record safety_transition =
  tr_path :: "string list"
  tr_from_true :: bool
  tr_to_true :: bool
  tr_from_pos :: bool
  tr_why :: string

definition from_true :: "string list \<Rightarrow> string \<Rightarrow> safety_transition" where
  "from_true path why =
     \<lparr>tr_path = path, tr_from_true = True, tr_to_true = False, tr_from_pos = False, tr_why = why\<rparr>"

definition to_true :: "string list \<Rightarrow> string \<Rightarrow> safety_transition" where
  "to_true path why =
     \<lparr>tr_path = path, tr_from_true = False, tr_to_true = True, tr_from_pos = False, tr_why = why\<rparr>"

definition from_pos :: "string list \<Rightarrow> string \<Rightarrow> safety_transition" where
  "from_pos path why =
     \<lparr>tr_path = path, tr_from_true = False, tr_to_true = False, tr_from_pos = True, tr_why = why\<rparr>"

definition safety_transitions :: "safety_transition list" where
  "safety_transitions =
     [from_true [''deletion_protection'']
        ''deletion protection was switched off, so the guard that would have refused a later destroy is gone'',
      from_true [''enable_deletion_protection'']
        ''deletion protection was switched off, so the guard that would have refused a later destroy is gone'',
      to_true [''skip_final_snapshot'']
        ''the final snapshot was disabled, so destroying this resource will now leave nothing to restore from'',
      to_true [''force_destroy'']
        ''force_destroy was enabled, so a later destroy will delete the contents rather than refuse'',
      from_pos [''backup_retention_period'']
        ''automated backups were switched off, so the point-in-time recovery a rollback would have used no longer exists'',
      from_pos [''deletion_window_in_days'']
        ''the key deletion waiting period was removed, so the window in which a scheduled deletion could be cancelled is gone'',
      from_true [''versioning'', ''enabled'']
        ''bucket versioning was switched off, so overwritten and deleted objects are no longer recoverable'',
      from_true [''point_in_time_recovery'', ''enabled'']
        ''point-in-time recovery was switched off, so the table can no longer be restored to an earlier moment'']"

text \<open>One step of a path: a list is replaced by its first element on the way through.\<close>

fun lookup_from :: "json \<Rightarrow> string list \<Rightarrow> json option" where
  "lookup_from cur [] = Some cur"
| "lookup_from cur (key # path) =
     (case (case cur of JList [] \<Rightarrow> None | JList (x # xs) \<Rightarrow> Some x | _ \<Rightarrow> Some cur) of
        None \<Rightarrow> None
      | Some cur \<Rightarrow>
          (case as_object cur of
             None \<Rightarrow> None
           | Some m \<Rightarrow> (case attr m key of None \<Rightarrow> None | Some v \<Rightarrow> lookup_from v path)))"

definition lookup_path :: "attributes \<Rightarrow> string list \<Rightarrow> json option" where
  "lookup_path obj path = lookup_from (JObj obj) path"

fun as_number :: "json \<Rightarrow> float64 option" where
  "as_number (JNum x) = Some x"
| "as_number _ = None"

definition fires :: "safety_transition \<Rightarrow> attributes \<Rightarrow> attributes \<Rightarrow> bool" where
  "fires t before after =
     (case (lookup_path before (tr_path t), lookup_path after (tr_path t)) of
        (Some from, Some to) \<Rightarrow>
          (if tr_from_true t then as_bool from = Some True \<and> as_bool to = Some False
           else if tr_to_true t then as_bool from = Some False \<and> as_bool to = Some True
           else if tr_from_pos t then
             (case (as_number from, as_number to) of
                (Some was, Some is_now) \<Rightarrow> fl_less (fl_of_int 0) was \<and> fl_equal is_now (fl_of_int 0)
              | _ \<Rightarrow> False)
           else False)
      | _ \<Rightarrow> False)"

subsection \<open>Lemmas\<close>

lemma evidence_Some:
  "has_stateful_evidence before = Some key \<Longrightarrow>
     key \<in> set stateful_evidence_keys \<and> (\<exists>v. attr before key = Some v \<and> meaningfully_set v)"
  unfolding has_stateful_evidence_def find_Some_iff
  by (metis (no_types, lifting) nth_mem option.case_eq_if option.collapse set_sort)

lemma evidence_None:
  "has_stateful_evidence before = None \<longleftrightarrow>
     (\<forall>key\<in>set stateful_evidence_keys. \<forall>v. attr before key = Some v \<longrightarrow> \<not> meaningfully_set v)"
  unfolding has_stateful_evidence_def find_None_iff by (auto split: option.splits)

lemma safety_None:
  "has_disabled_safety before = None \<longleftrightarrow>
     (\<forall>key\<in>set disabled_safety_keys. attr before key \<noteq> Some (JBool True))"
proof -
  have "as_bool v = Some True \<longleftrightarrow> v = JBool True" for v by (cases v) auto
  then show ?thesis
    unfolding has_disabled_safety_def find_None_iff by (auto split: option.splits)
qed

lemma supported_versions_text: "supported_version_list = ''1.0 and 1.1''"
  by code_simp

lemma decode_plan_Inr:
  "decode_plan unmarshal raw = Inr p \<longleftrightarrow> unmarshal raw = Inr p \<and> pl_format p \<in> {''1.0'', ''1.1''}"
  unfolding decode_plan_def supported_format_versions_def by (auto split: sum.split)

end
