(* ===== verification/Terraform_Catalog.thy ===== *)
theory Terraform_Catalog
  imports Terraform_Plan Digest
begin

text \<open>
  The catalog of resource types, \<open>catalog.go\<close>, \<open>SuggestClass\<close> of \<open>evidence.go\<close>, and the output for types
  nobody has classified, \<open>suggest.go\<close>, of \<open>internal/analyzer/terraform\<close>. The strict YAML decoder is a
  parameter that gives the three decoded fields of a document, and so is SHA-256. The map from types to
  entries is a partial function.
\<close>

subsection \<open>Classes\<close>

datatype tf_class = Stateful | Stateless | Class_other string

fun class_text :: "tf_class \<Rightarrow> string" where
  "class_text Stateful = ''STATEFUL''"
| "class_text Stateless = ''STATELESS''"
| "class_text (Class_other s) = s"

fun class_valid :: "tf_class \<Rightarrow> bool" where
  "class_valid (Class_other s) = False"
| "class_valid _ = True"

fun class_severity :: "tf_class \<Rightarrow> int" where
  "class_severity Stateful = 1"
| "class_severity _ = 0"

definition at_least_as_severe_as :: "tf_class \<Rightarrow> tf_class \<Rightarrow> bool" where
  "at_least_as_severe_as c other \<longleftrightarrow> class_severity other \<le> class_severity c"

subsection \<open>Catalogs\<close>

record catalog_entry =
  en_type :: string
  en_class :: tf_class
  en_evidence :: string
  en_added_in :: string

record catalog_document =
  cg_version :: string
  cg_provider :: string
  cg_entries :: "catalog_entry list"

record catalog = catalog_document +
  cg_digest :: string
  cg_by_type :: "string \<Rightarrow> catalog_entry option"

definition validate_entry :: "catalog_entry \<Rightarrow> string option" where
  "validate_entry e =
     (if trim_space (en_type e) = [] then Some ''type is required''
      else if \<not> class_valid (en_class e) then
        Some (''class '' @ go_quote (class_text (en_class e)) @ '' is not STATEFUL or STATELESS'')
      else if trim_space (en_evidence e) = [] then
        Some ''evidence is required: a classification nobody can check is an opinion''
      else if \<not> has_prefix (en_evidence e) ''http://'' \<and> \<not> has_prefix (en_evidence e) ''https://'' then
        Some (''evidence '' @ go_quote (en_evidence e) @ '' is not a link'')
      else None)"

fun index_entries :: "nat \<Rightarrow> catalog_entry list \<Rightarrow> (string \<Rightarrow> catalog_entry option)
    \<Rightarrow> string + (string \<Rightarrow> catalog_entry option)" where
  "index_entries i [] m = Inr m"
| "index_entries i (e # es) m =
     (case validate_entry e of
        Some err \<Rightarrow> Inl (''entries['' @ utoa i @ ''] ('' @ en_type e @ ''): '' @ err)
      | None \<Rightarrow>
          (if m (en_type e) \<noteq> None then
             Inl (''entries['' @ utoa i @ '']: '' @ en_type e @ '' is classified twice'')
           else index_entries (Suc i) es (m(en_type e \<mapsto> e))))"

definition entry_stream :: "(string \<Rightarrow> catalog_entry option) \<Rightarrow> string \<Rightarrow> string" where
  "entry_stream m t =
     write_field t @ write_field (case m t of None \<Rightarrow> [] | Some e \<Rightarrow> class_text (en_class e))"

definition digest_entries :: "(string \<Rightarrow> string) \<Rightarrow> catalog \<Rightarrow> string" where
  "digest_entries sha c =
     hex_encode (sha (write_field (cg_version c) @ write_field (cg_provider c)
       @ concat (map (entry_stream (cg_by_type c)) (sort (map en_type (cg_entries c))))))"

definition parse_catalog :: "(string \<Rightarrow> string) \<Rightarrow> (string \<Rightarrow> string + catalog_document) \<Rightarrow> string
    \<Rightarrow> string + catalog" where
  "parse_catalog sha yaml raw =
     (case yaml raw of
        Inl err \<Rightarrow> Inl (''decoding the catalog: '' @ err)
      | Inr d \<Rightarrow>
          (if trim_space (cg_version d) = [] then
             Inl ''the catalog has no catalog_version, so a verdict could not be attributed to it''
           else if trim_space (cg_provider d) = [] then Inl ''the catalog names no provider''
           else
             (case index_entries 0 (cg_entries d) (\<lambda>t. None) of
                Inl err \<Rightarrow> Inl err
              | Inr m \<Rightarrow>
                  (let c = \<lparr>cg_version = cg_version d, cg_provider = cg_provider d,
                            cg_entries = cg_entries d, cg_digest = [], cg_by_type = m\<rparr>
                   in Inr (c\<lparr>cg_digest := digest_entries sha c\<rparr>)))))"

definition coverage_counts :: "catalog \<Rightarrow> nat \<times> nat" where
  "coverage_counts c =
     (length (filter (\<lambda>e. en_class e = Stateful) (cg_entries c)),
      length (filter (\<lambda>e. en_class e \<noteq> Stateful) (cg_entries c)))"

subsection \<open>Suggestions\<close>

definition suggest_class :: "string list \<Rightarrow> tf_class \<times> string" where
  "suggest_class attributes =
     (let matched = sort (filter (\<lambda>key. key \<in> set attributes) stateful_evidence_keys) in
      if matched \<noteq> [] then (Stateful, ''schema declares '' @ join '', '' matched) else (Stateless, []))"

definition unclassified_types :: "finding list \<Rightarrow> string list" where
  "unclassified_types findings =
     sorted_keys (map (\<lambda>f. s_relation (f_subject f))
       (filter (\<lambda>f. f_rule_id f = ''TF010'' \<and> s_relation (f_subject f) \<noteq> []) findings))"

definition policy_snippet :: "string list \<Rightarrow> string" where
  "policy_snippet types =
     (if types = [] then []
      else ''terraform_types:'' @ newline
        @ concat (map (\<lambda>t. ''  - type: '' @ t @ newline
            @ ''    class: STATEFUL   # STATEFUL if destroying it loses data, an identity, or a recovery path''
            @ newline) types))"

definition upper_hex :: "nat \<Rightarrow> char" where
  "upper_hex n = (if n < 10 then char_of (48 + n) else char_of (55 + n))"

definition unreserved :: "char \<Rightarrow> bool" where
  "unreserved c \<longleftrightarrow>
     (let n = (of_char c :: nat) in
      48 \<le> n \<and> n \<le> 57 \<or> 65 \<le> n \<and> n \<le> 90 \<or> 97 \<le> n \<and> n \<le> 122
      \<or> c \<in> {CHR ''-'', CHR ''_'', CHR ''.'', CHR ''~''})"

definition query_escape :: "string \<Rightarrow> string" where
  "query_escape s =
     concat (map (\<lambda>c. if unreserved c then [c]
                      else if c = CHR '' '' then ''+''
                      else [CHR ''%'', upper_hex ((of_char c :: nat) div 16),
                            upper_hex ((of_char c :: nat) mod 16)]) s)"

definition issue_repository :: string where
  "issue_repository = ''https://github.com/VIKOIT/reversibility-engine''"

definition issue_title :: "string list \<Rightarrow> string" where
  "issue_title types =
     (let title = ''Catalog: classify '' @ join '', '' types in
      if 120 < length title then ''Catalog: classify '' @ utoa (length types) @ '' Terraform resource types''
      else title)"

definition issue_body :: "string list \<Rightarrow> string \<Rightarrow> string" where
  "issue_body types catalog_version =
     ''These resource types were destroyed by a plan and are not in the catalog.'' @ newline @ newline
     @ ''Catalog version: '' @ catalog_version @ newline @ newline
     @ ''| Type | Proposed class | Evidence |'' @ newline @ ''| --- | --- | --- |'' @ newline
     @ concat (map (\<lambda>t. ''| `'' @ t @ ''` | | |'' @ newline) types)
     @ newline @ ''A classification needs an evidence link '' @ emdash
     @ '' the provider documentation for the type.'' @ newline
     @ ''STATEFUL means destroying it destroys data, destroys an identity that re-applying ''
     @ ''the same configuration cannot recreate, or destroys a recovery capability a ''
     @ ''rollback would depend on.'' @ newline"

definition issue_url :: "string list \<Rightarrow> string \<Rightarrow> string" where
  "issue_url types catalog_version =
     (if types = [] then []
      else issue_repository @ ''/issues/new?title='' @ query_escape (issue_title types)
        @ ''&body='' @ query_escape (issue_body types catalog_version)
        @ ''&labels='' @ query_escape ''catalog'')"

subsection \<open>Lemmas\<close>

lemma index_entries_Inr:
  "index_entries i es m = Inr m' \<Longrightarrow>
     m' = (\<lambda>t. case find (\<lambda>e. en_type e = t) es of None \<Rightarrow> m t | Some e \<Rightarrow> Some e)
     \<and> list_all (\<lambda>e. validate_entry e = None \<and> m (en_type e) = None) es \<and> distinct (map en_type es)"
proof (induction i es m rule: index_entries.induct)
  case (1 i m)
  then show ?case by simp
next
  case (2 i e es m)
  from 2(2) have e: "validate_entry e = None" "m (en_type e) = None"
    and rest: "index_entries (Suc i) es (m(en_type e \<mapsto> e)) = Inr m'"
    by (auto split: option.splits if_splits)
  from 2(1) [OF e(1) _ rest] e(2)
  have IH: "m' = (\<lambda>t. case find (\<lambda>e. en_type e = t) es of None \<Rightarrow> (m(en_type e \<mapsto> e)) t | Some e \<Rightarrow> Some e)"
    "list_all (\<lambda>e'. validate_entry e' = None \<and> (m(en_type e \<mapsto> e)) (en_type e') = None) es"
    "distinct (map en_type es)" by auto
  from IH(2) have all: "\<forall>e'\<in>set es. validate_entry e' = None \<and> m (en_type e') = None \<and> en_type e' \<noteq> en_type e"
    by (auto simp: list_all_iff split: if_splits)
  then have "find (\<lambda>e'. en_type e' = en_type e) es = None" by (auto simp: find_None_iff)
  with IH(1) all e IH(3) show ?case
    by (auto simp: list_all_iff fun_eq_iff split: option.splits)
qed

text \<open>What a catalog that was parsed is: every entry is classified and has a link, no type occurs twice,
  and the lookup finds exactly the entries.\<close>

definition catalog_ok :: "catalog \<Rightarrow> bool" where
  "catalog_ok c \<longleftrightarrow>
     list_all (\<lambda>e. validate_entry e = None) (cg_entries c) \<and> distinct (map en_type (cg_entries c))
     \<and> (\<forall>t e. cg_by_type c t = Some e \<longleftrightarrow> e \<in> set (cg_entries c) \<and> en_type e = t)"

lemma find_type:
  assumes "distinct (map en_type es)"
  shows "find (\<lambda>e. en_type e = t) es = Some e \<longleftrightarrow> e \<in> set es \<and> en_type e = t"
  using assms by (induction es) auto

text \<open>The fields of a digest, in the order in which they are hashed.\<close>

definition catalog_fields :: "catalog \<Rightarrow> string list" where
  "catalog_fields c = cg_version c # cg_provider c
     # concat (map (\<lambda>t. [t, case cg_by_type c t of None \<Rightarrow> [] | Some e \<Rightarrow> class_text (en_class e)])
         (sort (map en_type (cg_entries c))))"

definition catalog_stream :: "catalog \<Rightarrow> string" where
  "catalog_stream c = concat (map write_field (catalog_fields c))"

lemma digest_entries_stream: "digest_entries sha c = hex_encode (sha (catalog_stream c))"
proof -
  have "concat (map (entry_stream m) ts)
      = concat (map write_field (concat (map (\<lambda>t. [t, case m t of None \<Rightarrow> [] | Some e \<Rightarrow> class_text (en_class e)]) ts)))"
    for m ts by (induction ts) (simp_all add: entry_stream_def)
  then show ?thesis by (simp add: digest_entries_def catalog_stream_def catalog_fields_def)
qed

lemma parse_catalog_Inr:
  assumes "parse_catalog sha yaml raw = Inr c"
  shows "catalog_ok c" and "cg_digest c = hex_encode (sha (catalog_stream c))"
    and "trim_space (cg_version c) \<noteq> []" and "trim_space (cg_provider c) \<noteq> []"
proof -
  from assms obtain d :: catalog_document and m where d: "trim_space (cg_version d) \<noteq> []" "trim_space (cg_provider d) \<noteq> []"
    and m: "index_entries 0 (cg_entries d) (\<lambda>t. None) = Inr m"
    and c: "c = (let c = \<lparr>cg_version = cg_version d, cg_provider = cg_provider d, cg_entries = cg_entries d,
                          cg_digest = [], cg_by_type = m\<rparr> in c\<lparr>cg_digest := digest_entries sha c\<rparr>)"
    by (auto simp: parse_catalog_def split: sum.splits if_splits)
  have "m t = find (\<lambda>e. en_type e = t) (cg_entries d)" for t
    using index_entries_Inr [OF m] by (cases "find (\<lambda>e. en_type e = t) (cg_entries d)") simp_all
  with index_entries_Inr [OF m] show "catalog_ok c"
    unfolding catalog_ok_def c by (simp add: Let_def list_all_iff find_type)
  show "cg_digest c = hex_encode (sha (catalog_stream c))"
    unfolding c Let_def by (simp add: digest_entries_stream catalog_stream_def catalog_fields_def)
  show "trim_space (cg_version c) \<noteq> []" "trim_space (cg_provider c) \<noteq> []"
    unfolding c Let_def using d by simp_all
qed

definition class_of_type :: "catalog \<Rightarrow> string \<Rightarrow> tf_class option" where
  "class_of_type c t = map_option en_class (cg_by_type c t)"

text \<open>Lengths fit into a Go \<open>int\<close>.\<close>

definition catalog_hashable :: "catalog \<Rightarrow> bool" where
  "catalog_hashable c \<longleftrightarrow> go_len (cg_version c) \<and> go_len (cg_provider c) \<and> list_all (\<lambda>e. go_len (en_type e)) (cg_entries c)"

lemma pairs_inject:
  "concat (map (\<lambda>t. [t, f t]) ts) = concat (map (\<lambda>t. [t, g t]) us) \<Longrightarrow> ts = us \<and> (\<forall>t\<in>set ts. f t = g t)"
proof (induction ts arbitrary: us)
  case Nil
  then show ?case by (cases us) auto
next
  case (Cons t ts)
  then obtain u us' where us: "us = u # us'" by (cases us) auto
  with Cons show ?case by auto
qed

lemma class_text_inject: "class_valid a \<Longrightarrow> class_valid b \<Longrightarrow> class_text a = class_text b \<Longrightarrow> a = b"
  by (cases a; cases b) simp_all

lemma catalog_ok_class:
  assumes "catalog_ok c"
  shows "class_of_type c t = Some k \<Longrightarrow> class_valid k" and "class_of_type c t \<noteq> None \<longleftrightarrow> t \<in> en_type ` set (cg_entries c)"
  using assms unfolding catalog_ok_def class_of_type_def list_all_iff
  by (auto simp: validate_entry_def split: if_splits)

lemma catalog_fields_class:
  assumes "catalog_ok c" and "catalog_ok c'" and "catalog_fields c = catalog_fields c'"
  shows "cg_version c = cg_version c' \<and> cg_provider c = cg_provider c' \<and> class_of_type c = class_of_type c'"
proof -
  define texts where
    "texts = (\<lambda>(x::catalog) t. case cg_by_type x t of None \<Rightarrow> [] | Some e \<Rightarrow> class_text (en_class e))"
  from assms(3) have head: "cg_version c = cg_version c'" "cg_provider c = cg_provider c'"
    and "concat (map (\<lambda>t. [t, texts c t]) (sort (map en_type (cg_entries c))))
       = concat (map (\<lambda>t. [t, texts c' t]) (sort (map en_type (cg_entries c'))))"
    unfolding catalog_fields_def texts_def by simp_all
  then have "sort (map en_type (cg_entries c)) = sort (map en_type (cg_entries c'))
    \<and> (\<forall>t\<in>set (sort (map en_type (cg_entries c))). texts c t = texts c' t)" by (intro pairs_inject)
  then have types: "en_type ` set (cg_entries c) = en_type ` set (cg_entries c')"
    and same: "\<forall>t\<in>en_type ` set (cg_entries c). texts c t = texts c' t"
    by (metis list.set_map set_sort)+
  have "class_of_type c t = class_of_type c' t" for t
  proof (cases "t \<in> en_type ` set (cg_entries c)")
    case False
    with types show ?thesis
      using catalog_ok_class(2) [OF assms(1), of t] catalog_ok_class(2) [OF assms(2), of t] by simp
  next
    case True
    with types obtain k k' where k: "class_of_type c t = Some k" "class_of_type c' t = Some k'"
      using catalog_ok_class(2) [OF assms(1), of t] catalog_ok_class(2) [OF assms(2), of t] by auto
    then have "class_text k = class_text k'"
      using same True by (auto simp: texts_def class_of_type_def)
    with k show ?thesis
      using catalog_ok_class(1) [OF assms(1)] catalog_ok_class(1) [OF assms(2)] class_text_inject by metis
  qed
  with head show ?thesis by auto
qed

lemma catalog_fields_ok:
  assumes "catalog_hashable c" and "catalog_ok c"
  shows "\<forall>x\<in>set (catalog_fields c). go_len x"
proof -
  have "go_len (class_text k)" if "class_of_type c t = Some k" for t k
    using catalog_ok_class(1) [OF assms(2) that] by (cases k) (simp_all add: go_len_def)
  moreover have "go_len ([] :: string)" by (simp add: go_len_def)
  ultimately show ?thesis
    using assms(1)
    by (auto simp: catalog_hashable_def catalog_fields_def list_all_iff class_of_type_def split: option.split)
qed

subsection \<open>Properties\<close>

text \<open>The catalog's digest attributes a verdict to what the catalog says: under a hash function that
  does not collide on the two streams, two catalogs with one digest have one version, one provider and give
  every type the same class, in whatever order their entries are written.\<close>

theorem catalog_digest_attributes_classes:
  assumes "parse_catalog sha yaml raw = Inr c" and "parse_catalog sha yaml raw' = Inr c'"
    and "catalog_hashable c" and "catalog_hashable c'" and "cg_digest c = cg_digest c'"
    and "sha (catalog_stream c) = sha (catalog_stream c') \<Longrightarrow> catalog_stream c = catalog_stream c'"
  shows "cg_version c = cg_version c' \<and> cg_provider c = cg_provider c' \<and> class_of_type c = class_of_type c'"
proof (rule catalog_fields_class [OF parse_catalog_Inr(1) [OF assms(1)] parse_catalog_Inr(1) [OF assms(2)]])
  have "catalog_stream c = catalog_stream c'"
    using assms(5,6) parse_catalog_Inr(2) [OF assms(1)] parse_catalog_Inr(2) [OF assms(2)]
    by (simp add: hex_encode_inject)
  then show "catalog_fields c = catalog_fields c'"
    unfolding catalog_stream_def
    using catalog_fields_ok [OF assms(3) parse_catalog_Inr(1) [OF assms(1)]]
      catalog_fields_ok [OF assms(4) parse_catalog_Inr(1) [OF assms(2)]]
    by (intro wf.stream_inject)
qed

text \<open>The same two types, listed in either order.\<close>

definition sample_entry :: "string \<Rightarrow> tf_class \<Rightarrow> catalog_entry" where
  "sample_entry t k = \<lparr>en_type = t, en_class = k, en_evidence = ''https://d'', en_added_in = ''1''\<rparr>"

definition sample_yaml :: "string \<Rightarrow> string + catalog_document" where
  "sample_yaml raw =
     (let es = [sample_entry ''db'' Stateful, sample_entry ''vm'' Stateless] in
      Inr \<lparr>cg_version = ''1'', cg_provider = ''aws'', cg_entries = (if raw = [] then es else rev es)\<rparr>)"

definition sample_catalog :: "string \<Rightarrow> catalog" where
  "sample_catalog raw = (case parse_catalog (\<lambda>b. b) sample_yaml raw of Inr c \<Rightarrow> c | Inl e \<Rightarrow> undefined)"

lemmas sample_defs = sample_catalog_def parse_catalog_def sample_yaml_def sample_entry_def validate_entry_def
  trim_space_def is_space_def has_prefix_def Let_def

lemma sample_catalog_parses:
  "parse_catalog (\<lambda>b. b) sample_yaml raw = Inr (sample_catalog raw)"
  by (cases "raw = []") (simp_all add: sample_defs)

lemma sample_catalog_hashable: "catalog_hashable (sample_catalog raw)"
  by (cases "raw = []") (simp_all add: sample_defs catalog_hashable_def go_len_def)

lemma sample_catalog_fields: "catalog_fields (sample_catalog []) = catalog_fields (sample_catalog ''x'')"
  by (simp add: sample_defs catalog_fields_def)

theorem catalog_digest_attributes_classes_witness:
  "class_of_type (sample_catalog []) = class_of_type (sample_catalog ''x'')"
proof -
  have stream: "catalog_stream (sample_catalog []) = catalog_stream (sample_catalog ''x'')"
    by (simp add: catalog_stream_def sample_catalog_fields)
  then have "cg_digest (sample_catalog []) = cg_digest (sample_catalog ''x'')"
    by (simp add: parse_catalog_Inr(2) [OF sample_catalog_parses])
  then show ?thesis
    using catalog_digest_attributes_classes [OF sample_catalog_parses sample_catalog_parses
      sample_catalog_hashable sample_catalog_hashable] stream by blast
qed

end
