(* ===== verification/Render_Markdown.thy ===== *)
theory Render_Markdown
  imports Guarantees Terraform_Catalog "HOL-Library.Sublist"
begin

text \<open>
  The certificate as text for a pull request, \<open>internal/render/markdown.go\<close>. A section is the text it
  writes, empty when the code returns early, and the document is their concatenation in the code's order.
  Writing to a \<open>strings.Builder\<close> cannot fail. \<open>md_escape\<close> and \<open>md_code\<close> replace single bytes, as a
  \<open>strings.Replacer\<close> over them does. The lemmas count the lines and the cell borders of what is written: a
  border is a pipe that no backslash escapes, read from the left.
\<close>

subsection \<open>Escaping\<close>

abbreviation backslash :: char where "backslash \<equiv> CHR 0x5C"

abbreviation pipe :: char where "pipe \<equiv> CHR 0x7C"

abbreviation backtick :: char where "backtick \<equiv> CHR 0x60"

definition md_escape_char :: "char \<Rightarrow> string" where
  "md_escape_char c =
     (if c = backslash then [backslash, backslash]
      else if c = pipe then [backslash, pipe]
      else if c = backtick then [CHR 0x27]
      else if c = CHR 0x3C then ''&lt;''
      else if c = CHR 0x3E then ''&gt;''
      else if c = CHR 0x0D then '' ''
      else if c = CHR 0x0A then '' ''
      else [c])"

definition md_escape :: "string \<Rightarrow> string" where
  "md_escape s = concat (map md_escape_char s)"

definition md_code_char :: "char \<Rightarrow> string" where
  "md_code_char c =
     (if c = backtick then [CHR 0x27]
      else if c = pipe then [backslash, pipe]
      else if c = CHR 0x0D then '' ''
      else if c = CHR 0x0A then '' ''
      else [c])"

definition md_code :: "string \<Rightarrow> string" where
  "md_code s = concat (map md_code_char s)"

subsection \<open>Words of the certificate\<close>

definition md_plural :: "nat \<Rightarrow> string \<Rightarrow> string" where
  "md_plural n noun = (if n = 1 then ''1 '' @ noun else utoa n @ '' '' @ noun @ ''s'')"

definition check_mark :: string where "check_mark = [CHR 0xE2, CHR 0x9C, CHR 0x85]"

definition cross_mark :: string where "cross_mark = [CHR 0xE2, CHR 0x9D, CHR 0x8C]"

definition dash_mark :: string where "dash_mark = [CHR 0xE2, CHR 0x9E, CHR 0x96]"

definition warning_sign :: string where
  "warning_sign = [CHR 0xE2, CHR 0x9A, CHR 0xA0, CHR 0xEF, CHR 0xB8, CHR 0x8F]"

definition checkbox :: "bool \<Rightarrow> string" where
  "checkbox ok = (if ok then check_mark else cross_mark)"

fun reversibility_icon :: "reversibility \<Rightarrow> string" where
  "reversibility_icon Reversible = [CHR 0xF0, CHR 0x9F, CHR 0x9F, CHR 0xA2]"
| "reversibility_icon Costly = [CHR 0xF0, CHR 0x9F, CHR 0x9F, CHR 0xA1]"
| "reversibility_icon Irreversible = [CHR 0xF0, CHR 0x9F, CHR 0x94, CHR 0xB4]"
| "reversibility_icon Unknown = [CHR 0xE2, CHR 0x9A, CHR 0xAB]"
| "reversibility_icon WillFail = [CHR 0xF0, CHR 0x9F, CHR 0x9B, CHR 0x91]"
| "reversibility_icon (Rev_other s) = []"

definition finding_location :: "finding \<Rightarrow> string" where
  "finding_location f =
     (if f_file f = [] then ''(whole changeset)''
      else if 0 < f_line f then f_file f @ '':'' @ itoa (f_line f)
      else f_file f)"

fun grade_summary :: "grade \<Rightarrow> string option" where
  "grade_summary GradeA = Some ''Fully reversible. This change can be rolled back with no data loss.''"
| "grade_summary GradeB = Some (''Reversible at a cost. Rolling back is possible but slow, disruptive, ''
     @ ''or only safe within a window.'')"
| "grade_summary GradeC = Some ''Reversible with significant caveats. Review the findings before merging.''"
| "grade_summary GradeF = Some (''**Not reversible.** Rolling this back would lose data, the engine could not ''
     @ ''determine what the change does, or the change will not apply at all.'')"
| "grade_summary GradeNA = Some (''**Not assessed.** The engine did not analyze this change, so it is making ''
     @ ''no claim about whether it can be rolled back.'')"
| "grade_summary (Grade_other s) = None"

definition coverage_failure_summary :: string where
  "coverage_failure_summary =
     ''**Not assessed.** Part of this change was not analyzed, ''
     @ ''so its reversibility could not be measured. **This is not a finding about your change** '' @ emdash
     @ '' it is the engine saying it could not read all of it.''"

definition fails_alone :: "finding \<Rightarrow> bool" where
  "fails_alone f \<longleftrightarrow> f_reversibility f \<in> {Irreversible, Unknown, WillFail}"

definition coverage_driven_F :: "certificate \<Rightarrow> bool" where
  "coverage_driven_F x \<longleftrightarrow>
     c_grade x = GradeF \<and> \<not> coverage_full (c_coverage x)
     \<and> \<not> list_ex fails_alone (c_findings x) \<and> \<not> list_ex (\<lambda>w. fails_alone (w_finding w)) (c_waived x)"

definition disclaimer_no_candidates :: string where
  "disclaimer_no_candidates =
     ''_No PostgreSQL migrations, Kubernetes manifests, or Terraform plans were found in this change, ''
     @ ''so there was nothing for the engine to assess. **This is not a pass** '' @ emdash
     @ '' it is the absence of a verdict._''"

definition disclaimer_unsupported :: string where
  "disclaimer_unsupported =
     ''_This change contains files that may be migrations, and no analyzer in this engine can read them. ''
     @ ''**Reversibility was not assessed.** Do not merge this on the strength of this certificate._''"

fun gate_badge :: "gate_status \<Rightarrow> string" where
  "gate_badge GatePass = check_mark @ '' PASS''"
| "gate_badge GateNotApplicable = dash_mark @ '' NOT APPLICABLE''"
| "gate_badge GateFail = cross_mark @ '' FAIL''"

subsection \<open>Sections\<close>

definition md_line :: "string \<Rightarrow> string" where "md_line s = s @ newline"

text \<open>A line and an empty line after it.\<close>

definition md_para :: "string \<Rightarrow> string" where "md_para s = s @ newline @ newline"

definition write_grade_causes :: "certificate \<Rightarrow> string" where
  "write_grade_causes x =
     (if c_grade_causes x = [] then []
      else md_para ''**Why this grade**''
        @ concat (map (\<lambda>cause. md_line (''- '' @ md_escape cause)) (c_grade_causes x)) @ newline)"

text \<open>The header in three parts: the verdict, the gate, and how much stands behind them.\<close>

definition header_verdict :: "certificate \<Rightarrow> string" where
  "header_verdict x =
     md_para (''## Reversibility Certificate '' @ emdash @ '' Grade '' @ grade_text (c_grade x))
     @ (if coverage_driven_F x then md_para coverage_failure_summary
        else case grade_summary (c_grade x) of None \<Rightarrow> [] | Some s \<Rightarrow> md_para s)
     @ (case c_outcome x of
          OutcomeNoCandidates \<Rightarrow> md_para disclaimer_no_candidates
        | OutcomeUnsupportedContent \<Rightarrow> md_para disclaimer_unsupported
        | _ \<Rightarrow> [])
     @ md_line ''| | |'' @ md_line ''| --- | --- |''
     @ md_line (''| **Grade** | '' @ grade_text (c_grade x) @ '' |'')
     @ (if c_effective_grade x \<noteq> no_grade \<and> c_effective_grade x \<noteq> c_grade x then
          md_line (''| **Grade after waivers** | '' @ grade_text (c_effective_grade x) @ '' |'') else [])"

definition gate_line :: "gate_status \<Rightarrow> string" where
  "gate_line g = ''| **AI merge gate** | '' @ gate_badge g @ '' |''"

definition header_counts :: "certificate \<Rightarrow> string" where
  "header_counts x =
     (if \<not> coverage_full (c_coverage x) then
        md_line (''| **Coverage** | '' @ warning_sign @ '' PARTIAL '' @ emdash @ '' ''
          @ md_plural (length (c_unanalyzed x)) ''file'' @ '' not analyzed |'') else [])
     @ (if c_ignored_by_policy x \<noteq> [] then
          md_line (''| **Excluded by policy** | '' @ md_plural (length (c_ignored_by_policy x)) ''file'' @ '' |'') else [])
     @ md_line (''| **Findings** | '' @ utoa (length (c_findings x)) @ '' |'')
     @ (if c_waived x \<noteq> [] then md_line (''| **Waived** | '' @ utoa (length (c_waived x)) @ '' |'') else [])
     @ newline"

definition write_header :: "certificate \<Rightarrow> string" where
  "write_header x =
     header_verdict x @ md_line (gate_line (c_gate x)) @ header_counts x @ write_grade_causes x"

definition blockers_heading :: "certificate \<Rightarrow> string" where
  "blockers_heading x =
     (if c_outcome x = OutcomeUnsupportedContent then
        md_para ''### Not assessed''
        @ md_para (''The engine cannot read the following, so it has measured nothing. ''
            @ ''An autonomous agent must not merge this change.'')
      else if coverage_driven_F x then
        md_para ''### Not assessed''
        @ md_para (''The engine read part of this change and not the rest, so it cannot certify any of it. ''
            @ ''Nothing below is a defect in your change.'')
      else
        md_para ''### Blockers''
        @ md_para (''This change cannot be merged by an autonomous agent. ''
            @ ''Each item below is a reason on its own.''))"

definition write_blockers :: "certificate \<Rightarrow> string" where
  "write_blockers x =
     (if c_blockers x = [] then []
      else blockers_heading x @ concat (map (\<lambda>b. md_line (''- '' @ b)) (c_blockers x)) @ newline)"

definition unanalyzed_row :: "unanalyzed_file \<Rightarrow> string" where
  "unanalyzed_row u = md_line (''| `'' @ md_code (u_path u) @ ''` | '' @ md_escape (u_reason u) @ '' |'')"

definition write_unanalyzed :: "certificate \<Rightarrow> string" where
  "write_unanalyzed x =
     (if c_unanalyzed x = [] then []
      else md_para ''### Not analyzed''
        @ md_para (''This engine could not read the following files. **They are not part of the grade above** ''
            @ emdash @ '' neither for it nor against it. The grade describes what was read; ''
            @ ''this list is what was not.'')
        @ md_line ''| File | Why |'' @ md_line ''| --- | --- |''
        @ concat (map unanalyzed_row (c_unanalyzed x))
        @ newline
        @ md_para (''An autonomous agent will not merge this change: the AI merge gate requires full coverage. ''
            @ ''A human reviewer can see exactly what was skipped and decide.''))"

definition policy_file_name :: string where "policy_file_name = ''.reversibility.yml''"

definition write_ignored_by_policy :: "certificate \<Rightarrow> string" where
  "write_ignored_by_policy x =
     (if c_ignored_by_policy x = [] then []
      else md_para ''### Excluded by policy''
        @ md_para (''The `'' @ policy_file_name @ ''` in this repository excludes the following from analysis. ''
            @ ''They may be migrations; the engine did not look.'')
        @ md_line ''| File |'' @ md_line ''| --- |''
        @ concat (map (\<lambda>p. md_line (''| `'' @ md_code p @ ''` |'')) (c_ignored_by_policy x))
        @ newline
        @ md_para (''This is a decision, not a limitation, so it does not count against coverage. ''
            @ ''It does close the AI merge gate: an ignore is a human accepting a risk with their name on it, ''
            @ ''and an agent does not inherit that.''))"

definition finding_row :: "finding \<Rightarrow> string" where
  "finding_row f =
     md_line (''| '' @ reversibility_icon (f_reversibility f) @ '' | `'' @ f_rule_id f @ ''` | ''
       @ md_escape (finding_location f) @ '' | '' @ rev_text (f_reversibility f) @ '' | ''
       @ lock_text (f_lock f) @ '' | `'' @ md_code (f_statement f) @ ''` |'')"

definition write_finding_context :: "finding \<Rightarrow> string" where
  "write_finding_context f =
     (case f_context f of
        None \<Rightarrow> []
      | Some cx \<Rightarrow>
          (if x_context_note cx \<noteq> [] then
             md_line (''  - _In production:_ '' @ md_escape (x_context_note cx)) else [])
          @ (if x_estimated_lock_duration cx \<noteq> [] then
               md_line (''  - _Estimated '' @ lock_text (f_lock f) @ '' lock: ''
                 @ md_escape (x_estimated_lock_duration cx)
                 @ (if x_band cx \<noteq> no_band then '' '' @ emdash @ '' '' @ band_text (x_band cx) else [])
                 @ ''. An approximation from table size, not a measurement._'') else []))"

definition finding_reason :: "finding \<Rightarrow> string" where
  "finding_reason f =
     md_line (''- **'' @ f_rule_id f @ ''** at '' @ md_escape (finding_location f) @ '' '' @ emdash @ '' ''
       @ md_escape (f_rationale f)) @ write_finding_context f"

definition write_findings :: "certificate \<Rightarrow> string" where
  "write_findings x =
     (if c_findings x = [] then []
      else md_para ''### Findings''
        @ md_line ''| | Rule | Location | Reversibility | Lock | Change |''
        @ md_line ''| --- | --- | --- | --- | --- | --- |''
        @ concat (map finding_row (c_findings x)) @ newline
        @ md_line ''<details>'' @ md_para ''<summary>Why each finding was classified this way</summary>''
        @ concat (map finding_reason (c_findings x))
        @ newline @ md_para ''</details>'')"

definition waived_row :: "waived_finding \<Rightarrow> string" where
  "waived_row w =
     md_line (''| `'' @ md_code (f_rule_id (w_finding w)) @ ''` | '' @ md_escape (finding_location (w_finding w))
       @ '' | '' @ md_escape (rev_text (f_reversibility (w_finding w))) @ '' | '' @ md_escape (w_reason w)
       @ '' | '' @ md_escape (w_expires w) @ '' | '' @ md_escape (or_else (w_approved_by w) emdash) @ '' |'')"

definition write_waived :: "certificate \<Rightarrow> string" where
  "write_waived x =
     (if c_waived x = [] then []
      else md_para ''### Waived''
        @ md_para (''A policy waiver accepted each of these. They still count toward the grade above '' @ emdash
            @ '' a waiver accepts a risk, it does not remove one '' @ emdash
            @ '' and they no longer block the pipeline.'')
        @ md_line ''| Rule | Location | Reversibility | Reason | Expires | Approved by |''
        @ md_line ''| --- | --- | --- | --- | --- | --- |''
        @ concat (map waived_row (c_waived x)) @ newline)"

definition write_undo_plan :: "certificate \<Rightarrow> string" where
  "write_undo_plan x =
     (if c_undo_plan x = [] then []
      else md_para ''### Undo plan''
        @ md_para ''Steps are in the order they must be run, unwinding the change from the last step applied.''
        @ md_line ''```sql'' @ concat (map md_line (c_undo_plan x)) @ md_para ''```'')"

definition down_row :: "down_migration_status \<Rightarrow> string" where
  "down_row d =
     md_line (''| `'' @ md_escape (d_migration d) @ ''` | '' @ checkbox (d_exists d) @ '' | '' @ checkbox (d_parses d)
       @ '' | '' @ checkbox (d_symmetric d) @ '' |'')"

definition down_notes :: "down_migration_status list \<Rightarrow> string list" where
  "down_notes ds =
     concat (map (\<lambda>d. map (\<lambda>note. ''- `'' @ md_escape (d_migration d) @ ''`: '' @ md_escape note)
       (d_symmetry_notes d)) ds)"

definition write_down_migrations :: "certificate \<Rightarrow> string" where
  "write_down_migrations x =
     (if c_down_migrations x = [] then []
      else md_para ''### Down migrations''
        @ md_line ''| Migration | Exists | Parses | Symmetric |'' @ md_line ''| --- | --- | --- | --- |''
        @ concat (map down_row (c_down_migrations x)) @ newline
        @ md_para ''_Symmetry is a heuristic and is advisory only; it never affects the grade on its own._''
        @ (let notes = down_notes (c_down_migrations x) in
           if notes = [] then []
           else md_line ''<details>'' @ md_para ''<summary>Down-migration notes</summary>'' @ join newline notes
             @ newline @ newline @ md_para ''</details>''))"

definition write_context_warnings :: "certificate \<Rightarrow> string" where
  "write_context_warnings x =
     (if c_context_warnings x = [] then []
      else md_para ''### Production context''
        @ concat (map (\<lambda>w. md_line (''- '' @ warning_sign @ '' '' @ md_escape w)) (c_context_warnings x)) @ newline)"

definition write_policy_warnings :: "certificate \<Rightarrow> string" where
  "write_policy_warnings x =
     (if c_policy_warnings x = [] then []
      else md_para ''### Configuration that did nothing''
        @ md_para (''These entries in the policy matched nothing in this changeset. ''
            @ ''**Nothing below is a defect in your change** '' @ emdash
            @ '' it is configuration that is not protecting you.'')
        @ concat (map (\<lambda>w. md_line (''- '' @ md_escape w)) (c_policy_warnings x))
        @ (if c_path_anchor x = [] then []
           else newline @ ''Patterns were matched against paths relative to the project root, ''
             @ ''found at `'' @ md_escape (c_path_anchor x) @ ''`''
             @ (if c_path_prefix x = [] then []
                else '', with this changeset rooted at `'' @ md_escape (c_path_prefix x) @ ''/`'')
             @ md_line ''.'')
        @ newline)"

definition all_certificate_findings :: "certificate \<Rightarrow> finding list" where
  "all_certificate_findings x = c_findings x @ map w_finding (c_waived x)"

definition write_unclassified_types :: "certificate \<Rightarrow> string" where
  "write_unclassified_types x =
     (let types = unclassified_types (all_certificate_findings x) in
      if types = [] then []
      else md_para ''### Unclassified Terraform types''
        @ md_para (''This plan destroys '' @ utoa (length types) @ '' resource type(s) the catalog does not classify, ''
            @ ''so the engine cannot say what destroying them costs. Classify them locally, and please ''
            @ ''contribute them upstream so nobody else hits the same gap.'')
        @ md_para ''Add to `.reversibility.yml`:''
        @ md_line ''```yaml'' @ policy_snippet types @ md_para ''```''
        @ md_para (''[Contribute these to the catalog]('' @ issue_url types (c_catalog_version x) @ '')''))"

definition middle_dot :: string where "middle_dot = [CHR 0xC2, CHR 0xB7]"

definition write_footer :: "certificate \<Rightarrow> string" where
  "write_footer x =
     md_para ''---''
     @ md_line (''<sub>Reversibility Engine '' @ middle_dot @ '' schema '' @ c_schema_version x @ '' '' @ middle_dot
         @ '' input digest `'' @ c_input_digest x @ ''`</sub>'')"

definition render_markdown :: "certificate \<Rightarrow> string" where
  "render_markdown x =
     write_header x @ write_blockers x @ write_unanalyzed x @ write_ignored_by_policy x
     @ write_findings x @ write_waived x @ write_undo_plan x @ write_down_migrations x
     @ write_context_warnings x @ write_policy_warnings x @ write_unclassified_types x @ write_footer x"


subsection \<open>Cells and lines\<close>

fun cell_borders :: "string \<Rightarrow> nat" where
  "cell_borders [] = 0"
| "cell_borders [c] = (if c = pipe then 1 else 0)"
| "cell_borders (c # d # s) =
     (if c = backslash then cell_borders s else (if c = pipe then 1 else 0) + cell_borders (d # s))"

definition line_ends :: "string \<Rightarrow> nat" where
  "line_ends s = count_list s (CHR 0x0A)"

definition plain_text :: "string \<Rightarrow> bool" where
  "plain_text s \<longleftrightarrow> pipe \<notin> set s \<and> backslash \<notin> set s \<and> CHR 0x0A \<notin> set s"

lemma cell_borders_Cons: "c \<noteq> backslash \<Longrightarrow> cell_borders (c # s) = (if c = pipe then 1 else 0) + cell_borders s"
  by (cases s) simp_all

lemma cell_borders_plain: "pipe \<notin> set s \<Longrightarrow> backslash \<notin> set s \<Longrightarrow> cell_borders (s @ t) = cell_borders t"
  by (induction s) (auto simp: cell_borders_Cons)

lemma plain_borders [simp]: "plain_text s \<Longrightarrow> cell_borders (s @ t) = cell_borders t"
  by (simp add: plain_text_def cell_borders_plain)

lemma plain_line_ends [simp]: "plain_text s \<Longrightarrow> line_ends s = 0"
  by (simp add: plain_text_def line_ends_def count_list_0_iff)

lemma line_ends_append [simp]: "line_ends (s @ t) = line_ends s + line_ends t"
  by (simp add: line_ends_def)

lemma md_escape_borders [simp]: "cell_borders (md_escape s @ t) = cell_borders t"
proof (induction s)
  case (Cons c s)
  have "cell_borders (md_escape_char c @ u) = cell_borders u" for u
    by (simp add: md_escape_char_def cell_borders_Cons)
  with Cons show ?case by (simp add: md_escape_def)
qed (simp add: md_escape_def)

lemma md_code_borders [simp]: "backslash \<notin> set s \<Longrightarrow> cell_borders (md_code s @ t) = cell_borders t"
proof (induction s)
  case (Cons c s)
  then have "cell_borders (md_code_char c @ u) = cell_borders u" for u
    by (auto simp: md_code_char_def cell_borders_Cons)
  with Cons show ?case by (simp add: md_code_def)
qed (simp add: md_code_def)

lemma md_no_line_ends: "CHR 0x0A \<notin> set (md_escape s)" "CHR 0x0A \<notin> set (md_code s)"
  by (auto simp: md_escape_def md_code_def md_escape_char_def md_code_char_def split: if_splits)

lemma md_line_ends [simp]: "line_ends (md_escape s) = 0" "line_ends (md_code s) = 0"
  by (simp_all add: line_ends_def count_list_0_iff md_no_line_ends)

lemma no_ticks: "backtick \<notin> set (md_escape s)" "backtick \<notin> set (md_code s)"
  by (auto simp: md_escape_def md_code_def md_escape_char_def md_code_char_def split: if_splits)

lemma no_tags: "CHR 0x3C \<notin> set (md_escape s) \<and> CHR 0x3E \<notin> set (md_escape s)"
  by (auto simp: md_escape_def md_escape_char_def split: if_splits)

lemma words_plain [simp]:
  "plain_text (reversibility_icon r)" if "\<forall>s. r \<noteq> Rev_other s"
  using that by (cases r) (simp_all add: plain_text_def)

lemma named_plain [simp]:
  "rev_valid r \<Longrightarrow> plain_text (rev_text r)" "lock_valid l \<Longrightarrow> plain_text (lock_text l)"
  by (cases r, simp_all add: plain_text_def) (cases l, simp_all add: plain_text_def)

text \<open>Text made of whole lines, all of them in a set.\<close>

definition lines_of :: "string \<Rightarrow> string list" where
  "lines_of s = split_on (CHR 0x0A) s"

definition lines_in :: "string set \<Rightarrow> string \<Rightarrow> bool" where
  "lines_in S s \<longleftrightarrow> (\<exists>ls. s = concat (map md_line ls) \<and> (\<forall>l\<in>set ls. l \<in> S \<and> CHR 0x0A \<notin> set l))"

lemma lines_in_Nil [simp]: "lines_in S []"
  by (auto simp: lines_in_def intro: exI [of _ "[]"])

lemma lines_in_append: "lines_in S a \<Longrightarrow> lines_in S b \<Longrightarrow> lines_in S (a @ b)"
proof -
  assume "lines_in S a" "lines_in S b"
  then obtain ls ms where "a = concat (map md_line ls)" "b = concat (map md_line ms)"
    and "\<forall>l\<in>set (ls @ ms). l \<in> S \<and> CHR 0x0A \<notin> set l"
    by (auto simp: lines_in_def)
  then show ?thesis
    unfolding lines_in_def by (intro exI [of _ "ls @ ms"]) simp
qed

lemma lines_in_line: "l \<in> S \<Longrightarrow> CHR 0x0A \<notin> set l \<Longrightarrow> lines_in S (md_line l)"
  unfolding lines_in_def by (intro exI [of _ "[l]"]) simp

lemma lines_in_para: "l \<in> S \<Longrightarrow> [] \<in> S \<Longrightarrow> CHR 0x0A \<notin> set l \<Longrightarrow> lines_in S (md_para l)"
  unfolding lines_in_def by (intro exI [of _ "[l, []]"]) (simp add: md_para_def md_line_def)

lemma lines_in_newline: "[] \<in> S \<Longrightarrow> lines_in S newline"
  unfolding lines_in_def by (intro exI [of _ "[[]]"]) (simp add: md_line_def)

lemma lines_in_concat: "(\<And>s. s \<in> set ss \<Longrightarrow> lines_in S s) \<Longrightarrow> lines_in S (concat ss)"
  by (induction ss) (auto intro: lines_in_append)

lemma lines_of_line: "CHR 0x0A \<notin> set l \<Longrightarrow> lines_of (md_line l @ t) = l # lines_of t"
  by (simp add: lines_of_def md_line_def newline_def split_on_append_sep)

lemma lines_of_in: "lines_in S s \<Longrightarrow> \<exists>ls. set ls \<subseteq> S \<and> (\<forall>t. lines_of (s @ t) = ls @ lines_of t)"
proof -
  assume "lines_in S s"
  then obtain ls where s: "s = concat (map md_line ls)" and ls: "\<forall>l\<in>set ls. l \<in> S \<and> CHR 0x0A \<notin> set l"
    by (auto simp: lines_in_def)
  from ls have "lines_of (concat (map md_line ls) @ t) = ls @ lines_of t" for t
    by (induction ls) (simp_all add: lines_of_line)
  with s ls show ?thesis by blast
qed

lemma digits_plain: "0 \<le> n \<Longrightarrow> set (digits n) \<subseteq> {c. 48 \<le> (of_char c :: int)}"
proof (induction n rule: digits.induct)
  case (1 n)
  then show ?case
    by (subst digits.simps) (auto simp: of_char_of pos_imp_zdiv_nonneg_iff)
qed

lemma utoa_no_newline [simp]: "CHR 0x0A \<notin> set (utoa n)"
  using digits_plain [of "int n"] by (auto simp: utoa_def itoa_def)

subsection \<open>The lines of the header\<close>

lemma gate_line_inject [simp]: "gate_line g = gate_line h \<longleftrightarrow> g = h"
  by (cases g; cases h) (simp_all add: gate_line_def check_mark_def cross_mark_def dash_mark_def)

lemma gate_line_no_newline: "CHR 0x0A \<notin> set (gate_line h)"
  by (cases h) (simp_all add: gate_line_def check_mark_def cross_mark_def dash_mark_def)

definition no_gate_lines :: "string set" where
  "no_gate_lines = {l. \<forall>g. l \<noteq> gate_line g}"

lemma no_gate_lineI: "take 5 l \<noteq> ''| **A'' \<Longrightarrow> l \<in> no_gate_lines"
  by (auto simp: no_gate_lines_def gate_line_def)

lemma no_gate_line: "take 5 l \<noteq> ''| **A'' \<Longrightarrow> CHR 0x0A \<notin> set l \<Longrightarrow> lines_in no_gate_lines (md_line l)"
  by (intro lines_in_line no_gate_lineI)

lemma no_gate_para: "take 5 l \<noteq> ''| **A'' \<Longrightarrow> CHR 0x0A \<notin> set l \<Longrightarrow> lines_in no_gate_lines (md_para l)"
  by (intro lines_in_para no_gate_lineI) simp_all

lemma no_gate_blank: "lines_in no_gate_lines newline"
  by (intro lines_in_newline no_gate_lineI) simp

lemma lines_in_if: "(b \<Longrightarrow> lines_in S s) \<Longrightarrow> (\<not> b \<Longrightarrow> lines_in S t) \<Longrightarrow> lines_in S (if b then s else t)"
  by simp

lemmas no_gate_parts = lines_in_append lines_in_if lines_in_Nil no_gate_blank

lemmas header_words = emdash_def warning_sign_def coverage_failure_summary_def disclaimer_no_candidates_def
  disclaimer_unsupported_def

lemma grade_no_newline: "grade_valid g \<or> g = no_grade \<Longrightarrow> CHR 0x0A \<notin> set (grade_text g)"
  by (cases g) auto

lemma header_verdict_lines:
  assumes "grade_valid (c_grade x)" and "grade_valid (c_effective_grade x) \<or> c_effective_grade x = no_grade"
  shows "lines_in no_gate_lines (header_verdict x)"
proof -
  have texts: "CHR 0x0A \<notin> set (grade_text (c_grade x))" "CHR 0x0A \<notin> set (grade_text (c_effective_grade x))"
    using assms grade_no_newline by auto
  have summary: "lines_in no_gate_lines (case grade_summary (c_grade x) of None \<Rightarrow> [] | Some s \<Rightarrow> md_para s)"
    by (cases "c_grade x") (auto intro!: no_gate_para)
  have outcome: "lines_in no_gate_lines (case c_outcome x of
          OutcomeNoCandidates \<Rightarrow> md_para disclaimer_no_candidates
        | OutcomeUnsupportedContent \<Rightarrow> md_para disclaimer_unsupported
        | _ \<Rightarrow> [])"
    by (cases "c_outcome x") (auto intro!: no_gate_para simp: header_words)
  show ?thesis
    unfolding header_verdict_def
    by (intro no_gate_parts summary outcome; (rule no_gate_para | rule no_gate_line); simp add: header_words texts)
qed

lemma header_counts_lines: "lines_in no_gate_lines (header_counts x)"
  unfolding header_counts_def
  by (intro no_gate_parts; rule no_gate_line; simp add: header_words md_plural_def)

lemma grade_causes_lines: "lines_in no_gate_lines (write_grade_causes x)"
  unfolding write_grade_causes_def
  by (intro no_gate_parts lines_in_concat; auto intro!: no_gate_line no_gate_para simp: md_no_line_ends)

subsection \<open>Properties\<close>

lemma split_on_sep: "split_on c (a @ c # b) = split_on c a @ split_on c b"
  by (induction a) (auto split: list.splits)

lemma line_inside: "CHR 0x0A \<notin> set l \<Longrightarrow> sublist (newline @ l @ newline) s \<Longrightarrow> l \<in> set (lines_of s)"
  by (auto simp: sublist_def lines_of_def newline_def split_on_sep split_on_no_char)

text \<open>No text of a changeset adds a cell or a line to the tables of files that were not read, of findings
  and of waivers: a row has the borders of its columns and one line end, unless a backslash stands in a
  field that is written as code.\<close>

theorem rows_keep_their_cells:
  assumes "backslash \<notin> set (u_path u)"
    and "rev_valid (f_reversibility f)" "lock_valid (f_lock f)" "plain_text (f_rule_id f)"
      "backslash \<notin> set (f_statement f)"
    and "backslash \<notin> set (f_rule_id (w_finding w))"
  shows "cell_borders (unanalyzed_row u) = 3 \<and> line_ends (unanalyzed_row u) = 1
    \<and> cell_borders (finding_row f) = 7 \<and> line_ends (finding_row f) = 1
    \<and> cell_borders (waived_row w) = 7 \<and> line_ends (waived_row w) = 1"
proof (intro conjI)
  note row = cell_borders_Cons md_line_def newline_def
  have icon: "plain_text (reversibility_icon (f_reversibility f))"
    using assms(2) by (cases "f_reversibility f") (simp_all add: plain_text_def)
  have ends: "line_ends (c # s) = (if c = CHR 0x0A then 1 else 0) + line_ends s" "line_ends [] = 0" for c s
    by (simp_all add: line_ends_def)
  show "cell_borders (unanalyzed_row u) = 3"
    using assms(1) by (simp add: unanalyzed_row_def row)
  show "line_ends (unanalyzed_row u) = 1"
    by (simp add: unanalyzed_row_def row ends)
  show "cell_borders (finding_row f) = 7"
    using assms icon by (simp add: finding_row_def row)
  show "line_ends (finding_row f) = 1"
    using assms icon by (simp add: finding_row_def row ends)
  show "cell_borders (waived_row w) = 7"
    using assms by (simp add: waived_row_def row)
  show "line_ends (waived_row w) = 1"
    by (simp add: waived_row_def row ends)
qed

lemma header_badge:
  assumes "grade_valid (c_grade x)"
    and "grade_valid (c_effective_grade x) \<or> c_effective_grade x = no_grade"
  shows "gate_line g \<in> set (lines_of (write_header x)) \<longleftrightarrow> g = c_gate x"
proof -
  obtain xs where xs: "set xs \<subseteq> no_gate_lines" "\<And>t. lines_of (header_verdict x @ t) = xs @ lines_of t"
    using lines_of_in [OF header_verdict_lines [OF assms]] by blast
  obtain ys where ys: "set ys \<subseteq> no_gate_lines"
    "\<And>t. lines_of ((header_counts x @ write_grade_causes x) @ t) = ys @ lines_of t"
    using lines_of_in [OF lines_in_append [OF header_counts_lines grade_causes_lines]] by blast
  from ys(2) [of "[]"] have "lines_of (write_header x) = xs @ gate_line (c_gate x) # ys @ [[]]"
    unfolding write_header_def xs(2) lines_of_line [OF gate_line_no_newline] by (simp add: lines_of_def)
  moreover have "gate_line g \<notin> no_gate_lines" by (auto simp: no_gate_lines_def)
  moreover have "gate_line g \<noteq> []" by (simp add: gate_line_def)
  ultimately show ?thesis using xs(1) ys(1) by auto
qed

lemma certified_grades_valid:
  "grade_valid (c_grade (fst (certify sha e cancelled c given)))
   \<and> grade_valid (c_effective_grade (fst (certify sha e cancelled c given)))"
proof (cases rule: certify_cases [of sha e cancelled c given])
  case 1
  then show ?thesis by (auto simp: failure_result_def)
next
  case (2 findings down errors decision digest version)
  obtain out bad where o: "outcome (supports e) (stamp_located given (locator c))
      (if rc_enumerated c = [] then paths_of (stamp_located given (locator c)) else rc_enumerated c)
      (locator c) = (out, bad)"
    by (rule outcome_pair)
  have "grade_valid (r_grade (measured fs down))" for fs down
    using measured_not_F [of fs down] by (cases "r_grade (measured fs down)") auto
  then have "grade_valid (r_grade (score i))" for i by (cases "i_outcome i") (simp_all add: score_def)
  then show ?thesis unfolding 2(3) conclude_fields(1,2) [OF o] score_of_def by simp
qed

text \<open>C29. The badge in the header of the Markdown document is the gate the engine decided, text by text: a line with
  the check mark and \<open>PASS\<close> stands in the header exactly when the gate is open, a line with the dash and
  \<open>NOT APPLICABLE\<close> exactly when there was nothing to gate, a line with the cross and \<open>FAIL\<close> exactly when it is
  closed. This is said of a certificate whose grade is one of the scale and whose effective grade is one or is
  absent, as those of the engine are: another grade is printed as it stands and may hold any text.\<close>

theorem badge_is_the_gate:
  assumes "grade_valid (c_grade x)"
    and "grade_valid (c_effective_grade x) \<or> c_effective_grade x = no_grade"
  shows "(''| **AI merge gate** | '' @ [CHR 0xE2, CHR 0x9C, CHR 0x85] @ '' PASS |'' \<in> set (lines_of (write_header x))
      \<longleftrightarrow> c_gate x = GatePass)
    \<and> (''| **AI merge gate** | '' @ [CHR 0xE2, CHR 0x9E, CHR 0x96] @ '' NOT APPLICABLE |'' \<in> set (lines_of (write_header x))
      \<longleftrightarrow> c_gate x = GateNotApplicable)
    \<and> (''| **AI merge gate** | '' @ [CHR 0xE2, CHR 0x9D, CHR 0x8C] @ '' FAIL |'' \<in> set (lines_of (write_header x))
      \<longleftrightarrow> c_gate x = GateFail)"
proof -
  have texts: "''| **AI merge gate** | '' @ [CHR 0xE2, CHR 0x9C, CHR 0x85] @ '' PASS |'' = gate_line GatePass"
    "''| **AI merge gate** | '' @ [CHR 0xE2, CHR 0x9E, CHR 0x96] @ '' NOT APPLICABLE |'' = gate_line GateNotApplicable"
    "''| **AI merge gate** | '' @ [CHR 0xE2, CHR 0x9D, CHR 0x8C] @ '' FAIL |'' = gate_line GateFail"
    by (simp_all add: gate_line_def check_mark_def dash_mark_def cross_mark_def)
  show ?thesis unfolding texts header_badge [OF assms] by auto
qed

lemma sublist_before: "sublist r s \<Longrightarrow> sublist r (s @ t)"
  by (rule sublist_order.order.trans [OF _ sublist_append_rightI])

lemma sublist_after: "sublist r s \<Longrightarrow> sublist r (t @ s)"
  by (rule sublist_order.order.trans [OF _ sublist_append_leftI])

lemma sublist_row: "u \<in> set us \<Longrightarrow> sublist (row u) (concat (map row us) @ t)"
proof -
  assume "u \<in> set us"
  then obtain ps ss where "us = ps @ u # ss" by (meson split_list)
  then show ?thesis by (simp add: sublist_after sublist_before)
qed

lemma blocker_printed: "b \<in> set (c_blockers x) \<Longrightarrow> sublist b (render_markdown x)"
proof -
  assume b: "b \<in> set (c_blockers x)"
  then have some: "c_blockers x \<noteq> []" by auto
  have "sublist (md_line (''- '' @ b)) (write_blockers x)"
    unfolding write_blockers_def if_not_P [OF some]
    by (rule sublist_after, rule sublist_row [OF b, of "\<lambda>b. md_line (''- '' @ b)"])
  then have "sublist (md_line (''- '' @ b)) (render_markdown x)"
    unfolding render_markdown_def by (intro sublist_after [OF sublist_before])
  moreover have "sublist b (md_line (''- '' @ b))" by (simp only: md_line_def append_assoc) (rule sublist_appendI)
  ultimately show ?thesis by (rule sublist_order.order.trans [rotated])
qed

lemma unanalyzed_printed: "u \<in> set (c_unanalyzed x) \<Longrightarrow> sublist (unanalyzed_row u) (write_unanalyzed x)"
proof -
  assume u: "u \<in> set (c_unanalyzed x)"
  then have some: "c_unanalyzed x \<noteq> []" by auto
  show ?thesis
    unfolding write_unanalyzed_def if_not_P [OF some]
    by ((rule sublist_row [OF u] | rule sublist_after)+)
qed

text \<open>A file that may be a migration and that no analyzer reads stands on the certificate by name, with the
  reason, and the gate does not pass; or the run has failed as a whole.\<close>

theorem unread_candidates_are_printed:
  assumes "p \<in> set (rc_enumerated c)" and "candidate (locator c p)" and "\<not> supports e (locator c p)"
    and "x = fst (certify sha e cancelled c given)"
  shows "c_gate x \<noteq> GatePass
    \<and> (failure_result (certify sha e cancelled c given)
       \<or> (\<exists>u. u_path u = p \<and> u_reason u \<noteq> [] \<and> sublist (unanalyzed_row u) (render_markdown x)))"
proof (cases rule: certify_cases [of sha e cancelled c given])
  case 1
  then show ?thesis unfolding assms(4) by (auto simp: failure_result_def)
next
  case (2 findings down errors decision digest version)
  let ?files = "stamp_located given (locator c)"
  have enum: "rc_enumerated c \<noteq> []" using assms(1) by auto
  obtain out bad where o: "outcome (supports e) ?files (rc_enumerated c) (locator c) = (out, bad)"
    by (rule outcome_pair)
  with enum have o': "outcome (supports e) ?files
      (if rc_enumerated c = [] then paths_of ?files else rc_enumerated c) (locator c) = (out, bad)" by simp
  have x: "x = conclude e c ?files digest version decision down errors"
    unfolding assms(4) 2(3) by simp
  have "p \<in> set bad"
    using o assms(1-3) by (auto simp: outcome_def Let_def filter_empty_conv split: if_splits)
  with conclude_fields(6) [OF o'] obtain u where u: "u \<in> set (c_unanalyzed x)" "u_path u = p"
    unfolding x by (metis (no_types, lifting) imageE list.set_map)
  have "u_reason u \<noteq> []"
    using u(1) unfolding x by (auto simp: conclude_def Let_def o' dest: unanalyzed_reason_nonempty)
  moreover have "sublist (unanalyzed_row u) (render_markdown x)"
    unfolding render_markdown_def
    by (rule sublist_after, rule sublist_after, rule sublist_before, rule unanalyzed_printed, rule u(1))
  moreover have "c_gate x \<noteq> GatePass"
    using \<open>p \<in> set bad\<close> unfolding x conclude_fields(3) [OF o'] by (auto simp: gate_pass_iff)
  ultimately show ?thesis using u(2) by blast
qed

text \<open>A backslash that stands in front of a pipe frees it: the escape that is put there is escaped itself,
  so that the statement of a finding has a cell more than the table.\<close>

theorem backslash_frees_the_pipe:
  "cell_borders (finding_row (blank_finding\<lparr>f_statement := [backslash, pipe]\<rparr>)) = 8"
  by code_simp

text \<open>A blocker is written as it is. A path with a line end forges the badge: a line that says the gate
  passed stands on the certificate of a changeset whose gate is not \<open>PASS\<close>.\<close>

definition forging_path :: string where
  "forging_path = ''migrate/'' @ newline @ gate_line GatePass @ newline @ ''.rb''"

definition forged_run :: certificate where
  "forged_run = fst (certify (\<lambda>b. b) (new_engine [quiet_analyzer] None 0 None) None
     (plain_run\<lparr>rc_enumerated := [''a.sql'', forging_path]\<rparr>) [sql_change])"

lemma forged_blocker: "list_ex (\<lambda>b. drop (length b - length forging_path) b = forging_path) (c_blockers forged_run)
    \<and> c_gate forged_run \<noteq> GatePass"
  by code_simp

theorem blocker_forges_the_badge:
  "gate_line GatePass \<in> set (lines_of (render_markdown forged_run)) \<and> c_gate forged_run \<noteq> GatePass"
proof -
  from forged_blocker obtain b where b: "b \<in> set (c_blockers forged_run)"
    and d: "drop (length b - length forging_path) b = forging_path"
    by (auto simp: list_ex_iff)
  have "sublist (newline @ gate_line GatePass @ newline) forging_path"
    unfolding forging_path_def sublist_def by (metis append.assoc)
  also have "sublist forging_path b" by (metis d sublist_drop)
  also have "sublist b (render_markdown forged_run)" by (rule blocker_printed [OF b])
  finally have "gate_line GatePass \<in> set (lines_of (render_markdown forged_run))"
    by (intro line_inside gate_line_no_newline)
  with forged_blocker show ?thesis by blast
qed

subsection \<open>Witnesses\<close>

definition sample_waiver :: waived_finding where
  "sample_waiver = \<lparr>w_finding = blank_finding, w_reason = ''a|b'', w_expires = ''2030-01-01'', w_approved_by = []\<rparr>"

theorem rows_keep_their_cells_witness:
  "cell_borders (finding_row (blank_finding\<lparr>f_statement := ''a|b'' @ newline @ ''| c |''\<rparr>)) = 7"
  using rows_keep_their_cells [of "\<lparr>u_path = ''a.rb'', u_reason = ''a|b''\<rparr>"
      "blank_finding\<lparr>f_statement := ''a|b'' @ newline @ ''| c |''\<rparr>" sample_waiver]
  by (simp add: blank_finding_def sample_waiver_def plain_text_def newline_def)

theorem badge_is_the_gate_witness:
  "''| **AI merge gate** | '' @ [CHR 0xE2, CHR 0x9D, CHR 0x8C] @ '' FAIL |''
     \<in> set (lines_of (write_header (failure_certificate [] [] [])))
   \<and> ''| **AI merge gate** | '' @ [CHR 0xE2, CHR 0x9C, CHR 0x85] @ '' PASS |''
     \<notin> set (lines_of (write_header (failure_certificate [] [] [])))"
  using badge_is_the_gate [of "failure_certificate [] [] []"]
  unfolding failure_certificate_fields grade_valid.simps gate_status.distinct by blast

theorem unread_candidates_are_printed_witness:
  "c_gate forged_run \<noteq> GatePass"
proof -
  let ?c = "plain_run\<lparr>rc_enumerated := [''a.sql'', forging_path]\<rparr>"
  have "forging_path \<in> set (rc_enumerated ?c)" by simp
  moreover have "candidate (locator ?c forging_path)" by code_simp
  moreover have "\<not> supports (new_engine [quiet_analyzer] None 0 None) (locator ?c forging_path)" by code_simp
  ultimately show ?thesis
    using unread_candidates_are_printed [OF _ _ _ forged_run_def] by blast
qed

end
