(* ===== verification/Policy_Load.thy ===== *)
theory Policy_Load
  imports Policy
begin

text \<open>
  Finding and resolving a policy file, \<open>internal/policy/load.go\<close>. The YAML decoder is third-party
  code: its result, the record \<open>policy_file\<close>, is the input here. The discovery walk asks two
  questions of the file system, which are parameters. Errors carry the data their message prints.
  The digest is a hash \<open>sha\<close> of the stream of fields \<open>digest_stream\<close>.
\<close>

subsection \<open>Discovery\<close>

text \<open>A directory is the list of its segments, innermost first; \<open>[]\<close> is the file system root. The
  walk ends at a policy file, at the directory holding \<open>.git\<close>, or at the root.\<close>

fun discover :: "(string list \<Rightarrow> bool) \<Rightarrow> (string list \<Rightarrow> bool) \<Rightarrow> string list \<Rightarrow> string list option" where
  "discover has_policy has_git [] = (if has_policy [] then Some [] else None)"
| "discover has_policy has_git (seg # parents) =
     (if has_policy (seg # parents) then Some (seg # parents)
      else if has_git (seg # parents) then None
      else discover has_policy has_git parents)"

subsection \<open>Resolving a decoded file\<close>

record policy_file =
  y_version :: int
  y_gate :: string
  y_ignore :: "string list"
  y_waivers :: "waiver list"
  y_overrides :: "override list"
  y_terraform_types :: "terraform_type list"

definition policy_version :: int where "policy_version = 1"

definition max_waiver_window :: int where "max_waiver_window = 180 * 24 * 3600"

datatype waiver_error =
    NoRule | NoReason string | NoExpires string | BadDate string string
  | TooFar string string int instant | BadPath string string pattern_error

definition validate_waiver :: "waiver \<Rightarrow> instant \<Rightarrow> waiver_error + waiver" where
  "validate_waiver w0 today =
     (let w = \<lparr>v_rule = trim_space (v_rule w0), v_path = trim_space (v_path w0),
               v_reason = trim_space (v_reason w0), v_expires = trim_space (v_expires w0),
               v_approved_by = trim_space (v_approved_by w0)\<rparr>;
          limit = truncate_to_day today + max_waiver_window
      in if v_rule w = [] then Inl NoRule
         else if v_reason w = [] then Inl (NoReason (v_rule w))
         else if v_expires w = [] then Inl (NoExpires (v_rule w))
         else
           (case parse_date (v_expires w) of
              None \<Rightarrow> Inl (BadDate (v_expires w) (v_rule w))
            | Some expires \<Rightarrow>
                if limit < expires then Inl (TooFar (v_expires w) (v_rule w) 180 limit)
                else if v_path w \<noteq> [] then
                  (case validate_pattern (v_path w) of
                     Some e \<Rightarrow> Inl (BadPath (v_path w) (v_rule w) e)
                   | None \<Rightarrow> Inr w)
                else Inr w))"

datatype override_error = NoOverrideRule | BadSeverity reversibility string | OnlyWeakens string

definition validate_override :: "override \<Rightarrow> override_error + override" where
  "validate_override o0 =
     (let ov = \<lparr>o_rule = trim_space (o_rule o0),
                o_severity = rev_of (to_upper (trim_space (rev_text (o_severity o0))))\<rparr>
      in if o_rule ov = [] then Inl NoOverrideRule
         else if \<not> rev_valid (o_severity ov) then Inl (BadSeverity (o_severity ov) (o_rule ov))
         else if o_severity ov = Reversible then Inl (OnlyWeakens (o_rule ov))
         else Inr ov)"

datatype type_error = NamesNoType | BadClass string string

definition validate_type :: "terraform_type \<Rightarrow> type_error + terraform_type" where
  "validate_type t =
     (if trim_space (t_type t) = [] then Inl NamesNoType
      else
        (let class = to_upper (trim_space (t_class t)) in
         if class \<noteq> ''STATEFUL'' \<and> class \<noteq> ''STATELESS'' then Inl (BadClass (t_type t) (t_class t))
         else Inr \<lparr>t_type = trim_space (t_type t), t_class = class\<rparr>))"

text \<open>The three loops of \<open>Parse\<close> have one shape: validate entry after entry, stop at the first
  error with its index.\<close>

fun validate_all :: "('a \<Rightarrow> 'e + 'a) \<Rightarrow> nat \<Rightarrow> 'a list \<Rightarrow> (nat \<times> 'e) + 'a list" where
  "validate_all v i [] = Inr []"
| "validate_all v i (x # xs) =
     (case v x of
        Inl e \<Rightarrow> Inl (i, e)
      | Inr y \<Rightarrow> (case validate_all v (Suc i) xs of Inl e \<Rightarrow> Inl e | Inr ys \<Rightarrow> Inr (y # ys)))"

definition check_ignore :: "string \<Rightarrow> pattern_error + string" where
  "check_ignore pattern = (case validate_pattern pattern of Some e \<Rightarrow> Inl e | None \<Rightarrow> Inr pattern)"

datatype load_error =
    BadVersion int | BadGate string | BadIgnore nat pattern_error | BadWaiver nat waiver_error
  | BadOverride nat override_error | BadType nat type_error

subsection \<open>The digest\<close>

definition waiver_fields :: "waiver \<Rightarrow> string list" where
  "waiver_fields w = [v_rule w, v_path w, v_reason w, v_expires w, v_approved_by w]"

definition override_fields :: "override \<Rightarrow> string list" where
  "override_fields ov = [o_rule ov, rev_text (o_severity ov)]"

definition type_fields :: "terraform_type \<Rightarrow> string list" where
  "type_fields t = [t_type t, t_class t]"

definition digest_fields :: "policy \<Rightarrow> string list" where
  "digest_fields p =
     [''v'' @ itoa policy_version, grade_text (l_gate p)]
     @ l_ignore p
     @ concat (map waiver_fields (l_waivers p))
     @ concat (map override_fields (l_overrides p))
     @ concat (map type_fields (l_terraform_types p))"

definition digest_stream :: "policy \<Rightarrow> string" where
  "digest_stream p = concat (map write_field (digest_fields p))"

definition policy_digest_of :: "(string \<Rightarrow> string) \<Rightarrow> policy \<Rightarrow> string" where
  "policy_digest_of sha p = hex_encode (sha (digest_stream p))"

definition parse_policy :: "(string \<Rightarrow> string) \<Rightarrow> policy_file \<Rightarrow> string \<Rightarrow> instant \<Rightarrow> load_error + policy" where
  "parse_policy sha f path today =
     (if y_version f \<noteq> policy_version then Inl (BadVersion (y_version f))
      else
        (let g = (if y_gate f = [] then no_grade else grade_of (to_upper (trim_space (y_gate f)))) in
         if y_gate f \<noteq> [] \<and> \<not> grade_valid g then Inl (BadGate (y_gate f))
         else
           (case validate_all check_ignore 0 (y_ignore f) of
              Inl (i, e) \<Rightarrow> Inl (BadIgnore i e)
            | Inr ig \<Rightarrow>
           (case validate_all (\<lambda>w. validate_waiver w today) 0 (y_waivers f) of
              Inl (i, e) \<Rightarrow> Inl (BadWaiver i e)
            | Inr ws \<Rightarrow>
           (case validate_all validate_override 0 (y_overrides f) of
              Inl (i, e) \<Rightarrow> Inl (BadOverride i e)
            | Inr ovs \<Rightarrow>
           (case validate_all validate_type 0 (y_terraform_types f) of
              Inl (i, e) \<Rightarrow> Inl (BadType i e)
            | Inr ts \<Rightarrow>
                (let p = \<lparr>l_source = path, l_gate = g, l_ignore = ig, l_waivers = ws,
                          l_overrides = ovs, l_terraform_types = ts, l_digest = []\<rparr>
                 in Inr (p\<lparr>l_digest := policy_digest_of sha p\<rparr>))))))))"

subsection \<open>Lemmas\<close>

lemma validate_all_Inr:
  "validate_all v i xs = Inr ys \<Longrightarrow> list_all2 (\<lambda>x y. v x = Inr y) xs ys"
  by (induction xs arbitrary: i ys) (auto split: sum.splits)

lemma validate_all_ball:
  "validate_all v i xs = Inr ys \<Longrightarrow> (\<And>x y. v x = Inr y \<Longrightarrow> P y) \<Longrightarrow> \<forall>y\<in>set ys. P y"
proof
  fix y
  assume "validate_all v i xs = Inr ys" and P: "\<And>x y. v x = Inr y \<Longrightarrow> P y" and "y \<in> set ys"
  then obtain j where "j < length ys" and "y = ys ! j" and "v (xs ! j) = Inr (ys ! j)"
    using validate_all_Inr [of v i xs ys] by (auto simp: in_set_conv_nth list_all2_conv_all_nth)
  then show "P y" by (auto intro: P)
qed

definition waiver_ok :: "instant \<Rightarrow> waiver \<Rightarrow> bool" where
  "waiver_ok today w \<longleftrightarrow>
     v_rule w \<noteq> [] \<and> v_reason w \<noteq> [] \<and> (v_path w = [] \<or> validate_pattern (v_path w) = None)
     \<and> (\<exists>t. parse_date (v_expires w) = Some t \<and> t \<le> truncate_to_day today + max_waiver_window)"

definition override_ok :: "override \<Rightarrow> bool" where
  "override_ok ov \<longleftrightarrow> o_rule ov \<noteq> [] \<and> o_severity ov \<in> {Costly, Irreversible, Unknown, WillFail}"

definition policy_ok :: "instant \<Rightarrow> policy \<Rightarrow> bool" where
  "policy_ok today p \<longleftrightarrow>
     (\<forall>g\<in>set (l_ignore p). validate_pattern g = None)
     \<and> (\<forall>w\<in>set (l_waivers p). waiver_ok today w)
     \<and> (\<forall>ov\<in>set (l_overrides p). override_ok ov)
     \<and> (\<forall>t\<in>set (l_terraform_types p). t_type t \<noteq> [] \<and> t_class t \<in> {''STATEFUL'', ''STATELESS''})"

lemma validate_waiver_ok: "validate_waiver w today = Inr v \<Longrightarrow> waiver_ok today v"
  by (auto simp: validate_waiver_def waiver_ok_def Let_def split: if_splits option.splits)

lemma validate_override_ok: "validate_override x = Inr ov \<Longrightarrow> override_ok ov"
  unfolding validate_override_def override_ok_def Let_def
  by (cases "rev_of (to_upper (trim_space (rev_text (o_severity x))))") (auto split: if_splits)

lemma validate_type_ok:
  "validate_type x = Inr t \<Longrightarrow> t_type t \<noteq> [] \<and> t_class t \<in> {''STATEFUL'', ''STATELESS''}"
  by (auto simp: validate_type_def Let_def split: if_splits)

lemma check_ignore_ok: "check_ignore g = Inr h \<Longrightarrow> validate_pattern h = None"
  by (auto simp: check_ignore_def split: option.splits)

text \<open>What a successful \<open>Parse\<close> went through.\<close>

lemma parse_policy_Inr:
  assumes "parse_policy sha f path today = Inr p"
  shows "y_version f = policy_version"
    and "validate_all check_ignore 0 (y_ignore f) = Inr (l_ignore p)"
    and "validate_all (\<lambda>w. validate_waiver w today) 0 (y_waivers f) = Inr (l_waivers p)"
    and "validate_all validate_override 0 (y_overrides f) = Inr (l_overrides p)"
    and "validate_all validate_type 0 (y_terraform_types f) = Inr (l_terraform_types p)"
    and "l_digest p = policy_digest_of sha p"
    and "l_gate p = no_grade \<or> grade_valid (l_gate p)"
  using assms
  by (auto simp: parse_policy_def Let_def policy_digest_of_def digest_stream_def digest_fields_def
      split: if_splits sum.splits)

lemma discover_spec:
  "discover has_policy has_git segs = Some d \<longleftrightarrow>
     (\<exists>k\<le>length segs. d = drop k segs \<and> has_policy d
        \<and> (\<forall>j<k. \<not> has_policy (drop j segs) \<and> \<not> has_git (drop j segs)))"
proof (induction segs)
  case Nil
  then show ?case by auto
next
  case (Cons s segs)
  show ?case
  proof (cases "has_policy (s # segs)")
    case True
    then show ?thesis
      by (auto intro!: exI [of _ "0::nat"]) (metis drop0 gr0I)+
  next
    case no: False
    have ex_Suc: "(\<exists>k\<le>Suc n. P k) \<longleftrightarrow> P 0 \<or> (\<exists>k\<le>n. P (Suc k))" for P n
      by (metis Suc_le_mono le0 not0_implies_Suc)
    have all_Suc: "(\<forall>j<Suc n. P j) \<longleftrightarrow> P 0 \<and> (\<forall>j<n. P (Suc j))" for P n
      by (metis less_Suc_eq_0_disj)
    show ?thesis
      using no Cons by (auto simp: ex_Suc all_Suc)
  qed
qed

subsection \<open>Properties\<close>

text \<open>A policy that loads is well formed: every pattern is valid, every waiver names a rule and
  a reason and expires on a readable day at most 180 days after the day of loading, every override
  is one that can make a rule stricter, and every Terraform class is one of the two.\<close>

theorem loaded_policy_ok:
  assumes "parse_policy sha f path today = Inr p"
  shows "policy_ok today p \<and> y_version f = 1 \<and> l_digest p = policy_digest_of sha p"
  using parse_policy_Inr [OF assms]
  by (auto simp: policy_ok_def policy_version_def
      dest: validate_all_ball [OF _ check_ignore_ok] validate_all_ball [OF _ validate_waiver_ok]
        validate_all_ball [OF _ validate_override_ok] validate_all_ball [OF _ validate_type_ok])

definition sample_file :: policy_file where
  "sample_file = \<lparr>y_version = 1, y_gate = ''b'', y_ignore = [''docs/**''],
     y_waivers = [\<lparr>v_rule = '' PG012'', v_path = ''db/*.sql'', v_reason = ''agreed'',
                    v_expires = ''1970-05-01'', v_approved_by = []\<rparr>],
     y_overrides = [\<lparr>o_rule = ''PG014'', o_severity = Rev_other ''irreversible''\<rparr>],
     y_terraform_types = [\<lparr>t_type = ''x_db'', t_class = ''stateful''\<rparr>]\<rparr>"

lemma sample_loads: "\<exists>p. parse_policy sha sample_file ''f'' 0 = Inr p \<and> l_gate p = GradeB"
proof -
  have ig: "validate_all check_ignore 0 (y_ignore sample_file) = Inr [''docs/**'']" by code_simp
  have ws: "validate_all (\<lambda>w. validate_waiver w 0) 0 (y_waivers sample_file)
      = Inr [\<lparr>v_rule = ''PG012'', v_path = ''db/*.sql'', v_reason = ''agreed'',
              v_expires = ''1970-05-01'', v_approved_by = []\<rparr>]"
    by code_simp
  have os: "validate_all validate_override 0 (y_overrides sample_file)
      = Inr [\<lparr>o_rule = ''PG014'', o_severity = Irreversible\<rparr>]"
    by code_simp
  have ts: "validate_all validate_type 0 (y_terraform_types sample_file)
      = Inr [\<lparr>t_type = ''x_db'', t_class = ''STATEFUL''\<rparr>]"
    by code_simp
  have g: "grade_of (to_upper (trim_space (y_gate sample_file))) = GradeB" by code_simp
  have v: "y_version sample_file = policy_version" and y: "y_gate sample_file \<noteq> []"
    by (simp_all add: sample_file_def policy_version_def)
  show ?thesis
    by (simp add: parse_policy_def Let_def v y g ig ws os ts)
qed

theorem loaded_policy_ok_witness: "\<exists>p. policy_ok 0 p \<and> y_version sample_file = 1 \<and> l_gate p = GradeB"
proof -
  obtain p where "parse_policy (\<lambda>b. b) sample_file ''f'' 0 = Inr p" and "l_gate p = GradeB"
    using sample_loads by blast
  with loaded_policy_ok [of "\<lambda>b. b" sample_file "''f''" 0 p] show ?thesis by blast
qed

text \<open>The digest is evidence about the configuration when the shapes agree: two policies with
  the same numbers of ignore patterns, waivers, overrides and Terraform types, hashed from the same
  stream of bytes, have the same gate, patterns, waivers, overrides and types.\<close>

definition digestible :: "policy \<Rightarrow> bool" where
  "digestible p \<longleftrightarrow> (\<forall>x\<in>set (digest_fields p). go_len x)
     \<and> (\<forall>ov\<in>set (l_overrides p). rev_of (rev_text (o_severity ov)) = o_severity ov)
     \<and> grade_of (grade_text (l_gate p)) = l_gate p"

lemma concat_fixed_inject:
  assumes "length xs = length ys" and "\<And>x. length (g x) = n"
    and "concat (map g xs) @ r = concat (map g ys) @ t"
  shows "map g xs = map g ys \<and> r = t"
  using assms by (induction xs ys rule: list_induct2) auto

theorem policy_digest_same_shape:
  assumes "digest_stream p = digest_stream q" and "digestible p" and "digestible q"
    and "length (l_ignore p) = length (l_ignore q)" and "length (l_waivers p) = length (l_waivers q)"
    and "length (l_overrides p) = length (l_overrides q)"
  shows "l_gate p = l_gate q \<and> l_ignore p = l_ignore q \<and> l_waivers p = l_waivers q
    \<and> l_overrides p = l_overrides q \<and> l_terraform_types p = l_terraform_types q"
proof -
  have fields: "digest_fields p = digest_fields q"
    using assms(1-3) by (intro wf.stream_inject) (auto simp: digest_stream_def digestible_def)
  then have g: "grade_text (l_gate p) = grade_text (l_gate q)"
    and ig: "l_ignore p = l_ignore q"
    and rest: "concat (map waiver_fields (l_waivers p)) @ concat (map override_fields (l_overrides p))
        @ concat (map type_fields (l_terraform_types p))
      = concat (map waiver_fields (l_waivers q)) @ concat (map override_fields (l_overrides q))
        @ concat (map type_fields (l_terraform_types q))"
    using assms(4) by (auto simp: digest_fields_def)
  have "map waiver_fields (l_waivers p) = map waiver_fields (l_waivers q)"
    and rest2: "concat (map override_fields (l_overrides p)) @ concat (map type_fields (l_terraform_types p))
      = concat (map override_fields (l_overrides q)) @ concat (map type_fields (l_terraform_types q))"
    using concat_fixed_inject [OF assms(5) _ rest, of 5] by (auto simp: waiver_fields_def)
  moreover have "map override_fields (l_overrides p) = map override_fields (l_overrides q)"
    and rest3: "concat (map type_fields (l_terraform_types p))
      = concat (map type_fields (l_terraform_types q))"
    using concat_fixed_inject [OF assms(6) _ rest2, of 2] by (auto simp: override_fields_def)
  moreover have "length (l_terraform_types p) = length (l_terraform_types q)"
    using arg_cong [OF rest3, of length]
    by (simp add: length_concat comp_def type_fields_def sum_list_triv)
  then have "map type_fields (l_terraform_types p) = map type_fields (l_terraform_types q)"
    using concat_fixed_inject [of "l_terraform_types p" "l_terraform_types q" type_fields 2 "[]" "[]"]
      rest3 by (simp add: type_fields_def)
  moreover have "inj waiver_fields" and "inj type_fields"
    by (auto intro!: injI simp: waiver_fields_def type_fields_def)
  moreover have "inj_on override_fields (set (l_overrides p) \<union> set (l_overrides q))"
  proof (rule inj_onI)
    fix x y
    assume "x \<in> set (l_overrides p) \<union> set (l_overrides q)"
      and "y \<in> set (l_overrides p) \<union> set (l_overrides q)"
      and eq: "override_fields x = override_fields y"
    then have "rev_of (rev_text (o_severity x)) = o_severity x"
      and "rev_of (rev_text (o_severity y)) = o_severity y"
      using assms(2,3) by (auto simp: digestible_def)
    moreover have "rev_text (o_severity x) = rev_text (o_severity y)" and "o_rule x = o_rule y"
      using eq by (simp_all add: override_fields_def)
    ultimately have "o_severity x = o_severity y" by metis
    then show "x = y" using \<open>o_rule x = o_rule y\<close> by simp
  qed
  moreover have "l_gate p = l_gate q"
    using g assms(2,3) unfolding digestible_def by metis
  ultimately show ?thesis using ig by (auto dest: map_injective map_inj_on)
qed

definition two_patterns :: policy_file where
  "two_patterns = \<lparr>y_version = 1, y_gate = [], y_ignore = [''PG001'', ''IRREVERSIBLE''], y_waivers = [],
     y_overrides = [], y_terraform_types = []\<rparr>"

definition one_override :: policy_file where
  "one_override = \<lparr>y_version = 1, y_gate = [], y_ignore = [], y_waivers = [],
     y_overrides = [\<lparr>o_rule = ''PG001'', o_severity = Irreversible\<rparr>], y_terraform_types = []\<rparr>"

lemma two_patterns_load:
  "parse_policy sha two_patterns path today = Inr
     \<lparr>l_source = path, l_gate = no_grade, l_ignore = [''PG001'', ''IRREVERSIBLE''], l_waivers = [],
      l_overrides = [], l_terraform_types = [],
      l_digest = hex_encode (sha (concat (map write_field [''v1'', [], ''PG001'', ''IRREVERSIBLE''])))\<rparr>"
proof -
  have ig: "validate_all check_ignore 0 (y_ignore two_patterns) = Inr [''PG001'', ''IRREVERSIBLE'']"
    by code_simp
  have v: "''v'' @ itoa policy_version = ''v1''" by code_simp
  show ?thesis
    unfolding parse_policy_def Let_def ig policy_digest_of_def digest_stream_def digest_fields_def v
    by (simp add: two_patterns_def policy_version_def)
qed

lemma one_override_loads:
  "parse_policy sha one_override path today = Inr
     \<lparr>l_source = path, l_gate = no_grade, l_ignore = [], l_waivers = [],
      l_overrides = [\<lparr>o_rule = ''PG001'', o_severity = Irreversible\<rparr>], l_terraform_types = [],
      l_digest = hex_encode (sha (concat (map write_field [''v1'', [], ''PG001'', ''IRREVERSIBLE''])))\<rparr>"
proof -
  have ov: "validate_all validate_override 0 (y_overrides one_override)
      = Inr [\<lparr>o_rule = ''PG001'', o_severity = Irreversible\<rparr>]"
    by code_simp
  have v: "''v'' @ itoa policy_version = ''v1''" by code_simp
  show ?thesis
    unfolding parse_policy_def Let_def ov policy_digest_of_def digest_stream_def digest_fields_def v
    by (simp add: one_override_def policy_version_def override_fields_def)
qed

text \<open>The digest does not cover the shape: two files that load to different policies, one with
  two ignore patterns and one with an override, are hashed from the same bytes, so they have the same
  digest whatever the hash function is.\<close>

theorem policy_digest_collision:
  "\<exists>p q. parse_policy sha two_patterns path today = Inr p
     \<and> parse_policy sha one_override path today = Inr q
     \<and> l_ignore p \<noteq> l_ignore q \<and> l_overrides p \<noteq> l_overrides q \<and> l_digest p = l_digest q"
  by (simp add: two_patterns_load one_override_loads)

text \<open>Discovery returns the nearest policy file at or above the start and never looks past the
  directory that holds \<open>.git\<close>: a file is found exactly when no directory below it has a policy file
  or a \<open>.git\<close>.\<close>

theorem discover_nearest:
  "discover has_policy has_git segs = Some d \<longleftrightarrow>
     (\<exists>k\<le>length segs. d = drop k segs \<and> has_policy d
        \<and> (\<forall>j<k. \<not> has_policy (drop j segs) \<and> \<not> has_git (drop j segs)))"
  by (rule discover_spec)

end
