(* ===== verification/Provider.thy ===== *)
theory Provider
  imports Domain
begin

text \<open>
  The interface every changeset is read through, \<open>internal/provider/provider.go\<close>: a provider lists
  the paths of a changeset without their content and reads the content of the paths it is given. The
  reference and the context of a call are bound when the record is made. The locale
  \<open>provider_contract\<close> holds what the comments of the interface promise; the providers for git, for
  the file system and for fixtures are its interpretations, and the command line relies on it.
\<close>

subsection \<open>The interface\<close>

record provider_path =
  pp_path :: string
  pp_prev_path :: string
  pp_status :: change_status

record file_provider =
  fp_list :: "string + provider_path list"
  fp_read :: "provider_path list \<Rightarrow> string + changed_file list"

text \<open>\<open>Resolve\<close> with a selection that keeps a state, which is returned.\<close>

definition resolve_changes ::
  "file_provider \<Rightarrow> (provider_path list \<Rightarrow> provider_path list \<times> 's) \<Rightarrow>
     string + (provider_path list \<times> changed_file list \<times> 's)" where
  "resolve_changes p choose_paths =
     (case fp_list p of
        Inl e \<Rightarrow> Inl (''listing the changeset: '' @ e)
      | Inr listed \<Rightarrow>
          (case choose_paths listed of (wanted, s) \<Rightarrow>
             (case fp_read p wanted of
                Inl e \<Rightarrow> Inl (''reading the changeset: '' @ e)
              | Inr files \<Rightarrow> Inr (listed, files, s))))"

definition all_changes :: "file_provider \<Rightarrow> string + changed_file list" where
  "all_changes p = map_sum (\<lambda>e. e) (\<lambda>(listed, files, s). files) (resolve_changes p (\<lambda>listed. (listed, ())))"

definition sort_paths :: "provider_path list \<Rightarrow> provider_path list" where
  "sort_paths ps = sort_key pp_path ps"

definition path_set :: "provider_path list \<Rightarrow> string \<rightharpoonup> provider_path" where
  "path_set ps = map_of (rev (map (\<lambda>p. (pp_path p, p)) ps))"

text \<open>\<open>sortByPath\<close> of the providers.\<close>

definition sort_by_path :: "changed_file list \<Rightarrow> changed_file list" where
  "sort_by_path fs = sort_key p_path fs"

text \<open>An error ends a sequence of calls.\<close>

definition and_then :: "'e + 'a \<Rightarrow> ('a \<Rightarrow> 'e + 'b) \<Rightarrow> 'e + 'b" where
  "and_then r f = (case r of Inl e \<Rightarrow> Inl e | Inr x \<Rightarrow> f x)"

lemma and_then_simps [simp]: "and_then (Inl e) f = Inl e" "and_then (Inr x) f = f x"
  by (simp_all add: and_then_def)

lemma and_then_Inr: "and_then r f = Inr y \<longleftrightarrow> (\<exists>x. r = Inr x \<and> f x = Inr y)"
  by (cases r) simp_all

lemma mset_sort_paths [simp]: "mset (sort_paths ps) = mset ps" "set (sort_paths ps) = set ps"
  by (simp_all add: sort_paths_def)

lemma mset_sort_by_path [simp]: "mset (sort_by_path fs) = mset fs" "set (sort_by_path fs) = set fs"
  by (simp_all add: sort_by_path_def)

lemma sorted_sort_paths [simp]: "sorted (map pp_path (sort_paths ps))"
  by (simp add: sort_paths_def)

lemma sorted_sort_by_path [simp]: "sorted (map p_path (sort_by_path fs))"
  by (simp add: sort_by_path_def)

subsection \<open>The contract\<close>

text \<open>What a listing says of a file, and what a file that was read says of itself.\<close>

definition path_entry :: "provider_path \<Rightarrow> string \<times> string \<times> change_status" where
  "path_entry p = (pp_path p, pp_prev_path p, pp_status p)"

definition file_entry :: "changed_file \<Rightarrow> string \<times> string \<times> change_status" where
  "file_entry f = (p_path f, p_previous_path f, p_status f)"

lemma entry_path [simp]: "fst (path_entry p) = pp_path p" "fst (file_entry f) = p_path f"
  by (simp_all add: path_entry_def file_entry_def)

locale provider_contract =
  fixes listing :: "'e + provider_path list"
    and reading :: "provider_path list \<Rightarrow> 'e + changed_file list"
  assumes listing_sorted: "listing = Inr listed \<Longrightarrow> sorted (map pp_path listed)"
    and reading_sorted: "reading ps = Inr files \<Longrightarrow> sorted (map p_path files)"
    and reads_what_was_asked: "listing = Inr listed \<Longrightarrow>
      reading (filter (\<lambda>p. Q (pp_path p)) listed) = Inr files \<Longrightarrow>
      mset (map file_entry files) = mset (map path_entry (filter (\<lambda>p. Q (pp_path p)) listed))"
begin

lemma reads_exactly:
  assumes "listing = Inr listed" and "reading (filter (\<lambda>p. Q (pp_path p)) listed) = Inr files"
    and "distinct (map pp_path listed)"
  shows "map file_entry files = map path_entry (filter (\<lambda>p. Q (pp_path p)) listed)"
proof (rule map_sorted_distinct_set_unique [where f = fst])
  let ?ps = "filter (\<lambda>p. Q (pp_path p)) listed"
  note m = reads_what_was_asked [OF assms(1,2)]
  have paths: "map fst (map path_entry ps) = map pp_path ps" "map fst (map file_entry fs) = map p_path fs"
    for ps fs
    by (simp_all add: comp_def)
  have "distinct (map pp_path ?ps)" using assms(3) by (rule distinct_map_filter)
  then have d: "distinct (map fst (map path_entry ?ps))" by (simp add: comp_def)
  then show "inj_on fst (set (map file_entry files) \<union> set (map path_entry ?ps))"
    by (simp only: distinct_map mset_eq_setD [OF m] Un_absorb)
  show "sorted (map fst (map file_entry files))"
    using reading_sorted [OF assms(2)] by (simp add: comp_def)
  show "sorted (map fst (map path_entry ?ps))"
    using listing_sorted [OF assms(1)] by (simp add: comp_def sorted_filter)
  show "distinct (map fst (map path_entry ?ps))" by (rule d)
  show "distinct (map fst (map file_entry files))"
    using d m by (metis (no_types) mset_eq_imp_distinct_iff mset_map)
  show "set (map file_entry files) = set (map path_entry ?ps)" by (rule mset_eq_setD [OF m])
qed

lemma with_error_text:
  "provider_contract (map_sum f (\<lambda>x. x) listing) (\<lambda>ps. map_sum f (\<lambda>x. x) (reading ps))"
proof -
  have Inr: "map_sum f (\<lambda>x. x) r = Inr y \<longleftrightarrow> r = Inr y" for r :: "'e + 'x" and y
    by (cases r) simp_all
  show ?thesis
    by unfold_locales (simp_all only: Inr listing_sorted reading_sorted reads_what_was_asked)
qed

lemma nothing_read: "listing = Inr listed \<Longrightarrow> reading [] = Inr files \<Longrightarrow> files = []"
  using reads_what_was_asked [of listed "\<lambda>p. False" files] by simp

end

end
