(* ===== verification/Cli_Check.thy ===== *)
theory Cli_Check
  imports Guarantees Policy_Load Provider
begin

text \<open>
  The command \<open>revctl check\<close>, \<open>internal/delivery/cli/check.go\<close> and \<open>cli.go\<close>: how the threshold is
  resolved, which paths are read, enumerated and ignored, how a certificate becomes an exit code.
  What reads the disk, the policy file, the snapshots and the analyzers' construction are arguments
  that return a value or an error, and so is what prints the certificate. Standard error is the list of
  its lines. The theory \<open>Revctl\<close> puts the components of the development in the place of the arguments.
\<close>

subsection \<open>Exit codes\<close>

datatype cli_error = GateFailed | NotAssessed | IncompleteCoverage | NoCommand | Other_error string

fun cli_error_text :: "cli_error \<Rightarrow> string" where
  "cli_error_text GateFailed = ''reversibility gate failed''"
| "cli_error_text NotAssessed =
     ''the changeset was not assessed: it holds files that may be migrations and no analyzer supports them''"
| "cli_error_text IncompleteCoverage =
     ''part of this changeset was not analyzed, so its reversibility cannot be certified''"
| "cli_error_text NoCommand = ''no command given: nothing was analyzed, which is not a pass''"
| "cli_error_text (Other_error s) = s"

text \<open>\<open>Execute\<close>, after the command has returned: the exit code and what is printed last.\<close>

definition execute :: "cli_error option \<Rightarrow> int \<times> string list" where
  "execute err =
     (case err of
        None \<Rightarrow> (0, [])
      | Some GateFailed \<Rightarrow> (1, [])
      | Some e \<Rightarrow> (2, [''revctl: '' @ cli_error_text e]))"

subsection \<open>The threshold\<close>

record check_flags =
  fl_before :: "string list"
  fl_base :: string
  fl_head :: string
  fl_gate :: bool
  fl_min_grade :: string
  fl_config :: string
  fl_no_config :: bool
  fl_deprecated :: "string list"
  fl_format :: string
  fl_output :: string
  fl_context :: "string list"
  fl_plans :: "string list"

definition resolve_min_grade :: "check_flags \<Rightarrow> policy option \<Rightarrow> string + grade" where
  "resolve_min_grade flags pol =
     (if fl_min_grade flags \<noteq> [] then
        (let g = grade_of (to_upper (fl_min_grade flags)) in
         if \<not> grade_threshold g
         then Inl (''invalid --min-grade '' @ go_quote (fl_min_grade flags) @ '': want A, B, C, or F'')
         else Inr g)
      else if fl_gate flags then Inr GradeA
      else
        (case pol of
           Some p \<Rightarrow> if l_gate p \<noteq> no_grade then Inr (l_gate p) else Inr no_grade
         | None \<Rightarrow> Inr no_grade))"

definition divergence_reason :: "certificate \<Rightarrow> string" where
  "divergence_reason x =
     (if \<not> coverage_full (c_coverage x) then
        utoa (length (c_unanalyzed x)) @ '' file(s) that may be migrations were not analyzed''
      else if c_ignored_by_policy x \<noteq> [] then
        utoa (length (c_ignored_by_policy x)) @ '' candidate file(s) are excluded by .reversibility.yml''
      else if c_waived x \<noteq> [] then
        utoa (length (c_waived x)) @ '' finding(s) are waived, and a waiver never opens the AI merge gate''
      else ''the change grades '' @ grade_text (c_grade x))"

fun gate_text :: "gate_status \<Rightarrow> string" where
  "gate_text GatePass = ''PASS''"
| "gate_text GateFail = ''FAIL''"
| "gate_text GateNotApplicable = ''NOT_APPLICABLE''"

definition apply_gate :: "certificate \<Rightarrow> grade \<Rightarrow> cli_error option \<times> string list" where
  "apply_gate x min_grade =
     (if c_outcome x = OutcomeUnsupportedContent then
        (Some NotAssessed,
         ''revctl: reversibility was not assessed, so the gate cannot pass''
           # map (\<lambda>b. ''  - '' @ b) (c_blockers x))
      else if \<not> coverage_full (c_coverage x) then
        (Some IncompleteCoverage,
         [''revctl: '' @ partial_coverage_blocker]
           @ map (\<lambda>u. ''  - '' @ u_path u @ '' ('' @ u_reason u @ '')'') (c_unanalyzed x)
           @ map (\<lambda>r. ''  '' @ r) (rendering_remedy (map u_path (c_unanalyzed x))))
      else if min_grade = no_grade then (None, [])
      else if c_outcome x = OutcomeNoCandidates then (None, [])
      else
        (let effective = (if c_effective_grade x = no_grade then c_grade x else c_effective_grade x) in
         if grade_rank min_grade \<le> grade_rank effective then
           (None,
            (if c_gate x \<noteq> GatePass then
               [''revctl: this run exits 0 and the AI merge gate is '' @ gate_text (c_gate x) @ '' ''
                @ emdash @ '' '' @ divergence_reason x
                @ ''. An autonomous agent must not merge this change.'']
             else [])
            @ (if c_waived x \<noteq> [] \<and> effective \<noteq> c_grade x then
                 [''revctl: gate met at '' @ grade_text effective @ '' because ''
                  @ utoa (length (c_waived x)) @ '' finding(s) are waived; the change itself grades ''
                  @ grade_text (c_grade x)]
               else []))
         else
           (Some GateFailed,
            (''revctl: gate failed '' @ emdash @ '' grade '' @ grade_text effective
              @ '' is below the required minimum '' @ grade_text min_grade)
              # map (\<lambda>b. ''  - '' @ b) (c_blockers x))))"

subsection \<open>Choosing what to read\<close>

record choice =
  ch_read :: "provider_path list"
  ch_enumerated :: "provider_path list"
  ch_ignored :: "string list"
  ch_matcher :: ignore_matcher

fun choose_loop :: "(located \<Rightarrow> bool) \<Rightarrow> (string \<Rightarrow> located) \<Rightarrow> provider_path list \<Rightarrow> choice \<Rightarrow> choice" where
  "choose_loop claims locate [] ch = ch"
| "choose_loop claims locate (p # ps) ch =
     (if is_policy_file (pp_path p) then choose_loop claims locate ps ch
      else
        (let at = locate (pp_path p) in
         case matcher_ignores (ch_matcher ch) at of
           (True, m) \<Rightarrow>
             choose_loop claims locate ps
               (ch\<lparr>ch_matcher := m, ch_ignored := ch_ignored ch @ [pp_path p]\<rparr>)
         | (False, m) \<Rightarrow>
             choose_loop claims locate ps
               (ch\<lparr>ch_matcher := m, ch_enumerated := ch_enumerated ch @ [p],
                  ch_read := (if claims at then ch_read ch @ [p] else ch_read ch)\<rparr>)))"

definition choose_paths :: "policy option \<Rightarrow> (located \<Rightarrow> bool) \<Rightarrow> (string \<Rightarrow> located) \<Rightarrow> provider_path list \<Rightarrow> choice" where
  "choose_paths pol claims locate listed =
     choose_loop claims locate listed
       \<lparr>ch_read = [], ch_enumerated = [], ch_ignored = [], ch_matcher = matcher pol\<rparr>"

text \<open>\<open>choose\<close> as it is handed to the provider.\<close>

definition chosen :: "engine \<Rightarrow> string \<times> string \<Rightarrow> provider_path list \<Rightarrow> provider_path list \<times> choice" where
  "chosen eng root listed =
     (let ch = choose_paths (e_policy eng) (supports eng) (new_locator (fst root)) listed in (ch_read ch, ch))"

subsection \<open>Resolving the inputs\<close>

datatype provider_kind = Git_refs | File_trees

definition resolve_provider :: "check_flags \<Rightarrow> string list \<Rightarrow> string + provider_kind" where
  "resolve_provider flags paths =
     (if fl_base flags \<noteq> [] \<and> fl_before flags \<noteq> [] then
        Inl ''--base and --before are different comparisons: --base names git refs, --before names directories; pass one, not both''
      else if fl_base flags \<noteq> [] then Inr Git_refs
      else if fl_head flags \<noteq> [] then
        Inl ''--head names the ref holding the change and only means something alongside --base''
      else if paths = [] then
        Inl ''no paths given: pass a directory to analyze, or --base to compare two git refs''
      else Inr File_trees)"

text \<open>The search for a policy: \<open>discover\<close> walks up from the search root, \<open>load\<close> reads and parses.\<close>

definition resolve_policy ::
  "(string + string option) \<Rightarrow> (string \<Rightarrow> string + policy) \<Rightarrow> check_flags \<Rightarrow>
     string + policy option \<times> string list" where
  "resolve_policy discovered load flags =
     (if fl_no_config flags then
        (if fl_config flags \<noteq> [] then
           Inl ''--config names a policy and --no-config discards one; pass one, not both''
         else Inr (None, []))
      else
        (case (if fl_config flags \<noteq> [] then Inr (Some (fl_config flags)) else discovered) of
           Inl e \<Rightarrow> Inl (''looking for .reversibility.yml: '' @ e)
         | Inr None \<Rightarrow> Inr (None, [])
         | Inr (Some path) \<Rightarrow>
             (case load path of
                Inl e \<Rightarrow> Inl (''reading the policy: '' @ e)
              | Inr p \<Rightarrow> Inr (Some p, [''revctl: using policy '' @ l_source p]))))"

definition deprecated_flags :: "(string \<times> string) list" where
  "deprecated_flags =
     [(''require-full-coverage'',
       ''partial coverage now always fails, so this flag is ignored; remove it'')]"

definition deprecation_lines :: "check_flags \<Rightarrow> string list" where
  "deprecation_lines flags =
     map (\<lambda>(name, use). ''revctl: --'' @ name @ '' is deprecated: '' @ use)
       (filter (\<lambda>(name, use). name \<in> set (fl_deprecated flags)) deprecated_flags)"

record check_env =
  ev_renderer :: "string \<Rightarrow> string option"
  ev_discovered :: "string + string option"
  ev_load_policy :: "string \<Rightarrow> string + policy"
  ev_context :: "context_error + context_set option"
  ev_analyzers :: "policy option \<Rightarrow> string + analyzer list"
  ev_provider :: "provider_kind \<Rightarrow> string + file_provider"
  ev_root :: "provider_kind \<Rightarrow> string \<times> string"
  ev_today :: instant
  ev_emit :: "certificate \<Rightarrow> string option"

definition root_lines :: "certificate \<Rightarrow> string list" where
  "root_lines x =
     (if c_policy_warnings x \<noteq> [] \<and> c_path_anchor x \<noteq> [] then
        [''revctl: patterns were matched relative to the project root ('' @ c_path_anchor x @ '')''
         @ (if c_path_prefix x \<noteq> [] then '', with this changeset rooted at '' @ c_path_prefix x @ ''/'' else [])]
      else [])"

text \<open>\<open>enumeratedPaths\<close>.\<close>

definition enumerated_paths :: "provider_path list \<Rightarrow> string list" where
  "enumerated_paths listed = map pp_path listed"

definition run_config_of :: "string \<times> string \<Rightarrow> choice \<Rightarrow> run_config" where
  "run_config_of root ch =
     \<lparr>rc_enumerated = enumerated_paths (ch_enumerated ch), rc_ignored_by_policy = ch_ignored ch,
      rc_dead_ignores = matcher_dead (ch_matcher ch), rc_root = fst root, rc_anchor = snd root\<rparr>"

text \<open>The part of \<open>runCheck\<close> after everything has been resolved; \<open>emit\<close> is the error of printing the certificate.\<close>

definition check_changeset ::
  "(string \<Rightarrow> string) \<Rightarrow> engine \<Rightarrow> file_provider \<Rightarrow> string \<times> string \<Rightarrow> grade \<Rightarrow>
     (certificate \<Rightarrow> string option) \<Rightarrow> certificate option \<times> string list \<times> cli_error option" where
  "check_changeset sha eng source root min_grade emit =
     (case resolve_changes source (chosen eng root) of
        Inl e \<Rightarrow> (None, [], Some (Other_error (''reading the changeset: '' @ e)))
      | Inr (listed, files, ch) \<Rightarrow>
          (case certify sha eng None (run_config_of root ch) files of
             (cert, analysis_error) \<Rightarrow>
               (let notes = map (\<lambda>w. ''revctl: '' @ w) (c_policy_warnings cert) @ root_lines cert in
                case emit cert of
                  Some e \<Rightarrow> (Some cert, notes, Some (Other_error e))
                | None \<Rightarrow>
                    (case apply_gate cert min_grade of
                       (err, gate_lines) \<Rightarrow>
                         (Some cert,
                          notes
                          @ (case analysis_error of
                               None \<Rightarrow> []
                             | Some e \<Rightarrow> [''revctl: analysis reported errors, grade forced to F: '' @ e])
                          @ gate_lines,
                          err)))))"

definition run_check ::
  "(string \<Rightarrow> string) \<Rightarrow> check_env \<Rightarrow> check_flags \<Rightarrow> string list \<Rightarrow>
     certificate option \<times> string list \<times> cli_error option" where
  "run_check sha env flags paths =
     (let fail = (\<lambda>lines e. (None, deprecation_lines flags @ lines, Some (Other_error e))) in
      case ev_renderer env (fl_format flags) of
        Some e \<Rightarrow> fail [] (''selecting output format: '' @ e)
      | None \<Rightarrow>
      (case resolve_policy (ev_discovered env) (ev_load_policy env) flags of
        Inl e \<Rightarrow> fail [] e
      | Inr (pol, policy_lines) \<Rightarrow>
      (case resolve_min_grade flags pol of
        Inl e \<Rightarrow> fail policy_lines e
      | Inr min_grade \<Rightarrow>
      (case ev_context env of
        Inl e \<Rightarrow> fail policy_lines (''reading the production context: '' @ context_error_text e)
      | Inr snapshots \<Rightarrow>
          (let lines = policy_lines @ (case snapshots of None \<Rightarrow> [] | Some s \<Rightarrow>
                 map (\<lambda>w. ''revctl: '' @ w) (cs_warnings s)) in
           case ev_analyzers env pol of
             Inl e \<Rightarrow> fail lines e
           | Inr analyzers \<Rightarrow>
           (case resolve_provider flags paths of
             Inl e \<Rightarrow> fail lines e
           | Inr kind \<Rightarrow>
           (case ev_provider env kind of
             Inl e \<Rightarrow> fail lines e
           | Inr source \<Rightarrow>
               (case check_changeset sha (new_engine analyzers pol (ev_today env) snapshots) source
                   (ev_root env kind) min_grade (ev_emit env) of
                  (cert, rest, err) \<Rightarrow> (cert, deprecation_lines flags @ lines @ rest, err)))))))))"

subsection \<open>Lemmas\<close>

definition exit_code :: "cli_error option \<Rightarrow> int" where
  "exit_code err = fst (execute err)"

lemma exit_code_cases:
  "exit_code err = 0 \<longleftrightarrow> err = None" "exit_code err = 1 \<longleftrightarrow> err = Some GateFailed"
  by (simp_all add: exit_code_def execute_def split: option.splits cli_error.splits)

lemma matcher_ignores_fst: "m_policy m = pol \<Longrightarrow> fst (matcher_ignores m at) = ignores pol at"
  by (cases pol) (simp_all add: matcher_ignores_def ignores_def matcher_fold)

lemma matcher_ignores_policy: "m_policy (snd (matcher_ignores m at)) = m_policy m"
  by (cases "m_policy m") (simp_all add: matcher_ignores_def matcher_fold)

lemma matcher_ignores_pair:
  "m_policy m = pol \<Longrightarrow> \<exists>m'. matcher_ignores m at = (ignores pol at, m') \<and> m_policy m' = pol"
  by (intro exI [of _ "snd (matcher_ignores m at)"])
    (simp add: prod_eq_iff matcher_ignores_fst matcher_ignores_policy)

lemma choose_loop_eq:
  assumes "m_policy (ch_matcher ch) = pol"
  shows "ch_read (choose_loop claims locate ps ch) = ch_read ch
           @ filter (\<lambda>p. \<not> is_policy_file (pp_path p) \<and> \<not> ignores pol (locate (pp_path p))
               \<and> claims (locate (pp_path p))) ps
    \<and> ch_enumerated (choose_loop claims locate ps ch) = ch_enumerated ch
           @ filter (\<lambda>p. \<not> is_policy_file (pp_path p) \<and> \<not> ignores pol (locate (pp_path p))) ps
    \<and> ch_ignored (choose_loop claims locate ps ch) = ch_ignored ch
           @ map pp_path (filter (\<lambda>p. \<not> is_policy_file (pp_path p) \<and> ignores pol (locate (pp_path p))) ps)"
  using assms
proof (induction ps arbitrary: ch)
  case (Cons p ps)
  obtain m where "matcher_ignores (ch_matcher ch) (locate (pp_path p)) = (ignores pol (locate (pp_path p)), m)"
    and "m_policy m = pol"
    using matcher_ignores_pair [OF Cons.prems] by blast
  then show ?case
    using Cons by (cases "ignores pol (locate (pp_path p))") (simp_all add: Let_def)
qed simp

lemma choose_paths_eq:
  "ch_read (choose_paths pol claims locate listed)
     = filter (\<lambda>p. \<not> is_policy_file (pp_path p) \<and> \<not> ignores pol (locate (pp_path p))
         \<and> claims (locate (pp_path p))) listed"
  "ch_enumerated (choose_paths pol claims locate listed)
     = filter (\<lambda>p. \<not> is_policy_file (pp_path p) \<and> \<not> ignores pol (locate (pp_path p))) listed"
  "ch_ignored (choose_paths pol claims locate listed)
     = map pp_path (filter (\<lambda>p. \<not> is_policy_file (pp_path p) \<and> ignores pol (locate (pp_path p))) listed)"
  unfolding choose_paths_def by (simp_all add: choose_loop_eq matcher_def)

lemma apply_gate_None:
  "fst (apply_gate x g) = None \<longleftrightarrow>
     c_outcome x \<noteq> OutcomeUnsupportedContent \<and> c_coverage x = CoverageFull
     \<and> (g = no_grade \<or> c_outcome x = OutcomeNoCandidates
        \<or> grade_rank g \<le> grade_rank (if c_effective_grade x = no_grade then c_grade x else c_effective_grade x))"
  by (simp add: apply_gate_def Let_def)

lemma score_grade_named: "r_grade (score i) \<noteq> no_grade"
proof -
  have "r_grade (measured fs down) \<noteq> no_grade" for fs down
    using measured_not_F [of fs down] by auto
  then show ?thesis by (cases "i_outcome i") (simp_all add: score_def)
qed

lemma effective_grade_named: "c_effective_grade (fst (certify sha e cancelled c given)) \<noteq> no_grade"
proof (cases rule: certify_cases [of sha e cancelled c given])
  case 1
  then show ?thesis by (auto simp: failure_result_def)
next
  case (2 findings down errors decision digest version)
  obtain out bad where o: "outcome (supports e) (stamp_located given (locator c))
      (if rc_enumerated c = [] then paths_of (stamp_located given (locator c)) else rc_enumerated c)
      (locator c) = (out, bad)"
    by (rule outcome_pair)
  show ?thesis
    unfolding 2(3) conclude_fields(2) [OF o] score_of_def by (simp add: score_grade_named)
qed

lemma unwaived_grade:
  assumes "c_waived (fst (certify sha e cancelled c given)) = []"
  shows "c_effective_grade (fst (certify sha e cancelled c given)) = c_grade (fst (certify sha e cancelled c given))"
proof (cases rule: certify_cases [of sha e cancelled c given])
  case 1
  then show ?thesis by (auto simp: failure_result_def)
next
  case (2 findings down errors decision digest version)
  obtain out bad where o: "outcome (supports e) (stamp_located given (locator c))
      (if rc_enumerated c = [] then paths_of (stamp_located given (locator c)) else rc_enumerated c)
      (locator c) = (out, bad)"
    by (rule outcome_pair)
  have "n_waived decision = []" using assms unfolding 2(3) by (simp add: conclude_def Let_def o)
  then show ?thesis unfolding 2(3) conclude_fields(1,2) [OF o] by simp
qed

lemma check_changeset_cases:
  assumes "check_changeset sha eng source root g emit = (Some cert, lines, err)"
  obtains listed files ch where "resolve_changes source (chosen eng root) = Inr (listed, files, ch)"
    and "cert = fst (certify sha eng None (run_config_of root ch) files)"
    and "err = (case emit cert of Some e \<Rightarrow> Some (Other_error e) | None \<Rightarrow> fst (apply_gate cert g))"
proof -
  from assms obtain listed files ch where r: "resolve_changes source (chosen eng root) = Inr (listed, files, ch)"
    by (auto simp: check_changeset_def split: sum.splits)
  obtain x e where c: "certify sha eng None (run_config_of root ch) files = (x, e)"
    by (cases "certify sha eng None (run_config_of root ch) files")
  with assms r have "cert = x" "err = (case emit cert of Some e \<Rightarrow> Some (Other_error e) | None \<Rightarrow> fst (apply_gate cert g))"
    by (auto simp: check_changeset_def Let_def split: option.splits prod.splits)
  with that [OF r] c show thesis by simp
qed

lemma run_check_cases:
  assumes "run_check sha env flags paths = (Some cert, lines, err)"
  obtains pol said min_grade as kind source ctx eng listed files ch
    where "resolve_policy (ev_discovered env) (ev_load_policy env) flags = Inr (pol, said)"
    and "resolve_min_grade flags pol = Inr min_grade" and "ev_context env = Inr ctx"
    and "ev_analyzers env pol = Inr as" and "eng = new_engine as pol (ev_today env) ctx"
    and "resolve_provider flags paths = Inr kind" and "ev_provider env kind = Inr source"
    and "resolve_changes source (chosen eng (ev_root env kind)) = Inr (listed, files, ch)"
    and "cert = fst (certify sha eng None (run_config_of (ev_root env kind) ch) files)"
    and "err = (case ev_emit env cert of Some e \<Rightarrow> Some (Other_error e) | None \<Rightarrow> fst (apply_gate cert min_grade))"
proof -
  from assms obtain pol said min_grade as ctx kind source rest where
    g: "resolve_policy (ev_discovered env) (ev_load_policy env) flags = Inr (pol, said)"
      "resolve_min_grade flags pol = Inr min_grade" "ev_context env = Inr ctx" "ev_analyzers env pol = Inr as"
      "resolve_provider flags paths = Inr kind" "ev_provider env kind = Inr source"
    and c: "check_changeset sha (new_engine as pol (ev_today env) ctx) source (ev_root env kind) min_grade (ev_emit env)
      = (Some cert, rest, err)"
    by (auto simp: run_check_def Let_def split: sum.splits prod.splits option.splits)
  show thesis
  proof (rule check_changeset_cases [OF c])
    fix listed files ch
    assume "resolve_changes source (chosen (new_engine as pol (ev_today env) ctx) (ev_root env kind)) = Inr (listed, files, ch)"
      and "cert = fst (certify sha (new_engine as pol (ev_today env) ctx) None (run_config_of (ev_root env kind) ch) files)"
      and "err = (case ev_emit env cert of Some e \<Rightarrow> Some (Other_error e) | None \<Rightarrow> fst (apply_gate cert min_grade))"
    then show thesis by (rule that [OF g(1-4) refl g(5,6)])
  qed
qed

subsection \<open>Properties\<close>

text \<open>What exit code 0 means: the changeset could be assessed, all of it was read, and either no
  threshold was in force, or there was nothing to assess, or the effective grade meets the threshold.
  Unassessed and partly read changesets exit with 2 whatever was asked, a low grade exits with 1.\<close>

theorem exit_code_exact:
  "exit_code (fst (apply_gate x g)) =
     (if c_outcome x = OutcomeUnsupportedContent then 2
      else if \<not> coverage_full (c_coverage x) then 2
      else if g = no_grade \<or> c_outcome x = OutcomeNoCandidates
        \<or> grade_rank g \<le> grade_rank (if c_effective_grade x = no_grade then c_grade x else c_effective_grade x)
      then 0 else 1)"
  by (simp add: apply_gate_def exit_code_def execute_def Let_def)

text \<open>C40. The strict gate: when \<open>--gate\<close> is given without a threshold of its own and the command exits
  with 0, every file was covered and the effective grade is A, or there was nothing to assess; when
  moreover nothing was waived, the grade itself is.\<close>

theorem strict_gate_exit_zero:
  assumes "run_check sha env flags paths = (Some cert, lines, err)"
    and "fl_gate flags" and "fl_min_grade flags = []" and "exit_code err = 0"
  shows "c_coverage cert = CoverageFull
    \<and> (c_outcome cert = OutcomeNoCandidates \<or> c_effective_grade cert = GradeA)
    \<and> (c_outcome cert = OutcomeNoCandidates \<or> c_waived cert \<noteq> [] \<or> c_grade cert = GradeA)"
proof -
  obtain pol min_grade eng rc files where g: "resolve_min_grade flags pol = Inr min_grade"
    and err: "err = (case ev_emit env cert of Some e \<Rightarrow> Some (Other_error e) | None \<Rightarrow> fst (apply_gate cert min_grade))"
    and c: "cert = fst (certify sha eng None rc files)"
    by (rule run_check_cases [OF assms(1)])
  from err assms(4) have e: "err = fst (apply_gate cert min_grade)"
    by (auto simp: exit_code_cases split: option.splits)
  from g assms(2,3) have "min_grade = GradeA" by (simp add: resolve_min_grade_def)
  with e assms(4) have a: "c_coverage cert = CoverageFull"
    "c_outcome cert = OutcomeNoCandidates
      \<or> 3 \<le> grade_rank (if c_effective_grade cert = no_grade then c_grade cert else c_effective_grade cert)"
    by (auto simp: exit_code_cases apply_gate_None)
  from c have "c_effective_grade cert \<noteq> no_grade" using effective_grade_named by blast
  with a have "c_outcome cert = OutcomeNoCandidates \<or> c_effective_grade cert = GradeA"
    using grade_rank_le3 [of "c_effective_grade cert"] grade_rank_A [of "c_effective_grade cert"] by auto
  moreover have "c_waived cert \<noteq> [] \<or> c_effective_grade cert = c_grade cert"
    unfolding c using unwaived_grade by blast
  ultimately show ?thesis using a(1) by auto
qed

definition plain_flags :: check_flags where
  "plain_flags = \<lparr>fl_before = [], fl_base = [], fl_head = [], fl_gate = False, fl_min_grade = [],
     fl_config = [], fl_no_config = False, fl_deprecated = [], fl_format = ''json'', fl_output = [],
     fl_context = [], fl_plans = []\<rparr>"

definition sample_env :: check_env where
  "sample_env = \<lparr>ev_renderer = (\<lambda>f. None), ev_discovered = Inr None, ev_load_policy = (\<lambda>p. Inl []), ev_context = Inr None,
     ev_analyzers = (\<lambda>p. Inr [quiet_analyzer]),
     ev_provider = (\<lambda>k. Inr \<lparr>fp_list = Inr [\<lparr>pp_path = ''a.sql'', pp_prev_path = [], pp_status = StatusAdded\<rparr>],
       fp_read = (\<lambda>ps. Inr (map (\<lambda>p. sql_change) ps))\<rparr>),
     ev_root = (\<lambda>k. ([], [])), ev_today = 0, ev_emit = (\<lambda>c. None)\<rparr>"

theorem strict_gate_exit_zero_witness:
  "\<exists>cert. fst (run_check (\<lambda>b. b) sample_env (plain_flags\<lparr>fl_gate := True\<rparr>) [''.'']) = Some cert
     \<and> c_coverage cert = CoverageFull \<and> (c_waived cert = [] \<longrightarrow> c_outcome cert = OutcomeNoCandidates \<or> c_grade cert = GradeA)"
proof -
  let ?r = "run_check (\<lambda>b. b) sample_env (plain_flags\<lparr>fl_gate := True\<rparr>) [''.'']"
  let ?file = "\<lparr>pp_path = ''a.sql'', pp_prev_path = [], pp_status = StatusAdded\<rparr>"
  have pick: "choose_paths None (\<lambda>l. has_suffix l ''.sql'') (new_locator []) [?file]
      = \<lparr>ch_read = [?file], ch_enumerated = [?file], ch_ignored = [], ch_matcher = matcher None\<rparr>"
    by code_simp
  have o': "outcome (\<lambda>l. has_suffix l ''.sql'') (stamp_located [sql_change] (new_locator [])) [''a.sql'']
      (new_locator []) = (OutcomeAnalyzed, [])"
    by code_simp
  have A: "r_grade (score \<lparr>i_findings = [], i_down_migrations = [], i_analyzer_errors = [],
      i_outcome = OutcomeAnalyzed, i_unsupported = []\<rparr>) = GradeA"
    by code_simp
  have sup: "supports (new_engine [quiet_analyzer] None 0 None) = (\<lambda>l. has_suffix l ''.sql'')"
    by (rule ext) (simp add: supports_def new_engine_def quiet_analyzer_def)
  have run: "run_analyzers (new_engine [quiet_analyzer] None 0 None) files = Done ([], [], [])" for files
    by (simp add: run_analyzers_def new_engine_def quiet_analyzer_def)
  have eng: "e_policy (new_engine as p t x) = p" "e_context (new_engine as p t x) = x" for as p t x
    by (simp_all add: new_engine_def)
  have "snd (snd ?r) = None \<and> fst ?r \<noteq> None"
    by (simp add: run_check_def resolve_policy_def plain_flags_def sample_env_def resolve_min_grade_def
        resolve_provider_def check_changeset_def chosen_def run_config_of_def enumerated_paths_def resolve_changes_def certify_def Let_def run eng sup pick
        o' conclude_def score_of_def A apply_gate_def locator_def enrich_def sort_findings_def)
  then obtain cert where r: "?r = (Some cert, fst (snd ?r), None)"
    by (cases ?r) auto
  show ?thesis
    using strict_gate_exit_zero [OF r] r by (simp add: plain_flags_def exit_code_cases) (metis fst_conv)
qed

text \<open>Every listed path is accounted for: apart from the policy file, it is either ignored, and
  recorded as such, or part of the enumeration coverage is measured against; what is read is the part
  of the enumeration an analyzer claims.\<close>

theorem choose_accounts_for_every_path:
  "mset (map pp_path (ch_enumerated (choose_paths pol claims locate listed)))
     + mset (ch_ignored (choose_paths pol claims locate listed))
     = mset (filter (\<lambda>p. \<not> is_policy_file p) (map pp_path listed))
   \<and> ch_read (choose_paths pol claims locate listed)
     = filter (\<lambda>p. claims (locate (pp_path p))) (ch_enumerated (choose_paths pol claims locate listed))"
proof -
  have "mset (map pp_path (filter (\<lambda>p. \<not> is_policy_file (pp_path p) \<and> \<not> Q p) ps))
      + mset (map pp_path (filter (\<lambda>p. \<not> is_policy_file (pp_path p) \<and> Q p) ps))
      = mset (filter (\<lambda>p. \<not> is_policy_file p) (map pp_path ps))" for Q and ps :: "provider_path list"
    by (induction ps) auto
  from this [of "\<lambda>p. ignores pol (locate (pp_path p))" listed] show ?thesis
    unfolding choose_paths_eq by (simp add: conj_assoc)
qed

text \<open>A gate that gates nothing can be configured: the command line refuses the threshold \<open>N/A\<close>, but
  a policy file with that gate loads and is used, and then the certificate of a run that failed, a
  grade F, exits with 0.\<close>

definition na_policy_file :: policy_file where
  "na_policy_file = \<lparr>y_version = 1, y_gate = ''N/A'', y_ignore = [], y_waivers = [], y_overrides = [],
     y_terraform_types = []\<rparr>"

theorem policy_gate_na_passes_everything:
  "\<exists>p. parse_policy sha na_policy_file path today = Inr p
     \<and> resolve_min_grade plain_flags (Some p) = Inr GradeNA
     \<and> resolve_min_grade (plain_flags\<lparr>fl_min_grade := ''N/A''\<rparr>) None
         = Inl (''invalid --min-grade '' @ go_quote ''N/A'' @ '': want A, B, C, or F'')
     \<and> c_grade (failed_certificate digest err) = GradeF
     \<and> exit_code (fst (apply_gate (failed_certificate digest err) GradeNA)) = 0"
proof -
  have g: "grade_of (to_upper (trim_space ''N/A'')) = GradeNA" by code_simp
  have u: "grade_of (to_upper ''N/A'') = GradeNA" by code_simp
  obtain p where p: "parse_policy sha na_policy_file path today = Inr p" and na: "l_gate p = GradeNA"
    by (simp add: parse_policy_def na_policy_file_def policy_version_def Let_def g)
  have "resolve_min_grade plain_flags (Some p) = Inr GradeNA"
    by (simp add: resolve_min_grade_def plain_flags_def na)
  moreover have "resolve_min_grade (plain_flags\<lparr>fl_min_grade := ''N/A''\<rparr>) None
      = Inl (''invalid --min-grade '' @ go_quote ''N/A'' @ '': want A, B, C, or F'')"
    using u by (simp add: resolve_min_grade_def plain_flags_def)
  moreover have "exit_code (fst (apply_gate (failed_certificate digest err) GradeNA)) = 0"
    by (simp add: failed_certificate_def apply_gate_def exit_code_def execute_def)
  ultimately show ?thesis using p by (simp add: failed_certificate_def)
qed

text \<open>A failed run can pass the strict gate: when an analyzer fails on a changeset of which no file
  is claimed, the certificate is a grade F and an error is reported, but the outcome is that of an
  empty changeset, which is looked at before the grade, and the exit code is 0.\<close>

theorem failed_run_passes_empty_gate:
  "\<exists>cert. certify (\<lambda>b. b) (new_engine [broken_analyzer (Failed e)] None 0 None) None
       \<lparr>rc_enumerated = [], rc_ignored_by_policy = [], rc_dead_ignores = [], rc_root = [], rc_anchor = []\<rparr> []
       = (cert, Some (''engine: 1 analyzer(s) failed: [broken: '' @ e @ '']''))
     \<and> c_grade cert = GradeF \<and> exit_code (fst (apply_gate cert GradeA)) = 0"
proof -
  have u: "utoa (Suc 0) = ''1''" by code_simp
  show ?thesis
    by (simp add: certify_def new_engine_def broken_analyzer_def quiet_analyzer_def run_analyzers_def
        Let_def stamp_located_def apply_policy_def u conclude_def outcome_def supports_def paths_of_def
        score_of_def score_def apply_gate_def exit_code_def execute_def migration_directories_def enrich_def
        sort_findings_def)
qed

end
