(* ===== verification/Render_Sarif.thy ===== *)
theory Render_Sarif
  imports Render_Markdown Cli_Check
begin

text \<open>
  The certificate as a SARIF log, \<open>internal/render/sarif.go\<close>: the rules that fired, a result for every
  finding, suppressed for a waived one, and the verdict as properties of the run. The log is the value that
  is handed to \<open>json.Encoder\<close>; a struct with one field that only wraps another is left out.
\<close>

subsection \<open>The log\<close>

record sarif_rule =
  sr_id :: string
  sr_name :: string
  sr_short :: string
  sr_full :: string
  sr_level :: string
  sr_reversibility :: string
  sr_tags :: "string list"

record sarif_suppression =
  ss_kind :: string
  ss_justification :: string

record sarif_location =
  sl_uri :: string
  sl_start_line :: "int option"

record sarif_result =
  sx_rule_id :: string
  sx_level :: string
  sx_message :: string
  sx_locations :: "sarif_location list"
  sx_suppressions :: "sarif_suppression list"

record sarif_props =
  sp_grade :: string
  sp_effective_grade :: string
  sp_gate :: gate_status
  sp_outcome :: analysis_outcome
  sp_coverage :: coverage
  sp_unanalyzed :: nat
  sp_policy_ignored :: nat
  sp_applicable :: bool
  sp_input_digest :: string
  sp_policy_digest :: string
  sp_schema_version :: string

record sarif_log =
  sg_schema :: string
  sg_version :: string
  sg_tool_name :: string
  sg_tool_version :: string
  sg_tool_uri :: string
  sg_rules :: "sarif_rule list"
  sg_results :: "sarif_result list"
  sg_successful :: bool
  sg_exit_description :: string
  sg_props :: sarif_props

subsection \<open>Rules and results\<close>

fun sarif_level :: "reversibility \<Rightarrow> string" where
  "sarif_level Irreversible = ''error''"
| "sarif_level Unknown = ''error''"
| "sarif_level WillFail = ''error''"
| "sarif_level Costly = ''warning''"
| "sarif_level Reversible = ''note''"
| "sarif_level (Rev_other s) = ''note''"

definition short_description :: "finding \<Rightarrow> string" where
  "short_description f =
     rev_text (f_reversibility f) @ '' change with '' @ lock_text (f_lock f) @ '' lock hazard''"

definition base_sarif_message :: "finding \<Rightarrow> string" where
  "base_sarif_message f =
     (if f_undo f = [] then
        rev_text (f_reversibility f) @ '': '' @ f_rationale f @ '' No undo step exists for this change.''
      else rev_text (f_reversibility f) @ '': '' @ f_rationale f @ '' Undo: '' @ f_undo f)"

definition sarif_message :: "finding \<Rightarrow> string" where
  "sarif_message f =
     (case f_context f of
        Some cx \<Rightarrow>
          if x_context_note cx \<noteq> [] then base_sarif_message f @ '' In production: '' @ x_context_note cx
          else base_sarif_message f
      | None \<Rightarrow> base_sarif_message f)"

text \<open>The map from rule ids to the first finding of each, and its sorted keys.\<close>

fun first_findings :: "finding list \<Rightarrow> (string \<rightharpoonup> finding) \<Rightarrow> (string \<rightharpoonup> finding)" where
  "first_findings [] seen = seen"
| "first_findings (f # fs) seen =
     first_findings fs (if seen (f_rule_id f) = None then seen(f_rule_id f \<mapsto> f) else seen)"

definition sarif_rule_of :: "string \<Rightarrow> finding \<Rightarrow> sarif_rule" where
  "sarif_rule_of rid f =
     \<lparr>sr_id = rid, sr_name = rid, sr_short = short_description f, sr_full = f_rationale f,
      sr_level = sarif_level (f_reversibility f), sr_reversibility = rev_text (f_reversibility f),
      sr_tags = [''reversibility'', ''rollback'', rev_text (f_reversibility f)]\<rparr>"

definition sarif_rules :: "finding list \<Rightarrow> sarif_rule list" where
  "sarif_rules fs =
     (let seen = first_findings fs Map.empty in
      map (\<lambda>rid. sarif_rule_of rid (the (seen rid))) (sorted_keys (map f_rule_id fs)))"

definition sarif_result_of :: "finding \<Rightarrow> sarif_result" where
  "sarif_result_of f =
     \<lparr>sx_rule_id = f_rule_id f, sx_level = sarif_level (f_reversibility f), sx_message = sarif_message f,
      sx_locations =
        (if f_file f \<noteq> [] then
           [\<lparr>sl_uri = f_file f, sl_start_line = (if 0 < f_line f then Some (f_line f) else None)\<rparr>]
         else []),
      sx_suppressions = []\<rparr>"

definition sarif_results :: "finding list \<Rightarrow> sarif_result list" where
  "sarif_results fs = map sarif_result_of fs"

definition sarif_waived_results :: "waived_finding list \<Rightarrow> sarif_result list" where
  "sarif_waived_results ws =
     map2 (\<lambda>r w. r\<lparr>sx_suppressions := [\<lparr>ss_kind = ''external'',
         ss_justification = w_reason w @ '' (waiver expires '' @ w_expires w @ '')''\<rparr>]\<rparr>)
       (sarif_results (map w_finding ws)) ws"

definition sarif_exit_description :: "certificate \<Rightarrow> string" where
  "sarif_exit_description x =
     (let verdict = ''grade '' @ grade_text (c_grade x) @ '', AI merge gate '' @ gate_text (c_gate x) in
      case c_outcome x of
        OutcomeNoCandidates \<Rightarrow> ''not assessed: the changeset held nothing this engine analyzes''
      | OutcomeUnsupportedContent \<Rightarrow>
          ''not assessed: the changeset held files no analyzer supports; reversibility is unmeasured''
      | _ \<Rightarrow>
          if \<not> coverage_full (c_coverage x) then
            verdict @ '', partial coverage: '' @ utoa (length (c_unanalyzed x)) @ '' file(s) not analyzed''
          else verdict)"

definition render_sarif :: "certificate \<Rightarrow> sarif_log" where
  "render_sarif x =
     \<lparr>sg_schema =
        ''https://raw.githubusercontent.com/oasis-tcs/sarif-spec/master/Schemata/sarif-schema-2.1.0.json'',
      sg_version = ''2.1.0'', sg_tool_name = ''reversibility-engine'', sg_tool_version = schema_version,
      sg_tool_uri = ''https://github.com/VIKOIT/reversibility-engine'',
      sg_rules = sarif_rules (all_certificate_findings x),
      sg_results = sarif_results (c_findings x) @ sarif_waived_results (c_waived x),
      sg_successful = True, sg_exit_description = sarif_exit_description x,
      sg_props = \<lparr>sp_grade = grade_text (c_grade x), sp_effective_grade = grade_text (c_effective_grade x),
        sp_gate = c_gate x, sp_outcome = c_outcome x, sp_coverage = c_coverage x,
        sp_unanalyzed = length (c_unanalyzed x), sp_policy_ignored = length (c_ignored_by_policy x),
        sp_applicable = c_applicable x, sp_input_digest = c_input_digest x,
        sp_policy_digest = c_policy_digest x, sp_schema_version = c_schema_version x\<rparr>\<rparr>"

subsection \<open>Lemmas\<close>

lemma first_findings_find:
  "first_findings fs seen rid = (case seen rid of Some g \<Rightarrow> Some g | None \<Rightarrow> find (\<lambda>f. f_rule_id f = rid) fs)"
  by (induction fs arbitrary: seen) (auto split: option.splits)

lemma sarif_rules_ids: "map sr_id (sarif_rules fs) = sorted_keys (map f_rule_id fs)"
  by (simp add: sarif_rules_def sarif_rule_of_def Let_def comp_def)

lemma sarif_waived_map:
  "sarif_waived_results ws = map (\<lambda>w. (sarif_result_of (w_finding w))
     \<lparr>sx_suppressions := [\<lparr>ss_kind = ''external'',
         ss_justification = w_reason w @ '' (waiver expires '' @ w_expires w @ '')''\<rparr>]\<rparr>) ws"
  unfolding sarif_waived_results_def sarif_results_def by (induction ws) simp_all

lemma sarif_result_fields [simp]:
  "sx_rule_id (sarif_result_of f) = f_rule_id f" "sx_level (sarif_result_of f) = sarif_level (f_reversibility f)"
  "sx_suppressions (sarif_result_of f) = []"
  by (simp_all add: sarif_result_of_def)

lemma result_levels:
  "map sx_level (sg_results (render_sarif x)) = map (\<lambda>f. sarif_level (f_reversibility f)) (all_certificate_findings x)"
  by (simp add: render_sarif_def all_certificate_findings_def sarif_results_def sarif_waived_map comp_def)

lemma result_rules: "map sx_rule_id (sg_results (render_sarif x)) = map f_rule_id (all_certificate_findings x)"
  by (simp add: render_sarif_def all_certificate_findings_def sarif_results_def sarif_waived_map comp_def)

lemma decided_findings:
  assumes "apply_policy p fs today (Some loc) = Inr d"
  shows "set (n_findings d @ map w_finding (n_waived d)) = set (n_all d)"
proof (cases p)
  case None
  with assms show ?thesis by auto
next
  case (Some q)
  note d = apply_policy_Some [OF assms [unfolded Some]]
  from mset_eq_setD [OF d(3)] show ?thesis
    by (simp only: set_append set_filter d(2)) blast
qed

text \<open>What the grade says of every finding a certificate of \<open>certify\<close> carries.\<close>

lemma carried_findings:
  assumes "x = fst (certify sha e cancelled c given)"
  shows "\<forall>f\<in>set (all_certificate_findings x).
    (blocks f \<longrightarrow> c_grade x = GradeF) \<and> (c_gate x = GatePass \<longrightarrow> f_reversibility f = Reversible)"
proof (cases rule: certify_cases [of sha e cancelled c given])
  case 1
  then show ?thesis unfolding assms by (auto simp: failure_result_def)
next
  case (2 findings down errors decision digest version)
  let ?files = "stamp_located given (locator c)"
  obtain out bad where o: "outcome (supports e) ?files
      (if rc_enumerated c = [] then paths_of ?files else rc_enumerated c) (locator c) = (out, bad)"
    by (rule outcome_pair)
  have x: "x = conclude e c ?files digest version decision down errors"
    unfolding assms 2(3) by simp
  have "set (all_certificate_findings x) = set (n_all decision)"
    using decided_findings [OF 2(2)] unfolding x all_certificate_findings_def
    by (simp add: conclude_def Let_def o)
  moreover have "f \<in> set (n_all decision) \<Longrightarrow> blocks f \<Longrightarrow> c_grade x = GradeF" for f
    unfolding x conclude_fields(1) [OF o] score_of_def score_F by (auto simp: list_ex_iff blocks_def)
  moreover have "f \<in> set (n_all decision) \<Longrightarrow> c_gate x = GatePass \<Longrightarrow> f_reversibility f = Reversible" for f
    unfolding x conclude_fields(3) [OF o] score_of_def
    by (auto simp: gate_pass_iff score_A list_all_iff clean_finding_def)
  ultimately show ?thesis by simp
qed

subsection \<open>Properties\<close>

text \<open>C32. A log is well formed: it declares every rule once, sorted, those its results name and no other; it has
  a result for every finding, in order and at the level its reversibility has, and the suppressed ones are
  those a waiver accepted.\<close>

theorem sarif_log_well_formed:
  "sorted (map sr_id (sg_rules (render_sarif x))) \<and> distinct (map sr_id (sg_rules (render_sarif x)))
   \<and> set (map sr_id (sg_rules (render_sarif x))) = set (map sx_rule_id (sg_results (render_sarif x)))
   \<and> map sx_rule_id (sg_results (render_sarif x)) = map f_rule_id (all_certificate_findings x)
   \<and> map sx_level (sg_results (render_sarif x))
       = map (\<lambda>f. sarif_level (f_reversibility f)) (all_certificate_findings x)
   \<and> map (\<lambda>r. sx_suppressions r \<noteq> []) (sg_results (render_sarif x))
       = replicate (length (c_findings x)) False @ replicate (length (c_waived x)) True"
proof -
  have rules: "map sr_id (sg_rules (render_sarif x)) = sorted_keys (map f_rule_id (all_certificate_findings x))"
    by (simp add: render_sarif_def sarif_rules_ids)
  have "map (\<lambda>r. sx_suppressions r \<noteq> []) (sg_results (render_sarif x))
      = map (\<lambda>f. False) (c_findings x) @ map (\<lambda>w. True) (c_waived x)"
    by (simp add: render_sarif_def sarif_results_def sarif_waived_map comp_def)
  then show ?thesis
    unfolding rules result_rules result_levels by (simp add: map_replicate_const)
qed

text \<open>The log and the verdict agree: a result of level \<open>error\<close>, suppressed or not, stands only in the log of
  a change that grades F, and the log of a change whose gate passes holds nothing but notes.\<close>

theorem sarif_levels_agree:
  assumes "x = fst (certify sha e cancelled c given)"
  shows "(\<forall>r\<in>set (sg_results (render_sarif x)). sx_level r = ''error'' \<longrightarrow> c_grade x = GradeF)
    \<and> (c_gate x = GatePass \<longrightarrow> (\<forall>r\<in>set (sg_results (render_sarif x)). sx_level r = ''note''))"
proof -
  have "\<exists>f\<in>set (all_certificate_findings x). sx_level r = sarif_level (f_reversibility f)"
    if "r \<in> set (sg_results (render_sarif x))" for r
  proof -
    from that have "sx_level r \<in> set (map sx_level (sg_results (render_sarif x)))" by simp
    then show ?thesis unfolding result_levels by auto
  qed
  moreover have "sarif_level r = ''error'' \<Longrightarrow> r \<in> {Irreversible, Unknown, WillFail}" for r
    by (cases r) simp_all
  ultimately show ?thesis
    using carried_findings [OF assms] by (fastforce simp: blocks_def)
qed

theorem sarif_levels_agree_witness:
  "c_grade forged_run = GradeF \<or> (\<forall>r\<in>set (sg_results (render_sarif forged_run)). sx_level r \<noteq> ''error'')"
  using sarif_levels_agree [OF forged_run_def] by blast

end
