(* ===== verification/Statement_Text.thy ===== *)
theory Statement_Text
  imports Domain
begin

text \<open>
  The text of a statement as a finding carries it, \<open>NormalizeStatement\<close> of
  \<open>internal/analyzer/analyzer.go\<close>. Go ranges over a string by rune, so the decoding and encoding of UTF-8
  of its standard library are here: a byte that starts no valid sequence is the replacement rune and is
  one byte wide. The specification is that the result depends on the words of the text alone.
\<close>

subsection \<open>Runes\<close>

definition rune_error :: int where "rune_error = 0xFFFD"

definition continuation :: "int \<Rightarrow> bool" where
  "continuation b \<longleftrightarrow> 0x80 \<le> b \<and> b \<le> 0xBF"

definition second_of_three :: "int \<Rightarrow> int \<Rightarrow> bool" where
  "second_of_three b0 b1 \<longleftrightarrow>
     (if b0 = 0xE0 then 0xA0 \<le> b1 else 0x80 \<le> b1) \<and> (if b0 = 0xED then b1 \<le> 0x9F else b1 \<le> 0xBF)"

definition second_of_four :: "int \<Rightarrow> int \<Rightarrow> bool" where
  "second_of_four b0 b1 \<longleftrightarrow>
     (if b0 = 0xF0 then 0x90 \<le> b1 else 0x80 \<le> b1) \<and> (if b0 = 0xF4 then b1 \<le> 0x8F else b1 \<le> 0xBF)"

text \<open>The rune at the start of a nonempty text, with what follows it.\<close>

definition decode_rune :: "int \<Rightarrow> int list \<Rightarrow> int \<times> int list" where
  "decode_rune b0 bs =
     (if b0 < 0x80 then (b0, bs)
      else if 0xC2 \<le> b0 \<and> b0 \<le> 0xDF then
        (case bs of
           b1 # rest \<Rightarrow>
             if continuation b1 then ((b0 - 0xC0) * 64 + (b1 - 0x80), rest) else (rune_error, bs)
         | _ \<Rightarrow> (rune_error, bs))
      else if 0xE0 \<le> b0 \<and> b0 \<le> 0xEF then
        (case bs of
           b1 # b2 # rest \<Rightarrow>
             if second_of_three b0 b1 \<and> continuation b2
             then ((b0 - 0xE0) * 4096 + (b1 - 0x80) * 64 + (b2 - 0x80), rest) else (rune_error, bs)
         | _ \<Rightarrow> (rune_error, bs))
      else if 0xF0 \<le> b0 \<and> b0 \<le> 0xF4 then
        (case bs of
           b1 # b2 # b3 # rest \<Rightarrow>
             if second_of_four b0 b1 \<and> continuation b2 \<and> continuation b3
             then ((b0 - 0xF0) * 262144 + (b1 - 0x80) * 4096 + (b2 - 0x80) * 64 + (b3 - 0x80), rest)
             else (rune_error, bs)
         | _ \<Rightarrow> (rune_error, bs))
      else (rune_error, bs))"

lemma decode_rune_shorter: "length (snd (decode_rune b bs)) \<le> length bs"
  by (auto simp: decode_rune_def split: if_splits list.splits)

function decode_runes :: "int list \<Rightarrow> int list" where
  "decode_runes [] = []"
| "decode_runes (b # bs) = fst (decode_rune b bs) # decode_runes (snd (decode_rune b bs))"
  by pat_completeness auto

termination
  by (relation "measure length") (auto simp: le_imp_less_Suc decode_rune_shorter)

definition valid_rune :: "int \<Rightarrow> bool" where
  "valid_rune r \<longleftrightarrow> 0 \<le> r \<and> r < 0x110000 \<and> \<not> (0xD800 \<le> r \<and> r < 0xE000)"

definition encode_rune :: "int \<Rightarrow> int list" where
  "encode_rune r0 =
     (let r = (if valid_rune r0 then r0 else rune_error) in
      if r < 0x80 then [r]
      else if r < 0x800 then [0xC0 + r div 64, 0x80 + r mod 64]
      else if r < 0x10000 then [0xE0 + r div 4096, 0x80 + r div 64 mod 64, 0x80 + r mod 64]
      else [0xF0 + r div 262144, 0x80 + r div 4096 mod 64, 0x80 + r div 64 mod 64, 0x80 + r mod 64])"

definition bytes_of :: "string \<Rightarrow> int list" where "bytes_of s = map of_char s"

definition string_of :: "int list \<Rightarrow> string" where "string_of bs = map char_of bs"

definition runes :: "string \<Rightarrow> int list" where "runes s = decode_runes (bytes_of s)"

definition from_runes :: "int list \<Rightarrow> string" where
  "from_runes rs = string_of (concat (map encode_rune rs))"

definition is_space_rune :: "int \<Rightarrow> bool" where
  "is_space_rune r \<longleftrightarrow>
     9 \<le> r \<and> r \<le> 13 \<or> r = 32 \<or> r = 0x85 \<or> r = 0xA0 \<or> r = 0x1680 \<or> 0x2000 \<le> r \<and> r \<le> 0x200A
     \<or> r = 0x2028 \<or> r = 0x2029 \<or> r = 0x202F \<or> r = 0x205F \<or> r = 0x3000"

subsection \<open>Normalising\<close>

fun collapse_spaces :: "bool \<Rightarrow> int list \<Rightarrow> int list \<Rightarrow> int list" where
  "collapse_spaces space out [] = out"
| "collapse_spaces space out (r # rs) =
     (if is_space_rune r then collapse_spaces True out rs
      else if space \<and> out \<noteq> [] then collapse_spaces False (out @ [32, r]) rs
      else collapse_spaces False (out @ [r]) rs)"

definition ellipsis :: string where "ellipsis = ''...''"

definition normalize_statement :: "string \<Rightarrow> string" where
  "normalize_statement s =
     (let out = from_runes (collapse_spaces False [] (runes s)); rs = runes out in
      if length rs \<le> max_statement_length then out
      else from_runes (take (max_statement_length - length ellipsis) rs) @ ellipsis)"

subsection \<open>Decoding what was encoded\<close>

lemma decode_encode_rune:
  assumes "valid_rune r"
  shows "\<exists>b bs. encode_rune r = b # bs \<and> decode_rune b (bs @ rest) = (r, rest)"
proof -
  have split2: "r = r div 64 * 64 + r mod 64" by simp
  have "r div 4096 = r div 64 div 64" using zdiv_zmult2_eq [of 64 r 64] by simp
  then have split3: "r div 64 = r div 4096 * 64 + r div 64 mod 64" by simp
  have "r div 262144 = r div 4096 div 64" using zdiv_zmult2_eq [of 64 r 4096] by simp
  then have split4: "r div 4096 = r div 262144 * 64 + r div 4096 mod 64" by simp
  note v = assms [unfolded valid_rune_def]
  consider "r < 0x80" | "0x80 \<le> r" "r < 0x800" | "0x800 \<le> r" "r < 0x10000" | "0x10000 \<le> r"
    by linarith
  then show ?thesis
  proof cases
    case 1
    then show ?thesis using assms by (simp add: encode_rune_def decode_rune_def)
  next
    case 2
    define q where "q = r div 64"
    define m where "m = r mod 64"
    have r: "r = q * 64 + m" and b: "0 \<le> m" "m < 64" by (simp_all add: q_def m_def)
    with 2 have q: "2 \<le> q" "q < 32" by linarith+
    have "encode_rune r = [0xC0 + q, 0x80 + m]"
      using 2 assms by (simp add: encode_rune_def q_def m_def)
    moreover have "decode_rune (0xC0 + q) ((0x80 + m) # rest) = (r, rest)"
      using b q by (simp add: decode_rune_def continuation_def r)
    ultimately show ?thesis by simp
  next
    case 3
    define p where "p = r div 4096"
    define q where "q = r div 64 mod 64"
    define m where "m = r mod 64"
    have r: "r = p * 4096 + q * 64 + m"
      unfolding p_def q_def m_def using split2 split3 by linarith
    have b: "0 \<le> m" "m < 64" "0 \<le> q" "q < 64" by (simp_all add: q_def m_def)
    with 3 r have p: "0 \<le> p" "p < 16" by linarith+
    have "encode_rune r = [0xE0 + p, 0x80 + q, 0x80 + m]"
      using 3 assms by (simp add: encode_rune_def p_def q_def m_def)
    moreover have low: "32 \<le> q" if "p = 0" using that 3 r b by linarith
    have high: "q < 32" if "p = 13" using that v 3 r b by linarith
    have "second_of_three (0xE0 + p) (0x80 + q)"
      using b low high by (auto simp: second_of_three_def)
    then have "decode_rune (0xE0 + p) ((0x80 + q) # (0x80 + m) # rest) = (r, rest)"
      using b p by (simp add: decode_rune_def continuation_def r)
    ultimately show ?thesis by simp
  next
    case 4
    define n where "n = r div 262144"
    define p where "p = r div 4096 mod 64"
    define q where "q = r div 64 mod 64"
    define m where "m = r mod 64"
    have r: "r = n * 262144 + p * 4096 + q * 64 + m"
      unfolding n_def p_def q_def m_def using split2 split3 split4 by linarith
    have b: "0 \<le> m" "m < 64" "0 \<le> q" "q < 64" "0 \<le> p" "p < 64"
      by (simp_all add: p_def q_def m_def)
    with 4 v r have n: "0 \<le> n" "n < 5" by linarith+
    have "encode_rune r = [0xF0 + n, 0x80 + p, 0x80 + q, 0x80 + m]"
      using 4 assms by (simp add: encode_rune_def n_def p_def q_def m_def)
    moreover have low: "16 \<le> p" if "n = 0" using that 4 r b by linarith
    have high: "p < 16" if "n = 4" using that v 4 r b by linarith
    have "second_of_four (0xF0 + n) (0x80 + p)"
      using b low high by (auto simp: second_of_four_def)
    then have "decode_rune (0xF0 + n) ((0x80 + p) # (0x80 + q) # (0x80 + m) # rest) = (r, rest)"
      using b n by (simp add: decode_rune_def continuation_def r)
    ultimately show ?thesis by simp
  qed
qed

lemma decode_encode: "list_all valid_rune rs \<Longrightarrow> decode_runes (concat (map encode_rune rs)) = rs"
proof (induction rs)
  case (Cons r rs)
  then obtain b bs where "encode_rune r = b # bs"
    and "decode_rune b (bs @ concat (map encode_rune rs)) = (r, concat (map encode_rune rs))"
    using decode_encode_rune [of r "concat (map encode_rune rs)"] by auto
  with Cons show ?case by simp
qed simp

lemma decode_rune_valid:
  assumes "0 \<le> b" "b < 256"
  shows "valid_rune (fst (decode_rune b bs))"
proof -
  have err: "valid_rune rune_error" by (simp add: valid_rune_def rune_error_def)
  consider "b < 0x80" | "0xC2 \<le> b" "b \<le> 0xDF" | "0xE0 \<le> b" "b \<le> 0xEF" | "0xF0 \<le> b" "b \<le> 0xF4"
    | "\<not> b < 0x80" "\<not> (0xC2 \<le> b \<and> b \<le> 0xDF)" "\<not> (0xE0 \<le> b \<and> b \<le> 0xEF)" "\<not> (0xF0 \<le> b \<and> b \<le> 0xF4)"
    by linarith
  then show ?thesis
  proof cases
    case 1
    then show ?thesis using assms by (simp add: decode_rune_def valid_rune_def)
  next
    case 2
    have "valid_rune ((b - 0xC0) * 64 + (b1 - 0x80))" if "continuation b1" for b1
      using 2 that by (simp add: continuation_def valid_rune_def)
    with 2 err show ?thesis by (simp add: decode_rune_def split: list.split)
  next
    case 3
    have "valid_rune ((b - 0xE0) * 4096 + (b1 - 0x80) * 64 + (b2 - 0x80))"
      if "second_of_three b b1" "continuation b2" for b1 b2
      using 3 that by (cases "b = 0xED") (auto simp: continuation_def second_of_three_def valid_rune_def split: if_splits)
    with 3 err show ?thesis by (simp add: decode_rune_def split: list.split)
  next
    case 4
    have "valid_rune ((b - 0xF0) * 262144 + (b1 - 0x80) * 4096 + (b2 - 0x80) * 64 + (b3 - 0x80))"
      if "second_of_four b b1" "continuation b2" "continuation b3" for b1 b2 b3
      using 4 that
      by (cases "b = 0xF0"; cases "b = 0xF4") (auto simp: continuation_def second_of_four_def valid_rune_def)
    with 4 err show ?thesis by (simp add: decode_rune_def split: list.split)
  next
    case 5
    then have "decode_rune b bs = (rune_error, bs)" unfolding decode_rune_def by (simp only: if_False)
    with err show ?thesis by simp
  qed
qed

lemma decode_rune_rest: "set (snd (decode_rune b bs)) \<subseteq> set bs"
  by (auto simp: decode_rune_def split: if_splits list.splits)

lemma decode_runes_valid: "list_all (\<lambda>b. 0 \<le> b \<and> b < 256) bs \<Longrightarrow> list_all valid_rune (decode_runes bs)"
proof (induction bs rule: decode_runes.induct)
  case (2 b bs)
  then have "list_all (\<lambda>b. 0 \<le> b \<and> b < 256) (snd (decode_rune b bs))"
    using decode_rune_rest [of b bs] by (auto simp: list_all_iff)
  with 2 show ?case by (simp add: decode_rune_valid)
qed simp

lemma runes_valid: "list_all valid_rune (runes s)"
proof -
  have "0 \<le> (of_char c :: int) \<and> (of_char c :: int) < 256" for c
    using of_char_mod_256 [of c, where 'a = int] by (metis pos_mod_bound pos_mod_sign zero_less_numeral)
  then show ?thesis
    unfolding runes_def by (intro decode_runes_valid) (simp add: bytes_of_def list_all_iff)
qed

lemma encode_rune_bytes: "b \<in> set (encode_rune r) \<Longrightarrow> 0 \<le> b \<and> b < 256"
  by (auto simp: encode_rune_def valid_rune_def rune_error_def Let_def split: if_splits)

lemma bytes_string: "(\<And>b. b \<in> set bs \<Longrightarrow> 0 \<le> b \<and> b < 256) \<Longrightarrow> bytes_of (string_of bs) = bs"
  by (induction bs) (simp_all add: bytes_of_def string_of_def)

lemma runes_from_runes [simp]: "list_all valid_rune rs \<Longrightarrow> runes (from_runes rs) = rs"
proof -
  assume v: "list_all valid_rune rs"
  have "bytes_of (string_of (concat (map encode_rune rs))) = concat (map encode_rune rs)"
    by (rule bytes_string) (auto dest: encode_rune_bytes)
  with v show ?thesis by (simp add: runes_def from_runes_def decode_encode)
qed

subsection \<open>Words\<close>

fun split_words :: "int list \<Rightarrow> int list \<Rightarrow> int list list" where
  "split_words cur [] = (if cur = [] then [] else [cur])"
| "split_words cur (r # rs) =
     (if is_space_rune r then (if cur = [] then split_words [] rs else cur # split_words [] rs)
      else split_words (cur @ [r]) rs)"

definition words_of :: "int list \<Rightarrow> int list list" where "words_of rs = split_words [] rs"

fun spaced :: "int list list \<Rightarrow> int list" where
  "spaced [] = []"
| "spaced [w] = w"
| "spaced (w # ws) = w @ [32] @ spaced ws"

text \<open>The specification: the words with one space between them, cut to 200 runes with the marker.\<close>

definition shorten :: "int list \<Rightarrow> int list" where
  "shorten rs = (if length rs \<le> 200 then rs else take 197 rs @ [46, 46, 46])"

lemma split_words_cur: "cur \<noteq> [] \<Longrightarrow> split_words cur rs \<noteq> []"
  by (induction cur rs rule: split_words.induct) auto

lemma spaced_Cons: "ws \<noteq> [] \<Longrightarrow> spaced (w # ws) = w @ [32] @ spaced ws"
  by (cases ws) simp_all

lemma collapse_words:
  "cur \<noteq> [] \<Longrightarrow> collapse_spaces False (pre @ cur) rs = pre @ spaced (split_words cur rs)"
  "out \<noteq> [] \<Longrightarrow> collapse_spaces True out rs
     = (if words_of rs = [] then out else out @ [32] @ spaced (words_of rs))"
  "collapse_spaces b [] rs = spaced (words_of rs)"
proof (induction rs arbitrary: pre cur out b)
  case (Cons r rs)
  {
    case 1
    then show ?case
      using Cons.IH(1) [of "cur @ [r]" pre] Cons.IH(2) [of "pre @ cur"]
      by (auto simp: words_of_def spaced_Cons)
  next
    case 2
    then show ?case
      using Cons.IH(1) [of "[r]" "out @ [32]"] Cons.IH(2) [OF 2] split_words_cur [of "[r]" rs]
      by (simp add: words_of_def)
  next
    case 3
    show ?case
      using Cons.IH(1) [of "[r]" "[]"] Cons.IH(3) by (simp add: words_of_def)
  }
qed (simp_all add: words_of_def)

lemma collapse_spec: "collapse_spaces False [] rs = spaced (words_of rs)"
  by (rule collapse_words(3))

lemma split_words_runes: "ws = split_words cur rs \<Longrightarrow> set (concat ws) \<subseteq> set cur \<union> set rs"
  by (induction cur rs arbitrary: ws rule: split_words.induct) (auto split: if_splits)

lemma set_spaced: "set (spaced ws) \<subseteq> insert 32 (set (concat ws))"
  by (induction ws rule: spaced.induct) auto

lemma spaced_valid: "list_all valid_rune rs \<Longrightarrow> list_all valid_rune (spaced (words_of rs))"
  using split_words_runes [OF refl, of "[]" rs] set_spaced [of "words_of rs"]
  by (fastforce simp: list_all_iff words_of_def valid_rune_def)

lemma list_all_take: "list_all P xs \<Longrightarrow> list_all P (take n xs)"
  by (auto simp: list_all_iff dest: in_set_takeD)

lemma shorten_valid: "list_all valid_rune rs \<Longrightarrow> list_all valid_rune (shorten rs)"
  by (simp add: shorten_def list_all_take valid_rune_def)

lemma from_runes_append: "from_runes (xs @ ys) = from_runes xs @ from_runes ys"
  by (simp add: from_runes_def string_of_def)

lemma normalize_spec: "normalize_statement s = from_runes (shorten (spaced (words_of (runes s))))"
proof -
  have v: "list_all valid_rune (spaced (words_of (runes s)))" by (intro spaced_valid runes_valid)
  have "from_runes [46, 46, 46] = ellipsis" by code_simp
  with v show ?thesis
    by (simp add: normalize_statement_def collapse_spec shorten_def from_runes_append max_statement_length_def
        ellipsis_def)
qed

subsection \<open>Normal forms\<close>

text \<open>A text is tidy when every space in it is a single blank after a word; \<open>p\<close> says whether a word
  has just ended.\<close>

fun tidy :: "bool \<Rightarrow> int list \<Rightarrow> bool" where
  "tidy p [] = True"
| "tidy p (r # rs) = (if is_space_rune r then p \<and> r = 32 \<and> tidy False rs else tidy True rs)"

lemma blank_space [simp]: "is_space_rune 32" "\<not> is_space_rune 46"
  by (simp_all add: is_space_rune_def)

lemma tidy_collapse:
  assumes "\<not> is_space_rune c"
  shows "tidy True rs \<Longrightarrow> out \<noteq> [] \<Longrightarrow> collapse_spaces False out (rs @ [c]) = out @ rs @ [c]"
    and "tidy False rs \<Longrightarrow> out \<noteq> [] \<Longrightarrow> collapse_spaces True out (rs @ [c]) = out @ [32] @ rs @ [c]"
    and "tidy False rs \<Longrightarrow> collapse_spaces False [] (rs @ [c]) = rs @ [c]"
  using assms by (induction rs arbitrary: out) (auto split: if_splits)

lemma tidy_take: "tidy p rs \<Longrightarrow> tidy p (take n rs)"
  by (induction p rs arbitrary: n rule: tidy.induct) (auto simp: take_Cons split: nat.split if_splits)

lemma tidy_append: "tidy p rs \<Longrightarrow> list_all (\<lambda>r. \<not> is_space_rune r) ys \<Longrightarrow> tidy p (rs @ ys)"
proof (induction p rs rule: tidy.induct)
  case (1 p)
  then show ?case by (induction ys arbitrary: p) auto
qed (auto split: if_splits)

lemma tidy_word:
  "list_all (\<lambda>r. \<not> is_space_rune r) w \<Longrightarrow> w \<noteq> [] \<Longrightarrow> tidy p (w @ rs) = tidy True rs"
proof (induction w arbitrary: p)
  case (Cons a w)
  then show ?case by (cases "w = []") simp_all
qed simp

definition word :: "int list \<Rightarrow> bool" where
  "word w \<longleftrightarrow> w \<noteq> [] \<and> list_all (\<lambda>r. \<not> is_space_rune r) w"

lemma split_words_word:
  "list_all (\<lambda>r. \<not> is_space_rune r) cur \<Longrightarrow> list_all word (split_words cur rs)"
  by (induction cur rs rule: split_words.induct) (auto simp: word_def)

lemma tidy_spaced: "list_all word ws \<Longrightarrow> tidy False (spaced ws)"
proof (induction ws rule: spaced.induct)
  case (2 w)
  then show ?case using tidy_word [of w False "[]"] by (simp add: word_def)
next
  case (3 w v ws)
  then show ?case using tidy_word [of w False "32 # spaced (v # ws)"] by (simp add: word_def)
qed simp

lemma last_spaced: "list_all word ws \<Longrightarrow> ws \<noteq> [] \<Longrightarrow> spaced ws \<noteq> [] \<and> \<not> is_space_rune (last (spaced ws))"
  by (induction ws rule: spaced.induct) (auto simp: word_def list_all_iff)

lemma collapse_shortened:
  assumes "list_all word ws"
  shows "collapse_spaces False [] (shorten (spaced ws)) = shorten (spaced ws)"
proof (cases "length (spaced ws) \<le> 200")
  case short: True
  show ?thesis
  proof (cases "ws = []")
    case False
    with last_spaced [OF assms] have t: "spaced ws = butlast (spaced ws) @ [last (spaced ws)]"
      and "\<not> is_space_rune (last (spaced ws))" by simp_all
    moreover have "tidy False (butlast (spaced ws))"
      using tidy_take [OF tidy_spaced [OF assms]] by (simp add: butlast_conv_take)
    ultimately have "collapse_spaces False [] (spaced ws) = spaced ws"
      using tidy_collapse(3) by metis
    with short show ?thesis by (simp add: shorten_def)
  qed (simp add: shorten_def)
next
  case False
  have "tidy False (take 197 (spaced ws) @ [46, 46])"
    by (intro tidy_append tidy_take tidy_spaced assms) simp
  then have "collapse_spaces False [] ((take 197 (spaced ws) @ [46, 46]) @ [46]) = (take 197 (spaced ws) @ [46, 46]) @ [46]"
    by (rule tidy_collapse(3) [rotated]) simp
  with False show ?thesis by (simp add: shorten_def)
qed

lemma shorten_shorten: "shorten (shorten rs) = shorten rs"
  by (simp add: shorten_def)

lemma length_shorten: "length (shorten rs) \<le> 200"
  by (simp add: shorten_def)

subsection \<open>Properties\<close>

text \<open>The text of a statement depends on its words alone: it is the words, separated by one blank,
  cut to 200 runes with the marker inside the bound. Two statements that differ in layout have the same
  text.\<close>

theorem normalize_is_the_words:
  "normalize_statement s = from_runes (shorten (spaced (words_of (runes s))))"
  by (rule normalize_spec)

text \<open>C15. The text is a normal form of at most 200 runes: its UTF-8 decodes to valid runes even when the
  statement's did not, and normalising it again changes nothing.\<close>

theorem normalize_is_canonical:
  "length (runes (normalize_statement s)) \<le> max_statement_length
   \<and> from_runes (runes (normalize_statement s)) = normalize_statement s
   \<and> normalize_statement (normalize_statement s) = normalize_statement s"
proof -
  let ?t = "shorten (spaced (words_of (runes s)))"
  have v: "list_all valid_rune ?t" by (intro shorten_valid spaced_valid runes_valid)
  then have r: "runes (normalize_statement s) = ?t" by (simp add: normalize_spec)
  have "list_all word (words_of (runes s))" by (simp add: words_of_def split_words_word)
  then have "spaced (words_of ?t) = ?t" by (simp only: collapse_shortened collapse_spec [symmetric, of ?t])
  then have "normalize_statement (normalize_statement s) = from_runes (shorten ?t)"
    unfolding normalize_spec [of "normalize_statement s"] r by simp
  with v show ?thesis
    by (simp add: length_shorten max_statement_length_def shorten_shorten normalize_spec [of s])
qed

end
