(* ===== verification/Go_Decimal.thy ===== *)
theory Go_Decimal
  imports Prelude
begin

text \<open>
  The decimal digits that \<open>strconv.Itoa\<close> writes, read back: the digits of a number are digits, and their
  value is the number. The parsers of the program that read numbers use these.
\<close>

definition is_digit :: "char \<Rightarrow> bool" where
  "is_digit c \<longleftrightarrow> 48 \<le> (of_char c :: int) \<and> (of_char c :: int) \<le> 57"

definition decimal :: "string \<Rightarrow> int" where
  "decimal s = foldl (\<lambda>n c. n * 10 + (of_char c - 48)) 0 s"

lemma is_digit_char: "0 \<le> n \<Longrightarrow> n < (10 :: int) \<Longrightarrow> is_digit (char_of (48 + n))"
  by (simp add: is_digit_def of_char_of)

lemma digits_digits: "0 \<le> n \<Longrightarrow> list_all is_digit (digits n)"
proof (induction n rule: digits.induct)
  case (1 n)
  show ?case
  proof (cases "n < 10")
    case True
    with "1.prems" show ?thesis by (subst digits.simps) (simp add: is_digit_char)
  next
    case False
    with 1 have "list_all is_digit (digits (n div 10))" by (simp add: pos_imp_zdiv_nonneg_iff)
    moreover have "is_digit (char_of (48 + n mod 10))" by (rule is_digit_char) simp_all
    ultimately show ?thesis using False by (subst digits.simps) simp
  qed
qed

lemma digits_no_sign: "0 \<le> n \<Longrightarrow> digits n = c # r \<Longrightarrow> c \<noteq> CHR ''-'' \<and> c \<noteq> CHR ''+''"
  using digits_digits [of n] by (auto simp: is_digit_def)

lemma of_char_digit: "0 \<le> n \<Longrightarrow> n < 10 \<Longrightarrow> (of_char (char_of (48 + n) :: char) :: int) - 48 = n"
  by (simp add: of_char_of)

lemma decimal_digits: "0 \<le> n \<Longrightarrow> decimal (digits n) = n"
proof (induction n rule: digits.induct)
  case (1 n)
  show ?case
  proof (cases "n < 10")
    case True
    with 1 show ?thesis by (subst digits.simps) (simp add: decimal_def of_char_digit)
  next
    case False
    with 1 have "decimal (digits (n div 10)) = n div 10" by simp
    then have "decimal (digits (n div 10) @ [char_of (48 + n mod 10)]) = n div 10 * 10 + n mod 10"
      using of_char_digit [of "n mod 10"] by (simp add: decimal_def)
    with False show ?thesis
      by (subst digits.simps) simp
  qed
qed

end
