(* ===== verification/Go_Marshal.thy ===== *)
theory Go_Marshal
  imports Statement_Text Go_Decimal
begin

text \<open>
  \<open>encoding/json\<close> as the program writes with it: an \<open>Encoder\<close> with an indent and with the escaping of HTML
  that is its default. A value is a tree of integers, texts, lists and objects, whose members stand in the
  order of the fields of the struct. A reader of JSON is the specification: tokens, and a machine with a
  stack that accepts exactly one value. What is read from what was written is the tree, with every byte
  of a text that is not UTF-8 replaced. The reader rejects escapes of surrogates, which are never written.
\<close>

subsection \<open>Writing\<close>

datatype wire =
  W_null | W_bool bool | W_int int | W_str string | W_list "wire list" | W_obj "(string \<times> wire) list"

definition quote_mark :: char where "quote_mark = CHR 0x22"

definition back_slash :: char where "back_slash = CHR 0x5C"

definition byte_escape :: "int \<Rightarrow> string" where
  "byte_escape b = back_slash # ''u00'' @ hex_encode [char_of b]"

text \<open>A byte of ASCII.\<close>

definition escape_ascii :: "int \<Rightarrow> string" where
  "escape_ascii b =
     (if b = 0x22 \<or> b = 0x5C then [back_slash, char_of b]
      else if b = 0x08 then [back_slash, CHR ''b'']
      else if b = 0x0C then [back_slash, CHR ''f'']
      else if b = 0x0A then [back_slash, CHR ''n'']
      else if b = 0x0D then [back_slash, CHR ''r'']
      else if b = 0x09 then [back_slash, CHR ''t'']
      else if b < 0x20 \<or> b = 0x3C \<or> b = 0x3E \<or> b = 0x26 then byte_escape b
      else [char_of b])"

text \<open>A rune that was decoded from more than one byte, with those bytes.\<close>

definition escape_rune :: "int \<Rightarrow> int list \<Rightarrow> string" where
  "escape_rune r consumed =
     (if r = 0x2028 then back_slash # ''u2028''
      else if r = 0x2029 then back_slash # ''u2029''
      else string_of consumed)"

definition consumed :: "int \<Rightarrow> int list \<Rightarrow> int list" where
  "consumed b bs = take (length (b # bs) - length (snd (decode_rune b bs))) (b # bs)"

definition ill_formed :: "int \<Rightarrow> int list \<Rightarrow> bool" where
  "ill_formed b bs \<longleftrightarrow> decode_rune b bs = (rune_error, bs)"

function escape_bytes :: "int list \<Rightarrow> string" where
  "escape_bytes [] = []"
| "escape_bytes (b # bs) =
     (if b < 0x80 then escape_ascii b @ escape_bytes bs
      else if ill_formed b bs then (back_slash # ''ufffd'') @ escape_bytes bs
      else escape_rune (fst (decode_rune b bs)) (consumed b bs) @ escape_bytes (snd (decode_rune b bs)))"
  by pat_completeness auto

termination
  by (relation "measure length") (auto simp: le_imp_less_Suc decode_rune_shorter)

definition write_string :: "string \<Rightarrow> string" where
  "write_string s = quote_mark # escape_bytes (bytes_of s) @ [quote_mark]"

definition fresh_line :: "nat \<Rightarrow> string" where
  "fresh_line k = newline @ concat (replicate k ''  '')"

fun write_value :: "nat \<Rightarrow> wire \<Rightarrow> string" where
  "write_value k W_null = ''null''"
| "write_value k (W_bool b) = (if b then ''true'' else ''false'')"
| "write_value k (W_int i) = itoa i"
| "write_value k (W_str s) = write_string s"
| "write_value k (W_list vs) =
     (if vs = [] then ''[]''
      else ''['' @ join '','' (map (\<lambda>v. fresh_line (Suc k) @ write_value (Suc k) v) vs) @ fresh_line k @ '']'')"
| "write_value k (W_obj ms) =
     (if ms = [] then ''{}''
      else ''{'' @ join '','' (map (\<lambda>m. fresh_line (Suc k) @ write_string (fst m) @ '': '' @ write_value (Suc k) (snd m)) ms)
        @ fresh_line k @ ''}'')"

definition encode_json :: "wire \<Rightarrow> string" where
  "encode_json v = write_value 0 v @ newline"

subsection \<open>Reading: tokens\<close>

datatype token =
    T_lbrace | T_rbrace | T_lbrack | T_rbrack | T_colon | T_comma | T_null | T_bool bool
  | T_int int | T_str string

definition hex_value :: "char \<Rightarrow> int option" where
  "hex_value c =
     (let n = (of_char c :: int) in
      if 48 \<le> n \<and> n \<le> 57 then Some (n - 48)
      else if 97 \<le> n \<and> n \<le> 102 then Some (n - 87)
      else if 65 \<le> n \<and> n \<le> 70 then Some (n - 55)
      else None)"

definition unicode_escape :: "char \<Rightarrow> char \<Rightarrow> char \<Rightarrow> char \<Rightarrow> string option" where
  "unicode_escape a b c d =
     (case (hex_value a, hex_value b, hex_value c, hex_value d) of
        (Some x, Some y, Some z, Some w) \<Rightarrow>
          (let r = x * 4096 + y * 256 + z * 16 + w in
           if valid_rune r then Some (string_of (encode_rune r)) else None)
      | _ \<Rightarrow> None)"

definition simple_escape :: "char \<Rightarrow> char option" where
  "simple_escape c =
     (if c = quote_mark \<or> c = back_slash \<or> c = CHR ''/'' then Some c
      else if c = CHR ''b'' then Some (CHR 0x08)
      else if c = CHR ''f'' then Some (CHR 0x0C)
      else if c = CHR ''n'' then Some (CHR 0x0A)
      else if c = CHR ''r'' then Some (CHR 0x0D)
      else if c = CHR ''t'' then Some (CHR 0x09)
      else None)"

definition prepend :: "string \<Rightarrow> (string \<times> string) option \<Rightarrow> (string \<times> string) option" where
  "prepend t r = map_option (\<lambda>(u, rest). (t @ u, rest)) r"

text \<open>The rest of a text in quotes, with what follows it.\<close>

fun scan_string :: "string \<Rightarrow> (string \<times> string) option" where
  "scan_string [] = None"
| "scan_string (c # s) =
     (if c = quote_mark then Some ([], s)
      else if c = back_slash then
        (case s of
           [] \<Rightarrow> None
         | e # s' \<Rightarrow>
             if e = CHR ''u'' then
               (case s' of
                  x # y # z # w # rest \<Rightarrow>
                    (case unicode_escape x y z w of None \<Rightarrow> None | Some t \<Rightarrow> prepend t (scan_string rest))
                | _ \<Rightarrow> None)
             else (case simple_escape e of None \<Rightarrow> None | Some t \<Rightarrow> prepend [t] (scan_string s')))
      else if (of_char c :: nat) < 0x20 then None
      else prepend [c] (scan_string s))"

lemma scan_string_shorter: "scan_string s = Some (t, rest) \<Longrightarrow> length rest < length s"
proof (induction s arbitrary: t rest rule: scan_string.induct)
  case (2 c s)
  show ?case
    using 2(4) 2(1-3)
    by (fastforce simp: prepend_def split: if_splits list.splits option.splits)
qed simp

definition json_space :: "char \<Rightarrow> bool" where
  "json_space c \<longleftrightarrow> c \<in> {CHR 0x20, CHR 0x09, CHR 0x0A, CHR 0x0D}"

definition after_word :: "string \<Rightarrow> string \<Rightarrow> string option" where
  "after_word w s = (if has_prefix s w then Some (drop (length w) s) else None)"

text \<open>One token at the start of a text that is not white.\<close>

definition scan_token :: "char \<Rightarrow> string \<Rightarrow> (token \<times> string) option" where
  "scan_token c s =
     (if c = CHR ''{'' then Some (T_lbrace, s)
      else if c = CHR ''}'' then Some (T_rbrace, s)
      else if c = CHR ''['' then Some (T_lbrack, s)
      else if c = CHR '']'' then Some (T_rbrack, s)
      else if c = CHR '':'' then Some (T_colon, s)
      else if c = CHR '','' then Some (T_comma, s)
      else if c = quote_mark then map_option (\<lambda>(t, rest). (T_str t, rest)) (scan_string s)
      else if c = CHR ''n'' then map_option (\<lambda>rest. (T_null, rest)) (after_word ''ull'' s)
      else if c = CHR ''t'' then map_option (\<lambda>rest. (T_bool True, rest)) (after_word ''rue'' s)
      else if c = CHR ''f'' then map_option (\<lambda>rest. (T_bool False, rest)) (after_word ''alse'' s)
      else if c = CHR ''-'' then
        (if takeWhile is_digit s = [] then None
         else Some (T_int (- decimal (takeWhile is_digit s)), dropWhile is_digit s))
      else if is_digit c then Some (T_int (decimal (c # takeWhile is_digit s)), dropWhile is_digit s)
      else None)"

lemma scan_token_shorter: "scan_token c s = Some (t, rest) \<Longrightarrow> length rest \<le> length s"
  by (auto simp: scan_token_def after_word_def length_dropWhile_le dest: scan_string_shorter split: if_splits)

function tokenize :: "string \<Rightarrow> token list option" where
  "tokenize [] = Some []"
| "tokenize (c # s) =
     (if json_space c then tokenize s
      else (case scan_token c s of None \<Rightarrow> None | Some (t, rest) \<Rightarrow> map_option ((#) t) (tokenize rest)))"
  by pat_completeness auto

termination
  by (relation "measure length") (auto simp: less_Suc_eq_le dest: scan_token_shorter)

subsection \<open>Reading: values\<close>

datatype frame = In_list "wire list" | In_object "(string \<times> wire) list" | In_member "(string \<times> wire) list" string

datatype expecting = A_value | A_value_or_end | A_key_or_end | A_key | A_colon | A_comma_or_end | Nothing_more wire

text \<open>A value has been read.\<close>

fun deliver :: "wire \<Rightarrow> frame list \<Rightarrow> (expecting \<times> frame list) option" where
  "deliver v [] = Some (Nothing_more v, [])"
| "deliver v (In_list vs # fs) = Some (A_comma_or_end, In_list (vs @ [v]) # fs)"
| "deliver v (In_member ms k # fs) = Some (A_comma_or_end, In_object (ms @ [(k, v)]) # fs)"
| "deliver v (In_object ms # fs) = None"

fun begin_value :: "token \<Rightarrow> frame list \<Rightarrow> (expecting \<times> frame list) option" where
  "begin_value T_null fs = deliver W_null fs"
| "begin_value (T_bool b) fs = deliver (W_bool b) fs"
| "begin_value (T_int i) fs = deliver (W_int i) fs"
| "begin_value (T_str s) fs = deliver (W_str s) fs"
| "begin_value T_lbrack fs = Some (A_value_or_end, In_list [] # fs)"
| "begin_value T_lbrace fs = Some (A_key_or_end, In_object [] # fs)"
| "begin_value _ fs = None"

fun end_value :: "token \<Rightarrow> frame list \<Rightarrow> (expecting \<times> frame list) option" where
  "end_value T_rbrack (In_list vs # fs) = deliver (W_list vs) fs"
| "end_value T_rbrace (In_object ms # fs) = deliver (W_obj ms) fs"
| "end_value _ _ = None"

fun begin_member :: "token \<Rightarrow> frame list \<Rightarrow> (expecting \<times> frame list) option" where
  "begin_member (T_str k) (In_object ms # fs) = Some (A_colon, In_member ms k # fs)"
| "begin_member _ _ = None"

fun read_token :: "token \<Rightarrow> expecting \<times> frame list \<Rightarrow> (expecting \<times> frame list) option" where
  "read_token t (A_value, fs) = begin_value t fs"
| "read_token t (A_value_or_end, fs) = (if t = T_rbrack then end_value t fs else begin_value t fs)"
| "read_token t (A_key_or_end, fs) = (if t = T_rbrace then end_value t fs else begin_member t fs)"
| "read_token t (A_key, fs) = begin_member t fs"
| "read_token t (A_colon, fs) = (if t = T_colon then Some (A_value, fs) else None)"
| "read_token t (A_comma_or_end, In_list vs # fs) =
     (if t = T_comma then Some (A_value, In_list vs # fs) else end_value t (In_list vs # fs))"
| "read_token t (A_comma_or_end, In_object ms # fs) =
     (if t = T_comma then Some (A_key, In_object ms # fs) else end_value t (In_object ms # fs))"
| "read_token t (_, fs) = None"

fun read_tokens :: "token list \<Rightarrow> expecting \<times> frame list \<Rightarrow> wire option" where
  "read_tokens [] (Nothing_more v, []) = Some v"
| "read_tokens [] _ = None"
| "read_tokens (t # ts) st = (case read_token t st of None \<Rightarrow> None | Some st' \<Rightarrow> read_tokens ts st')"

definition decode_json :: "string \<Rightarrow> wire option" where
  "decode_json s = (case tokenize s of None \<Rightarrow> None | Some ts \<Rightarrow> read_tokens ts (A_value, []))"

subsection \<open>Texts\<close>

lemma div_mod_digit: "0 \<le> m \<Longrightarrow> m < k \<Longrightarrow> (q * k + m) div k = q \<and> (q * k + m) mod k = (m :: int)"
  by simp

lemma decode_rune_multi:
  assumes "0x80 \<le> b" and "\<not> ill_formed b bs"
  shows "b # bs = encode_rune (fst (decode_rune b bs)) @ snd (decode_rune b bs)"
proof -
  from assms consider
      (two) b1 rest where "bs = b1 # rest" "0xC2 \<le> b" "b \<le> 0xDF" "continuation b1"
    | (three) b1 b2 rest where "bs = b1 # b2 # rest" "0xE0 \<le> b" "b \<le> 0xEF" "second_of_three b b1" "continuation b2"
    | (four) b1 b2 b3 rest where "bs = b1 # b2 # b3 # rest" "0xF0 \<le> b" "b \<le> 0xF4" "second_of_four b b1"
        "continuation b2" "continuation b3"
    unfolding ill_formed_def decode_rune_def by (auto split: if_splits list.splits)
  then show ?thesis
  proof cases
    case two
    define r where "r = (b - 0xC0) * 64 + (b1 - 0x80)"
    have d: "decode_rune b bs = (r, rest)" using two by (simp add: decode_rune_def r_def)
    have m: "0 \<le> b1 - 0x80" "b1 - 0x80 < 64" using two by (simp_all add: continuation_def)
    have "r div 64 = b - 0xC0" "r mod 64 = b1 - 0x80"
      unfolding r_def using div_mod_digit [of "b1 - 0x80" 64 "b - 0xC0"] m by blast+
    moreover have "0x80 \<le> r" "r < 0x800" using two m by (simp_all add: r_def)
    ultimately show ?thesis using two d by (simp add: encode_rune_def valid_rune_def)
  next
    case three
    define r where "r = (b - 0xE0) * 4096 + (b1 - 0x80) * 64 + (b2 - 0x80)"
    have d: "decode_rune b bs = (r, rest)" using three by (simp add: decode_rune_def r_def)
    have m: "0 \<le> b1 - 0x80" "b1 - 0x80 < 64" "0 \<le> b2 - 0x80" "b2 - 0x80 < 64"
      using three by (auto simp: continuation_def second_of_three_def split: if_splits)
    have "r = ((b - 0xE0) * 64 + (b1 - 0x80)) * 64 + (b2 - 0x80)" by (simp add: r_def)
    then have "r div 64 = (b - 0xE0) * 64 + (b1 - 0x80)" "r mod 64 = b2 - 0x80"
      using div_mod_digit [OF m(3,4)] by blast+
    moreover have "r div 4096 = r div 64 div 64" using zdiv_zmult2_eq [of 64 r 64] by simp
    ultimately have "r div 4096 = b - 0xE0" "r div 64 mod 64 = b1 - 0x80" "r mod 64 = b2 - 0x80"
      using div_mod_digit [OF m(1,2), of "b - 0xE0"] by metis+
    moreover have "0x800 \<le> r" "r < 0x10000" "\<not> (0xD800 \<le> r \<and> r < 0xE000)"
      using three m by (auto simp: r_def second_of_three_def split: if_splits)
    ultimately show ?thesis using three(1) d by (simp add: encode_rune_def valid_rune_def)
  next
    case four
    define r where "r = (b - 0xF0) * 262144 + (b1 - 0x80) * 4096 + (b2 - 0x80) * 64 + (b3 - 0x80)"
    have d: "decode_rune b bs = (r, rest)" using four by (simp add: decode_rune_def r_def)
    have m: "0 \<le> b1 - 0x80" "b1 - 0x80 < 64" "0 \<le> b2 - 0x80" "b2 - 0x80 < 64" "0 \<le> b3 - 0x80" "b3 - 0x80 < 64"
      using four by (auto simp: continuation_def second_of_four_def split: if_splits)
    have "r = (((b - 0xF0) * 64 + (b1 - 0x80)) * 64 + (b2 - 0x80)) * 64 + (b3 - 0x80)" by (simp add: r_def)
    then have "r div 64 = ((b - 0xF0) * 64 + (b1 - 0x80)) * 64 + (b2 - 0x80)" and last: "r mod 64 = b3 - 0x80"
      using div_mod_digit [OF m(5,6)] by blast+
    moreover have "r div 4096 = r div 64 div 64" using zdiv_zmult2_eq [of 64 r 64] by simp
    ultimately have mid: "r div 4096 = (b - 0xF0) * 64 + (b1 - 0x80)" "r div 64 mod 64 = b2 - 0x80"
      using div_mod_digit [OF m(3,4), of "(b - 0xF0) * 64 + (b1 - 0x80)"] by metis+
    moreover have "r div 262144 = r div 4096 div 64" using zdiv_zmult2_eq [of 64 r 4096] by simp
    ultimately have high: "r div 262144 = b - 0xF0" "r div 4096 mod 64 = b1 - 0x80"
      using div_mod_digit [OF m(1,2), of "b - 0xF0"] by metis+
    have "0x10000 \<le> r"
    proof (cases "b = 0xF0")
      case True
      with four(4) have "0x90 \<le> b1" by (simp add: second_of_four_def)
      with True m show ?thesis by (simp add: r_def)
    next
      case False
      with four(2) have "0xF1 \<le> b" by linarith
      with m show ?thesis by (simp add: r_def)
    qed
    moreover have "r < 0x110000"
    proof (cases "b = 0xF4")
      case True
      with four(4) have "b1 \<le> 0x8F" by (simp add: second_of_four_def)
      with True m show ?thesis by (simp add: r_def)
    next
      case False
      with four(3) have "b \<le> 0xF3" by linarith
      with m show ?thesis by (simp add: r_def)
    qed
    ultimately have "encode_rune r =
        [0xF0 + r div 262144, 0x80 + r div 4096 mod 64, 0x80 + r div 64 mod 64, 0x80 + r mod 64]"
      by (simp add: encode_rune_def valid_rune_def)
    then show ?thesis unfolding high mid(2) last by (simp only: d fst_conv snd_conv) (simp add: four(1))
  qed
qed

lemma consumed_encode:
  assumes "0x80 \<le> b" and "\<not> ill_formed b bs"
  shows "consumed b bs = encode_rune (fst (decode_rune b bs))"
  using decode_rune_multi [OF assms]
  by (metis add_diff_cancel_right' append_eq_conv_conj consumed_def length_append)

text \<open>A text with every byte that is not UTF-8 replaced.\<close>

definition repaired :: "string \<Rightarrow> string" where
  "repaired s = from_runes (runes s)"

lemma repaired_valid: "list_all valid_rune rs \<Longrightarrow> repaired (from_runes rs) = from_runes rs"
  by (simp add: repaired_def)

lemma scan_plain: "c \<noteq> quote_mark \<Longrightarrow> c \<noteq> back_slash \<Longrightarrow> 0x20 \<le> (of_char c :: nat) \<Longrightarrow>
    scan_string (c # s) = prepend [c] (scan_string s)"
  by simp

lemma prepend_prepend [simp]: "prepend t (prepend u r) = prepend (t @ u) r"
  by (cases r) (auto simp: prepend_def)

lemma prepend_Nil [simp]: "prepend [] r = r"
  by (cases r) (auto simp: prepend_def)

lemma scan_bytes:
  "list_all (\<lambda>b. 0x80 \<le> b \<and> b < 256) bs \<Longrightarrow> scan_string (string_of bs @ s) = prepend (string_of bs) (scan_string s)"
proof (induction bs)
  case (Cons b bs)
  then have "(of_char (char_of b :: char) :: int) = b" by (simp add: of_char_of)
  moreover have "int (of_char (char_of b :: char)) = of_char (char_of b :: char)" by (simp only: of_nat_of_char)
  ultimately have "int (of_char (char_of b :: char)) = b" by simp
  with Cons.prems have "0x80 \<le> (of_char (char_of b :: char) :: nat)" by simp
  moreover then have "(char_of b :: char) \<noteq> quote_mark" "(char_of b :: char) \<noteq> back_slash"
    by (auto simp: quote_mark_def back_slash_def)
  ultimately show ?case using Cons by (simp add: string_of_def)
qed (simp add: string_of_def)

lemma encode_rune_high: "0x80 \<le> r \<Longrightarrow> b \<in> set (encode_rune r) \<Longrightarrow> 0x80 \<le> b \<and> b < 256"
  by (auto simp: encode_rune_def valid_rune_def rune_error_def Let_def split: if_splits)

lemma decoded_high:
  assumes "0x80 \<le> b" and "\<not> ill_formed b bs" and "list_all (\<lambda>b. 0 \<le> b \<and> b < 256) (b # bs)"
  shows "0x80 \<le> fst (decode_rune b bs)"
proof (rule ccontr)
  assume "\<not> ?thesis"
  moreover have "valid_rune (fst (decode_rune b bs))" using assms(3) by (intro decode_rune_valid) simp_all
  ultimately have "encode_rune (fst (decode_rune b bs)) = [fst (decode_rune b bs)]"
    by (simp add: encode_rune_def)
  with decode_rune_multi [OF assms(1,2)] have "b = fst (decode_rune b bs)" by simp
  with assms(1) \<open>\<not> ?thesis\<close> show False by simp
qed

lemma scan_escape_u:
  "scan_string (back_slash # ''u'' @ [x, y, z, w] @ s)
     = (case unicode_escape x y z w of None \<Rightarrow> None | Some t \<Rightarrow> prepend t (scan_string s))"
  by (simp add: back_slash_def quote_mark_def)

lemma int_of_char_nat: "m < 256 \<Longrightarrow> (of_char (char_of m :: char) :: int) = int m"
  by (metis of_nat_of_char of_char_of mod_less)

lemma nat_of_char_int: "0 \<le> b \<Longrightarrow> b < 256 \<Longrightarrow> (of_char (char_of b :: char) :: nat) = nat b"
  by (metis nat_of_char of_char_of mod_pos_pos_trivial)

lemma hex_value_digit: "n < 16 \<Longrightarrow> hex_value (hex_digit n) = Some (int n)"
  using int_of_char_nat [of "48 + n"] int_of_char_nat [of "87 + n"] by (simp add: hex_value_def hex_digit_def)

lemma unicode_byte:
  assumes "0 \<le> b" and "b < 0x80"
  shows "unicode_escape (CHR ''0'') (CHR ''0'') (hex_digit (nat b div 16)) (hex_digit (nat b mod 16)) = Some [char_of b]"
proof -
  have "hex_value (CHR ''0'') = Some 0" by (simp add: hex_value_def)
  moreover have "hex_value (hex_digit (nat b div 16)) = Some (b div 16)" "hex_value (hex_digit (nat b mod 16)) = Some (b mod 16)"
    using assms by (simp_all add: hex_value_digit nat_div_distrib [symmetric] zdiv_int zmod_int)
  moreover have "b div 16 * 16 + b mod 16 = b" by simp
  ultimately show ?thesis
    using assms by (simp add: unicode_escape_def valid_rune_def encode_rune_def string_of_def)
qed

lemma scan_simple:
  "simple_escape e = Some t \<Longrightarrow> scan_string (back_slash # e # s) = prepend [t] (scan_string s)"
  by (cases "e = CHR ''u''") (simp_all add: simple_escape_def back_slash_def quote_mark_def split: if_splits)

lemma simple_table:
  "escape_ascii 0x22 = [back_slash, quote_mark]" "simple_escape quote_mark = Some (char_of (0x22 :: int))"
  "escape_ascii 0x5C = [back_slash, back_slash]" "simple_escape back_slash = Some (char_of (0x5C :: int))"
  "escape_ascii 0x08 = [back_slash, CHR ''b'']" "simple_escape (CHR ''b'') = Some (char_of (0x08 :: int))"
  "escape_ascii 0x0C = [back_slash, CHR ''f'']" "simple_escape (CHR ''f'') = Some (char_of (0x0C :: int))"
  "escape_ascii 0x0A = [back_slash, CHR ''n'']" "simple_escape (CHR ''n'') = Some (char_of (0x0A :: int))"
  "escape_ascii 0x0D = [back_slash, CHR ''r'']" "simple_escape (CHR ''r'') = Some (char_of (0x0D :: int))"
  "escape_ascii 0x09 = [back_slash, CHR ''t'']" "simple_escape (CHR ''t'') = Some (char_of (0x09 :: int))"
  by code_simp+

lemma scan_ascii:
  assumes "0 \<le> b" and "b < 0x80"
  shows "scan_string (escape_ascii b @ s) = prepend [char_of b] (scan_string s)"
proof (cases "b \<in> {0x22, 0x5C, 0x08, 0x0C, 0x0A, 0x0D, 0x09}")
  case True
  then show ?thesis
    using scan_simple [OF simple_table(2)] scan_simple [OF simple_table(4)] scan_simple [OF simple_table(6)]
      scan_simple [OF simple_table(8)] scan_simple [OF simple_table(10)] scan_simple [OF simple_table(12)]
      scan_simple [OF simple_table(14)]
    by (elim insertE emptyE) (simp_all only: simple_table append.simps)
next
  case False
  show ?thesis
  proof (cases "b < 0x20 \<or> b = 0x3C \<or> b = 0x3E \<or> b = 0x26")
    case True
    with False have "escape_ascii b = back_slash # ''u'' @ [CHR ''0'', CHR ''0'', hex_digit (nat b div 16), hex_digit (nat b mod 16)]"
      using assms by (simp add: escape_ascii_def byte_escape_def hex_encode_def nat_of_char_int)
    then show ?thesis
      using scan_escape_u [of "CHR ''0''" "CHR ''0''"] unicode_byte [OF assms] by (simp del: scan_string.simps)
  next
    case False2: False
    with False have "escape_ascii b = [char_of b]" by (simp add: escape_ascii_def)
    moreover have n: "(of_char (char_of b :: char) :: nat) = nat b" using assms by (simp add: nat_of_char_int)
    moreover have "char_of b \<noteq> quote_mark" "char_of b \<noteq> back_slash"
      using False n assms by (auto simp: quote_mark_def back_slash_def)
    moreover have "32 \<le> nat b" using False2 assms by linarith
    ultimately show ?thesis using scan_plain [of "char_of b" s] by (simp del: scan_string.simps)
  qed
qed

lemma unicode_constants:
  "unicode_escape (CHR ''f'') (CHR ''f'') (CHR ''f'') (CHR ''d'') = Some (string_of (encode_rune rune_error))"
  "unicode_escape (CHR ''2'') (CHR ''0'') (CHR ''2'') (CHR ''8'') = Some (string_of (encode_rune 0x2028))"
  "unicode_escape (CHR ''2'') (CHR ''0'') (CHR ''2'') (CHR ''9'') = Some (string_of (encode_rune 0x2029))"
  by code_simp+

lemma scan_bytes_escaped:
  "list_all (\<lambda>b. 0 \<le> b \<and> b < 256) bs \<Longrightarrow>
     scan_string (escape_bytes bs @ s) = prepend (string_of (concat (map encode_rune (decode_runes bs)))) (scan_string s)"
proof (induction bs rule: escape_bytes.induct)
  case (2 b bs)
  note b = "2.prems"
  let ?r = "fst (decode_rune b bs)" and ?rest = "snd (decode_rune b bs)"
  have rest: "list_all (\<lambda>b. 0 \<le> b \<and> b < 256) ?rest"
    using b decode_rune_rest [of b bs] by (auto simp: list_all_iff)
  consider "b < 0x80" | "0x80 \<le> b" "ill_formed b bs" | "0x80 \<le> b" "\<not> ill_formed b bs" by linarith
  then show ?case
  proof cases
    case 1
    then have "encode_rune b = [b]" using b by (simp add: encode_rune_def valid_rune_def)
    moreover have "decode_rune b bs = (b, bs)" using 1 by (simp add: decode_rune_def)
    ultimately show ?thesis using 1 b "2.IH"(1) by (simp add: scan_ascii string_of_def del: scan_string.simps)
  next
    case 2
    then have d: "decode_rune b bs = (rune_error, bs)" by (simp add: ill_formed_def)
    have "scan_string ((back_slash # ''ufffd'') @ escape_bytes bs @ s)
        = prepend (string_of (encode_rune rune_error)) (scan_string (escape_bytes bs @ s))"
      using scan_escape_u [of "CHR ''f''" "CHR ''f''" "CHR ''f''" "CHR ''d''"]
      by (simp add: unicode_constants del: scan_string.simps)
    with 2 d b "2.IH"(2) show ?thesis by (simp add: string_of_def del: scan_string.simps)
  next
    case 3
    have c: "consumed b bs = encode_rune ?r" by (rule consumed_encode [OF 3])
    have "scan_string (escape_rune ?r (consumed b bs) @ t) = prepend (string_of (encode_rune ?r)) (scan_string t)" for t
    proof (cases "?r = 0x2028 \<or> ?r = 0x2029")
      case True
      then show ?thesis
        using scan_escape_u [of "CHR ''2''" "CHR ''0''" "CHR ''2''"]
        by (auto simp: escape_rune_def unicode_constants simp del: scan_string.simps)
    next
      case False
      have "list_all (\<lambda>b. 0x80 \<le> b \<and> b < 256) (encode_rune ?r)"
        using encode_rune_high [OF decoded_high [OF 3 b]] by (auto simp: list_all_iff)
      with False c show ?thesis by (simp add: escape_rune_def scan_bytes)
    qed
    with 3 rest "2.IH"(3) show ?thesis by (simp add: string_of_def del: scan_string.simps)
  qed
qed (simp add: string_of_def)

lemma scan_written: "scan_string (escape_bytes (bytes_of s) @ quote_mark # rest) = Some (repaired s, rest)"
proof -
  have "0 \<le> (of_char c :: int) \<and> (of_char c :: int) < 256" for c
    using of_char_mod_256 [of c, where 'a = int] by (metis pos_mod_bound pos_mod_sign zero_less_numeral)
  then have "list_all (\<lambda>b. 0 \<le> b \<and> b < 256) (bytes_of s)" by (simp add: bytes_of_def list_all_iff)
  from scan_bytes_escaped [OF this] show ?thesis
    by (simp add: prepend_def repaired_def from_runes_def runes_def)
qed

subsection \<open>Tokens of what was written\<close>

fun commas :: "token list list \<Rightarrow> token list" where
  "commas [] = []"
| "commas [ts] = ts"
| "commas (ts # us # tss) = ts @ T_comma # commas (us # tss)"

fun tokens_of :: "wire \<Rightarrow> token list" where
  "tokens_of W_null = [T_null]"
| "tokens_of (W_bool b) = [T_bool b]"
| "tokens_of (W_int i) = [T_int i]"
| "tokens_of (W_str s) = [T_str s]"
| "tokens_of (W_list vs) = T_lbrack # commas (map tokens_of vs) @ [T_rbrack]"
| "tokens_of (W_obj ms) = T_lbrace # commas (map (\<lambda>m. T_str (fst m) # T_colon # tokens_of (snd m)) ms) @ [T_rbrace]"

text \<open>The value with all its texts repaired.\<close>

fun repaired_value :: "wire \<Rightarrow> wire" where
  "repaired_value (W_str s) = W_str (repaired s)"
| "repaired_value (W_list vs) = W_list (map repaired_value vs)"
| "repaired_value (W_obj ms) = W_obj (map (\<lambda>m. (repaired (fst m), repaired_value (snd m))) ms)"
| "repaired_value v = v"

definition prefixed :: "token list \<Rightarrow> token list option \<Rightarrow> token list option" where
  "prefixed ts r = map_option ((@) ts) r"

lemma prefixed_simps [simp]:
  "prefixed [] r = r" "prefixed ts (prefixed us r) = prefixed (ts @ us) r" "map_option ((#) t) r = prefixed [t] r"
  by (cases r; simp add: prefixed_def)+

lemma tokenize_mark [simp]:
  "tokenize (CHR ''{'' # s) = prefixed [T_lbrace] (tokenize s)"
  "tokenize (CHR ''}'' # s) = prefixed [T_rbrace] (tokenize s)"
  "tokenize (CHR ''['' # s) = prefixed [T_lbrack] (tokenize s)"
  "tokenize (CHR '']'' # s) = prefixed [T_rbrack] (tokenize s)"
  "tokenize (CHR '':'' # s) = prefixed [T_colon] (tokenize s)"
  "tokenize (CHR '','' # s) = prefixed [T_comma] (tokenize s)"
  "tokenize (CHR '' '' # s) = tokenize s"
  "tokenize (CHR 0x0A # s) = tokenize s"
  by (simp_all add: json_space_def scan_token_def)

lemma tokenize_fresh_line [simp]: "tokenize (fresh_line k @ s) = tokenize s"
proof -
  have "tokenize (concat (replicate k ''  '') @ s) = tokenize s" by (induction k) (simp_all del: tokenize.simps)
  then show ?thesis by (simp add: fresh_line_def newline_def del: tokenize.simps)
qed

lemma tokenize_string: "tokenize (write_string s @ rest) = prefixed [T_str (repaired s)] (tokenize rest)"
  using scan_written [of s rest]
  by (simp add: write_string_def json_space_def quote_mark_def scan_token_def)

definition stops :: "string \<Rightarrow> bool" where
  "stops s = (case s of [] \<Rightarrow> True | c # r \<Rightarrow> \<not> is_digit c)"

lemma digits_scan:
  assumes "0 \<le> n" and "stops rest"
  shows "takeWhile is_digit (digits n @ rest) = digits n" "dropWhile is_digit (digits n @ rest) = rest"
proof -
  have d: "\<forall>c\<in>set (digits n). is_digit c" using digits_digits [OF assms(1)] by (simp add: list_all_iff)
  have "takeWhile is_digit rest = []" "dropWhile is_digit rest = rest"
    using assms(2) by (auto simp: stops_def split: list.splits)
  with d show "takeWhile is_digit (digits n @ rest) = digits n" "dropWhile is_digit (digits n @ rest) = rest"
    by (simp_all add: takeWhile_append2 dropWhile_append2)
qed

lemma digit_token:
  assumes "is_digit c"
  shows "\<not> json_space c" "scan_token c s = Some (T_int (decimal (c # takeWhile is_digit s)), dropWhile is_digit s)"
proof -
  have "c \<notin> {CHR 0x20, CHR 0x09, CHR 0x0A, CHR 0x0D, CHR ''{'', CHR ''}'', CHR ''['', CHR '']'', CHR '':'', CHR '','',
      quote_mark, CHR ''n'', CHR ''t'', CHR ''f'', CHR ''-''}"
    using assms by (auto simp: is_digit_def quote_mark_def)
  with assms show "\<not> json_space c"
    "scan_token c s = Some (T_int (decimal (c # takeWhile is_digit s)), dropWhile is_digit s)"
    by (simp_all add: json_space_def scan_token_def)
qed

lemma tokenize_int:
  assumes "stops rest"
  shows "tokenize (itoa i @ rest) = prefixed [T_int i] (tokenize rest)"
proof (cases "i < 0")
  case True
  then have "0 \<le> - i" by simp
  note d = digits_scan [OF this assms]
  have "scan_token (CHR ''-'') (digits (- i) @ rest) = Some (T_int i, rest)"
    using True d decimal_digits [of "- i"] by (simp add: scan_token_def quote_mark_def)
  moreover have "\<not> json_space (CHR ''-'')" by (simp add: json_space_def)
  ultimately show ?thesis using True by (simp add: itoa_def)
next
  case False
  then have i: "0 \<le> i" by simp
  obtain c ds where ds: "digits i = c # ds" by (cases "digits i") auto
  with digits_digits [OF i] have c: "is_digit c" by simp
  from digits_scan [OF i assms] ds c have "takeWhile is_digit (ds @ rest) = ds" "dropWhile is_digit (ds @ rest) = rest"
    by simp_all
  with digit_token [OF c] decimal_digits [OF i] ds False show ?thesis by (simp add: itoa_def)
qed

lemma tokenize_word:
  "tokenize (''null'' @ s) = prefixed [T_null] (tokenize s)"
  "tokenize (''true'' @ s) = prefixed [T_bool True] (tokenize s)"
  "tokenize (''false'' @ s) = prefixed [T_bool False] (tokenize s)"
  by (simp_all add: json_space_def scan_token_def quote_mark_def after_word_def has_prefix_def)

lemma stops_mark [simp]: "stops (CHR '','' # s)" "stops (newline @ s)" "stops (fresh_line k @ s)" "stops []"
  by (simp_all add: stops_def is_digit_def newline_def fresh_line_def)

lemma tokenize_join:
  assumes "\<And>x r. x \<in> set xs \<Longrightarrow> stops r \<Longrightarrow> tokenize (f x @ r) = prefixed (g x) (tokenize r)"
    and "stops rest"
  shows "tokenize (join '','' (map f xs) @ rest) = prefixed (commas (map g xs)) (tokenize rest)"
  using assms
proof (induction xs rule: induct_list012)
  case (3 x y zs)
  then show ?case by (simp del: tokenize.simps)
qed (simp_all del: tokenize.simps)

lemma tokenize_written:
  "stops rest \<Longrightarrow> tokenize (write_value k v @ rest) = prefixed (tokens_of (repaired_value v)) (tokenize rest)"
proof (induction v arbitrary: k rest)
  case (W_bool b)
  then show ?case by (simp add: tokenize_word [unfolded append_Cons append_Nil] del: tokenize.simps)
next
  case (W_list vs)
  have "tokenize (join '','' (map (\<lambda>v. fresh_line (Suc k) @ write_value (Suc k) v) vs) @ fresh_line k @ '']'' @ rest)
      = prefixed (commas (map (\<lambda>v. tokens_of (repaired_value v)) vs)) (tokenize (fresh_line k @ '']'' @ rest))"
    by (rule tokenize_join) (simp_all add: W_list.IH del: tokenize.simps)
  then show ?case by (simp add: comp_def del: tokenize.simps)
next
  case (W_obj ms)
  have "tokenize (join '','' (map (\<lambda>m. fresh_line (Suc k) @ write_string (fst m) @ '': '' @ write_value (Suc k) (snd m)) ms)
        @ fresh_line k @ ''}'' @ rest)
      = prefixed (commas (map (\<lambda>m. T_str (repaired (fst m)) # T_colon # tokens_of (repaired_value (snd m))) ms))
          (tokenize (fresh_line k @ ''}'' @ rest))"
    by (rule tokenize_join) (simp_all add: W_obj.IH tokenize_string snds.intros del: tokenize.simps)
  then show ?case by (simp add: comp_def del: tokenize.simps)
qed (simp_all add: tokenize_int tokenize_string tokenize_word [unfolded append_Cons append_Nil] del: tokenize.simps)

subsection \<open>Values of what was written\<close>

definition continue :: "token list \<Rightarrow> (expecting \<times> frame list) option \<Rightarrow> wire option" where
  "continue ts st = (case st of None \<Rightarrow> None | Some st' \<Rightarrow> read_tokens ts st')"

lemma continue_simps [simp]: "continue ts None = None" "continue ts (Some st) = read_tokens ts st"
  by (simp_all add: continue_def)

lemma read_tokens_step: "read_tokens (t # ts) st = continue ts (read_token t st)"
  by (simp add: continue_def)

lemma read_list:
  assumes "\<And>v fs ts. v \<in> set vs \<Longrightarrow> read_tokens (tokens_of v @ ts) (A_value, fs) = continue ts (deliver v fs)"
    and "vs \<noteq> []"
  shows "read_tokens (commas (map tokens_of vs) @ T_rbrack # ts) (A_value, In_list us # fs)
     = continue ts (deliver (W_list (us @ vs)) fs)"
  using assms
proof (induction vs arbitrary: us rule: induct_list012)
  case (3 v w vs)
  then show ?case by (simp add: read_tokens_step del: read_tokens.simps)
qed (simp_all add: read_tokens_step del: read_tokens.simps)

lemma read_members:
  assumes "\<And>m fs ts. m \<in> set ms \<Longrightarrow> read_tokens (tokens_of (snd m) @ ts) (A_value, fs) = continue ts (deliver (snd m) fs)"
    and "ms \<noteq> []"
  shows "read_tokens (commas (map (\<lambda>m. T_str (fst m) # T_colon # tokens_of (snd m)) ms) @ T_rbrace # ts)
       (A_key, In_object ns # fs)
     = continue ts (deliver (W_obj (ns @ ms)) fs)"
  using assms
proof (induction ms arbitrary: ns rule: induct_list012)
  case (3 v w vs)
  then show ?case by (simp add: read_tokens_step del: read_tokens.simps)
qed (simp_all add: read_tokens_step del: read_tokens.simps)

lemma tokens_first: "\<exists>t ts. tokens_of v = t # ts \<and> t \<noteq> T_rbrack"
  by (cases v) auto

lemma read_value: "read_tokens (tokens_of v @ ts) (A_value, fs) = continue ts (deliver v fs)"
proof (induction v arbitrary: ts fs)
  case (W_list vs)
  show ?case
  proof (cases vs)
    case (Cons v vs')
    obtain t us where t: "commas (map tokens_of vs) = t # us" "t \<noteq> T_rbrack"
      using tokens_first [of v] Cons by (cases vs') auto
    have "read_tokens (tokens_of (W_list vs) @ ts) (A_value, fs)
        = read_tokens (commas (map tokens_of vs) @ T_rbrack # ts) (A_value, In_list [] # fs)"
      using t by (simp add: read_tokens_step del: read_tokens.simps)
    with read_list [of vs ts "[]" fs] W_list.IH Cons show ?thesis by simp
  qed (simp add: read_tokens_step del: read_tokens.simps)
next
  case (W_obj ms)
  show ?case
  proof (cases ms)
    case (Cons m ms')
    obtain k us where t: "commas (map (\<lambda>m. T_str (fst m) # T_colon # tokens_of (snd m)) ms) = T_str k # us"
      using Cons by (cases ms') auto
    have "read_tokens (tokens_of (W_obj ms) @ ts) (A_value, fs)
        = read_tokens (commas (map (\<lambda>m. T_str (fst m) # T_colon # tokens_of (snd m)) ms) @ T_rbrace # ts)
            (A_key, In_object [] # fs)"
      using t by (simp add: read_tokens_step del: read_tokens.simps)
    with read_members [of ms ts "[]" fs] W_obj.IH Cons show ?thesis by (fastforce simp: snds.intros)
  qed (simp add: read_tokens_step del: read_tokens.simps)
qed (simp_all add: read_tokens_step del: read_tokens.simps)

text \<open>What is read from what was written is the value, with its texts repaired.\<close>

lemma decode_encode_json: "decode_json (encode_json v) = Some (repaired_value v)"
proof -
  have "tokenize newline = Some []" by (simp add: newline_def json_space_def)
  then have "tokenize (encode_json v) = Some (tokens_of (repaired_value v))"
    using tokenize_written [of newline 0 v] stops_mark(2) [of "[]"]
    by (simp add: encode_json_def prefixed_def del: tokenize.simps)
  then show ?thesis
    using read_value [of "repaired_value v" "[]" "[]"] by (simp add: decode_json_def)
qed

end
