(* ===== verification/Wire_Format.thy ===== *)
theory Wire_Format
  imports Render_Sarif Go_Marshal
begin

text \<open>
  The public schema of a certificate, \<open>pkg/certificate/certificate.go\<close>, with the JSON a program outside the
  repository reads, \<open>internal/render/json.go\<close>, and the choice of a renderer, \<open>render.go\<close>. The types of the
  schema are string types: their values are texts, and the declared constants are lists. The tags of a
  struct are the members \<open>encoding/json\<close> writes for it, in the order of its fields, with \<open>omitempty\<close>. The reader
  of the specification fills a struct as \<open>json.Unmarshal\<close> does: by the names of the members, with the zero value
  for a member that is missing.
\<close>

subsection \<open>The schema\<close>

definition wire_grades :: "string list" where
  "wire_grades = [''A'', ''B'', ''C'', ''F'', ''N/A'']"

definition wire_gate_pass :: string where "wire_gate_pass = ''PASS''"

definition wire_gates :: "string list" where
  "wire_gates = [wire_gate_pass, ''FAIL'', ''NOT_APPLICABLE'']"

definition wire_coverage_full :: string where "wire_coverage_full = ''FULL''"

definition wire_coverages :: "string list" where
  "wire_coverages = [wire_coverage_full, ''PARTIAL'']"

definition wire_outcome_analyzed :: string where "wire_outcome_analyzed = ''ANALYZED''"

definition wire_outcomes :: "string list" where
  "wire_outcomes = [wire_outcome_analyzed, ''NO_CANDIDATES'', ''UNSUPPORTED_CONTENT'']"

definition wire_reversibilities :: "string list" where
  "wire_reversibilities = [''REVERSIBLE'', ''COSTLY'', ''IRREVERSIBLE'', ''UNKNOWN'', ''WILL_FAIL'']"

definition wire_locks :: "string list" where
  "wire_locks = [''NONE'', ''SHORT'', ''FULL_SCAN'', ''TABLE_REWRITE'', ''EXCLUSIVE'']"

record wire_unanalyzed =
  wu_path :: string
  wu_reason :: string

record wire_context =
  wx_row_estimate :: int
  wx_size_bytes :: int
  wx_duration :: string
  wx_band :: string
  wx_note :: string

record wire_finding =
  wf_rule_id :: string
  wf_file :: string
  wf_line :: int
  wf_statement :: string
  wf_reversibility :: string
  wf_lock :: string
  wf_rationale :: string
  wf_undo :: string
  wf_context :: "wire_context option"

record wire_waived =
  ww_finding :: wire_finding
  ww_reason :: string
  ww_expires :: string
  ww_approved_by :: string

record wire_down =
  wd_migration :: string
  wd_up_file :: string
  wd_down_file :: string
  wd_exists :: bool
  wd_parses :: bool
  wd_symmetric :: bool
  wd_notes :: "string list"

record wire_certificate =
  wc_schema_version :: string
  wc_grade :: string
  wc_outcome :: string
  wc_effective_grade :: string
  wc_gate :: string
  wc_coverage :: string
  wc_unanalyzed :: "wire_unanalyzed list"
  wc_ignored_by_policy :: "string list"
  wc_applicable :: bool
  wc_input_digest :: string
  wc_findings :: "wire_finding list"
  wc_waived :: "wire_waived list"
  wc_policy_digest :: string
  wc_catalog_version :: string
  wc_context_warnings :: "string list"
  wc_policy_warnings :: "string list"
  wc_path_anchor :: string
  wc_path_prefix :: string
  wc_undo_plan :: "string list"
  wc_blockers :: "string list"
  wc_grade_causes :: "string list"
  wc_down :: "wire_down list"

definition passed :: "wire_certificate \<Rightarrow> bool" where
  "passed c \<longleftrightarrow> wc_gate c = wire_gate_pass"

definition assessed :: "wire_certificate \<Rightarrow> bool" where
  "assessed c \<longleftrightarrow> wc_outcome c = wire_outcome_analyzed"

definition fully_covered :: "wire_certificate \<Rightarrow> bool" where
  "fully_covered c \<longleftrightarrow> wc_coverage c = wire_coverage_full"

subsection \<open>From the domain\<close>

fun coverage_text :: "coverage \<Rightarrow> string" where
  "coverage_text CoverageFull = ''FULL''"
| "coverage_text CoveragePartial = ''PARTIAL''"
| "coverage_text (Coverage_other s) = s"

fun outcome_text :: "analysis_outcome \<Rightarrow> string" where
  "outcome_text OutcomeAnalyzed = ''ANALYZED''"
| "outcome_text OutcomeNoCandidates = ''NO_CANDIDATES''"
| "outcome_text OutcomeUnsupportedContent = ''UNSUPPORTED_CONTENT''"
| "outcome_text (Outcome_other s) = s"

definition from_domain_finding :: "finding \<Rightarrow> wire_finding" where
  "from_domain_finding f =
     \<lparr>wf_rule_id = f_rule_id f, wf_file = f_file f, wf_line = f_line f, wf_statement = f_statement f,
      wf_reversibility = rev_text (f_reversibility f), wf_lock = lock_text (f_lock f),
      wf_rationale = f_rationale f, wf_undo = f_undo f,
      wf_context = map_option (\<lambda>x.
        \<lparr>wx_row_estimate = x_row_estimate x, wx_size_bytes = x_size_bytes x,
         wx_duration = x_estimated_lock_duration x, wx_band = band_text (x_band x),
         wx_note = x_context_note x\<rparr>) (f_context f)\<rparr>"

definition from_domain :: "certificate \<Rightarrow> wire_certificate" where
  "from_domain x =
     \<lparr>wc_schema_version = c_schema_version x, wc_grade = grade_text (c_grade x),
      wc_outcome = outcome_text (c_outcome x), wc_effective_grade = grade_text (c_effective_grade x),
      wc_gate = gate_text (c_gate x), wc_coverage = coverage_text (c_coverage x),
      wc_unanalyzed = map (\<lambda>u. \<lparr>wu_path = u_path u, wu_reason = u_reason u\<rparr>) (c_unanalyzed x),
      wc_ignored_by_policy = c_ignored_by_policy x, wc_applicable = c_applicable x,
      wc_input_digest = c_input_digest x,
      wc_findings = map from_domain_finding (c_findings x),
      wc_waived = map (\<lambda>w. \<lparr>ww_finding = from_domain_finding (w_finding w), ww_reason = w_reason w,
        ww_expires = w_expires w, ww_approved_by = w_approved_by w\<rparr>) (c_waived x),
      wc_policy_digest = c_policy_digest x, wc_catalog_version = c_catalog_version x,
      wc_context_warnings = c_context_warnings x, wc_policy_warnings = c_policy_warnings x,
      wc_path_anchor = c_path_anchor x, wc_path_prefix = c_path_prefix x,
      wc_undo_plan = c_undo_plan x, wc_blockers = c_blockers x, wc_grade_causes = c_grade_causes x,
      wc_down = map (\<lambda>d. \<lparr>wd_migration = d_migration d, wd_up_file = d_up_file d, wd_down_file = d_down_file d,
        wd_exists = d_exists d, wd_parses = d_parses d, wd_symmetric = d_symmetric d,
        wd_notes = d_symmetry_notes d\<rparr>) (c_down_migrations x)\<rparr>"

subsection \<open>JSON\<close>

type_synonym members = "(string \<times> wire) list"

definition some_text :: "string \<Rightarrow> string \<Rightarrow> members" where
  "some_text k s = (if s = [] then [] else [(k, W_str s)])"

definition some_int :: "string \<Rightarrow> int \<Rightarrow> members" where
  "some_int k i = (if i = 0 then [] else [(k, W_int i)])"

definition texts :: "string list \<Rightarrow> wire" where
  "texts ss = W_list (map W_str ss)"

definition some_texts :: "string \<Rightarrow> string list \<Rightarrow> members" where
  "some_texts k ss = (if ss = [] then [] else [(k, texts ss)])"

definition unanalyzed_json :: "wire_unanalyzed \<Rightarrow> wire" where
  "unanalyzed_json u = W_obj [(''path'', W_str (wu_path u)), (''reason'', W_str (wu_reason u))]"

definition context_json :: "wire_context \<Rightarrow> wire" where
  "context_json x = W_obj
     (some_int ''rowEstimate'' (wx_row_estimate x) @ some_int ''sizeBytes'' (wx_size_bytes x)
      @ some_text ''estimatedLockDuration'' (wx_duration x) @ some_text ''lockDurationBand'' (wx_band x)
      @ some_text ''contextNote'' (wx_note x))"

definition finding_json :: "wire_finding \<Rightarrow> wire" where
  "finding_json f = W_obj
     ([(''ruleId'', W_str (wf_rule_id f)), (''file'', W_str (wf_file f)), (''line'', W_int (wf_line f)),
       (''statement'', W_str (wf_statement f)), (''reversibility'', W_str (wf_reversibility f)),
       (''lockHazard'', W_str (wf_lock f)), (''rationale'', W_str (wf_rationale f))]
      @ some_text ''undoStep'' (wf_undo f)
      @ (case wf_context f of None \<Rightarrow> [] | Some x \<Rightarrow> [(''context'', context_json x)]))"

definition waived_json :: "wire_waived \<Rightarrow> wire" where
  "waived_json w = W_obj
     ([(''finding'', finding_json (ww_finding w)), (''reason'', W_str (ww_reason w)),
       (''expires'', W_str (ww_expires w))] @ some_text ''approvedBy'' (ww_approved_by w))"

definition down_json :: "wire_down \<Rightarrow> wire" where
  "down_json d = W_obj
     ([(''migration'', W_str (wd_migration d)), (''upFile'', W_str (wd_up_file d))]
      @ some_text ''downFile'' (wd_down_file d)
      @ [(''exists'', W_bool (wd_exists d)), (''parses'', W_bool (wd_parses d)), (''symmetric'', W_bool (wd_symmetric d))]
      @ some_texts ''symmetryNotes'' (wd_notes d))"

definition certificate_members :: "wire_certificate \<Rightarrow> members" where
  "certificate_members c =
     ([(''schemaVersion'', W_str (wc_schema_version c)), (''grade'', W_str (wc_grade c)),
       (''outcome'', W_str (wc_outcome c)), (''effectiveGrade'', W_str (wc_effective_grade c)),
       (''aiGateStatus'', W_str (wc_gate c)), (''coverage'', W_str (wc_coverage c)),
       (''unanalyzedFiles'', W_list (map unanalyzed_json (wc_unanalyzed c))),
       (''ignoredByPolicy'', texts (wc_ignored_by_policy c)), (''applicable'', W_bool (wc_applicable c)),
       (''inputDigest'', W_str (wc_input_digest c)), (''findings'', W_list (map finding_json (wc_findings c))),
       (''waived'', W_list (map waived_json (wc_waived c)))]
      @ some_text ''policyDigest'' (wc_policy_digest c) @ some_text ''catalogVersion'' (wc_catalog_version c)
      @ some_texts ''contextWarnings'' (wc_context_warnings c) @ some_texts ''policyWarnings'' (wc_policy_warnings c)
      @ some_text ''pathAnchor'' (wc_path_anchor c) @ some_text ''pathPrefix'' (wc_path_prefix c)
      @ [(''undoPlan'', texts (wc_undo_plan c)), (''blockers'', texts (wc_blockers c)),
         (''gradeCauses'', texts (wc_grade_causes c)), (''downMigrations'', W_list (map down_json (wc_down c)))])"

definition certificate_json :: "wire_certificate \<Rightarrow> wire" where
  "certificate_json c = W_obj (certificate_members c)"

definition render_json :: "certificate \<Rightarrow> string" where
  "render_json x = encode_json (certificate_json (from_domain x))"

subsection \<open>Renderers\<close>

datatype renderer = Json_renderer | Markdown_renderer | Sarif_renderer

definition format_json :: string where "format_json = ''json''"

definition format_markdown :: string where "format_markdown = ''markdown''"

definition format_sarif :: string where "format_sarif = ''sarif''"

fun renderer_format :: "renderer \<Rightarrow> string" where
  "renderer_format Json_renderer = format_json"
| "renderer_format Markdown_renderer = format_markdown"
| "renderer_format Sarif_renderer = format_sarif"

definition formats :: "string list" where
  "formats = sort [format_json, format_markdown, format_sarif]"

definition renderer_for :: "string \<Rightarrow> string + renderer" where
  "renderer_for format =
     (if format = format_json then Inr Json_renderer
      else if format = format_markdown then Inr Markdown_renderer
      else if format = format_sarif then Inr Sarif_renderer
      else Inl (''unknown output format '' @ go_quote format @ '': want one of ['' @ join '' '' formats @ '']''))"

subsection \<open>Reading it back\<close>

definition member :: "members \<Rightarrow> string \<Rightarrow> wire option" where
  "member ms k = map_of ms k"

definition text_of :: "members \<Rightarrow> string \<Rightarrow> string" where
  "text_of ms k = (case member ms k of Some (W_str s) \<Rightarrow> s | _ \<Rightarrow> [])"

definition int_of :: "members \<Rightarrow> string \<Rightarrow> int" where
  "int_of ms k = (case member ms k of Some (W_int i) \<Rightarrow> i | _ \<Rightarrow> 0)"

definition bool_of :: "members \<Rightarrow> string \<Rightarrow> bool" where
  "bool_of ms k = (case member ms k of Some (W_bool b) \<Rightarrow> b | _ \<Rightarrow> False)"

definition list_of :: "(wire \<Rightarrow> 'a) \<Rightarrow> members \<Rightarrow> string \<Rightarrow> 'a list" where
  "list_of g ms k = (case member ms k of Some (W_list vs) \<Rightarrow> map g vs | _ \<Rightarrow> [])"

fun members_of :: "wire \<Rightarrow> members" where
  "members_of (W_obj ms) = ms"
| "members_of _ = []"

fun string_value :: "wire \<Rightarrow> string" where
  "string_value (W_str s) = s"
| "string_value _ = []"

definition read_unanalyzed :: "wire \<Rightarrow> wire_unanalyzed" where
  "read_unanalyzed v = (let ms = members_of v in \<lparr>wu_path = text_of ms ''path'', wu_reason = text_of ms ''reason''\<rparr>)"

definition read_context :: "wire \<Rightarrow> wire_context" where
  "read_context v = (let ms = members_of v in
     \<lparr>wx_row_estimate = int_of ms ''rowEstimate'', wx_size_bytes = int_of ms ''sizeBytes'',
      wx_duration = text_of ms ''estimatedLockDuration'', wx_band = text_of ms ''lockDurationBand'',
      wx_note = text_of ms ''contextNote''\<rparr>)"

definition read_finding :: "wire \<Rightarrow> wire_finding" where
  "read_finding v = (let ms = members_of v in
     \<lparr>wf_rule_id = text_of ms ''ruleId'', wf_file = text_of ms ''file'', wf_line = int_of ms ''line'',
      wf_statement = text_of ms ''statement'', wf_reversibility = text_of ms ''reversibility'',
      wf_lock = text_of ms ''lockHazard'', wf_rationale = text_of ms ''rationale'',
      wf_undo = text_of ms ''undoStep'', wf_context = map_option read_context (member ms ''context'')\<rparr>)"

definition read_waived :: "wire \<Rightarrow> wire_waived" where
  "read_waived v = (let ms = members_of v in
     \<lparr>ww_finding = read_finding (case member ms ''finding'' of Some f \<Rightarrow> f | None \<Rightarrow> W_null),
      ww_reason = text_of ms ''reason'', ww_expires = text_of ms ''expires'',
      ww_approved_by = text_of ms ''approvedBy''\<rparr>)"

definition read_down :: "wire \<Rightarrow> wire_down" where
  "read_down v = (let ms = members_of v in
     \<lparr>wd_migration = text_of ms ''migration'', wd_up_file = text_of ms ''upFile'',
      wd_down_file = text_of ms ''downFile'', wd_exists = bool_of ms ''exists'', wd_parses = bool_of ms ''parses'',
      wd_symmetric = bool_of ms ''symmetric'', wd_notes = list_of string_value ms ''symmetryNotes''\<rparr>)"

definition read_members :: "members \<Rightarrow> wire_certificate" where
  "read_members ms =
     \<lparr>wc_schema_version = text_of ms ''schemaVersion'', wc_grade = text_of ms ''grade'',
      wc_outcome = text_of ms ''outcome'', wc_effective_grade = text_of ms ''effectiveGrade'',
      wc_gate = text_of ms ''aiGateStatus'', wc_coverage = text_of ms ''coverage'',
      wc_unanalyzed = list_of read_unanalyzed ms ''unanalyzedFiles'',
      wc_ignored_by_policy = list_of string_value ms ''ignoredByPolicy'', wc_applicable = bool_of ms ''applicable'',
      wc_input_digest = text_of ms ''inputDigest'', wc_findings = list_of read_finding ms ''findings'',
      wc_waived = list_of read_waived ms ''waived'', wc_policy_digest = text_of ms ''policyDigest'',
      wc_catalog_version = text_of ms ''catalogVersion'',
      wc_context_warnings = list_of string_value ms ''contextWarnings'',
      wc_policy_warnings = list_of string_value ms ''policyWarnings'', wc_path_anchor = text_of ms ''pathAnchor'',
      wc_path_prefix = text_of ms ''pathPrefix'', wc_undo_plan = list_of string_value ms ''undoPlan'',
      wc_blockers = list_of string_value ms ''blockers'', wc_grade_causes = list_of string_value ms ''gradeCauses'',
      wc_down = list_of read_down ms ''downMigrations''\<rparr>"

definition read_certificate :: "string \<Rightarrow> wire_certificate option" where
  "read_certificate s = (case decode_json s of Some (W_obj ms) \<Rightarrow> Some (read_members ms) | _ \<Rightarrow> None)"

lemma member_simps [simp]:
  "member [] k = None"
  "member ((k', v) # ms) k = (if k' = k then Some v else member ms k)"
  "member (some_text k' s @ ms) k = (if k' = k \<and> s \<noteq> [] then Some (W_str s) else member ms k)"
  "member (some_texts k' ss @ ms) k = (if k' = k \<and> ss \<noteq> [] then Some (texts ss) else member ms k)"
  "member (some_int k' i @ ms) k = (if k' = k \<and> i \<noteq> 0 then Some (W_int i) else member ms k)"
  "member (some_text k' s) k = (if k' = k \<and> s \<noteq> [] then Some (W_str s) else None)"
  "member (some_texts k' ss) k = (if k' = k \<and> ss \<noteq> [] then Some (texts ss) else None)"
  by (auto simp: member_def some_text_def some_texts_def some_int_def)

lemma list_of_texts [simp]: "map (string_value \<circ> W_str) ss = ss"
  by (simp add: comp_def)

lemma read_unanalyzed_json [simp]: "read_unanalyzed (unanalyzed_json u) = u"
  by (simp add: read_unanalyzed_def unanalyzed_json_def text_of_def)

lemma read_context_json [simp]: "read_context (context_json x) = x"
  by (simp add: read_context_def context_json_def text_of_def int_of_def)

lemma read_finding_json [simp]: "read_finding (finding_json f) = f"
  by (cases "wf_context f") (simp_all add: read_finding_def finding_json_def text_of_def int_of_def)

lemma read_waived_json [simp]: "read_waived (waived_json w) = w"
  by (simp add: read_waived_def waived_json_def text_of_def)

lemma read_down_json [simp]: "read_down (down_json d) = d"
  by (simp add: read_down_def down_json_def text_of_def bool_of_def list_of_def texts_def)

lemma read_certificate_members: "read_members (certificate_members c) = c"
  by (simp add: read_members_def certificate_members_def text_of_def bool_of_def list_of_def texts_def
      comp_def [of read_unanalyzed] comp_def [of read_finding] comp_def [of read_waived] comp_def [of read_down])

subsection \<open>Texts\<close>

text \<open>A value whose texts are UTF-8.\<close>

fun utf8_value :: "wire \<Rightarrow> bool" where
  "utf8_value (W_str s) = (repaired s = s)"
| "utf8_value (W_list vs) = list_all utf8_value vs"
| "utf8_value (W_obj ms) = list_all (\<lambda>m. repaired (fst m) = fst m \<and> utf8_value (snd m)) ms"
| "utf8_value v = True"

lemma repaired_utf8: "utf8_value v \<Longrightarrow> repaired_value v = v"
proof (induction v)
  case (W_list vs)
  then show ?case by (auto simp: list_all_iff intro!: map_idI)
next
  case (W_obj ms)
  then show ?case by (fastforce simp: list_all_iff snds.simps intro!: map_idI)
qed simp_all

definition ascii :: "string \<Rightarrow> bool" where
  "ascii s = list_all (\<lambda>c. \<not> digit7 c) s"

lemma ascii_char: "\<not> digit7 c \<Longrightarrow> (of_char c :: int) < 0x80"
proof (cases c)
  case (Char b0 b1 b2 b3 b4 b5 b6 b7)
  assume "\<not> digit7 c"
  moreover have "of_bool b \<le> (1 :: int)" for b by simp
  from this [of b0] this [of b1] this [of b2] this [of b3] this [of b4] this [of b5] this [of b6]
  have "of_bool b0 + 2 * (of_bool b1 + 2 * (of_bool b2 + 2 * (of_bool b3 + 2 * (of_bool b4 + 2 * (of_bool b5
      + 2 * of_bool b6))))) < (0x80 :: int)" by (simp add: distrib_left)
  ultimately show ?thesis using Char by simp
qed

lemma repaired_ascii: "ascii s \<Longrightarrow> repaired s = s"
proof -
  assume a: "ascii s"
  have "decode_runes bs = bs \<and> concat (map encode_rune bs) = bs" if "list_all (\<lambda>b. 0 \<le> b \<and> b < 0x80) bs" for bs
    using that by (induction bs) (simp_all add: decode_rune_def encode_rune_def valid_rune_def)
  moreover have "0 \<le> (of_char c :: int)" for c :: char
    using of_char_mod_256 [of c, where 'a = int] by (metis pos_mod_sign zero_less_numeral)
  then have "list_all (\<lambda>b. 0 \<le> b \<and> b < 0x80) (bytes_of s)" using a by (simp add: ascii_def bytes_of_def list_all_iff ascii_char)
  ultimately have "repaired s = string_of (bytes_of s)" by (simp add: repaired_def runes_def from_runes_def)
  then show ?thesis by (simp add: string_of_def bytes_of_def comp_def)
qed

lemma some_keys [simp]:
  "list_all (\<lambda>m. ascii (fst m)) (some_text k s) \<longleftrightarrow> s = [] \<or> ascii k"
  "list_all (\<lambda>m. ascii (fst m)) (some_texts k ss) \<longleftrightarrow> ss = [] \<or> ascii k"
  by (simp_all add: some_text_def some_texts_def)

lemma ascii_simps [simp]: "ascii []" "ascii (c # s) \<longleftrightarrow> \<not> digit7 c \<and> ascii s"
  by (simp_all add: ascii_def)

lemma certificate_keys: "m \<in> set (certificate_members c) \<Longrightarrow> repaired (fst m) = fst m"
proof (rule repaired_ascii)
  have "list_all (\<lambda>m. ascii (fst m)) (certificate_members c)" by (simp add: certificate_members_def)
  moreover assume "m \<in> set (certificate_members c)"
  ultimately show "ascii (fst m)" by (simp add: list_all_iff)
qed

lemma repaired_certificate_json:
  "repaired_value (certificate_json c) = W_obj (map (\<lambda>(k, v). (k, repaired_value v)) (certificate_members c))"
  by (auto simp: certificate_json_def certificate_keys)

lemma member_repaired: "member (map (\<lambda>(k, v). (k, repaired_value v)) ms) k = map_option repaired_value (member ms k)"
  by (simp add: member_def map_of_map)

subsection \<open>Back to the domain\<close>

definition rev_of_text :: "string \<Rightarrow> reversibility" where
  "rev_of_text s =
     (if s = ''REVERSIBLE'' then Reversible else if s = ''COSTLY'' then Costly
      else if s = ''IRREVERSIBLE'' then Irreversible else if s = ''UNKNOWN'' then Unknown
      else if s = ''WILL_FAIL'' then WillFail else Rev_other s)"

definition lock_of_text :: "string \<Rightarrow> lock_hazard" where
  "lock_of_text s =
     (if s = ''NONE'' then LockNone else if s = ''SHORT'' then LockShort else if s = ''FULL_SCAN'' then LockFullScan
      else if s = ''TABLE_REWRITE'' then LockTableRewrite else if s = ''EXCLUSIVE'' then LockExclusive
      else Lock_other s)"

definition band_of_text :: "string \<Rightarrow> lock_duration_band" where
  "band_of_text s =
     (if s = ''NEGLIGIBLE'' then BandNegligible else if s = ''NOTICEABLE'' then BandNoticeable
      else if s = ''DISRUPTIVE'' then BandDisruptive else if s = ''OUTAGE'' then BandOutage else Band_other s)"

definition grade_of_text :: "string \<Rightarrow> grade" where
  "grade_of_text s =
     (if s = ''A'' then GradeA else if s = ''B'' then GradeB else if s = ''C'' then GradeC
      else if s = ''F'' then GradeF else if s = ''N/A'' then GradeNA else Grade_other s)"

definition gate_of_text :: "string \<Rightarrow> gate_status" where
  "gate_of_text s = (if s = ''PASS'' then GatePass else if s = ''FAIL'' then GateFail else GateNotApplicable)"

definition coverage_of_text :: "string \<Rightarrow> coverage" where
  "coverage_of_text s =
     (if s = ''FULL'' then CoverageFull else if s = ''PARTIAL'' then CoveragePartial else Coverage_other s)"

definition outcome_of_text :: "string \<Rightarrow> analysis_outcome" where
  "outcome_of_text s =
     (if s = ''ANALYZED'' then OutcomeAnalyzed else if s = ''NO_CANDIDATES'' then OutcomeNoCandidates
      else if s = ''UNSUPPORTED_CONTENT'' then OutcomeUnsupportedContent else Outcome_other s)"

definition to_domain_finding :: "wire_finding \<Rightarrow> finding" where
  "to_domain_finding w =
     \<lparr>f_rule_id = wf_rule_id w, f_file = wf_file w, f_line = wf_line w, f_statement = wf_statement w,
      f_reversibility = rev_of_text (wf_reversibility w), f_lock = lock_of_text (wf_lock w),
      f_rationale = wf_rationale w, f_undo = wf_undo w, f_subject = no_subject,
      f_context = map_option (\<lambda>x.
        \<lparr>x_row_estimate = wx_row_estimate x, x_size_bytes = wx_size_bytes x,
         x_estimated_lock_duration = wx_duration x, x_context_note = wx_note x,
         x_band = band_of_text (wx_band x)\<rparr>) (wf_context w)\<rparr>"

definition to_domain :: "wire_certificate \<Rightarrow> certificate" where
  "to_domain w =
     \<lparr>c_schema_version = wc_schema_version w, c_grade = grade_of_text (wc_grade w),
      c_outcome = outcome_of_text (wc_outcome w), c_effective_grade = grade_of_text (wc_effective_grade w),
      c_gate = gate_of_text (wc_gate w), c_coverage = coverage_of_text (wc_coverage w),
      c_unanalyzed = map (\<lambda>u. \<lparr>u_path = wu_path u, u_reason = wu_reason u\<rparr>) (wc_unanalyzed w),
      c_ignored_by_policy = wc_ignored_by_policy w, c_applicable = wc_applicable w,
      c_input_digest = wc_input_digest w, c_findings = map to_domain_finding (wc_findings w),
      c_waived = map (\<lambda>v. \<lparr>w_finding = to_domain_finding (ww_finding v), w_reason = ww_reason v,
        w_expires = ww_expires v, w_approved_by = ww_approved_by v\<rparr>) (wc_waived w),
      c_policy_digest = wc_policy_digest w, c_catalog_version = wc_catalog_version w,
      c_context_warnings = wc_context_warnings w, c_policy_warnings = wc_policy_warnings w,
      c_path_anchor = wc_path_anchor w, c_path_prefix = wc_path_prefix w, c_undo_plan = wc_undo_plan w,
      c_blockers = wc_blockers w, c_grade_causes = wc_grade_causes w,
      c_down_migrations = map (\<lambda>d. \<lparr>d_migration = wd_migration d, d_up_file = wd_up_file d,
        d_down_file = wd_down_file d, d_exists = wd_exists d, d_parses = wd_parses d,
        d_symmetric = wd_symmetric d, d_symmetry_notes = wd_notes d\<rparr>) (wc_down w)\<rparr>"

text \<open>The subject of a finding is not published.\<close>

definition without_subjects :: "certificate \<Rightarrow> certificate" where
  "without_subjects x =
     x\<lparr>c_findings := map (\<lambda>f. f\<lparr>f_subject := no_subject\<rparr>) (c_findings x),
       c_waived := map (\<lambda>w. w\<lparr>w_finding := (w_finding w)\<lparr>f_subject := no_subject\<rparr>\<rparr>) (c_waived x)\<rparr>"

text \<open>No value of an enumeration outside its constants is spelled as one of them.\<close>

definition finding_spelled :: "finding \<Rightarrow> bool" where
  "finding_spelled f \<longleftrightarrow>
     rev_of_text (rev_text (f_reversibility f)) = f_reversibility f \<and> lock_of_text (lock_text (f_lock f)) = f_lock f
     \<and> (case f_context f of None \<Rightarrow> True | Some x \<Rightarrow> band_of_text (band_text (x_band x)) = x_band x)"

definition spelled :: "certificate \<Rightarrow> bool" where
  "spelled x \<longleftrightarrow>
     grade_of_text (grade_text (c_grade x)) = c_grade x
     \<and> grade_of_text (grade_text (c_effective_grade x)) = c_effective_grade x
     \<and> outcome_of_text (outcome_text (c_outcome x)) = c_outcome x
     \<and> coverage_of_text (coverage_text (c_coverage x)) = c_coverage x
     \<and> list_all finding_spelled (all_certificate_findings x)"

lemma gate_spelled [simp]: "gate_of_text (gate_text g) = g"
  by (cases g) (simp_all add: gate_of_text_def)

lemma to_from_finding: "finding_spelled f \<Longrightarrow> to_domain_finding (from_domain_finding f) = f\<lparr>f_subject := no_subject\<rparr>"
  by (cases "f_context f") (simp_all add: to_domain_finding_def from_domain_finding_def finding_spelled_def)

lemma to_from_waived:
  "finding_spelled (w_finding w) \<Longrightarrow>
     \<lparr>w_finding = to_domain_finding (from_domain_finding (w_finding w)), w_reason = w_reason w,
      w_expires = w_expires w, w_approved_by = w_approved_by w\<rparr>
     = w\<lparr>w_finding := (w_finding w)\<lparr>f_subject := no_subject\<rparr>\<rparr>"
  by (cases w) (simp add: to_from_finding)

lemma to_from_domain:
  assumes "spelled x"
  shows "to_domain (from_domain x) = without_subjects x"
proof (rule certificate.equality)
  have f: "finding_spelled f" if "f \<in> set (c_findings x)" for f
    using assms that by (auto simp: spelled_def list_all_iff all_certificate_findings_def)
  have w: "finding_spelled (w_finding w)" if "w \<in> set (c_waived x)" for w
    using assms that by (auto simp: spelled_def list_all_iff all_certificate_findings_def)
  show "c_findings (to_domain (from_domain x)) = c_findings (without_subjects x)"
    by (simp add: to_domain_def from_domain_def without_subjects_def to_from_finding f)
  show "c_waived (to_domain (from_domain x)) = c_waived (without_subjects x)"
    by (simp add: to_domain_def from_domain_def without_subjects_def to_from_waived w)
  show "c_unanalyzed (to_domain (from_domain x)) = c_unanalyzed (without_subjects x)"
    by (simp add: to_domain_def from_domain_def without_subjects_def map_idI)
  show "c_down_migrations (to_domain (from_domain x)) = c_down_migrations (without_subjects x)"
    by (simp add: to_domain_def from_domain_def without_subjects_def map_idI)
qed (use assms in \<open>simp_all add: to_domain_def from_domain_def without_subjects_def spelled_def\<close>)

lemma read_rendered: "utf8_value (certificate_json (from_domain x)) \<Longrightarrow> read_certificate (render_json x) = Some (from_domain x)"
  by (simp add: read_certificate_def render_json_def decode_encode_json repaired_utf8)
    (simp add: certificate_json_def read_certificate_members)

subsection \<open>Properties\<close>

text \<open>C31. The JSON form carries the whole certificate: a program that parses the bytes and fills the public struct
  has everything the engine decided, the subjects of findings apart, and with the types of the domain it has
  the certificate itself. This holds for every certificate whose texts are UTF-8.\<close>

theorem certificate_round_trip:
  assumes "utf8_value (certificate_json (from_domain x))" and "spelled x"
  shows "map_option to_domain (read_certificate (render_json x)) = Some (without_subjects x)"
  using assms by (simp add: read_rendered to_from_domain)

definition sample_certificate :: certificate where
  "sample_certificate =
     \<lparr>c_schema_version = schema_version, c_grade = GradeF, c_outcome = OutcomeAnalyzed, c_effective_grade = GradeB,
      c_gate = GateFail, c_coverage = CoveragePartial,
      c_unanalyzed = [\<lparr>u_path = ''m/2.py'', u_reason = ''<no analyzer>''\<rparr>], c_ignored_by_policy = [],
      c_applicable = True, c_input_digest = ''d'', c_findings = [],
      c_waived = [\<lparr>w_finding =
         \<lparr>f_rule_id = ''PG001'', f_file = ''a.sql'', f_line = 3, f_statement = ''DROP TABLE t'',
          f_reversibility = Irreversible, f_lock = LockExclusive, f_rationale = [], f_undo = [],
          f_subject = \<lparr>s_relation = [], s_object = ''t''\<rparr>,
          f_context = Some \<lparr>x_row_estimate = 0, x_size_bytes = 12, x_estimated_lock_duration = [],
            x_context_note = ''big'', x_band = BandOutage\<rparr>\<rparr>,
         w_reason = ''seen'', w_expires = ''2030-01-01'', w_approved_by = []\<rparr>],
      c_policy_digest = [], c_catalog_version = [], c_context_warnings = [], c_policy_warnings = [''idle''],
      c_path_anchor = [], c_path_prefix = [], c_undo_plan = [], c_blockers = [''m/2.py''],
      c_grade_causes = [''cap''],
      c_down_migrations = [\<lparr>d_migration = ''1'', d_up_file = ''1.up.sql'', d_down_file = [], d_exists = False,
        d_parses = False, d_symmetric = False, d_symmetry_notes = [''none'']\<rparr>]\<rparr>"

theorem certificate_round_trip_witness:
  "map_option to_domain (read_certificate (render_json sample_certificate)) = Some (without_subjects sample_certificate)"
proof (rule certificate_round_trip)
  show "utf8_value (certificate_json (from_domain sample_certificate))"
    by (simp add: sample_certificate_def from_domain_def certificate_json_def certificate_members_def some_text_def
        some_texts_def some_int_def texts_def unanalyzed_json_def waived_json_def finding_json_def context_json_def
        from_domain_finding_def down_json_def schema_version_def repaired_ascii)
  show "spelled sample_certificate" by code_simp
qed

lemma read_certificate_json:
  "read_certificate (render_json x)
     = Some (read_members (map (\<lambda>(k, v). (k, repaired_value v)) (certificate_members (from_domain x))))"
  by (simp add: read_certificate_def render_json_def decode_encode_json repaired_certificate_json
      del: repaired_value.simps)

lemma passed_rendered:
  assumes "read_certificate (render_json x) = Some w"
  shows "passed w \<longleftrightarrow> c_gate x = GatePass"
proof -
  let ?ms = "map (\<lambda>(k, v). (k, repaired_value v)) (certificate_members (from_domain x))"
  have m: "member ?ms k = map_option repaired_value (member (certificate_members (from_domain x)) k)" for k
    by (rule member_repaired)
  have "wc_gate (read_members ?ms) = gate_text (c_gate x)"
    by (cases "c_gate x")
      (simp_all add: read_members_def text_of_def m certificate_members_def from_domain_def repaired_ascii)
  with assms show ?thesis
    unfolding read_certificate_json passed_def by (cases "c_gate x") (auto simp: wire_gate_pass_def)
qed

text \<open>C30. What a consumer may rely on, whatever bytes the texts of the certificate hold: the JSON of every run
  parses, \<open>Passed\<close> on it is the gate of the engine, and a certificate that passed says grade A, analyzed,
  full coverage, nothing unread, no blocker, and nothing but reversible findings.\<close>

theorem consumers_see_the_verdict:
  assumes "x = fst (certify sha e cancelled c given)"
  shows "\<exists>w. read_certificate (render_json x) = Some w
    \<and> (passed w \<longleftrightarrow> c_gate x = GatePass)
    \<and> (\<not> passed w \<or> wc_grade w = ''A'' \<and> assessed w \<and> fully_covered w \<and> wc_unanalyzed w = []
        \<and> wc_blockers w = [] \<and> list_all (\<lambda>f. wf_reversibility f = ''REVERSIBLE'') (wc_findings w))"
proof -
  define ms where "ms = map (\<lambda>(k, v). (k, repaired_value v)) (certificate_members (from_domain x))"
  have read: "read_certificate (render_json x) = Some (read_members ms)"
    unfolding ms_def by (rule read_certificate_json)
  have m: "member ms k = map_option repaired_value (member (certificate_members (from_domain x)) k)" for k
    unfolding ms_def by (rule member_repaired)
  have pass: "passed (read_members ms) \<longleftrightarrow> c_gate x = GatePass"
    using read by (rule passed_rendered)
  have "consistent x"
    unfolding assms
    by (cases rule: certify_cases [of sha e cancelled c given]) (auto simp: consistent_failure consistent_conclude)
  then have ok: "c_grade x = GradeA" "c_outcome x = OutcomeAnalyzed" "c_coverage x = CoverageFull" "c_unanalyzed x = []"
    "c_blockers x = []" if "c_gate x = GatePass"
    using that by (auto simp: consistent_def)
  have rev: "list_all (\<lambda>f. f_reversibility f = Reversible) (c_findings x)" if "c_gate x = GatePass"
    using carried_findings [OF assms] that by (auto simp: list_all_iff all_certificate_findings_def)
  have "wc_grade (read_members ms) = ''A'' \<and> assessed (read_members ms) \<and> fully_covered (read_members ms)
      \<and> wc_unanalyzed (read_members ms) = [] \<and> wc_blockers (read_members ms) = []
      \<and> list_all (\<lambda>f. wf_reversibility f = ''REVERSIBLE'') (wc_findings (read_members ms))"
    if p: "c_gate x = GatePass"
    using rev [OF p]
    by (simp add: read_members_def text_of_def list_of_def m certificate_members_def from_domain_def ok [OF p]
        repaired_ascii assessed_def fully_covered_def wire_outcome_analyzed_def wire_coverage_full_def texts_def
        list_all_iff read_finding_def finding_json_def from_domain_finding_def)
  with read pass show ?thesis by blast
qed

theorem consumers_see_the_verdict_witness:
  "\<exists>w. read_certificate (render_json forged_run) = Some w \<and> \<not> passed w"
  using consumers_see_the_verdict [OF forged_run_def] forged_blocker by blast

text \<open>The formats are listed in order and each names its own renderer; any other name is refused with the list.\<close>

theorem renderers_by_name:
  "formats = [''json'', ''markdown'', ''sarif'']
   \<and> (renderer_for name = Inr r \<longleftrightarrow> name = renderer_format r)
   \<and> (name \<in> set formats \<longleftrightarrow> (\<exists>r. renderer_for name = Inr r))"
proof -
  have formats: "formats = [''json'', ''markdown'', ''sarif'']" by code_simp
  have name: "renderer_for name = Inr r \<longleftrightarrow> name = renderer_format r" for r
    by (cases r) (simp_all add: renderer_for_def format_json_def format_markdown_def format_sarif_def)
  have "(\<exists>r. P r) \<longleftrightarrow> P Json_renderer \<or> P Markdown_renderer \<or> P Sarif_renderer" for P
    by (metis renderer.exhaust)
  from this [of "\<lambda>r. name = renderer_format r"]
  have "(\<exists>r. name = renderer_format r) \<longleftrightarrow> name \<in> {format_json, format_markdown, format_sarif}"
    by (simp only: renderer_format.simps insert_iff empty_iff simp_thms)
  then have "name \<in> set formats \<longleftrightarrow> (\<exists>r. renderer_for name = Inr r)"
    unfolding name formats by (simp only: list.set format_json_def format_markdown_def format_sarif_def)
  with formats name show ?thesis by blast
qed

end
