(* ===== verification/Sarif_Format.thy ===== *)
theory Sarif_Format
  imports Wire_Format
begin

text \<open>
  The bytes of a SARIF log, the rest of \<open>internal/render/sarif.go\<close>: the tags of the structs, whose members
  \<open>encoding/json\<close> writes in the order of the fields. A reader that follows the names of the members finds
  the level of every result and the verdict of the run, whatever bytes the texts of the certificate hold.
\<close>

subsection \<open>Writing\<close>

definition sarif_text :: "string \<Rightarrow> wire" where
  "sarif_text s = W_obj [(''text'', W_str s)]"

definition sarif_rule_json :: "sarif_rule \<Rightarrow> wire" where
  "sarif_rule_json r = W_obj
     [(''id'', W_str (sr_id r)), (''name'', W_str (sr_name r)), (''shortDescription'', sarif_text (sr_short r)),
      (''fullDescription'', sarif_text (sr_full r)),
      (''defaultConfiguration'', W_obj [(''level'', W_str (sr_level r))]),
      (''properties'', W_obj [(''reversibility'', W_str (sr_reversibility r)), (''tags'', texts (sr_tags r))])]"

definition sarif_region_json :: "int option \<Rightarrow> members" where
  "sarif_region_json start = (case start of None \<Rightarrow> [] | Some n \<Rightarrow> [(''region'', W_obj [(''startLine'', W_int n)])])"

definition sarif_location_json :: "sarif_location \<Rightarrow> wire" where
  "sarif_location_json l = W_obj
     [(''physicalLocation'', W_obj ((''artifactLocation'', W_obj [(''uri'', W_str (sl_uri l))])
        # sarif_region_json (sl_start_line l)))]"

definition sarif_suppression_json :: "sarif_suppression \<Rightarrow> wire" where
  "sarif_suppression_json s = W_obj [(''kind'', W_str (ss_kind s)), (''justification'', W_str (ss_justification s))]"

definition sarif_result_json :: "sarif_result \<Rightarrow> wire" where
  "sarif_result_json r = W_obj
     ([(''ruleId'', W_str (sx_rule_id r)), (''level'', W_str (sx_level r)), (''message'', sarif_text (sx_message r)),
       (''locations'', W_list (map sarif_location_json (sx_locations r)))]
      @ (if sx_suppressions r = [] then []
         else [(''suppressions'', W_list (map sarif_suppression_json (sx_suppressions r)))]))"

definition sarif_props_json :: "sarif_props \<Rightarrow> wire" where
  "sarif_props_json p = W_obj
     ([(''grade'', W_str (sp_grade p)), (''effectiveGrade'', W_str (sp_effective_grade p)),
       (''aiGateStatus'', W_str (gate_text (sp_gate p))), (''outcome'', W_str (outcome_text (sp_outcome p))),
       (''coverage'', W_str (coverage_text (sp_coverage p))), (''unanalyzedFileCount'', W_int (int (sp_unanalyzed p))),
       (''policyIgnoredFileCount'', W_int (int (sp_policy_ignored p))), (''applicable'', W_bool (sp_applicable p)),
       (''inputDigest'', W_str (sp_input_digest p))]
      @ some_text ''policyDigest'' (sp_policy_digest p)
      @ [(''certificateSchemaVersion'', W_str (sp_schema_version p))])"

definition sarif_invocation_json :: "sarif_log \<Rightarrow> wire" where
  "sarif_invocation_json g = W_obj
     [(''executionSuccessful'', W_bool (sg_successful g)), (''exitCodeDescription'', W_str (sg_exit_description g)),
      (''properties'', sarif_props_json (sg_props g))]"

definition sarif_driver_json :: "sarif_log \<Rightarrow> wire" where
  "sarif_driver_json g = W_obj
     [(''name'', W_str (sg_tool_name g)), (''version'', W_str (sg_tool_version g)),
      (''informationUri'', W_str (sg_tool_uri g)), (''rules'', W_list (map sarif_rule_json (sg_rules g)))]"

definition sarif_run_json :: "sarif_log \<Rightarrow> wire" where
  "sarif_run_json g = W_obj
     [(''tool'', W_obj [(''driver'', sarif_driver_json g)]), (''results'', W_list (map sarif_result_json (sg_results g))),
      (''invocations'', W_list [sarif_invocation_json g])]"

definition sarif_json :: "sarif_log \<Rightarrow> wire" where
  "sarif_json g = W_obj
     [(''$schema'', W_str (sg_schema g)), (''version'', W_str (sg_version g)), (''runs'', W_list [sarif_run_json g])]"

definition render_sarif_text :: "certificate \<Rightarrow> string" where
  "render_sarif_text x = encode_json (sarif_json (render_sarif x))"

subsection \<open>Reading\<close>

definition object_at :: "members \<Rightarrow> string \<Rightarrow> members" where
  "object_at ms k = (case member ms k of Some v \<Rightarrow> members_of v | None \<Rightarrow> [])"

definition first_at :: "members \<Rightarrow> string \<Rightarrow> members" where
  "first_at ms k = (case member ms k of Some (W_list (v # vs)) \<Rightarrow> members_of v | _ \<Rightarrow> [])"

text \<open>The rule and the level of every result, and the verdict of the run.\<close>

definition read_results :: "string \<Rightarrow> (string \<times> string) list option" where
  "read_results s =
     (case decode_json s of
        Some (W_obj ms) \<Rightarrow>
          Some (list_of (\<lambda>v. (text_of (members_of v) ''ruleId'', text_of (members_of v) ''level'')) (first_at ms ''runs'') ''results'')
      | _ \<Rightarrow> None)"

definition read_verdict :: "string \<Rightarrow> string option" where
  "read_verdict s =
     (case decode_json s of
        Some (W_obj ms) \<Rightarrow>
          Some (text_of (object_at (first_at (first_at ms ''runs'') ''invocations'') ''properties'') ''aiGateStatus'')
      | _ \<Rightarrow> None)"

lemma decode_sarif: "decode_json (render_sarif_text x) = Some (repaired_value (sarif_json (render_sarif x)))"
  by (simp add: render_sarif_text_def decode_encode_json)

lemma repaired_runs:
  "repaired_value (sarif_json g) = W_obj
     [(''$schema'', W_str (repaired (sg_schema g))), (''version'', W_str (repaired (sg_version g))),
      (''runs'', W_list [repaired_value (sarif_run_json g)])]"
  by (simp add: sarif_json_def repaired_ascii)

lemma repaired_run:
  "repaired_value (sarif_run_json g) = W_obj
     [(''tool'', repaired_value (W_obj [(''driver'', sarif_driver_json g)])),
      (''results'', W_list (map (repaired_value \<circ> sarif_result_json) (sg_results g))),
      (''invocations'', W_list [repaired_value (sarif_invocation_json g)])]"
  by (simp add: sarif_run_json_def repaired_ascii)

lemma repaired_result:
  "text_of (members_of (repaired_value (sarif_result_json r))) ''ruleId'' = repaired (sx_rule_id r)"
  "text_of (members_of (repaired_value (sarif_result_json r))) ''level'' = repaired (sx_level r)"
  by (simp_all add: sarif_result_json_def text_of_def repaired_ascii)

lemma repaired_invocation:
  "members_of (repaired_value (sarif_invocation_json g)) =
     [(''executionSuccessful'', W_bool (sg_successful g)), (''exitCodeDescription'', W_str (repaired (sg_exit_description g))),
      (''properties'', repaired_value (sarif_props_json (sg_props g)))]"
  by (simp add: sarif_invocation_json_def repaired_ascii)

lemma repaired_props:
  "text_of (members_of (repaired_value (sarif_props_json p))) ''aiGateStatus'' = gate_text (sp_gate p)"
  by (cases "sp_gate p") (simp_all add: sarif_props_json_def text_of_def repaired_ascii)

lemma level_ascii: "repaired (sarif_level r) = sarif_level r"
  by (rule repaired_ascii) (cases r; simp)

subsection \<open>Properties\<close>

text \<open>C35. A program that reads the SARIF text finds a result for every finding of the certificate, waived ones
  included, with the level of its reversibility, and the verdict of the engine.\<close>

theorem sarif_text_says_the_verdict:
  "read_results (render_sarif_text x)
     = Some (map (\<lambda>f. (repaired (f_rule_id f), sarif_level (f_reversibility f))) (all_certificate_findings x))
   \<and> read_verdict (render_sarif_text x) = Some (gate_text (c_gate x))"
proof
  let ?g = "render_sarif x"
  have "sg_results ?g = map sarif_result_of (c_findings x) @ sarif_waived_results (c_waived x)"
    by (simp add: render_sarif_def sarif_results_def)
  then have "map (\<lambda>r. (repaired (sx_rule_id r), repaired (sx_level r))) (sg_results ?g)
      = map (\<lambda>f. (repaired (f_rule_id f), sarif_level (f_reversibility f))) (all_certificate_findings x)"
    by (simp add: sarif_waived_map all_certificate_findings_def sarif_result_of_def level_ascii comp_def)
  then show "read_results (render_sarif_text x)
     = Some (map (\<lambda>f. (repaired (f_rule_id f), sarif_level (f_reversibility f))) (all_certificate_findings x))"
    by (simp add: read_results_def decode_sarif repaired_runs repaired_run first_at_def list_of_def repaired_result
        comp_def del: repaired_value.simps)
  have "sp_gate (sg_props ?g) = c_gate x" by (simp add: render_sarif_def)
  then show "read_verdict (render_sarif_text x) = Some (gate_text (c_gate x))"
    by (simp add: read_verdict_def decode_sarif repaired_runs repaired_run first_at_def object_at_def
        repaired_invocation repaired_props del: repaired_value.simps)
qed

end
