(* ===== verification/Postgres_Complexity.thy ===== *)
theory Postgres_Complexity
  imports Prelude
begin

text \<open>
  The guard in front of the SQL parser, \<open>internal/analyzer/postgres/parser/complexity.go\<close>. The scan
  moves over the bytes of the text; the position in the source is the rest of the text here, so the
  functions that skip a literal or a comment return what follows it. \<open>tokens\<close> is the same scan
  as a list of the tokens the guard counts, and the guard is proved to be a check of that list.
\<close>

definition max_nesting_depth :: int where "max_nesting_depth = 100"
definition max_operators_per_stmt :: int where "max_operators_per_stmt = 500"

definition operator_chars :: string where "operator_chars = ''+-*/<>=~!@#%^&|?''"

definition word_operators :: "string list" where
  "word_operators = [''NOT'', ''AND'', ''OR'', ''IS'', ''LIKE'', ''ILIKE'', ''SIMILAR'', ''BETWEEN'',
     ''OVERLAPS'', ''IN'']"

definition is_letter :: "char \<Rightarrow> bool" where
  "is_letter c \<longleftrightarrow> (97 \<le> (of_char c :: nat) \<and> (of_char c :: nat) \<le> 122)
     \<or> (65 \<le> (of_char c :: nat) \<and> (of_char c :: nat) \<le> 90)"

definition is_identifier_start :: "char \<Rightarrow> bool" where
  "is_identifier_start c \<longleftrightarrow> c = CHR ''_'' \<or> is_letter c"

definition is_word_char :: "char \<Rightarrow> bool" where
  "is_word_char c \<longleftrightarrow> c = CHR ''_'' \<or> c = CHR ''$'' \<or> is_letter c
     \<or> (48 \<le> (of_char c :: nat) \<and> (of_char c :: nat) \<le> 57)"

subsection \<open>Skipping\<close>

definition skip_line_comment :: "string \<Rightarrow> string" where
  "skip_line_comment s = drop 1 (dropWhile (\<lambda>c. c \<noteq> CHR 0x0A) s)"

fun skip_block_comment :: "int \<Rightarrow> string \<Rightarrow> string" where
  "skip_block_comment depth [] = []"
| "skip_block_comment depth [c] = []"
| "skip_block_comment depth (c # d # s) =
     (if c = CHR ''/'' \<and> d = CHR ''*'' then skip_block_comment (depth + 1) s
      else if c = CHR ''*'' \<and> d = CHR ''/'' then
        (if depth - 1 = 0 then s else skip_block_comment (depth - 1) s)
      else skip_block_comment depth (d # s))"

text \<open>After the opening quote.\<close>

fun skip_quoted :: "char \<Rightarrow> string \<Rightarrow> string" where
  "skip_quoted q [] = []"
| "skip_quoted q [c] = []"
| "skip_quoted q (c # d # s) =
     (if c \<noteq> q then skip_quoted q (d # s)
      else if d = q then skip_quoted q s
      else d # s)"

text \<open>What follows the first occurrence of a text, if it occurs.\<close>

fun after_first :: "string \<Rightarrow> string \<Rightarrow> string option" where
  "after_first p [] = (if p = [] then Some [] else None)"
| "after_first p (c # s) =
     (if has_prefix (c # s) p then Some (drop (length p) (c # s)) else after_first p s)"

text \<open>At a dollar sign, given what follows it: the text after the dollar-quoted body, if this is one.\<close>

definition skip_dollar_quoted :: "string \<Rightarrow> string option" where
  "skip_dollar_quoted s =
     (let name = takeWhile (\<lambda>c. c \<noteq> CHR ''$'') s; rest = dropWhile (\<lambda>c. c \<noteq> CHR ''$'') s in
      if rest = [] then None
      else if \<not> list_all (\<lambda>c. c = CHR ''_'' \<or> is_letter c) name then None
      else
        (case after_first (''$'' @ name @ ''$'') (drop 1 rest) of
           None \<Rightarrow> Some []
         | Some body_end \<Rightarrow> Some body_end))"

lemma length_skip_line_comment: "length (skip_line_comment s) \<le> length s"
  unfolding skip_line_comment_def using length_dropWhile_le [of "\<lambda>c. c \<noteq> CHR 0x0A" s] by simp

lemma length_skip_block_comment: "length (skip_block_comment d s) \<le> length s"
  by (induction d s rule: skip_block_comment.induct) auto

lemma length_skip_quoted: "length (skip_quoted q s) \<le> length s"
  by (induction q s rule: skip_quoted.induct) auto

lemma length_after_first: "after_first p s = Some r \<Longrightarrow> length r \<le> length s"
  by (induction p s rule: after_first.induct) (auto split: if_splits)

lemma length_skip_dollar_quoted: "skip_dollar_quoted s = Some r \<Longrightarrow> length r \<le> length s"
  using length_dropWhile_le [of "\<lambda>c. c \<noteq> CHR ''$''" s]
  by (fastforce simp: skip_dollar_quoted_def Let_def dest: length_after_first
      split: if_splits option.splits)

subsection \<open>The guard\<close>

datatype too_complex = Nests int | Chains int

record guard_state =
  g_depth :: int
  g_max_depth :: int
  g_operators :: int
  g_statement :: int

definition guard_start :: guard_state where
  "guard_start = \<lparr>g_depth = 0, g_max_depth = 0, g_operators = 0, g_statement = 1\<rparr>"

text \<open>One turn of the scan: which of the cases of the switch applies, and what is left of the text.\<close>

datatype token = Operator | Opening | Closing | Semicolon | Skipped

definition next_token :: "char \<Rightarrow> string \<Rightarrow> token \<times> string" where
  "next_token c r =
     (if has_prefix (c # r) ''--'' then (Skipped, skip_line_comment (c # r))
      else if has_prefix (c # r) ''/*'' then (Skipped, skip_block_comment 1 (drop 1 r))
      else if c = CHR 0x27 \<or> c = CHR 0x22 then (Skipped, skip_quoted c r)
      else if c = CHR ''$'' then
        (case skip_dollar_quoted r of Some rest \<Rightarrow> (Skipped, rest) | None \<Rightarrow> (Skipped, r))
      else if c = CHR ''('' then (Opening, r)
      else if c = CHR '')'' then (Closing, r)
      else if c = CHR '';'' then (Semicolon, r)
      else if c \<in> set operator_chars then (Operator, dropWhile (\<lambda>x. x \<in> set operator_chars) r)
      else if is_identifier_start c then
        (if to_upper (c # takeWhile is_word_char r) \<in> set word_operators then Operator else Skipped,
         dropWhile is_word_char r)
      else (Skipped, r))"

text \<open>What the case does to the counters.\<close>

definition count_token :: "token \<Rightarrow> guard_state \<Rightarrow> too_complex + guard_state" where
  "count_token t g =
     (case t of
        Opening \<Rightarrow>
          (let d = g_depth g + 1; m = (if g_max_depth g < d then d else g_max_depth g) in
           if max_nesting_depth < m then Inl (Nests (g_statement g))
           else Inr (g\<lparr>g_depth := d, g_max_depth := m\<rparr>))
      | Closing \<Rightarrow> Inr (g\<lparr>g_depth := (if 0 < g_depth g then g_depth g - 1 else g_depth g)\<rparr>)
      | Semicolon \<Rightarrow>
          Inr \<lparr>g_depth = 0, g_max_depth = 0, g_operators = 0, g_statement = g_statement g + 1\<rparr>
      | Operator \<Rightarrow>
          (if max_operators_per_stmt < g_operators g + 1 then Inl (Chains (g_statement g))
           else Inr (g\<lparr>g_operators := g_operators g + 1\<rparr>))
      | Skipped \<Rightarrow> Inr g)"

lemma next_token_shorter: "length (snd (next_token c r)) \<le> length r"
proof -
  have line: "length (skip_line_comment (c # r)) \<le> length r" if "has_prefix (c # r) ''--''"
  proof -
    from that have "c \<noteq> CHR 0x0A" by (auto simp: has_prefix_def)
    then have "skip_line_comment (c # r) = skip_line_comment r" by (simp add: skip_line_comment_def)
    then show ?thesis by (simp add: length_skip_line_comment)
  qed
  have block: "length (skip_block_comment 1 (drop 1 r)) \<le> length r"
    using length_skip_block_comment [of 1 "drop 1 r"] by simp
  have dollar: "length rest \<le> length r" if "skip_dollar_quoted r = Some rest" for rest
    using that by (rule length_skip_dollar_quoted)
  show ?thesis
    unfolding next_token_def
    using line block dollar length_skip_quoted [of c r] length_dropWhile_le [of _ r]
    by (simp split: option.split)
qed

function guard_loop :: "string \<Rightarrow> guard_state \<Rightarrow> too_complex option" where
  "guard_loop [] g = None"
| "guard_loop (c # r) g =
     (case count_token (fst (next_token c r)) g of
        Inl e \<Rightarrow> Some e
      | Inr g' \<Rightarrow> guard_loop (snd (next_token c r)) g')"
  by pat_completeness auto

termination
  by (relation "measure (\<lambda>(s, g). length s)") (auto simp: next_token_shorter less_Suc_eq_le)

definition guard_complexity :: "string \<Rightarrow> too_complex option" where
  "guard_complexity sql = guard_loop sql guard_start"

fun too_complex_text :: "too_complex \<Rightarrow> string" where
  "too_complex_text (Nests n) =
     ''parse: input is too deeply structured to parse safely: statement '' @ itoa n
     @ '' nests more than '' @ itoa max_nesting_depth @ '' levels deep''"
| "too_complex_text (Chains n) =
     ''parse: input is too deeply structured to parse safely: statement '' @ itoa n
     @ '' chains more than '' @ itoa max_operators_per_stmt @ '' operators''"

subsection \<open>The tokens of a text\<close>

function tokens :: "string \<Rightarrow> token list" where
  "tokens [] = []"
| "tokens (c # r) = fst (next_token c r) # tokens (snd (next_token c r))"
  by pat_completeness auto

termination
  by (relation "measure length") (auto simp: next_token_shorter less_Suc_eq_le)

fun statements :: "token list \<Rightarrow> token list list" where
  "statements [] = [[]]"
| "statements (t # ts) =
     (if t = Semicolon then [] # statements ts
      else (case statements ts of [] \<Rightarrow> [[t]] | u # us \<Rightarrow> (t # u) # us))"

text \<open>The greatest nesting of a statement that starts at a depth, where a closing parenthesis too many is
  ignored.\<close>

fun nesting :: "int \<Rightarrow> token list \<Rightarrow> int" where
  "nesting d [] = d"
| "nesting d (t # ts) =
     (if t = Opening then max d (nesting (d + 1) ts)
      else if t = Closing then max d (nesting (max 0 (d - 1)) ts)
      else nesting d ts)"

definition operators :: "token list \<Rightarrow> int" where
  "operators ts = int (length (filter (\<lambda>t. t = Operator) ts))"

definition simple_statement :: "token list \<Rightarrow> bool" where
  "simple_statement ts \<longleftrightarrow> nesting 0 ts \<le> max_nesting_depth \<and> operators ts \<le> max_operators_per_stmt"

subsection \<open>Lemmas\<close>

lemma statements_nonempty [simp]: "statements ts \<noteq> []"
  by (cases ts) (auto split: list.splits)

lemma nesting_ge: "d \<le> nesting d ts"
  by (induction d ts rule: nesting.induct) auto

text \<open>The guard from a state in the middle of a statement.\<close>

definition state_ok :: "guard_state \<Rightarrow> bool" where
  "state_ok g \<longleftrightarrow> 0 \<le> g_depth g \<and> g_depth g \<le> g_max_depth g \<and> g_max_depth g \<le> max_nesting_depth
     \<and> g_operators g \<le> max_operators_per_stmt"

lemma operators_Cons [simp]: "operators (t # ts) = (if t = Operator then 1 else 0) + operators ts"
  by (simp add: operators_def)

lemma operators_nonneg [simp]: "0 \<le> operators ts"
  by (simp add: operators_def)

lemma statements_Cons_not_semi:
  "t \<noteq> Semicolon \<Longrightarrow> statements ts = u # us \<Longrightarrow> statements (t # ts) = (t # u) # us"
  by simp

lemma guard_loop_tokens:
  assumes "state_ok g" and "statements (tokens s) = u # us"
  shows "guard_loop s g = None \<longleftrightarrow>
     nesting (g_depth g) u \<le> max_nesting_depth \<and> g_operators g + operators u \<le> max_operators_per_stmt
     \<and> list_all simple_statement us"
  using assms
proof (induction s g arbitrary: u us rule: guard_loop.induct)
  case (1 g)
  then show ?case by (auto simp: state_ok_def operators_def)
next
  case (2 c r g)
  obtain t rest where tr: "next_token c r = (t, rest)" by force
  obtain u' us' where u': "statements (tokens rest) = u' # us'"
    by (cases "statements (tokens rest)") auto
  note IH = 2(1) [unfolded tr fst_conv snd_conv, OF _ _ u']
  show ?case
  proof (cases t)
    case Semicolon
    with 2 tr u' have "u = []" and "us = u' # us'" by simp_all
    moreover have "state_ok \<lparr>g_depth = 0, g_max_depth = 0, g_operators = 0, g_statement = g_statement g + 1\<rparr>"
      by (simp add: state_ok_def max_nesting_depth_def max_operators_per_stmt_def)
    ultimately show ?thesis
      using IH 2(2) tr Semicolon
      by (auto simp: count_token_def state_ok_def simple_statement_def operators_def)
  next
    case Operator
    with 2 tr u' have "u = Operator # u'" and "us = us'" by simp_all
    moreover have pos: "\<not> 1 + operators u' \<le> 0" using operators_nonneg [of u'] by linarith
    ultimately show ?thesis
      using IH [of "g\<lparr>g_operators := g_operators g + 1\<rparr>"] 2(2) tr Operator pos
      by (auto simp: count_token_def state_ok_def)
  next
    case Opening
    with 2 tr u' have u: "u = Opening # u'" and "us = us'" by simp_all
    let ?d = "g_depth g + 1"
    let ?m = "if g_max_depth g < ?d then ?d else g_max_depth g"
    have step: "count_token t g = (if max_nesting_depth < ?m then Inl (Nests (g_statement g))
        else Inr (g\<lparr>g_depth := ?d, g_max_depth := ?m\<rparr>))"
      by (simp only: Opening count_token_def token.case Let_def)
    have nest: "nesting (g_depth g) u = nesting ?d u'"
      using nesting_ge [of ?d u'] by (simp add: u)
    show ?thesis
    proof (cases "max_nesting_depth < ?m")
      case True
      then have "max_nesting_depth < ?d" using 2(2) by (simp add: state_ok_def split: if_splits)
      then have "max_nesting_depth < nesting ?d u'" using nesting_ge [of ?d u'] by linarith
      with True step tr nest show ?thesis by simp
    next
      case False
      then have "state_ok (g\<lparr>g_depth := ?d, g_max_depth := ?m\<rparr>)"
        using 2(2) by (simp add: state_ok_def split: if_splits)
      from IH [OF _ this] have "guard_loop rest (g\<lparr>g_depth := ?d, g_max_depth := ?m\<rparr>) = None \<longleftrightarrow>
          nesting ?d u' \<le> max_nesting_depth \<and> g_operators g + operators u' \<le> max_operators_per_stmt
          \<and> list_all simple_statement us'"
        using False step tr by simp
      with False step tr nest u \<open>us = us'\<close> show ?thesis by simp
    qed
  next
    case Closing
    with 2 tr u' have u: "u = Closing # u'" and "us = us'" by simp_all
    then show ?thesis
      using IH [of "g\<lparr>g_depth := (if 0 < g_depth g then g_depth g - 1 else g_depth g)\<rparr>"]
        2(2) tr Closing
      by (auto simp: count_token_def state_ok_def max_def split: if_splits)
  next
    case Skipped
    with 2 tr u' have u: "u = Skipped # u'" and "us = us'" by simp_all
    then show ?thesis using IH [of g] 2(2) tr Skipped by (auto simp: count_token_def)
  qed
qed

lemma guard_bounds:
  "guard_complexity sql = None \<longleftrightarrow> list_all simple_statement (statements (tokens sql))"
proof -
  obtain u us where s: "statements (tokens sql) = u # us" by (cases "statements (tokens sql)") auto
  have "state_ok guard_start"
    by (simp add: state_ok_def guard_start_def max_nesting_depth_def max_operators_per_stmt_def)
  from guard_loop_tokens [OF this s] s show ?thesis
    by (simp add: guard_complexity_def guard_start_def simple_statement_def)
qed

subsection \<open>Properties\<close>

text \<open>C20. The guard accepts a text exactly when each of its statements, as the scan tokenises them, nests
  at most 100 levels of parentheses and chains at most 500 operators.\<close>

theorem guard_bounds_every_statement:
  "guard_complexity sql = None \<longleftrightarrow> list_all simple_statement (statements (tokens sql))"
  by (rule guard_bounds)

text \<open>A chain of operators in the plain is refused: a statement of more than 500 additions does not
  reach the parser.\<close>

definition additions :: "nat \<Rightarrow> string" where
  "additions n = concat (replicate n ''+1'')"

lemma next_token_plus: "next_token (CHR ''+'') (CHR ''1'' # s) = (Operator, CHR ''1'' # s)"
  by (simp add: next_token_def has_prefix_def operator_chars_def)

lemma next_token_one: "next_token (CHR ''1'') s = (Skipped, s)"
  by (simp add: next_token_def has_prefix_def operator_chars_def is_identifier_start_def is_letter_def)

lemma tokens_additions: "tokens (additions n) = concat (replicate n [Operator, Skipped])"
  by (induction n) (simp_all add: additions_def next_token_plus next_token_one)

lemma operators_additions: "operators (concat (replicate n [Operator, Skipped])) = int n"
  by (induction n) (simp_all, simp add: operators_def)

lemma statements_additions:
  "statements (concat (replicate n [Operator, Skipped])) = [concat (replicate n [Operator, Skipped])]"
  by (induction n) simp_all

theorem long_chain_refused:
  assumes "500 < n"
  shows "guard_complexity (''1'' @ additions n) \<noteq> None"
proof -
  have "tokens (''1'' @ additions n) = Skipped # concat (replicate n [Operator, Skipped])"
    by (simp add: next_token_one tokens_additions)
  moreover obtain u us where s: "statements (tokens (''1'' @ additions n)) = u # us"
    using statements_nonempty neq_Nil_conv by metis
  ultimately have "u = Skipped # concat (replicate n [Operator, Skipped])" and "us = []"
    by (simp_all add: statements_additions)
  moreover have "state_ok guard_start"
    by (simp add: state_ok_def guard_start_def max_nesting_depth_def max_operators_per_stmt_def)
  ultimately show ?thesis
    using guard_loop_tokens [of guard_start, OF _ s] assms
    by (simp add: guard_complexity_def guard_start_def operators_additions max_operators_per_stmt_def)
qed

theorem long_chain_refused_witness: "guard_complexity (''1'' @ additions 501) \<noteq> None"
  by (rule long_chain_refused) simp

definition hidden_chain :: "nat \<Rightarrow> string" where
  "hidden_chain n = ''SELECT 1+--'' @ [CHR 0x27] @ newline @ ''1'' @ additions n"

lemma skip_quoted_none: "q \<notin> set s \<Longrightarrow> skip_quoted q s = []"
  by (induction q s rule: skip_quoted.induct) auto

text \<open>A chain of any length can pass the guard: an operator character in front of a comment is read
  together with the comment's dashes as one operator, so a quote inside the comment is taken for the
  start of a literal, and what follows it, on the next line, is not counted. For the grammar the dashes
  begin a comment and the additions are part of the statement.\<close>

theorem guard_accepts_hidden_chain: "guard_complexity (hidden_chain n) = None"
proof -
  have quote: "CHR 0x27 \<notin> set (newline @ ''1'' @ additions n)"
    by (auto simp: newline_def additions_def)
  have select: "next_token (CHR ''S'') (''ELECT 1+--'' @ x) = (Skipped, '' 1+--'' @ x)" for x
    by (simp add: next_token_def has_prefix_def operator_chars_def is_identifier_start_def is_letter_def
        is_word_char_def word_operators_def to_upper_def upper_char_def)
  have space: "next_token (CHR '' '') x = (Skipped, x)" for x
    by (simp add: next_token_def has_prefix_def operator_chars_def is_identifier_start_def is_letter_def)
  have plus: "next_token (CHR ''+'') (''--'' @ CHR 0x27 # x) = (Operator, CHR 0x27 # x)" for x
    by (simp add: next_token_def has_prefix_def operator_chars_def)
  have string: "next_token (CHR 0x27) (newline @ ''1'' @ additions n) = (Skipped, [])"
    using skip_quoted_none [OF quote] by (simp add: next_token_def has_prefix_def)
  have "tokens (hidden_chain n) = [Skipped, Skipped, Skipped, Operator, Skipped]"
    using select space plus string next_token_one by (simp add: hidden_chain_def)
  then show ?thesis
    by (simp add: guard_bounds simple_statement_def operators_def max_nesting_depth_def
        max_operators_per_stmt_def)
qed

end
