(* ===== verification/Analyzer_Contract.thy ===== *)
theory Analyzer_Contract
  imports Engine
begin

text \<open>
  What the engine relies on from an analyzer, the promises in the comments of
  \<open>internal/analyzer/analyzer.go\<close>, as a locale: findings are about files of the changeset that the
  analyzer claims, every verdict and every hazard is one of the enumeration, production context is left to
  the engine, and the order in which a caller lists the files makes no difference. An analyzer may also hand
  over its findings in canonical order. The analyzers of the development are interpretations.
\<close>

text \<open>A context is the answers it gives, in the order in which it is asked; the first that is an error ends
  the run.\<close>

definition first_cancel :: "(nat \<Rightarrow> string option) \<Rightarrow> nat \<Rightarrow> string option" where
  "first_cancel ctx n = (case List.map_filter ctx [0..<n] of [] \<Rightarrow> None | e # _ \<Rightarrow> Some e)"

locale analyzer_contract =
  fixes claims :: "located \<Rightarrow> bool"
    and analyze :: "changed_file list \<Rightarrow> finding list run"
  assumes finding_claimed:
      "analyze files = Done fs \<Longrightarrow> f \<in> set fs \<Longrightarrow>
         \<exists>c\<in>set files. p_path c = f_file f \<and> claims (location_of c)"
    and finding_valid: "analyze files = Done fs \<Longrightarrow> f \<in> set fs \<Longrightarrow>
         rev_valid (f_reversibility f) \<and> lock_valid (f_lock f) \<and> f_context f = None"
    and file_order: "mset files = mset files' \<Longrightarrow> distinct (map p_path files) \<Longrightarrow>
         analyze files = analyze files'"
begin

lemma unclaimed_silent:
  "analyze files = Done fs \<Longrightarrow> list_all (\<lambda>c. \<not> claims (location_of c)) files \<Longrightarrow> fs = []"
  using finding_claimed by (fastforce simp: list_all_iff neq_Nil_conv)

lemma unmeasured: "analyze files = Done fs \<Longrightarrow> List.map_filter band_ceiling fs = []"
  by (auto simp: List.map_filter_def band_ceiling_def filter_empty_conv dest: finding_valid)

end

locale canonical_analyzer = analyzer_contract +
  assumes findings_sorted: "analyze files = Done fs \<Longrightarrow> sorted (map finding_key fs)"
begin

lemma sort_findings_id: "analyze files = Done fs \<Longrightarrow> sort_findings fs = fs"
  by (simp add: sort_findings_def findings_sorted sort_key_id_if_sorted)

end

end
