(* ===== verification/Postgres_Parser.thy ===== *)
theory Postgres_Parser
  imports Prelude
begin

text \<open>
  The seam between the SQL parser and the rules, \<open>internal/analyzer/postgres/parser/parser.go\<close>: the
  engine's vocabulary for statements, with what a statement creates and drops. \<open>Kind_other\<close> holds
  every string that is not a named kind, the zero value included. A modifier of a type is an
  \<open>int32\<close>, which is only compared and printed. A parser is a function from the text to an error or
  statements; the implementation over PostgreSQL's grammar is third-party code.
\<close>

datatype (plugins only: code size) kind =
    KindUnrecognized | KindDropTable | KindDropColumn | KindTruncate | KindDropSchema
    | KindDropDatabase | KindAlterColumnType | KindDelete | KindUpdate
    | KindAlterSequenceRestart | KindDropType | KindDropSequence | KindDropExtension
    | KindRenameTable | KindRenameColumn | KindDropConstraint | KindDropIndex | KindDropView
    | KindDropFunction | KindDropTrigger | KindDropMatView | KindSetNotNull | KindDropNotNull
    | KindSetDefault | KindDropDefault | KindAddColumn | KindAddConstraint | KindCreateIndex
    | KindCreateTable | KindCreateView | KindReplaceView | KindAddConstraintUsingIndex
    | KindValidateConstraint | KindGrant | KindRevoke | KindComment | KindSetVariable
    | KindLockTable | KindAnalyze | KindVacuum | KindVacuumFull | KindReplaceFunction
    | KindCreateMatView | KindCreateMatViewNoData | KindRefreshMatView
    | KindRefreshMatViewConcurr | KindAddEnumValue | KindCreatePolicy | KindDropPolicy
    | KindEnableRLS | KindDisableRLS | KindRenameIndex | KindSetRelOptions | KindSetLogged
    | KindAttachPartition | KindDetachPartition | KindInsert | KindUpsert | KindCreateType
    | KindCreateSchema | KindCreateSequence | KindCreateExtension | KindCreateFunction
    | KindCreateTrigger | Kind_other string

datatype constraint_kind =
  ConstraintNone | ConstraintForeignKey | ConstraintCheck | ConstraintOther | Constraint_other string

datatype object_type =
    ObjectTable | ObjectView | ObjectType | ObjectIndex | ObjectSchema | ObjectSequence
  | ObjectExtension | ObjectFunction | ObjectTrigger | ObjectColumn | ObjectConstrain

fun object_type_text :: "object_type \<Rightarrow> string" where
  "object_type_text ObjectTable = ''TABLE''"
| "object_type_text ObjectView = ''VIEW''"
| "object_type_text ObjectType = ''TYPE''"
| "object_type_text ObjectIndex = ''INDEX''"
| "object_type_text ObjectSchema = ''SCHEMA''"
| "object_type_text ObjectSequence = ''SEQUENCE''"
| "object_type_text ObjectExtension = ''EXTENSION''"
| "object_type_text ObjectFunction = ''FUNCTION''"
| "object_type_text ObjectTrigger = ''TRIGGER''"
| "object_type_text ObjectColumn = ''COLUMN''"
| "object_type_text ObjectConstrain = ''CONSTRAINT''"

record object_ref =
  ob_type :: object_type
  ob_name :: string

definition object_text :: "object_ref \<Rightarrow> string" where
  "object_text ob = object_type_text (ob_type ob) @ '' '' @ ob_name ob"

record sql_type =
  ty_name :: string
  ty_mods :: "int list"

definition type_text :: "sql_type \<Rightarrow> string" where
  "type_text t =
     (if ty_mods t = [] then ty_name t
      else ty_name t @ ''('' @ join '','' (map itoa (ty_mods t)) @ '')'')"

record column_def =
  cd_name :: string
  cd_type :: "sql_type option"

record statement =
  st_kind :: kind
  st_sql :: string
  st_line :: int
  st_relation :: string
  st_object :: string
  st_new_name :: string
  st_cascade :: bool
  st_concurrent :: bool
  st_has_where :: bool
  st_not_valid :: bool
  st_index :: string
  st_in_cte :: bool
  st_column_type :: "sql_type option"
  st_not_null :: bool
  st_has_default :: bool
  st_volatile_default :: bool
  st_constraint :: constraint_kind
  st_columns :: "column_def list"

type_synonym sql_parser = "string \<Rightarrow> string + statement list"

definition creates :: "statement \<Rightarrow> object_ref option" where
  "creates s =
     (case st_kind s of
        KindCreateTable \<Rightarrow> Some \<lparr>ob_type = ObjectTable, ob_name = st_relation s\<rparr>
      | KindCreateView \<Rightarrow> Some \<lparr>ob_type = ObjectView, ob_name = st_relation s\<rparr>
      | KindCreateType \<Rightarrow> Some \<lparr>ob_type = ObjectType, ob_name = st_object s\<rparr>
      | KindCreateIndex \<Rightarrow> Some \<lparr>ob_type = ObjectIndex, ob_name = st_object s\<rparr>
      | KindCreateSchema \<Rightarrow> Some \<lparr>ob_type = ObjectSchema, ob_name = st_object s\<rparr>
      | KindCreateSequence \<Rightarrow> Some \<lparr>ob_type = ObjectSequence, ob_name = st_relation s\<rparr>
      | KindCreateExtension \<Rightarrow> Some \<lparr>ob_type = ObjectExtension, ob_name = st_object s\<rparr>
      | KindCreateFunction \<Rightarrow> Some \<lparr>ob_type = ObjectFunction, ob_name = st_object s\<rparr>
      | KindCreateTrigger \<Rightarrow> Some \<lparr>ob_type = ObjectTrigger, ob_name = st_object s\<rparr>
      | KindAddColumn \<Rightarrow>
          Some \<lparr>ob_type = ObjectColumn, ob_name = st_relation s @ ''.'' @ st_object s\<rparr>
      | KindAddConstraint \<Rightarrow>
          Some \<lparr>ob_type = ObjectConstrain, ob_name = st_relation s @ ''.'' @ st_object s\<rparr>
      | _ \<Rightarrow> None)"

definition drops :: "statement \<Rightarrow> object_ref option" where
  "drops s =
     (case st_kind s of
        KindDropTable \<Rightarrow> Some \<lparr>ob_type = ObjectTable, ob_name = st_object s\<rparr>
      | KindDropView \<Rightarrow> Some \<lparr>ob_type = ObjectView, ob_name = st_object s\<rparr>
      | KindDropType \<Rightarrow> Some \<lparr>ob_type = ObjectType, ob_name = st_object s\<rparr>
      | KindDropIndex \<Rightarrow> Some \<lparr>ob_type = ObjectIndex, ob_name = st_object s\<rparr>
      | KindDropSchema \<Rightarrow> Some \<lparr>ob_type = ObjectSchema, ob_name = st_object s\<rparr>
      | KindDropSequence \<Rightarrow> Some \<lparr>ob_type = ObjectSequence, ob_name = st_object s\<rparr>
      | KindDropExtension \<Rightarrow> Some \<lparr>ob_type = ObjectExtension, ob_name = st_object s\<rparr>
      | KindDropFunction \<Rightarrow> Some \<lparr>ob_type = ObjectFunction, ob_name = st_object s\<rparr>
      | KindDropTrigger \<Rightarrow> Some \<lparr>ob_type = ObjectTrigger, ob_name = st_object s\<rparr>
      | KindDropColumn \<Rightarrow>
          Some \<lparr>ob_type = ObjectColumn, ob_name = st_relation s @ ''.'' @ st_object s\<rparr>
      | KindDropConstraint \<Rightarrow>
          Some \<lparr>ob_type = ObjectConstrain, ob_name = st_relation s @ ''.'' @ st_object s\<rparr>
      | _ \<Rightarrow> None)"

text \<open>A statement with nothing but a kind.\<close>

definition bare_statement :: "kind \<Rightarrow> statement" where
  "bare_statement k = \<lparr>st_kind = k, st_sql = [], st_line = 1, st_relation = [], st_object = [],
     st_new_name = [], st_cascade = False, st_concurrent = False, st_has_where = False,
     st_not_valid = False, st_index = [], st_in_cte = False, st_column_type = None,
     st_not_null = False, st_has_default = False, st_volatile_default = False,
     st_constraint = ConstraintNone, st_columns = []\<rparr>"

end
