(* ===== verification/Postgres_Schema.thy ===== *)
theory Postgres_Schema
  imports Postgres_Parser
begin

text \<open>
  The column types declared earlier in a changeset and the comparison of types,
  \<open>internal/analyzer/postgres/schema.go\<close>. A Go map of maps is a function to an optional function. The
  contract of the tracker, what a lookup returns after each operation, is the locale \<open>column_store\<close>;
  the model of the code is its interpretation, and the abstract specification of the tracker, the
  history of a column, is proved from the contract.
\<close>

subsection \<open>The tracker\<close>

type_synonym schema = "string \<Rightarrow> (string \<Rightarrow> sql_type option) option"

definition new_schema :: schema where "new_schema = (\<lambda>t. None)"

definition key :: "string \<Rightarrow> string" where "key s = to_lower s"

definition schema_set :: "schema \<Rightarrow> string \<Rightarrow> string \<Rightarrow> sql_type \<Rightarrow> schema" where
  "schema_set s table column t =
     (if table = [] \<or> column = [] then s
      else
        (let cols = (case s (key table) of None \<Rightarrow> (\<lambda>c. None) | Some cols \<Rightarrow> cols)
         in s(key table \<mapsto> cols(key column \<mapsto> t))))"

definition schema_remove :: "schema \<Rightarrow> string \<Rightarrow> string \<Rightarrow> schema" where
  "schema_remove s table column =
     (case s (key table) of
        None \<Rightarrow> s
      | Some cols \<Rightarrow> s(key table \<mapsto> cols(key column := None)))"

definition schema_drop :: "schema \<Rightarrow> string \<Rightarrow> schema" where
  "schema_drop s table = s(key table := None)"

definition column_type :: "schema \<Rightarrow> string \<Rightarrow> string \<Rightarrow> sql_type option" where
  "column_type s table column =
     (case s (key table) of None \<Rightarrow> None | Some cols \<Rightarrow> cols (key column))"

definition schema_apply :: "schema \<Rightarrow> statement \<Rightarrow> schema" where
  "schema_apply s st =
     (case st_kind st of
        KindCreateTable \<Rightarrow>
          foldl (\<lambda>s c. case cd_type c of None \<Rightarrow> s | Some t \<Rightarrow> schema_set s (st_relation st) (cd_name c) t)
            s (st_columns st)
      | KindAddColumn \<Rightarrow>
          (case st_column_type st of None \<Rightarrow> s | Some t \<Rightarrow> schema_set s (st_relation st) (st_object st) t)
      | KindAlterColumnType \<Rightarrow>
          (case st_column_type st of None \<Rightarrow> s | Some t \<Rightarrow> schema_set s (st_relation st) (st_object st) t)
      | KindDropColumn \<Rightarrow> schema_remove s (st_relation st) (st_object st)
      | KindDropTable \<Rightarrow> schema_drop s (st_object st)
      | _ \<Rightarrow> s)"

subsection \<open>The contract of a tracker\<close>

locale column_store =
  fixes lookup :: "'s \<Rightarrow> string \<Rightarrow> string \<Rightarrow> 't option"
    and put :: "'s \<Rightarrow> string \<Rightarrow> string \<Rightarrow> 't \<Rightarrow> 's"
    and remove :: "'s \<Rightarrow> string \<Rightarrow> string \<Rightarrow> 's"
    and wipe :: "'s \<Rightarrow> string \<Rightarrow> 's"
    and fold_case :: "string \<Rightarrow> string"
  assumes lookup_put: "t \<noteq> [] \<Longrightarrow> c \<noteq> [] \<Longrightarrow>
      lookup (put s t c x) t' c' =
        (if fold_case t' = fold_case t \<and> fold_case c' = fold_case c then Some x else lookup s t' c')"
    and put_unnamed: "t = [] \<or> c = [] \<Longrightarrow> put s t c x = s"
    and lookup_remove:
      "lookup (remove s t c) t' c' =
        (if fold_case t' = fold_case t \<and> fold_case c' = fold_case c then None else lookup s t' c')"
    and lookup_wipe:
      "lookup (wipe s t) t' c' = (if fold_case t' = fold_case t then None else lookup s t' c')"
begin

lemma lookup_put_any:
  "lookup (put s t c x) t' c' =
     (if t \<noteq> [] \<and> c \<noteq> [] \<and> fold_case t' = fold_case t \<and> fold_case c' = fold_case c then Some x
      else lookup s t' c')"
  by (cases "t = [] \<or> c = []") (auto simp: lookup_put put_unnamed)

lemma put_put_same:
  "t \<noteq> [] \<Longrightarrow> c \<noteq> [] \<Longrightarrow> lookup (put (put s t c x) t c y) t' c' = lookup (put s t c y) t' c'"
  by (simp add: lookup_put)

lemma wipe_forgets: "fold_case t' = fold_case t \<Longrightarrow> lookup (wipe s t) t' c' = None"
  by (simp add: lookup_wipe)

end

interpretation tracker: column_store column_type schema_set schema_remove schema_drop key
  by unfold_locales
    (auto simp: column_type_def schema_set_def schema_remove_def schema_drop_def Let_def
      split: option.splits)

subsection \<open>Comparing types\<close>

datatype width_change = WidthUnknown | WidthNarrowing | WidthWidening | WidthSame

definition integer_rank :: "string \<Rightarrow> int option" where
  "integer_rank = [''int2'' \<mapsto> 1, ''int4'' \<mapsto> 2, ''int8'' \<mapsto> 3]"

definition is_character :: "string \<Rightarrow> bool" where
  "is_character name \<longleftrightarrow> name = ''text'' \<or> name = ''varchar''"

definition char_limit :: "sql_type \<Rightarrow> int option" where
  "char_limit t = (if to_lower (ty_name t) = ''text'' \<or> ty_mods t = [] then None else Some (hd (ty_mods t)))"

definition compare_character :: "sql_type \<Rightarrow> sql_type \<Rightarrow> width_change" where
  "compare_character from to =
     (case (char_limit from, char_limit to) of
        (None, None) \<Rightarrow> WidthSame
      | (None, Some _) \<Rightarrow> WidthNarrowing
      | (Some _, None) \<Rightarrow> WidthWidening
      | (Some m, Some n) \<Rightarrow>
          if n < m then WidthNarrowing else if m < n then WidthWidening else WidthSame)"

definition numeric_mods :: "sql_type \<Rightarrow> (int \<times> int) option" where
  "numeric_mods t =
     (case ty_mods t of [] \<Rightarrow> None | [p] \<Rightarrow> Some (p, 0) | p # s # _ \<Rightarrow> Some (p, s))"

definition compare_numeric :: "sql_type \<Rightarrow> sql_type \<Rightarrow> width_change" where
  "compare_numeric from to =
     (case (numeric_mods from, numeric_mods to) of
        (None, None) \<Rightarrow> WidthSame
      | (None, Some _) \<Rightarrow> WidthNarrowing
      | (Some _, None) \<Rightarrow> WidthWidening
      | (Some (p, s), Some (p', s')) \<Rightarrow>
          if p' < p \<or> s' < s then WidthNarrowing
          else if p < p' \<or> s < s' then WidthWidening else WidthSame)"

definition compare_types :: "sql_type \<Rightarrow> sql_type \<Rightarrow> width_change" where
  "compare_types from to =
     (let f = to_lower (ty_name from); t = to_lower (ty_name to) in
      case integer_rank f of
        Some fr \<Rightarrow>
          (case integer_rank t of
             None \<Rightarrow> WidthUnknown
           | Some tr \<Rightarrow>
               if tr < fr then WidthNarrowing else if fr < tr then WidthWidening else WidthSame)
      | None \<Rightarrow>
          if is_character f \<and> is_character t then compare_character from to
          else if f = ''numeric'' \<and> t = ''numeric'' then compare_numeric from to
          else if f = ''timestamptz'' \<and> t = ''date'' then WidthNarrowing
          else if f = ''date'' \<and> t = ''timestamptz'' then WidthWidening
          else if f = t \<and> ty_mods from = ty_mods to then WidthSame
          else WidthUnknown)"

subsection \<open>The history of a column\<close>

text \<open>What one declaration does to one column.\<close>

definition sets_type :: "string \<Rightarrow> string \<Rightarrow> sql_type \<Rightarrow> string \<Rightarrow> string \<Rightarrow> sql_type option \<Rightarrow> sql_type option" where
  "sets_type t c x t' c' old =
     (if t \<noteq> [] \<and> c \<noteq> [] \<and> key t' = key t \<and> key c' = key c then Some x else old)"

text \<open>The abstract specification: the type of a column is what its declarations, read in order, leave.\<close>

definition declared :: "string \<Rightarrow> string \<Rightarrow> sql_type option \<Rightarrow> statement \<Rightarrow> sql_type option" where
  "declared t c old st =
     (case st_kind st of
        KindCreateTable \<Rightarrow>
          foldl (\<lambda>old cd. case cd_type cd of None \<Rightarrow> old
                        | Some x \<Rightarrow> sets_type (st_relation st) (cd_name cd) x t c old) old (st_columns st)
      | KindAddColumn \<Rightarrow>
          (case st_column_type st of None \<Rightarrow> old
           | Some x \<Rightarrow> sets_type (st_relation st) (st_object st) x t c old)
      | KindAlterColumnType \<Rightarrow>
          (case st_column_type st of None \<Rightarrow> old
           | Some x \<Rightarrow> sets_type (st_relation st) (st_object st) x t c old)
      | KindDropColumn \<Rightarrow>
          (if key t = key (st_relation st) \<and> key c = key (st_object st) then None else old)
      | KindDropTable \<Rightarrow> (if key t = key (st_object st) then None else old)
      | _ \<Rightarrow> old)"

lemma column_type_create:
  "column_type (foldl (\<lambda>s cd. case cd_type cd of None \<Rightarrow> s | Some x \<Rightarrow> schema_set s r (cd_name cd) x) s cds) t c
     = foldl (\<lambda>old cd. case cd_type cd of None \<Rightarrow> old | Some x \<Rightarrow> sets_type r (cd_name cd) x t c old)
         (column_type s t c) cds"
  by (induction cds arbitrary: s) (auto simp: tracker.lookup_put_any sets_type_def split: option.split)

lemma column_type_apply: "column_type (schema_apply s st) t c = declared t c (column_type s t c) st"
  unfolding schema_apply_def declared_def
  by (simp add: column_type_create tracker.lookup_put_any sets_type_def tracker.lookup_remove tracker.lookup_wipe
      split: kind.split option.split)

lemma column_type_new [simp]: "column_type new_schema t c = None"
  by (simp add: column_type_def new_schema_def)

lemma column_type_history:
  "column_type (foldl schema_apply s sts) t c = foldl (declared t c) (column_type s t c) sts"
  by (induction sts arbitrary: s) (simp_all add: column_type_apply)

subsection \<open>What a conversion loses\<close>

text \<open>Values of the types the comparison knows: integers by range, texts by length, decimals as a
  numerator over a power of ten, points in time as a day and a second; a value of any other type
  carries the type it was written as.\<close>

datatype sql_value =
  IntV int | TextV string | DecV int nat | TimeV int int | OtherV string "int list" nat

definition int_bound :: "int \<Rightarrow> int" where
  "int_bound rank = (if rank = 1 then 2 ^ 15 else if rank = 2 then 2 ^ 31 else 2 ^ 63)"

definition holds :: "sql_type \<Rightarrow> sql_value \<Rightarrow> bool" where
  "holds t v \<longleftrightarrow>
     (let name = to_lower (ty_name t) in
      case integer_rank name of
        Some r \<Rightarrow> (case v of IntV i \<Rightarrow> - int_bound r \<le> i \<and> i < int_bound r | _ \<Rightarrow> False)
      | None \<Rightarrow>
          if is_character name then
            (case v of TextV s \<Rightarrow> (case char_limit t of None \<Rightarrow> True | Some n \<Rightarrow> int (length s) \<le> n) | _ \<Rightarrow> False)
          else if name = ''numeric'' then
            (case v of
               DecV n k \<Rightarrow>
                 (case numeric_mods t of
                    None \<Rightarrow> True
                  | Some (p, s) \<Rightarrow> 10 ^ k dvd n * 10 ^ nat s \<and> \<bar>n\<bar> * 10 ^ nat s < 10 ^ (nat p + k))
             | _ \<Rightarrow> False)
          else if name = ''date'' then (case v of TimeV d s \<Rightarrow> s = 0 | _ \<Rightarrow> False)
          else if name = ''timestamptz'' then (case v of TimeV d s \<Rightarrow> True | _ \<Rightarrow> False)
          else (case v of OtherV n m x \<Rightarrow> n = name \<and> m = ty_mods t | _ \<Rightarrow> False))"

lemma integer_rank_bound:
  "integer_rank f = Some r \<Longrightarrow> integer_rank t = Some q \<Longrightarrow> r \<le> q \<Longrightarrow> int_bound r \<le> int_bound q"
  by (auto simp: integer_rank_def int_bound_def split: if_splits)

lemma integer_rank_not_character: "integer_rank f = Some r \<Longrightarrow> \<not> is_character f \<and> f \<noteq> ''numeric''"
  by (auto simp: integer_rank_def is_character_def split: if_splits)

lemma integer_rank_other: "integer_rank ''date'' = None" "integer_rank ''timestamptz'' = None"
  "integer_rank ''numeric'' = None" "is_character f \<Longrightarrow> integer_rank f = None"
  by (auto simp: integer_rank_def is_character_def)

definition reverses :: "width_change \<Rightarrow> width_change \<Rightarrow> bool" where
  "reverses w v \<longleftrightarrow> (if w = WidthWidening then v = WidthNarrowing else if w = WidthSame then v = WidthSame else True)"

lemma compare_character_reverses: "reverses (compare_character from to) (compare_character to from)"
  by (cases "char_limit from"; cases "char_limit to") (simp_all add: compare_character_def reverses_def)

lemma compare_numeric_reverses: "reverses (compare_numeric from to) (compare_numeric to from)"
  by (cases "numeric_mods from"; cases "numeric_mods to") (auto simp: compare_numeric_def reverses_def split: if_splits)

lemma compare_types_names:
  "compare_types from to =
     (let f = to_lower (ty_name from); t = to_lower (ty_name to) in
      if integer_rank f \<noteq> None \<or> integer_rank t \<noteq> None then
        (if integer_rank f = None \<or> integer_rank t = None then WidthUnknown
         else if the (integer_rank t) < the (integer_rank f) then WidthNarrowing
         else if the (integer_rank f) < the (integer_rank t) then WidthWidening else WidthSame)
      else if is_character f \<and> is_character t then compare_character from to
      else if f = ''numeric'' \<and> t = ''numeric'' then compare_numeric from to
      else if f = ''timestamptz'' \<and> t = ''date'' then WidthNarrowing
      else if f = ''date'' \<and> t = ''timestamptz'' then WidthWidening
      else if f = t \<and> ty_mods from = ty_mods to then WidthSame else WidthUnknown)"
proof -
  define f where "f = to_lower (ty_name from)"
  define t where "t = to_lower (ty_name to)"
  have "\<not> is_character t \<and> t \<noteq> ''numeric'' \<and> t \<noteq> ''date'' \<and> t \<noteq> ''timestamptz''" if "integer_rank t = Some q" for q
    using that by (auto simp: integer_rank_def is_character_def split: if_splits)
  then show ?thesis
    unfolding compare_types_def f_def [symmetric] t_def [symmetric] Let_def
    by (cases "integer_rank f"; cases "integer_rank t") auto
qed

lemma compare_types_reverses: "reverses (compare_types from to) (compare_types to from)"
proof -
  define f where "f = to_lower (ty_name from)"
  define t where "t = to_lower (ty_name to)"
  note c = compare_types_names [of "from" to, folded f_def t_def]
    compare_types_names [of to "from", folded f_def t_def]
  show ?thesis
  proof (cases "integer_rank f \<noteq> None \<or> integer_rank t \<noteq> None")
    case True
    then show ?thesis unfolding c Let_def by (simp add: reverses_def)
  next
    case False
    consider "is_character f \<and> is_character t" | "\<not> (is_character f \<and> is_character t)" by blast
    then show ?thesis
    proof cases
      case 1
      then show ?thesis unfolding c Let_def using False compare_character_reverses by simp
    next
      case 2
      show ?thesis
      proof (cases "f = ''numeric'' \<and> t = ''numeric''")
        case True
        then show ?thesis
          unfolding c Let_def using False compare_numeric_reverses by (simp add: is_character_def)
      next
        case no: False
        have none: "integer_rank f = None" "integer_rank t = None" using False by simp_all
        consider "f = ''timestamptz'' \<and> t = ''date''" | "f = ''date'' \<and> t = ''timestamptz''"
          | "\<not> (f = ''timestamptz'' \<and> t = ''date'')" "\<not> (f = ''date'' \<and> t = ''timestamptz'')" by blast
        then show ?thesis
        proof cases
          case 1
          then show ?thesis unfolding c Let_def by (simp add: reverses_def integer_rank_other is_character_def)
        next
          case 2
          then show ?thesis unfolding c Let_def by (simp add: reverses_def integer_rank_other is_character_def)
        next
          case 3
          have cft: "compare_types from to = (if f = t \<and> ty_mods from = ty_mods to then WidthSame else WidthUnknown)"
            unfolding c Let_def using none 2 no 3 by (simp only: simp_thms if_False)
          have n': "\<not> (t = ''numeric'' \<and> f = ''numeric'')" "\<not> (is_character t \<and> is_character f)"
            "\<not> (t = ''timestamptz'' \<and> f = ''date'')" "\<not> (t = ''date'' \<and> f = ''timestamptz'')"
            using no 2 3 by blast+
          have ctf: "compare_types to from = (if t = f \<and> ty_mods to = ty_mods from then WidthSame else WidthUnknown)"
            unfolding c Let_def using none n' by (simp only: simp_thms if_False)
          show ?thesis
            unfolding cft ctf by (cases "f = t \<and> ty_mods from = ty_mods to") (auto simp: reverses_def)
        qed
      qed
    qed
  qed
qed

subsection \<open>Properties\<close>

text \<open>C17. The tracker implements its specification: after any sequence of statements from an empty
  schema, the type it knows for a column is what the history of declarations leaves, where names are
  compared as PostgreSQL folds them, a later declaration replaces an earlier one, and dropping the
  column or the table forgets it.\<close>

theorem tracker_follows_history:
  "column_type (foldl schema_apply new_schema sts) t c = foldl (declared t c) None sts"
  by (simp add: column_type_history)

text \<open>A conversion that is called widening is called narrowing in the other direction, and one that
  is called the same is called the same.\<close>

theorem widening_is_narrowing_back:
  "case compare_types from to of
     WidthWidening \<Rightarrow> compare_types to from = WidthNarrowing
   | WidthSame \<Rightarrow> compare_types to from = WidthSame
   | _ \<Rightarrow> True"
  using compare_types_reverses [of "from" to] by (simp add: reverses_def split: width_change.split)

text \<open>A widening of integers, texts and dates, and a conversion that is called the same, loses no value:
  every value the old type holds, the new one holds. (Decimals are the exception, see below.)\<close>

theorem widening_loses_nothing:
  assumes "compare_types from to \<in> {WidthWidening, WidthSame}"
    and "to_lower (ty_name from) \<noteq> ''numeric''" and "holds from v"
  shows "holds to v"
proof -
  define f where "f = to_lower (ty_name from)"
  define t where "t = to_lower (ty_name to)"
  note c = compare_types_names [of "from" to, folded f_def t_def]
  note h = holds_def [of "from" v, folded f_def] holds_def [of to v, folded t_def]
  show ?thesis
  proof (cases "integer_rank f \<noteq> None \<or> integer_rank t \<noteq> None")
    case True
    with assms(1) obtain r q where "integer_rank f = Some r" and "integer_rank t = Some q" and "r \<le> q"
      unfolding c Let_def by (auto split: if_splits)
    with assms(3) integer_rank_bound [of f r t q] show ?thesis
      unfolding h Let_def by (cases v) auto
  next
    case False
    then have none: "integer_rank f = None" "integer_rank t = None" by simp_all
    show ?thesis
    proof (cases "is_character f \<and> is_character t")
      case True
      with assms(1) none have "compare_character from to \<in> {WidthWidening, WidthSame}"
        unfolding c Let_def by simp
      with assms(3) True none show ?thesis
        unfolding h Let_def
        by (cases v; cases "char_limit from"; cases "char_limit to")
          (auto simp: compare_character_def split: if_splits)
    next
      case nochar: False
      consider "f = ''date'' \<and> t = ''timestamptz''" | "f = t \<and> ty_mods from = ty_mods to"
        using assms(1,2) none nochar unfolding c Let_def f_def [symmetric]
        by (auto split: if_splits)
      then show ?thesis
      proof cases
        case 1
        with assms(3) show ?thesis
          unfolding h Let_def by (cases v) (auto simp: integer_rank_other is_character_def)
      next
        case 2
        then have "char_limit from = char_limit to" and "numeric_mods from = numeric_mods to"
          by (simp_all add: char_limit_def numeric_mods_def f_def t_def)
        moreover from 2 have "t = f" and "ty_mods to = ty_mods from" by simp_all
        ultimately have "holds to v = holds from v" unfolding h by (simp only:)
        with assms(3) show ?thesis by simp
      qed
    qed
  qed
qed

theorem widening_loses_nothing_witness:
  "holds \<lparr>ty_name = ''VARCHAR'', ty_mods = [20]\<rparr> (TextV ''abc'')"
proof (rule widening_loses_nothing [of "\<lparr>ty_name = ''varchar'', ty_mods = [10]\<rparr>"])
  show "compare_types \<lparr>ty_name = ''varchar'', ty_mods = [10]\<rparr> \<lparr>ty_name = ''VARCHAR'', ty_mods = [20]\<rparr>
      \<in> {WidthWidening, WidthSame}" by code_simp
  show "to_lower (ty_name \<lparr>ty_name = ''varchar'', ty_mods = [10]\<rparr>) \<noteq> ''numeric''" by code_simp
  show "holds \<lparr>ty_name = ''varchar'', ty_mods = [10]\<rparr> (TextV ''abc'')" by code_simp
qed

text \<open>For decimals the comparison is wrong: raising the scale alone is called a widening, although it
  takes integral digits away, and a value that fitted no longer does.\<close>

theorem numeric_widening_loses:
  "compare_types \<lparr>ty_name = ''numeric'', ty_mods = [10, 2]\<rparr> \<lparr>ty_name = ''numeric'', ty_mods = [10, 4]\<rparr>
     = WidthWidening
   \<and> holds \<lparr>ty_name = ''numeric'', ty_mods = [10, 2]\<rparr> (DecV 12345678 0)
   \<and> \<not> holds \<lparr>ty_name = ''numeric'', ty_mods = [10, 4]\<rparr> (DecV 12345678 0)"
proof (intro conjI)
  show "compare_types \<lparr>ty_name = ''numeric'', ty_mods = [10, 2]\<rparr> \<lparr>ty_name = ''numeric'', ty_mods = [10, 4]\<rparr>
      = WidthWidening" by code_simp
  have n: "to_lower ''numeric'' = ''numeric''" by code_simp
  show "holds \<lparr>ty_name = ''numeric'', ty_mods = [10, 2]\<rparr> (DecV 12345678 0)"
    and "\<not> holds \<lparr>ty_name = ''numeric'', ty_mods = [10, 4]\<rparr> (DecV 12345678 0)"
    by (simp_all add: holds_def n integer_rank_other is_character_def numeric_mods_def)
qed

end
