(* ===== verification/Postgres_Rules.thy ===== *)
theory Postgres_Rules
  imports Postgres_Schema Domain
begin

text \<open>
  The table of rules, \<open>internal/analyzer/postgres/rules.go\<close>: one definition per row, named by the rule,
  and the functions the switch of \<open>classify\<close> delegates to, with the texts they print. The dispatcher
  is the switch on the kind of the statement, after the test for \<open>CASCADE\<close>. The abstract specification is
  \<open>rule_table\<close>, the table of \<open>docs/RULES.md\<close>; the lemmas on rows give each row's verdict, and the
  properties are read off them.
\<close>

subsection \<open>Rows\<close>

record classification =
  cf_rule :: string
  cf_rev :: reversibility
  cf_lock :: lock_hazard
  cf_rationale :: string
  cf_undo :: string

definition row :: "string \<Rightarrow> reversibility \<Rightarrow> lock_hazard \<Rightarrow> string \<Rightarrow> string \<Rightarrow> classification" where
  "row rule verdict lock rationale undo =
     \<lparr>cf_rule = rule, cf_rev = verdict, cf_lock = lock, cf_rationale = rationale, cf_undo = undo\<rparr>"

lemma row_select [simp]:
  "cf_rule (row r v l t u) = r" "cf_rev (row r v l t u) = v" "cf_lock (row r v l t u) = l"
  "cf_rationale (row r v l t u) = t" "cf_undo (row r v l t u) = u"
  by (simp_all add: row_def)

definition undo_unavailable :: string where
  "undo_unavailable =
     ''/* original definition unavailable: recover from the down migration or schema history */''"

definition qualified_column :: "string \<Rightarrow> string \<Rightarrow> string" where
  "qualified_column table column =
     (if table \<noteq> [] \<and> column \<noteq> [] then table @ ''.'' @ column
      else if column \<noteq> [] then column
      else if table \<noteq> [] then table
      else ''the column'')"

definition unknown_row :: "string \<Rightarrow> classification" where
  "unknown_row why = row ''PG027'' Unknown LockExclusive why []"

definition reverse_grant :: "statement \<Rightarrow> string" where
  "reverse_grant s =
     (let target = or_else (st_object s) ''the target'' in
      if st_kind s = KindGrant
      then ''-- REVOKE the privileges this statement granted on '' @ target @ '', from the same grantees.''
      else ''-- GRANT back the privileges this statement revoked on '' @ target @ '', to the same grantees.'')"

definition cte_note :: "statement \<Rightarrow> string" where
  "cte_note s =
     (if \<not> st_in_cte s then []
      else '' This is a data-modifying CTE: the statement is a SELECT node carrying a non-SELECT effect, ''
           @ ''and it is classified by that effect rather than by the node.'')"

definition cascade_row :: classification where
  "cascade_row =
     row ''PG005'' Irreversible LockExclusive
        (''CASCADE silently drops every dependent object, and which objects those are cannot be known from the migration, so the blast radius is unbounded and no undo can be written.'')
        []"

definition row_PG001 :: "statement \<Rightarrow> classification" where
  "row_PG001 s =
     row ''PG001'' Irreversible LockExclusive
      (''Dropping table '' @ or_else (st_object s) ''unknown''
       @ '' destroys every row it holds; recreating the table restores the shape but not the data.'')
      []"

definition row_PG002 :: "statement \<Rightarrow> classification" where
  "row_PG002 s =
     row ''PG002'' Irreversible LockExclusive
      (''Dropping column '' @ qualified_column (st_relation s) (st_object s)
       @ '' discards its values; re-adding the column restores the schema but leaves every row null.'')
      []"

definition row_PG003 :: "statement \<Rightarrow> classification" where
  "row_PG003 s =
     row ''PG003'' Irreversible LockExclusive
      (''TRUNCATE removes every row of '' @ or_else (st_relation s) ''the table''
       @ '' without logging them individually, so no down migration can put them back.'')
      []"

definition row_PG004 :: "statement \<Rightarrow> classification" where
  "row_PG004 s =
     row ''PG004'' Irreversible LockExclusive
      (''Dropping '' @ or_else (st_object s) ''the schema''
       @ '' destroys every object inside it along with their data; only a backup restore can undo this.'')
      []"

definition row_PG010 :: "statement \<Rightarrow> classification" where
  "row_PG010 s =
     (let note =
            (if st_in_cte s \<or> st_object s \<noteq> [] \<and> st_relation s = []
             then '' This is a setval() call: a SELECT node carrying a non-SELECT effect, ''
               @ ''classified by that effect rather than by the node.''
             else [])
      in 
     row ''PG010'' Irreversible LockShort
      (''The prior position of sequence ''
       @ or_else (st_relation s) (or_else (st_object s) ''the sequence'')
       @ '' is recorded nowhere, so it cannot be restored, and subsequent inserts will collide with existing keys.''
       @ note)
      [])"

definition row_PG011 :: "statement \<Rightarrow> classification" where
  "row_PG011 s =
     row ''PG011'' Irreversible LockExclusive
      (''Dropping '' @ or_else (st_object s) ''the object''
       @ '' cannot be fully undone: recreating a sequence loses its position, and recreating a type or extension cannot restore the dependents dropped with it.'')
      []"

definition row_PG013 :: "statement \<Rightarrow> classification" where
  "row_PG013 s =
     row ''PG013'' Costly LockShort
      (''Rows violating constraint '' @ or_else (st_object s) ''the constraint''
       @ '' may be inserted before the rollback happens, making it impossible to re-add the constraint afterwards.'')
      (''ALTER TABLE '' @ st_relation s @ '' ADD CONSTRAINT '' @ st_object s @ '' ''
       @ undo_unavailable @ '';'')"

definition row_PG017 :: "statement \<Rightarrow> classification" where
  "row_PG017 s =
     row ''PG017'' Costly LockFullScan
      (''Adding NOT NULL to '' @ qualified_column (st_relation s) (st_object s)
       @ '' forces a scan of every row under lock, and the constraint cannot be re-imposed after rollback if nulls have since been written.'')
      (''ALTER TABLE '' @ st_relation s @ '' ALTER COLUMN '' @ st_object s @ '' DROP NOT NULL;'')"

definition row_PG025_table :: "statement \<Rightarrow> classification" where
  "row_PG025_table s =
     row ''PG025'' Reversible LockNone
      (''Creating table '' @ or_else (st_relation s) ''the table''
       @ '' takes nothing away; dropping it returns the schema to its prior state exactly.'')
      (''DROP TABLE '' @ st_relation s @ '';'')"

definition row_PG025_view :: "statement \<Rightarrow> classification" where
  "row_PG025_view s =
     row ''PG025'' Reversible LockNone
      (''Creating view '' @ or_else (st_relation s) ''the view''
       @ '' takes nothing away; dropping it returns the schema to its prior state exactly.'')
      (''DROP VIEW '' @ st_relation s @ '';'')"

definition row_PG025_type :: "statement \<Rightarrow> classification" where
  "row_PG025_type s =
     row ''PG025'' Reversible LockNone
      (''Creating type '' @ or_else (st_object s) ''the type''
       @ '' takes nothing away; dropping it returns the schema to its prior state exactly.'')
      (''DROP TYPE '' @ st_object s @ '';'')"

definition row_PG028 :: "statement \<Rightarrow> classification" where
  "row_PG028 s =
     (let view = or_else (st_relation s) ''the view'' in 
     row ''PG028'' Costly LockShort
      (''CREATE OR REPLACE VIEW overwrites the previous definition of '' @ view
       @ '', which this changeset does not record. Rolling back means restoring that definition from schema history, not dropping the view.'')
      (''-- Restore the previous definition of view '' @ view @ '' from schema history.''
       @ newline
       @ ''-- It is not in this changeset, so it cannot be written here. Do NOT run DROP VIEW ''
       @ view @ '':'' @ newline
       @ ''-- the view existed before this migration and dropping it would destroy it.''))"

definition row_PG029 :: "statement \<Rightarrow> classification" where
  "row_PG029 s =
     (let view = or_else (st_object s) ''the materialized view'' in 
     row ''PG029'' Costly LockExclusive
      (''Dropping materialized view '' @ view
       @ '' destroys the rows it holds. They are derived, so a REFRESH can rebuild them ''
       @ emdash
       @ '' but the rebuild may be expensive, and it will not reproduce the old contents if the sources have changed since.'')
      (''-- Recreate materialized view '' @ view
       @ '' from its definition in schema history, then:'' @ newline
       @ ''REFRESH MATERIALIZED VIEW '' @ view @ '';''))"

definition row_PG030 :: "statement \<Rightarrow> classification" where
  "row_PG030 s =
     row ''PG030'' Reversible LockShort
      (''Constraint '' @ or_else (st_object s) ''the constraint'' @ '' is promoted from index ''
       @ or_else (st_index s) ''an existing index''
       @ '', which already exists, so no table scan and no index build happen here. Dropping the constraint returns the schema to its prior state.'')
      (''ALTER TABLE '' @ st_relation s @ '' DROP CONSTRAINT '' @ st_object s @ '';'')"

definition row_PG031 :: "statement \<Rightarrow> classification" where
  "row_PG031 s =
     row ''PG031'' Reversible LockFullScan
      (''Validating constraint '' @ or_else (st_object s) ''the constraint''
       @ '' scans every existing row without blocking writes, and removes nothing. It completes the NOT VALID pattern rather than adding risk to it.'')
      (''ALTER TABLE '' @ st_relation s @ '' DROP CONSTRAINT '' @ st_object s @ '';'')"

definition row_PG032 :: "statement \<Rightarrow> classification" where
  "row_PG032 s =
     row ''PG032'' Reversible LockShort
      (''A privilege change on '' @ or_else (st_object s) ''the target''
       @ '' alters no object and no row, and the opposite statement restores it exactly. The engine does not verify that the opposite statement is present.'')
      (reverse_grant s)"

definition row_PG034 :: "statement \<Rightarrow> classification" where
  "row_PG034 s =
     row ''PG034'' Reversible LockNone
      (''Setting '' @ or_else (st_object s) ''a runtime parameter''
       @ '' affects this session only and persists nothing; the connection ends and the setting is gone.'')
      (''-- Nothing to undo: the setting did not outlive the session.'')"

definition row_PG035 :: "statement \<Rightarrow> classification" where
  "row_PG035 s =
     row ''PG035'' Reversible LockExclusive
      (''LOCK TABLE takes the lock it names on '' @ or_else (st_relation s) ''the table''
       @ '' for the rest of the transaction and changes nothing. The hazard is the lock itself, held for as long as the transaction runs.'')
      (''-- Nothing to undo: the lock was released when the transaction ended.'')"

definition row_PG036 :: "statement \<Rightarrow> classification" where
  "row_PG036 s =
     row ''PG036'' Reversible LockNone
      (''ANALYZE refreshes planner statistics for '' @ or_else (st_relation s) ''the database''
       @ ''. No row, column, or constraint changes.'')
      (''-- Nothing to undo: statistics are derived and are refreshed again on the next ANALYZE.'')"

definition row_PG037 :: "statement \<Rightarrow> classification" where
  "row_PG037 s =
     row ''PG037'' Reversible LockNone
      (''VACUUM reclaims dead tuples in '' @ or_else (st_relation s) ''the database''
       @ '' without blocking reads or writes. It changes no live row.'')
      (''-- Nothing to undo: vacuuming removes only tuples no transaction can still see.'')"

definition row_PG038 :: "statement \<Rightarrow> classification" where
  "row_PG038 s =
     row ''PG038'' Reversible LockExclusive
      (''VACUUM FULL rewrites '' @ or_else (st_relation s) ''the table''
       @ '' under an ACCESS EXCLUSIVE lock, blocking every reader and writer for the duration. Nothing is lost; the outage is the whole risk.'')
      (''-- Nothing to undo: the rewrite preserves every live row.'')"

definition row_PG039 :: "statement \<Rightarrow> classification" where
  "row_PG039 s =
     row ''PG039'' Reversible LockShort
      (''Creating extension '' @ or_else (st_object s) ''the extension''
       @ '' adds objects and takes none away. Note the deliberate asymmetry with PG011: dropping an extension can cascade to everything that depends on it, creating one cannot.'')
      (''DROP EXTENSION '' @ or_else (st_object s) ''the_extension'' @ '';'')"

definition row_PG040 :: "statement \<Rightarrow> classification" where
  "row_PG040 s =
     row ''PG040'' Reversible LockNone
      (''Creating schema '' @ or_else (st_object s) ''the schema''
       @ '' takes nothing away; dropping it returns the database to its prior state exactly.'')
      (''DROP SCHEMA '' @ or_else (st_object s) ''the_schema'' @ '';'')"

definition row_PG041 :: "statement \<Rightarrow> classification" where
  "row_PG041 s =
     row ''PG041'' Reversible LockNone
      (''Creating sequence '' @ or_else (st_relation s) ''the sequence''
       @ '' takes nothing away. Note that moving an existing sequence is PG010 and is not reversible; creating one is a different act.'')
      (''DROP SEQUENCE '' @ or_else (st_relation s) ''the_sequence'' @ '';'')"

definition row_PG042 :: "statement \<Rightarrow> classification" where
  "row_PG042 s =
     row ''PG042'' Reversible LockNone
      (''Creating function '' @ or_else (st_object s) ''the function''
       @ '' adds a definition where there was none; dropping it restores the prior state.'')
      (''DROP FUNCTION '' @ or_else (st_object s) ''the_function'' @ '';'')"

definition row_PG043 :: "statement \<Rightarrow> classification" where
  "row_PG043 s =
     (let fn = or_else (st_object s) ''the function'' in 
     row ''PG043'' Costly LockShort
      (''CREATE OR REPLACE FUNCTION overwrites the previous body of '' @ fn
       @ '', which this changeset does not record. Rolling back means restoring that body from schema history, not dropping the function.'')
      (''-- Restore the previous body of function '' @ fn @ '' from schema history.'' @ newline
       @ ''-- It is not in this changeset, so it cannot be written here. Do NOT run DROP FUNCTION ''
       @ fn @ '':'' @ newline
       @ ''-- the function existed before this migration and dropping it would destroy it.''))"

definition row_PG044 :: "statement \<Rightarrow> classification" where
  "row_PG044 s =
     row ''PG044'' Reversible LockShort
      (''Creating trigger '' @ or_else (st_object s) ''the trigger'' @ '' on ''
       @ or_else (st_relation s) ''the table''
       @ '' adds behaviour and removes none. It takes a SHARE ROW EXCLUSIVE lock on the table, which blocks writes but not reads.'')
      (''DROP TRIGGER '' @ or_else (st_object s) ''the_trigger'' @ '' ON ''
       @ or_else (st_relation s) ''the_table'' @ '';'')"

definition row_PG045 :: "statement \<Rightarrow> classification" where
  "row_PG045 s =
     row ''PG045'' Reversible LockFullScan
      (''Creating materialized view '' @ or_else (st_relation s) ''the materialized view''
       @ '' WITH DATA runs its query and holds a read lock on the source tables for the duration. It takes nothing away.'')
      (''DROP MATERIALIZED VIEW '' @ or_else (st_relation s) ''the_view'' @ '';'')"

definition row_PG046 :: "statement \<Rightarrow> classification" where
  "row_PG046 s =
     row ''PG046'' Reversible LockNone
      (''Creating materialized view '' @ or_else (st_relation s) ''the materialized view''
       @ '' WITH NO DATA writes a definition and reads nothing, so the sources are never scanned.'')
      (''DROP MATERIALIZED VIEW '' @ or_else (st_relation s) ''the_view'' @ '';'')"

definition row_PG047 :: "statement \<Rightarrow> classification" where
  "row_PG047 s =
     (let concurrently = (st_kind s = KindRefreshMatViewConcurr);
          lock = (if concurrently then LockFullScan else LockExclusive);
          note = (if concurrently then ''without blocking readers, at the cost of a slower rebuild''
                  else ''blocking every reader of the view for the duration'')
      in 
     row ''PG047'' Reversible lock
      (''Refreshing materialized view '' @ or_else (st_relation s) ''the materialized view''
       @ '' replaces derived rows with the sources'' @ [CHR 0x27] @ '' current contents, ''
       @ note @ ''. No original data is lost, because none of it was original.'')
      (''-- Nothing to restore: the contents of '' @ or_else (st_relation s) ''the view''
       @ '' are derived. Refresh again if needed.''))"

definition row_PG048 :: "statement \<Rightarrow> classification" where
  "row_PG048 s =
     row ''PG048'' Irreversible LockShort
      (''PostgreSQL provides no way to remove a value from an enum, so adding ''
       @ go_quote (st_new_name s) @ '' to '' @ or_else (st_object s) ''the type''
       @ '' cannot be undone. Rolling back requires recreating the type and rewriting every column that uses it.'')
      []"

definition row_PG049 :: "statement \<Rightarrow> classification" where
  "row_PG049 s =
     row ''PG049'' Reversible LockShort
      (''Creating policy '' @ or_else (st_object s) ''the policy'' @ '' on ''
       @ or_else (st_relation s) ''the table''
       @ '' adds a restriction where there was none; dropping it restores the prior state.'')
      (''DROP POLICY '' @ or_else (st_object s) ''the_policy'' @ '' ON ''
       @ or_else (st_relation s) ''the_table'' @ '';'')"

definition row_PG050 :: "statement \<Rightarrow> classification" where
  "row_PG050 s =
     row ''PG050'' Costly LockShort
      (''Dropping policy '' @ or_else (st_object s) ''the policy''
       @ '' removes a row-level restriction whose definition this changeset does not record. Recreating it requires recovering that definition from schema history.'')
      []"

definition row_PG051 :: "statement \<Rightarrow> classification" where
  "row_PG051 s =
     row ''PG051'' Reversible LockShort
      (''Enabling row-level security on '' @ or_else (st_relation s) ''the table''
       @ '' adds a restriction. Disabling it again restores the prior state exactly.'')
      (''ALTER TABLE '' @ or_else (st_relation s) ''the_table''
       @ '' DISABLE ROW LEVEL SECURITY;'')"

definition row_PG052 :: "statement \<Rightarrow> classification" where
  "row_PG052 s =
     row ''PG052'' Irreversible LockShort
      (''Disabling row-level security on '' @ or_else (st_relation s) ''the table''
       @ '' removes the protection every query against it relied on. The setting is one line to restore; the exposure while it was off is not. This is graded with removing a recovery capability, as TF004 is, rather than with an ordinary reversible change.'')
      []"

definition row_PG053 :: "statement \<Rightarrow> classification" where
  "row_PG053 s =
     row ''PG053'' Costly LockShort
      (''Renaming index '' @ or_else (st_object s) ''the index'' @ '' to ''
       @ or_else (st_new_name s) ''a new name''
       @ '' breaks anything that names it: a planner hint, a maintenance script, a constraint promotion. The break lasts for as long as the new name is in effect.'')
      (''ALTER INDEX '' @ or_else (st_new_name s) ''the_new_name'' @ '' RENAME TO ''
       @ or_else (st_object s) ''the_old_name'' @ '';'')"

definition row_PG054 :: "statement \<Rightarrow> classification" where
  "row_PG054 s =
     row ''PG054'' Costly LockShort
      (''Changing storage parameters on '' @ or_else (st_relation s) ''the table''
       @ '' overwrites their previous values, which this changeset does not record.'')
      []"

definition row_PG055 :: "statement \<Rightarrow> classification" where
  "row_PG055 s =
     row ''PG055'' Costly LockTableRewrite
      (''Switching '' @ or_else (st_relation s) ''the table''
       @ '' between LOGGED and UNLOGGED rewrites the whole table, and the reverse rewrites it again. While a table is UNLOGGED its contents do not survive a crash.'')
      []"

definition row_PG056 :: "statement \<Rightarrow> classification" where
  "row_PG056 s =
     row ''PG056'' Reversible LockFullScan
      (''Attaching a partition to '' @ or_else (st_relation s) ''the table''
       @ '' scans it to prove every row satisfies the partition bound, unless a matching constraint already exists. Detaching returns it to a standalone table with its rows intact.'')
      (''ALTER TABLE '' @ or_else (st_relation s) ''the_table'' @ '' DETACH PARTITION ''
       @ or_else (st_object s) ''the_partition'' @ '';'')"

definition row_PG057 :: "statement \<Rightarrow> classification" where
  "row_PG057 s =
     (let lock = (if st_concurrent s then LockNone else LockShort) in 
     row ''PG057'' Costly lock
      (''Detaching a partition from '' @ or_else (st_relation s) ''the table''
       @ '' leaves its rows intact as a standalone table, so nothing is destroyed. Re-attaching requires the partition bound, which this changeset does not record.'')
      [])"

definition row_PG058 :: "statement \<Rightarrow> classification" where
  "row_PG058 s =
     row ''PG058'' Costly LockShort
      (''Inserting into '' @ or_else (st_relation s) ''the table''
       @ '' adds rows and overwrites none, so nothing is destroyed. Undoing it means deleting exactly the rows this statement added, and their keys are not derivable from the statement alone.'')
      []"

definition row_PG059 :: "statement \<Rightarrow> classification" where
  "row_PG059 s =
     row ''PG059'' Irreversible LockShort
      (''ON CONFLICT DO UPDATE overwrites rows of '' @ or_else (st_relation s) ''the table''
       @ '' that already existed, and their prior values are gone. How many rows that is cannot be known from the statement alone: it depends on what is already in the table. This is an INSERT node carrying an UPDATE''
       @ [CHR 0x27] @ ''s effect and is classified by the effect.'')
      []"

definition row_PG033 :: "statement \<Rightarrow> classification" where
  "row_PG033 s =
     row ''PG033'' Reversible LockShort
      (''A comment on '' @ or_else (st_object s) ''the target''
       @ '' is documentation: no object, no row, and no constraint changes. Any previous comment is overwritten and is not recorded here.'')
      (''-- Restore the previous comment on '' @ or_else (st_object s) ''the target''
       @ '', or remove it with COMMENT ON ... IS NULL.'')"

definition row_PG026_drop_not_null :: "statement \<Rightarrow> classification" where
  "row_PG026_drop_not_null s =
     row ''PG026'' Reversible LockShort
      (''Relaxing NOT NULL on '' @ qualified_column (st_relation s) (st_object s)
       @ '' is a catalog-only change; note that re-imposing it costs a full table scan.'')
      (''ALTER TABLE '' @ st_relation s @ '' ALTER COLUMN '' @ st_object s @ '' SET NOT NULL;'')"

definition row_PG026_set_default :: "statement \<Rightarrow> classification" where
  "row_PG026_set_default s =
     row ''PG026'' Reversible LockShort
      (''Setting a default on '' @ qualified_column (st_relation s) (st_object s)
       @ '' is a catalog-only change that leaves existing rows untouched.'')
      (''ALTER TABLE '' @ st_relation s @ '' ALTER COLUMN '' @ st_object s @ '' DROP DEFAULT;'')"

definition row_PG026_drop_default :: "statement \<Rightarrow> classification" where
  "row_PG026_drop_default s =
     row ''PG026'' Reversible LockShort
      (''Dropping the default on '' @ qualified_column (st_relation s) (st_object s)
       @ '' is a catalog-only change that leaves existing rows untouched.'')
      (''ALTER TABLE '' @ st_relation s @ '' ALTER COLUMN '' @ st_object s @ '' SET DEFAULT ''
       @ undo_unavailable @ '';'')"

subsection \<open>Rules that look at more than the kind\<close>

definition classify_alter_column_type :: "statement \<Rightarrow> schema \<Rightarrow> classification" where
  "classify_alter_column_type s sch =
     (case st_column_type s of
        None \<Rightarrow>
          unknown_row (''the target type of this column conversion could not be resolved, so whether it truncates data is unknown'')
      | Some to \<Rightarrow>
          (case column_type sch (st_relation s) (st_object s) of
             None \<Rightarrow>
               unknown_row
                 (''the prior type of '' @ qualified_column (st_relation s) (st_object s)
                    @ '' was not declared anywhere in this changeset, so whether this conversion widens or narrows cannot be determined'')
           | Some from \<Rightarrow>
               (case compare_types from to of
                  WidthNarrowing \<Rightarrow>
                    row ''PG006'' Irreversible LockTableRewrite
                     (''Converting '' @ qualified_column (st_relation s) (st_object s) @ '' from ''
                      @ type_text from @ '' to '' @ type_text to
                      @ '' narrows the type, and any value that does not fit is truncated or rejected with no record of what it was.'')
                     []
                | WidthWidening \<Rightarrow>
                    row ''PG007'' Costly LockTableRewrite
                     (''Widening '' @ qualified_column (st_relation s) (st_object s) @ '' from ''
                      @ type_text from @ '' to '' @ type_text to
                      @ '' loses no values, but reverting fails once a value too large for '' @ type_text from
                      @ '' has been written.'')
                     (''ALTER TABLE '' @ st_relation s @ '' ALTER COLUMN '' @ st_object s @ '' TYPE ''
                      @ type_text from @ '';'')
                | _ \<Rightarrow>
                    unknown_row
                      (''the conversion of '' @ qualified_column (st_relation s) (st_object s) @ '' from ''
                       @ type_text from @ '' to '' @ type_text to
                       @ '' is not one the classification table covers, so whether it loses data is unknown''))))"

definition classify_dml :: "statement \<Rightarrow> classification" where
  "classify_dml s =
     (let verb = (if st_kind s = KindUpdate then ''UPDATE'' else ''DELETE'') in
      if \<not> st_has_where s then
        row ''PG008'' Irreversible LockExclusive
         (''An unqualified '' @ verb @ '' rewrites every row in ''
          @ or_else (st_relation s) ''the table''
          @ '', and the prior values are not recorded anywhere.'' @ cte_note s)
         []
      else
        row ''PG009'' Irreversible LockShort
         (''The WHERE clause bounds how many rows of '' @ or_else (st_relation s) ''the table''
          @ '' are touched, but the prior values of those rows are still gone.'' @ cte_note s)
         [])"

definition classify_rename :: "statement \<Rightarrow> classification" where
  "classify_rename s =
     (if st_kind s = KindRenameTable then
        row ''PG012'' Costly LockShort
         (''Renaming table '' @ st_object s @ '' to '' @ st_new_name s
          @ '' breaks the previous application version, so rolling the code back fails for as long as the schema stays renamed.'')
         (''ALTER TABLE '' @ st_new_name s @ '' RENAME TO '' @ st_object s @ '';'')
      else
        row ''PG012'' Costly LockShort
         (''Renaming column '' @ qualified_column (st_relation s) (st_object s) @ '' to ''
          @ st_new_name s
          @ '' breaks the previous application version, so rolling the code back fails for as long as the schema stays renamed.'')
         (''ALTER TABLE '' @ st_relation s @ '' RENAME COLUMN '' @ st_new_name s @ '' TO ''
          @ st_object s @ '';''))"

definition classify_drop_index :: "statement \<Rightarrow> classification" where
  "classify_drop_index s =
     (if st_concurrent s then
        row ''PG015'' Costly LockNone
         (''Index '' @ or_else (st_object s) ''the index''
          @ '' can be rebuilt, but the rebuild is slow and queries relying on it degrade until it completes; dropping it concurrently at least takes no blocking lock.'')
         (''CREATE INDEX CONCURRENTLY '' @ st_object s @ '' ON '' @ undo_unavailable @ '' ''
          @ undo_unavailable @ '';'')
      else
        row ''PG014'' Costly LockExclusive
         (''Index '' @ or_else (st_object s) ''the index''
          @ '' can be rebuilt, but the non-concurrent drop takes an exclusive lock and the rebuild is slow.'')
         (''CREATE INDEX '' @ st_object s @ '' ON '' @ undo_unavailable @ '' '' @ undo_unavailable
          @ '';''))"

definition classify_drop_derived :: "statement \<Rightarrow> classification" where
  "classify_drop_derived s =
     (let (noun, recreate) =
            (case st_kind s of
               KindDropView \<Rightarrow> (''View'', ''CREATE VIEW'')
             | KindDropFunction \<Rightarrow> (''Function'', ''CREATE FUNCTION'')
             | _ \<Rightarrow> (''Trigger'', ''CREATE TRIGGER''))
      in row ''PG016'' Costly LockShort
         (noun @ '' '' @ or_else (st_object s) ''the object''
          @ '' holds no data of its own, so restoring it only requires replaying its definition ''
          @ emdash @ '' but that definition has to be recovered from somewhere.'')
         (recreate @ '' '' @ st_object s @ '' '' @ undo_unavailable @ '';''))"

definition classify_add_column :: "statement \<Rightarrow> classification" where
  "classify_add_column s =
     (let undo = ''ALTER TABLE '' @ st_relation s @ '' DROP COLUMN '' @ st_object s @ '';'';
          col = qualified_column (st_relation s) (st_object s)
      in
      if st_not_null s \<and> \<not> st_has_default s then
        row ''PG018'' Costly LockExclusive
         (''Adding '' @ col
          @ '' as NOT NULL with no DEFAULT fails outright on a non-empty table, which aborts the migration mid-deploy and leaves the release wedged.'')
         undo
      else if st_has_default s \<and> st_volatile_default s then
        row ''PG019'' Reversible LockTableRewrite
         (''Dropping '' @ col
          @ '' undoes this completely, but a volatile default must be evaluated for every existing row, which rewrites the whole table.'')
         undo
      else
        row ''PG020'' Reversible LockNone
         (''Adding '' @ col
          @ '' is the safest schema change available: a constant default is stored in the catalog rather than written to every row.'')
         undo)"

definition classify_add_constraint :: "statement \<Rightarrow> classification" where
  "classify_add_constraint s =
     (let undo = ''ALTER TABLE '' @ st_relation s @ '' DROP CONSTRAINT '' @ st_object s @ '';'' in
      if st_not_valid s then
        row ''PG022'' Reversible LockShort
         (''Constraint '' @ or_else (st_object s) ''the constraint''
          @ '' is added NOT VALID, so existing rows are not scanned and the change is both cheap and trivially reversible.'')
         undo
      else if st_constraint s = ConstraintForeignKey \<or> st_constraint s = ConstraintCheck then
        row ''PG021'' Reversible LockFullScan
         (''Constraint '' @ or_else (st_object s) ''the constraint''
          @ '' is reversible by dropping it, but without NOT VALID every existing row is validated under lock.'')
         undo
      else
        unknown_row
          (''constraint '' @ or_else (st_object s) ''of this kind''
          @ '' is neither a foreign key nor a check, and the classification table covers no other constraint type''))"

definition classify_create_index :: "statement \<Rightarrow> classification" where
  "classify_create_index s =
     (if st_concurrent s then
        row ''PG024'' Reversible LockNone
         (''Index '' @ or_else (st_object s) ''the index''
          @ '' is built without blocking writes and is removed again by a single concurrent drop.'')
         (''DROP INDEX CONCURRENTLY '' @ st_object s @ '';'')
      else
        row ''PG023'' Reversible LockExclusive
         (''Index '' @ or_else (st_object s) ''the index''
          @ '' is fully reversible by dropping it, but the non-concurrent build blocks writes to ''
          @ or_else (st_relation s) ''the table'' @ '' until it finishes.'')
         (''DROP INDEX '' @ st_object s @ '';''))"

subsection \<open>The dispatcher\<close>

definition classify :: "statement \<Rightarrow> schema \<Rightarrow> classification" where
  "classify s sch =
     (if st_cascade s then cascade_row
      else
        (case st_kind s of
           KindDropTable \<Rightarrow> row_PG001 s
         | KindDropColumn \<Rightarrow> row_PG002 s
         | KindTruncate \<Rightarrow> row_PG003 s
         | KindDropSchema \<Rightarrow> row_PG004 s
         | KindDropDatabase \<Rightarrow> row_PG004 s
         | KindAlterColumnType \<Rightarrow> classify_alter_column_type s sch
         | KindDelete \<Rightarrow> classify_dml s
         | KindUpdate \<Rightarrow> classify_dml s
         | KindAlterSequenceRestart \<Rightarrow> row_PG010 s
         | KindDropType \<Rightarrow> row_PG011 s
         | KindDropSequence \<Rightarrow> row_PG011 s
         | KindDropExtension \<Rightarrow> row_PG011 s
         | KindRenameTable \<Rightarrow> classify_rename s
         | KindRenameColumn \<Rightarrow> classify_rename s
         | KindDropConstraint \<Rightarrow> row_PG013 s
         | KindDropIndex \<Rightarrow> classify_drop_index s
         | KindDropView \<Rightarrow> classify_drop_derived s
         | KindDropFunction \<Rightarrow> classify_drop_derived s
         | KindDropTrigger \<Rightarrow> classify_drop_derived s
         | KindSetNotNull \<Rightarrow> row_PG017 s
         | KindAddColumn \<Rightarrow> classify_add_column s
         | KindAddConstraint \<Rightarrow> classify_add_constraint s
         | KindCreateIndex \<Rightarrow> classify_create_index s
         | KindCreateTable \<Rightarrow> row_PG025_table s
         | KindCreateView \<Rightarrow> row_PG025_view s
         | KindCreateType \<Rightarrow> row_PG025_type s
         | KindReplaceView \<Rightarrow> row_PG028 s
         | KindDropMatView \<Rightarrow> row_PG029 s
         | KindAddConstraintUsingIndex \<Rightarrow> row_PG030 s
         | KindValidateConstraint \<Rightarrow> row_PG031 s
         | KindGrant \<Rightarrow> row_PG032 s
         | KindRevoke \<Rightarrow> row_PG032 s
         | KindSetVariable \<Rightarrow> row_PG034 s
         | KindLockTable \<Rightarrow> row_PG035 s
         | KindAnalyze \<Rightarrow> row_PG036 s
         | KindVacuum \<Rightarrow> row_PG037 s
         | KindVacuumFull \<Rightarrow> row_PG038 s
         | KindCreateExtension \<Rightarrow> row_PG039 s
         | KindCreateSchema \<Rightarrow> row_PG040 s
         | KindCreateSequence \<Rightarrow> row_PG041 s
         | KindCreateFunction \<Rightarrow> row_PG042 s
         | KindReplaceFunction \<Rightarrow> row_PG043 s
         | KindCreateTrigger \<Rightarrow> row_PG044 s
         | KindCreateMatView \<Rightarrow> row_PG045 s
         | KindCreateMatViewNoData \<Rightarrow> row_PG046 s
         | KindRefreshMatView \<Rightarrow> row_PG047 s
         | KindRefreshMatViewConcurr \<Rightarrow> row_PG047 s
         | KindAddEnumValue \<Rightarrow> row_PG048 s
         | KindCreatePolicy \<Rightarrow> row_PG049 s
         | KindDropPolicy \<Rightarrow> row_PG050 s
         | KindEnableRLS \<Rightarrow> row_PG051 s
         | KindDisableRLS \<Rightarrow> row_PG052 s
         | KindRenameIndex \<Rightarrow> row_PG053 s
         | KindSetRelOptions \<Rightarrow> row_PG054 s
         | KindSetLogged \<Rightarrow> row_PG055 s
         | KindAttachPartition \<Rightarrow> row_PG056 s
         | KindDetachPartition \<Rightarrow> row_PG057 s
         | KindInsert \<Rightarrow> row_PG058 s
         | KindUpsert \<Rightarrow> row_PG059 s
         | KindComment \<Rightarrow> row_PG033 s
         | KindDropNotNull \<Rightarrow> row_PG026_drop_not_null s
         | KindSetDefault \<Rightarrow> row_PG026_set_default s
         | KindDropDefault \<Rightarrow> row_PG026_drop_default s
         | _ \<Rightarrow>
             unknown_row
               (''this statement matches no rule in the PostgreSQL classification table, and an unclassified change is treated as unsafe'')))"

subsection \<open>The verdict of each row\<close>

named_theorems row_facts \<open>rule, verdict, hazard and presence of an undo, row by row\<close>

lemmas row_defs =
  row_PG001_def
  row_PG002_def
  row_PG003_def
  row_PG004_def
  row_PG010_def
  row_PG011_def
  row_PG013_def
  row_PG017_def
  row_PG025_table_def
  row_PG025_view_def
  row_PG025_type_def
  row_PG028_def
  row_PG029_def
  row_PG030_def
  row_PG031_def
  row_PG032_def
  row_PG034_def
  row_PG035_def
  row_PG036_def
  row_PG037_def
  row_PG038_def
  row_PG039_def
  row_PG040_def
  row_PG041_def
  row_PG042_def
  row_PG043_def
  row_PG044_def
  row_PG045_def
  row_PG046_def
  row_PG047_def
  row_PG048_def
  row_PG049_def
  row_PG050_def
  row_PG051_def
  row_PG052_def
  row_PG053_def
  row_PG054_def
  row_PG055_def
  row_PG056_def
  row_PG057_def
  row_PG058_def
  row_PG059_def
  row_PG033_def
  row_PG026_drop_not_null_def
  row_PG026_set_default_def
  row_PG026_drop_default_def
  cascade_row_def unknown_row_def

lemma row_verdicts [row_facts]:
  "cf_rule (row_PG001 s) = ''PG001''" "cf_rev (row_PG001 s) = Irreversible"
  "cf_lock (row_PG001 s) = LockExclusive"
  "cf_rule (row_PG002 s) = ''PG002''" "cf_rev (row_PG002 s) = Irreversible"
  "cf_lock (row_PG002 s) = LockExclusive"
  "cf_rule (row_PG003 s) = ''PG003''" "cf_rev (row_PG003 s) = Irreversible"
  "cf_lock (row_PG003 s) = LockExclusive"
  "cf_rule (row_PG004 s) = ''PG004''" "cf_rev (row_PG004 s) = Irreversible"
  "cf_lock (row_PG004 s) = LockExclusive"
  "cf_rule (row_PG010 s) = ''PG010''" "cf_rev (row_PG010 s) = Irreversible"
  "cf_lock (row_PG010 s) = LockShort"
  "cf_rule (row_PG011 s) = ''PG011''" "cf_rev (row_PG011 s) = Irreversible"
  "cf_lock (row_PG011 s) = LockExclusive"
  "cf_rule (row_PG013 s) = ''PG013''" "cf_rev (row_PG013 s) = Costly"
  "cf_lock (row_PG013 s) = LockShort"
  "cf_rule (row_PG017 s) = ''PG017''" "cf_rev (row_PG017 s) = Costly"
  "cf_lock (row_PG017 s) = LockFullScan"
  "cf_rule (row_PG025_table s) = ''PG025''" "cf_rev (row_PG025_table s) = Reversible"
  "cf_lock (row_PG025_table s) = LockNone"
  "cf_rule (row_PG025_view s) = ''PG025''" "cf_rev (row_PG025_view s) = Reversible"
  "cf_lock (row_PG025_view s) = LockNone"
  "cf_rule (row_PG025_type s) = ''PG025''" "cf_rev (row_PG025_type s) = Reversible"
  "cf_lock (row_PG025_type s) = LockNone"
  "cf_rule (row_PG028 s) = ''PG028''" "cf_rev (row_PG028 s) = Costly"
  "cf_lock (row_PG028 s) = LockShort"
  "cf_rule (row_PG029 s) = ''PG029''" "cf_rev (row_PG029 s) = Costly"
  "cf_lock (row_PG029 s) = LockExclusive"
  "cf_rule (row_PG030 s) = ''PG030''" "cf_rev (row_PG030 s) = Reversible"
  "cf_lock (row_PG030 s) = LockShort"
  "cf_rule (row_PG031 s) = ''PG031''" "cf_rev (row_PG031 s) = Reversible"
  "cf_lock (row_PG031 s) = LockFullScan"
  "cf_rule (row_PG032 s) = ''PG032''" "cf_rev (row_PG032 s) = Reversible"
  "cf_lock (row_PG032 s) = LockShort"
  "cf_rule (row_PG034 s) = ''PG034''" "cf_rev (row_PG034 s) = Reversible"
  "cf_lock (row_PG034 s) = LockNone"
  "cf_rule (row_PG035 s) = ''PG035''" "cf_rev (row_PG035 s) = Reversible"
  "cf_lock (row_PG035 s) = LockExclusive"
  "cf_rule (row_PG036 s) = ''PG036''" "cf_rev (row_PG036 s) = Reversible"
  "cf_lock (row_PG036 s) = LockNone"
  "cf_rule (row_PG037 s) = ''PG037''" "cf_rev (row_PG037 s) = Reversible"
  "cf_lock (row_PG037 s) = LockNone"
  "cf_rule (row_PG038 s) = ''PG038''" "cf_rev (row_PG038 s) = Reversible"
  "cf_lock (row_PG038 s) = LockExclusive"
  "cf_rule (row_PG039 s) = ''PG039''" "cf_rev (row_PG039 s) = Reversible"
  "cf_lock (row_PG039 s) = LockShort"
  "cf_rule (row_PG040 s) = ''PG040''" "cf_rev (row_PG040 s) = Reversible"
  "cf_lock (row_PG040 s) = LockNone"
  "cf_rule (row_PG041 s) = ''PG041''" "cf_rev (row_PG041 s) = Reversible"
  "cf_lock (row_PG041 s) = LockNone"
  "cf_rule (row_PG042 s) = ''PG042''" "cf_rev (row_PG042 s) = Reversible"
  "cf_lock (row_PG042 s) = LockNone"
  "cf_rule (row_PG043 s) = ''PG043''" "cf_rev (row_PG043 s) = Costly"
  "cf_lock (row_PG043 s) = LockShort"
  "cf_rule (row_PG044 s) = ''PG044''" "cf_rev (row_PG044 s) = Reversible"
  "cf_lock (row_PG044 s) = LockShort"
  "cf_rule (row_PG045 s) = ''PG045''" "cf_rev (row_PG045 s) = Reversible"
  "cf_lock (row_PG045 s) = LockFullScan"
  "cf_rule (row_PG046 s) = ''PG046''" "cf_rev (row_PG046 s) = Reversible"
  "cf_lock (row_PG046 s) = LockNone"
  "cf_rule (row_PG047 s) = ''PG047''" "cf_rev (row_PG047 s) = Reversible"
  "cf_lock (row_PG047 s) = (if st_kind s = KindRefreshMatViewConcurr then LockFullScan else LockExclusive)"
  "cf_rule (row_PG048 s) = ''PG048''" "cf_rev (row_PG048 s) = Irreversible"
  "cf_lock (row_PG048 s) = LockShort"
  "cf_rule (row_PG049 s) = ''PG049''" "cf_rev (row_PG049 s) = Reversible"
  "cf_lock (row_PG049 s) = LockShort"
  "cf_rule (row_PG050 s) = ''PG050''" "cf_rev (row_PG050 s) = Costly"
  "cf_lock (row_PG050 s) = LockShort"
  "cf_rule (row_PG051 s) = ''PG051''" "cf_rev (row_PG051 s) = Reversible"
  "cf_lock (row_PG051 s) = LockShort"
  "cf_rule (row_PG052 s) = ''PG052''" "cf_rev (row_PG052 s) = Irreversible"
  "cf_lock (row_PG052 s) = LockShort"
  "cf_rule (row_PG053 s) = ''PG053''" "cf_rev (row_PG053 s) = Costly"
  "cf_lock (row_PG053 s) = LockShort"
  "cf_rule (row_PG054 s) = ''PG054''" "cf_rev (row_PG054 s) = Costly"
  "cf_lock (row_PG054 s) = LockShort"
  "cf_rule (row_PG055 s) = ''PG055''" "cf_rev (row_PG055 s) = Costly"
  "cf_lock (row_PG055 s) = LockTableRewrite"
  "cf_rule (row_PG056 s) = ''PG056''" "cf_rev (row_PG056 s) = Reversible"
  "cf_lock (row_PG056 s) = LockFullScan"
  "cf_rule (row_PG057 s) = ''PG057''" "cf_rev (row_PG057 s) = Costly"
  "cf_lock (row_PG057 s) = (if st_concurrent s then LockNone else LockShort)"
  "cf_rule (row_PG058 s) = ''PG058''" "cf_rev (row_PG058 s) = Costly"
  "cf_lock (row_PG058 s) = LockShort"
  "cf_rule (row_PG059 s) = ''PG059''" "cf_rev (row_PG059 s) = Irreversible"
  "cf_lock (row_PG059 s) = LockShort"
  "cf_rule (row_PG033 s) = ''PG033''" "cf_rev (row_PG033 s) = Reversible"
  "cf_lock (row_PG033 s) = LockShort"
  "cf_rule (row_PG026_drop_not_null s) = ''PG026''" "cf_rev (row_PG026_drop_not_null s) = Reversible"
  "cf_lock (row_PG026_drop_not_null s) = LockShort"
  "cf_rule (row_PG026_set_default s) = ''PG026''" "cf_rev (row_PG026_set_default s) = Reversible"
  "cf_lock (row_PG026_set_default s) = LockShort"
  "cf_rule (row_PG026_drop_default s) = ''PG026''" "cf_rev (row_PG026_drop_default s) = Reversible"
  "cf_lock (row_PG026_drop_default s) = LockShort"
  by (simp_all only: row_defs row_select Let_def)

lemma row_no_undo [row_facts]:
  "cf_undo (row_PG001 s) = []"
  "cf_undo (row_PG002 s) = []"
  "cf_undo (row_PG003 s) = []"
  "cf_undo (row_PG004 s) = []"
  "cf_undo (row_PG010 s) = []"
  "cf_undo (row_PG011 s) = []"
  "cf_undo (row_PG048 s) = []"
  "cf_undo (row_PG050 s) = []"
  "cf_undo (row_PG052 s) = []"
  "cf_undo (row_PG054 s) = []"
  "cf_undo (row_PG055 s) = []"
  "cf_undo (row_PG057 s) = []"
  "cf_undo (row_PG058 s) = []"
  "cf_undo (row_PG059 s) = []"
  by (simp_all only: row_defs row_select Let_def)

lemma row_undo [row_facts]:
  "cf_undo (row_PG013 s) \<noteq> []"
  "cf_undo (row_PG017 s) \<noteq> []"
  "cf_undo (row_PG025_table s) \<noteq> []"
  "cf_undo (row_PG025_view s) \<noteq> []"
  "cf_undo (row_PG025_type s) \<noteq> []"
  "cf_undo (row_PG028 s) \<noteq> []"
  "cf_undo (row_PG029 s) \<noteq> []"
  "cf_undo (row_PG030 s) \<noteq> []"
  "cf_undo (row_PG031 s) \<noteq> []"
  "cf_undo (row_PG032 s) \<noteq> []"
  "cf_undo (row_PG034 s) \<noteq> []"
  "cf_undo (row_PG035 s) \<noteq> []"
  "cf_undo (row_PG036 s) \<noteq> []"
  "cf_undo (row_PG037 s) \<noteq> []"
  "cf_undo (row_PG038 s) \<noteq> []"
  "cf_undo (row_PG039 s) \<noteq> []"
  "cf_undo (row_PG040 s) \<noteq> []"
  "cf_undo (row_PG041 s) \<noteq> []"
  "cf_undo (row_PG042 s) \<noteq> []"
  "cf_undo (row_PG043 s) \<noteq> []"
  "cf_undo (row_PG044 s) \<noteq> []"
  "cf_undo (row_PG045 s) \<noteq> []"
  "cf_undo (row_PG046 s) \<noteq> []"
  "cf_undo (row_PG047 s) \<noteq> []"
  "cf_undo (row_PG049 s) \<noteq> []"
  "cf_undo (row_PG051 s) \<noteq> []"
  "cf_undo (row_PG053 s) \<noteq> []"
  "cf_undo (row_PG056 s) \<noteq> []"
  "cf_undo (row_PG033 s) \<noteq> []"
  "cf_undo (row_PG026_drop_not_null s) \<noteq> []"
  "cf_undo (row_PG026_set_default s) \<noteq> []"
  "cf_undo (row_PG026_drop_default s) \<noteq> []"
  by (simp_all add: row_defs Let_def reverse_grant_def)

lemma fixed_rows [row_facts]:
  "cf_rule cascade_row = ''PG005''" "cf_rev cascade_row = Irreversible" "cf_lock cascade_row = LockExclusive"
  "cf_undo cascade_row = []"
  "cf_rule (unknown_row w) = ''PG027''" "cf_rev (unknown_row w) = Unknown"
  "cf_lock (unknown_row w) = LockExclusive" "cf_undo (unknown_row w) = []"
  by (simp_all only: row_defs row_select)

lemma dml_facts [row_facts]:
  "cf_rule (classify_dml s) = (if st_has_where s then ''PG009'' else ''PG008'')"
  "cf_rev (classify_dml s) = Irreversible" "cf_undo (classify_dml s) = []"
  "cf_lock (classify_dml s) = (if st_has_where s then LockShort else LockExclusive)"
  by (cases "st_has_where s"; simp add: classify_dml_def)+

lemma rename_facts [row_facts]:
  "cf_rule (classify_rename s) = ''PG012''" "cf_rev (classify_rename s) = Costly"
  "cf_lock (classify_rename s) = LockShort" "cf_undo (classify_rename s) \<noteq> []"
  by (cases "st_kind s = KindRenameTable"; simp add: classify_rename_def)+

lemma drop_index_facts [row_facts]:
  "cf_rule (classify_drop_index s) = (if st_concurrent s then ''PG015'' else ''PG014'')"
  "cf_rev (classify_drop_index s) = Costly" "cf_undo (classify_drop_index s) \<noteq> []"
  "cf_lock (classify_drop_index s) = (if st_concurrent s then LockNone else LockExclusive)"
  by (cases "st_concurrent s"; simp add: classify_drop_index_def)+

lemma create_index_facts [row_facts]:
  "cf_rule (classify_create_index s) = (if st_concurrent s then ''PG024'' else ''PG023'')"
  "cf_rev (classify_create_index s) = Reversible" "cf_undo (classify_create_index s) \<noteq> []"
  "cf_lock (classify_create_index s) = (if st_concurrent s then LockNone else LockExclusive)"
  by (cases "st_concurrent s"; simp add: classify_create_index_def)+

lemma drop_derived_facts [row_facts]:
  "cf_rule (classify_drop_derived s) = ''PG016''" "cf_rev (classify_drop_derived s) = Costly"
  "cf_lock (classify_drop_derived s) = LockShort" "cf_undo (classify_drop_derived s) \<noteq> []"
  by (simp_all add: classify_drop_derived_def split_beta)

lemma add_column_facts [row_facts]:
  "cf_rule (classify_add_column s) =
     (if st_not_null s \<and> \<not> st_has_default s then ''PG018''
      else if st_has_default s \<and> st_volatile_default s then ''PG019'' else ''PG020'')"
  "cf_rev (classify_add_column s) = (if st_not_null s \<and> \<not> st_has_default s then Costly else Reversible)"
  "cf_lock (classify_add_column s) =
     (if st_not_null s \<and> \<not> st_has_default s then LockExclusive
      else if st_has_default s \<and> st_volatile_default s then LockTableRewrite else LockNone)"
  "cf_undo (classify_add_column s) \<noteq> []"
  by (simp_all add: classify_add_column_def Let_def)

definition validated_constraint :: "statement \<Rightarrow> bool" where
  "validated_constraint s \<longleftrightarrow> st_constraint s = ConstraintForeignKey \<or> st_constraint s = ConstraintCheck"

lemma add_constraint_facts [row_facts]:
  "cf_rule (classify_add_constraint s) =
     (if st_not_valid s then ''PG022'' else if validated_constraint s then ''PG021'' else ''PG027'')"
  "cf_rev (classify_add_constraint s) =
     (if st_not_valid s \<or> validated_constraint s then Reversible else Unknown)"
  "cf_lock (classify_add_constraint s) =
     (if st_not_valid s then LockShort else if validated_constraint s then LockFullScan else LockExclusive)"
  "cf_undo (classify_add_constraint s) = [] \<longleftrightarrow> \<not> st_not_valid s \<and> \<not> validated_constraint s"
  by (simp_all add: classify_add_constraint_def validated_constraint_def Let_def unknown_row_def)

text \<open>What the tracker and the statement say of a conversion together.\<close>

definition conversion :: "statement \<Rightarrow> schema \<Rightarrow> width_change" where
  "conversion s sch =
     (case (column_type sch (st_relation s) (st_object s), st_column_type s) of
        (Some old, Some new) \<Rightarrow> compare_types old new
      | _ \<Rightarrow> WidthUnknown)"

lemma alter_type_facts [row_facts]:
  "cf_rule (classify_alter_column_type s sch) =
     (case conversion s sch of WidthNarrowing \<Rightarrow> ''PG006'' | WidthWidening \<Rightarrow> ''PG007'' | _ \<Rightarrow> ''PG027'')"
  "cf_rev (classify_alter_column_type s sch) =
     (case conversion s sch of WidthNarrowing \<Rightarrow> Irreversible | WidthWidening \<Rightarrow> Costly | _ \<Rightarrow> Unknown)"
  "cf_lock (classify_alter_column_type s sch) =
     (case conversion s sch of
        WidthNarrowing \<Rightarrow> LockTableRewrite | WidthWidening \<Rightarrow> LockTableRewrite | _ \<Rightarrow> LockExclusive)"
  "cf_undo (classify_alter_column_type s sch) = [] \<longleftrightarrow> conversion s sch \<noteq> WidthWidening"
  by (simp_all add: classify_alter_column_type_def conversion_def unknown_row_def
      split: option.split width_change.split)

text \<open>The dispatcher on a statement without \<open>CASCADE\<close>, one equation per kind.\<close>

lemma classify_cascade: "st_cascade s \<Longrightarrow> classify s sch = cascade_row"
  by (simp add: classify_def)

subsection \<open>The table\<close>

text \<open>The table of \<open>docs/RULES.md\<close>, section 1: the rule, the statements it is about, the verdict and the lock.
  \<open>CASCADE\<close> takes a statement out of every row but its own. Two rules have a second, concurrent form. The rule
  for what is not listed, \<open>PG027\<close>, has no row: it is what is left.\<close>

definition is_a :: "kind list \<Rightarrow> statement \<Rightarrow> bool" where
  "is_a kinds s \<longleftrightarrow> \<not> st_cascade s \<and> st_kind s \<in> set kinds"

definition rule_table :: "(string \<times> (statement \<Rightarrow> schema \<Rightarrow> bool) \<times> reversibility \<times> lock_hazard) list" where
  "rule_table =
    [
     (''PG001'', \<lambda>s sch. is_a [KindDropTable] s, Irreversible, LockExclusive),
     (''PG002'', \<lambda>s sch. is_a [KindDropColumn] s, Irreversible, LockExclusive),
     (''PG003'', \<lambda>s sch. is_a [KindTruncate] s, Irreversible, LockExclusive),
     (''PG004'', \<lambda>s sch. is_a [KindDropSchema, KindDropDatabase] s, Irreversible, LockExclusive),
     (''PG005'', \<lambda>s sch. st_cascade s, Irreversible, LockExclusive),
     (''PG006'', \<lambda>s sch. is_a [KindAlterColumnType] s \<and> conversion s sch = WidthNarrowing, Irreversible, LockTableRewrite),
     (''PG007'', \<lambda>s sch. is_a [KindAlterColumnType] s \<and> conversion s sch = WidthWidening, Costly, LockTableRewrite),
     (''PG008'', \<lambda>s sch. is_a [KindDelete, KindUpdate] s \<and> \<not> st_has_where s, Irreversible, LockExclusive),
     (''PG009'', \<lambda>s sch. is_a [KindDelete, KindUpdate] s \<and> st_has_where s, Irreversible, LockShort),
     (''PG010'', \<lambda>s sch. is_a [KindAlterSequenceRestart] s, Irreversible, LockShort),
     (''PG011'', \<lambda>s sch. is_a [KindDropType, KindDropSequence, KindDropExtension] s, Irreversible, LockExclusive),
     (''PG012'', \<lambda>s sch. is_a [KindRenameTable, KindRenameColumn] s, Costly, LockShort),
     (''PG013'', \<lambda>s sch. is_a [KindDropConstraint] s, Costly, LockShort),
     (''PG014'', \<lambda>s sch. is_a [KindDropIndex] s \<and> \<not> st_concurrent s, Costly, LockExclusive),
     (''PG015'', \<lambda>s sch. is_a [KindDropIndex] s \<and> st_concurrent s, Costly, LockNone),
     (''PG016'', \<lambda>s sch. is_a [KindDropView, KindDropFunction, KindDropTrigger] s, Costly, LockShort),
     (''PG017'', \<lambda>s sch. is_a [KindSetNotNull] s, Costly, LockFullScan),
     (''PG018'', \<lambda>s sch. is_a [KindAddColumn] s \<and> st_not_null s \<and> \<not> st_has_default s, Costly, LockExclusive),
     (''PG019'', \<lambda>s sch. is_a [KindAddColumn] s \<and> st_has_default s \<and> st_volatile_default s, Reversible, LockTableRewrite),
     (''PG020'', \<lambda>s sch. is_a [KindAddColumn] s \<and> (if st_has_default s then \<not> st_volatile_default s else \<not> st_not_null s), Reversible, LockNone),
     (''PG021'', \<lambda>s sch. is_a [KindAddConstraint] s \<and> \<not> st_not_valid s \<and> st_constraint s \<in> {ConstraintForeignKey, ConstraintCheck}, Reversible, LockFullScan),
     (''PG022'', \<lambda>s sch. is_a [KindAddConstraint] s \<and> st_not_valid s, Reversible, LockShort),
     (''PG023'', \<lambda>s sch. is_a [KindCreateIndex] s \<and> \<not> st_concurrent s, Reversible, LockExclusive),
     (''PG024'', \<lambda>s sch. is_a [KindCreateIndex] s \<and> st_concurrent s, Reversible, LockNone),
     (''PG025'', \<lambda>s sch. is_a [KindCreateTable, KindCreateView, KindCreateType] s, Reversible, LockNone),
     (''PG026'', \<lambda>s sch. is_a [KindDropNotNull, KindSetDefault, KindDropDefault] s, Reversible, LockShort),
     (''PG028'', \<lambda>s sch. is_a [KindReplaceView] s, Costly, LockShort),
     (''PG029'', \<lambda>s sch. is_a [KindDropMatView] s, Costly, LockExclusive),
     (''PG030'', \<lambda>s sch. is_a [KindAddConstraintUsingIndex] s, Reversible, LockShort),
     (''PG031'', \<lambda>s sch. is_a [KindValidateConstraint] s, Reversible, LockFullScan),
     (''PG032'', \<lambda>s sch. is_a [KindGrant, KindRevoke] s, Reversible, LockShort),
     (''PG033'', \<lambda>s sch. is_a [KindComment] s, Reversible, LockShort),
     (''PG034'', \<lambda>s sch. is_a [KindSetVariable] s, Reversible, LockNone),
     (''PG035'', \<lambda>s sch. is_a [KindLockTable] s, Reversible, LockExclusive),
     (''PG036'', \<lambda>s sch. is_a [KindAnalyze] s, Reversible, LockNone),
     (''PG037'', \<lambda>s sch. is_a [KindVacuum] s, Reversible, LockNone),
     (''PG038'', \<lambda>s sch. is_a [KindVacuumFull] s, Reversible, LockExclusive),
     (''PG039'', \<lambda>s sch. is_a [KindCreateExtension] s, Reversible, LockShort),
     (''PG040'', \<lambda>s sch. is_a [KindCreateSchema] s, Reversible, LockNone),
     (''PG041'', \<lambda>s sch. is_a [KindCreateSequence] s, Reversible, LockNone),
     (''PG042'', \<lambda>s sch. is_a [KindCreateFunction] s, Reversible, LockNone),
     (''PG043'', \<lambda>s sch. is_a [KindReplaceFunction] s, Costly, LockShort),
     (''PG044'', \<lambda>s sch. is_a [KindCreateTrigger] s, Reversible, LockShort),
     (''PG045'', \<lambda>s sch. is_a [KindCreateMatView] s, Reversible, LockFullScan),
     (''PG046'', \<lambda>s sch. is_a [KindCreateMatViewNoData] s, Reversible, LockNone),
     (''PG047'', \<lambda>s sch. is_a [KindRefreshMatView] s, Reversible, LockExclusive),
     (''PG047'', \<lambda>s sch. is_a [KindRefreshMatViewConcurr] s, Reversible, LockFullScan),
     (''PG048'', \<lambda>s sch. is_a [KindAddEnumValue] s, Irreversible, LockShort),
     (''PG049'', \<lambda>s sch. is_a [KindCreatePolicy] s, Reversible, LockShort),
     (''PG050'', \<lambda>s sch. is_a [KindDropPolicy] s, Costly, LockShort),
     (''PG051'', \<lambda>s sch. is_a [KindEnableRLS] s, Reversible, LockShort),
     (''PG052'', \<lambda>s sch. is_a [KindDisableRLS] s, Irreversible, LockShort),
     (''PG053'', \<lambda>s sch. is_a [KindRenameIndex] s, Costly, LockShort),
     (''PG054'', \<lambda>s sch. is_a [KindSetRelOptions] s, Costly, LockShort),
     (''PG055'', \<lambda>s sch. is_a [KindSetLogged] s, Costly, LockTableRewrite),
     (''PG056'', \<lambda>s sch. is_a [KindAttachPartition] s, Reversible, LockFullScan),
     (''PG057'', \<lambda>s sch. is_a [KindDetachPartition] s \<and> \<not> st_concurrent s, Costly, LockShort),
     (''PG057'', \<lambda>s sch. is_a [KindDetachPartition] s \<and> st_concurrent s, Costly, LockNone),
     (''PG058'', \<lambda>s sch. is_a [KindInsert] s, Costly, LockShort),
     (''PG059'', \<lambda>s sch. is_a [KindUpsert] s, Irreversible, LockShort)]"

definition rows_about :: "statement \<Rightarrow> schema \<Rightarrow> (string \<times> reversibility \<times> lock_hazard) list" where
  "rows_about s sch =
     map (\<lambda>(rule, about, verdict, lock). (rule, verdict, lock))
       (filter (\<lambda>(rule, about, verdict, lock). about s sch) rule_table)"

text \<open>What the classifier reports, and the rows of a statement of each kind.\<close>

definition report :: "statement \<Rightarrow> schema \<Rightarrow> string \<times> reversibility \<times> lock_hazard" where
  "report s sch = (cf_rule (classify s sch), cf_rev (classify s sch), cf_lock (classify s sch))"

lemma is_a_kind: "\<not> st_cascade s \<Longrightarrow> is_a ks s \<longleftrightarrow> list_ex (\<lambda>k. st_kind s = k) ks"
  by (auto simp: is_a_def list_ex_iff)

lemma rows_cascade: "st_cascade s \<Longrightarrow> rows_about s sch = [report s sch]"
  by (simp add: rows_about_def rule_table_def is_a_def report_def classify_def row_facts)

lemma rows_drops_1:
  assumes "st_kind s \<in>
    {KindDropTable, KindDropColumn, KindTruncate, KindDropSchema, KindDropDatabase, KindDropType,
     KindDropSequence, KindDropExtension, KindDropConstraint}"
    and "\<not> st_cascade s"
  shows "rows_about s sch = [report s sch]"
  unfolding rows_about_def rule_table_def report_def classify_def
  using assms by (elim insertE emptyE; simp add: is_a_kind row_facts)

lemma rows_drops_2:
  assumes "st_kind s \<in>
    {KindDropView, KindDropFunction, KindDropTrigger, KindDropMatView, KindDropNotNull, KindDropDefault,
     KindDropPolicy, KindDisableRLS}"
    and "\<not> st_cascade s"
  shows "rows_about s sch = [report s sch]"
  unfolding rows_about_def rule_table_def report_def classify_def
  using assms by (elim insertE emptyE; simp add: is_a_kind row_facts)

lemma rows_creates_1:
  assumes "st_kind s \<in>
    {KindCreateTable, KindCreateView, KindReplaceView, KindReplaceFunction, KindCreateMatView,
     KindCreateMatViewNoData, KindRefreshMatView, KindRefreshMatViewConcurr}"
    and "\<not> st_cascade s"
  shows "rows_about s sch = [report s sch]"
  unfolding rows_about_def rule_table_def report_def classify_def
  using assms by (elim insertE emptyE; simp add: is_a_kind row_facts)

lemma rows_creates_2:
  assumes "st_kind s \<in>
    {KindCreatePolicy, KindEnableRLS, KindCreateType, KindCreateSchema, KindCreateSequence,
     KindCreateExtension, KindCreateFunction, KindCreateTrigger}"
    and "\<not> st_cascade s"
  shows "rows_about s sch = [report s sch]"
  unfolding rows_about_def rule_table_def report_def classify_def
  using assms by (elim insertE emptyE; simp add: is_a_kind row_facts)

lemma rows_changes_1:
  assumes "st_kind s \<in>
    {KindAlterSequenceRestart, KindRenameTable, KindRenameColumn, KindSetNotNull, KindSetDefault,
     KindAddConstraintUsingIndex}"
    and "\<not> st_cascade s"
  shows "rows_about s sch = [report s sch]"
  unfolding rows_about_def rule_table_def report_def classify_def
  using assms by (elim insertE emptyE; simp add: is_a_kind row_facts)

lemma rows_changes_2:
  assumes "st_kind s \<in>
    {KindValidateConstraint, KindGrant, KindRevoke, KindComment, KindSetVariable}"
    and "\<not> st_cascade s"
  shows "rows_about s sch = [report s sch]"
  unfolding rows_about_def rule_table_def report_def classify_def
  using assms by (elim insertE emptyE; simp add: is_a_kind row_facts)

lemma rows_others_1:
  assumes "st_kind s \<in>
    {KindLockTable, KindAnalyze, KindVacuum, KindVacuumFull, KindAddEnumValue, KindRenameIndex}"
    and "\<not> st_cascade s"
  shows "rows_about s sch = [report s sch]"
  unfolding rows_about_def rule_table_def report_def classify_def
  using assms by (elim insertE emptyE; simp add: is_a_kind row_facts)

lemma rows_others_2:
  assumes "st_kind s \<in>
    {KindSetRelOptions, KindSetLogged, KindAttachPartition, KindInsert, KindUpsert}"
    and "\<not> st_cascade s"
  shows "rows_about s sch = [report s sch]"
  unfolding rows_about_def rule_table_def report_def classify_def
  using assms by (elim insertE emptyE; simp add: is_a_kind row_facts)

lemma rows_concurrent:
  assumes "st_kind s \<in> {KindDropIndex, KindCreateIndex, KindDetachPartition}" and "\<not> st_cascade s"
  shows "rows_about s sch = [report s sch]"
  unfolding rows_about_def rule_table_def report_def classify_def
  using assms by (cases "st_concurrent s"; elim insertE emptyE; simp add: is_a_kind row_facts)

lemma rows_dml:
  assumes "st_kind s \<in> {KindDelete, KindUpdate}" and "\<not> st_cascade s"
  shows "rows_about s sch = [report s sch]"
  unfolding rows_about_def rule_table_def report_def classify_def
  using assms by (cases "st_has_where s"; elim insertE emptyE; simp add: is_a_kind row_facts)

lemma rows_add_column:
  assumes "st_kind s = KindAddColumn" and "\<not> st_cascade s"
  shows "rows_about s sch = [report s sch]"
  unfolding rows_about_def rule_table_def report_def classify_def
  using assms
  by (cases "st_not_null s"; cases "st_has_default s"; cases "st_volatile_default s"; simp add: is_a_kind row_facts)

lemma rows_add_constraint:
  assumes "st_kind s = KindAddConstraint" and "\<not> st_cascade s"
  shows "rows_about s sch = (if st_not_valid s \<or> validated_constraint s then [report s sch] else [])"
  unfolding rows_about_def rule_table_def report_def classify_def
  using assms
  by (cases "st_not_valid s"; cases "validated_constraint s"; simp add: is_a_kind row_facts validated_constraint_def)

lemma rows_alter_type:
  assumes "st_kind s = KindAlterColumnType" and "\<not> st_cascade s"
  shows "rows_about s sch = (if conversion s sch \<in> {WidthNarrowing, WidthWidening} then [report s sch] else [])"
  unfolding rows_about_def rule_table_def report_def classify_def
  using assms by (cases "conversion s sch"; simp add: is_a_kind row_facts)

lemma rows_unlisted:
  assumes "st_kind s = KindUnrecognized \<or> st_kind s = Kind_other t" and "\<not> st_cascade s"
  shows "rows_about s sch = []"
  unfolding rows_about_def rule_table_def using assms by (elim disjE; simp add: is_a_kind)

lemmas rows_plain = rows_drops_1 rows_drops_2 rows_creates_1 rows_creates_2
  rows_changes_1 rows_changes_2 rows_others_1 rows_others_2 rows_concurrent rows_dml rows_add_column

lemma rows_report:
  "rows_about s sch = [report s sch] \<or> rows_about s sch = [] \<and> report s sch = (''PG027'', Unknown, LockExclusive)"
proof (cases "st_cascade s")
  case True
  then show ?thesis by (simp add: rows_cascade)
next
  case False
  then show ?thesis
  proof (cases "st_kind s")
    case KindAddConstraint
    then show ?thesis using False by (simp add: rows_add_constraint report_def classify_def row_facts)
  next
    case KindAlterColumnType
    then show ?thesis
      using False by (simp add: rows_alter_type report_def classify_def row_facts split: width_change.split)
  next
    case KindUnrecognized
    then show ?thesis using False by (simp add: rows_unlisted report_def classify_def row_facts)
  next
    case (Kind_other t)
    then show ?thesis using False by (simp add: rows_unlisted report_def classify_def row_facts)
  qed (simp_all add: rows_plain)
qed

text \<open>The effects the documentation calls irreversible, by kind: destroyed rows, values, objects that
  hold them, positions, and protection.\<close>

fun destroys :: "kind \<Rightarrow> bool" where
  "destroys KindDropTable = True"
| "destroys KindDropColumn = True"
| "destroys KindTruncate = True"
| "destroys KindDropSchema = True"
| "destroys KindDropDatabase = True"
| "destroys KindDelete = True"
| "destroys KindUpdate = True"
| "destroys KindUpsert = True"
| "destroys KindAlterSequenceRestart = True"
| "destroys KindDropType = True"
| "destroys KindDropSequence = True"
| "destroys KindDropExtension = True"
| "destroys KindAddEnumValue = True"
| "destroys KindDisableRLS = True"
| "destroys _ = False"

lemma irreversible_iff:
  "cf_rev (classify s sch) = Irreversible \<longleftrightarrow>
     st_cascade s \<or> destroys (st_kind s)
     \<or> st_kind s = KindAlterColumnType \<and> conversion s sch = WidthNarrowing"
  unfolding classify_def
  by (cases "st_cascade s"; cases "st_kind s")
    (simp_all add: row_facts split: width_change.split)

subsection \<open>Properties\<close>

text \<open>C11. The classifier implements the table of the documentation, row for row: of every statement, under every
  schema, at most one row of the table speaks; what is reported is the rule, the verdict and the lock of that
  row, and when no row speaks the rule for what is not listed, an unknown verdict and an exclusive lock. The
  rows state which statements they are about apart from the classifier: by kind, \<open>CASCADE\<close>, \<open>WHERE\<close>,
  \<open>CONCURRENTLY\<close>, \<open>NOT NULL\<close>, \<open>DEFAULT\<close>, \<open>NOT VALID\<close>, the kind of constraint, and whether the conversion of a
  column is known to narrow or to widen.\<close>

theorem table_is_followed:
  "length (rows_about s sch) \<le> 1
   \<and> (cf_rule (classify s sch), cf_rev (classify s sch), cf_lock (classify s sch)) =
       (case rows_about s sch of [] \<Rightarrow> (''PG027'', Unknown, LockExclusive) | r # rs \<Rightarrow> r)"
  using rows_report [of s sch] unfolding report_def by (elim disjE conjE) (simp_all only: list.case list.size, simp_all)

text \<open>C12. Exactly these statements are irreversible: whatever says \<open>CASCADE\<close>, the kinds that destroy rows,
  values, objects holding them, positions or protection, and a conversion known to narrow.\<close>

theorem irreversible_exact:
  "cf_rev (classify s sch) = Irreversible \<longleftrightarrow>
     st_cascade s \<or> destroys (st_kind s)
     \<or> st_kind s = KindAlterColumnType \<and> conversion s sch = WidthNarrowing"
  by (rule irreversible_iff)

text \<open>The classifier fails closed, and only there: the verdict is unknown for a statement of no listed
  kind, for a conversion that is neither known to narrow nor known to widen, and for a constraint that is
  validated at once and is neither a foreign key nor a check.\<close>

theorem unknown_exact:
  "cf_rev (classify s sch) = Unknown \<longleftrightarrow>
     \<not> st_cascade s \<and>
     (case st_kind s of
        KindUnrecognized \<Rightarrow> True
      | Kind_other _ \<Rightarrow> True
      | KindAlterColumnType \<Rightarrow> conversion s sch \<in> {WidthUnknown, WidthSame}
      | KindAddConstraint \<Rightarrow> \<not> st_not_valid s \<and> \<not> validated_constraint s
      | _ \<Rightarrow> False)"
  unfolding classify_def
  by (cases "st_cascade s"; cases "st_kind s")
    (simp_all add: row_facts split: width_change.split)

text \<open>\<open>CONCURRENTLY\<close> is a modifier of the lock and never of the verdict: the concurrent form of a
  statement has the verdict of the blocking form and a lock that is no heavier.\<close>

theorem concurrently_changes_only_the_lock:
  "cf_rev (classify (s\<lparr>st_concurrent := True\<rparr>) sch) = cf_rev (classify (s\<lparr>st_concurrent := False\<rparr>) sch)
   \<and> lock_severity (cf_lock (classify (s\<lparr>st_concurrent := True\<rparr>) sch))
       \<le> lock_severity (cf_lock (classify (s\<lparr>st_concurrent := False\<rparr>) sch))
   \<and> cf_rev (classify (s\<lparr>st_kind := KindRefreshMatViewConcurr\<rparr>) sch)
       = cf_rev (classify (s\<lparr>st_kind := KindRefreshMatView\<rparr>) sch)
   \<and> lock_severity (cf_lock (classify (s\<lparr>st_kind := KindRefreshMatViewConcurr\<rparr>) sch))
       \<le> lock_severity (cf_lock (classify (s\<lparr>st_kind := KindRefreshMatView\<rparr>) sch))"
proof -
  have "cf_rev (classify (s\<lparr>st_concurrent := True\<rparr>) sch) = cf_rev (classify (s\<lparr>st_concurrent := False\<rparr>) sch)
    \<and> lock_severity (cf_lock (classify (s\<lparr>st_concurrent := True\<rparr>) sch))
       \<le> lock_severity (cf_lock (classify (s\<lparr>st_concurrent := False\<rparr>) sch))"
    unfolding classify_def
    by (cases "st_cascade s"; cases "st_kind s")
      (simp_all add: row_facts conversion_def validated_constraint_def split: width_change.split option.split)
  then show ?thesis
    unfolding classify_def by (cases "st_cascade s") (simp_all add: row_facts)
qed

text \<open>Undo steps and verdicts agree: a reversible statement always has an undo step, and an
  irreversible or unclassified one never does.\<close>

theorem undo_step_matches_verdict:
  "case cf_rev (classify s sch) of
     Reversible \<Rightarrow> cf_undo (classify s sch) \<noteq> []
   | Costly \<Rightarrow> True
   | _ \<Rightarrow> cf_undo (classify s sch) = []"
  unfolding classify_def
  by (cases "st_cascade s"; cases "st_kind s")
    (simp_all add: row_facts split: width_change.split)

text \<open>The undo of validating a constraint is the statement that undoes adding it: the constraint,
  which existed before the statement, is dropped. The documentation asks that an undo step be safe to run
  and warns against exactly this for views.\<close>

theorem validate_undo_drops_the_constraint:
  "\<not> st_cascade v \<and> st_kind v = KindValidateConstraint \<and> st_relation v = r \<and> st_object v = c \<Longrightarrow>
     cf_rev (classify v sch) = Reversible
     \<and> cf_undo (classify v sch) = ''ALTER TABLE '' @ r @ '' DROP CONSTRAINT '' @ c @ '';''"
  by (auto simp: classify_def row_PG031_def simp del: append_Cons append_Nil)

theorem validate_undo_drops_the_constraint_witness:
  "cf_undo (classify ((bare_statement KindValidateConstraint)\<lparr>st_relation := ''orders'', st_object := ''fk''\<rparr>)
      new_schema) = ''ALTER TABLE orders DROP CONSTRAINT fk;''"
  using validate_undo_drops_the_constraint
    [of "(bare_statement KindValidateConstraint)\<lparr>st_relation := ''orders'', st_object := ''fk''\<rparr>" "''orders''" "''fk''"
        new_schema]
  by (simp add: bare_statement_def)

text \<open>Reversible does not mean that the undo can be written from the changeset: dropping a default is
  reversible by the table, and its undo leaves out the default, which the documentation's overwrite
  principle would make costly.\<close>

theorem drop_default_undo_has_a_hole:
  "cf_rev (classify (bare_statement KindDropDefault) sch) = Reversible
   \<and> contains (cf_undo (classify (bare_statement KindDropDefault) sch)) undo_unavailable"
  by (simp add: classify_def bare_statement_def row_PG026_drop_default_def undo_unavailable_def has_prefix_def)

end
