(* ===== verification/Postgres_Down.thy ===== *)
theory Postgres_Down
  imports Postgres_Parser Scorer
begin

text \<open>
  Migrations and their down migrations: \<open>internal/analyzer/postgres/migration.go\<close>, which says what a
  \<open>.sql\<close> file is and pairs the files of a changeset, and \<open>down.go\<close>, which reports for every up
  migration whether its down migration exists, parses and mirrors it. The map of pairs with the order
  in which its keys appeared is an association list. \<open>down_statuses\<close> is the loop of
  \<open>ValidateDownMigrations\<close> once a parser is there and the context is alive.
\<close>

subsection \<open>Roles of files\<close>

definition classify_path :: "string \<Rightarrow> string \<times> bool \<times> bool" where
  "classify_path p =
     (let base = path_base p; lower = to_lower base in
      if has_suffix lower ''.down.sql'' then (take (length base - length ''.down.sql'') base, True, True)
      else if has_suffix lower ''.up.sql'' then (take (length base - length ''.up.sql'') base, False, True)
      else if lower = ''down.sql'' then (path_base (path_dir p), True, True)
      else if lower = ''up.sql'' then (path_base (path_dir p), False, True)
      else if has_suffix lower ''.sql'' then (take (length base - length ''.sql'') base, False, True)
      else ([], False, False))"

definition is_up :: "changed_file \<Rightarrow> bool" where
  "is_up f \<longleftrightarrow> (case classify_path (p_path f) of (_, down, migration) \<Rightarrow> migration \<and> \<not> down)"

definition is_down :: "changed_file \<Rightarrow> bool" where
  "is_down f \<longleftrightarrow> (case classify_path (p_path f) of (_, down, migration) \<Rightarrow> migration \<and> down)"

subsection \<open>Pairs\<close>

record migration_pair =
  mp_id :: string
  mp_up :: "changed_file option"
  mp_down :: "changed_file option"

text \<open>The directory and the identity a file is paired under; \<open>None\<close> for a file that is no migration.\<close>

definition pair_key :: "changed_file \<Rightarrow> (string \<times> string) option" where
  "pair_key f =
     (case classify_path (p_path f) of
        (ident, down, migration) \<Rightarrow>
          if \<not> migration then None
          else
            (let dir = path_dir (p_path f); base = to_lower (path_base (p_path f)) in
             Some (if base = ''up.sql'' \<or> base = ''down.sql'' then path_dir dir else dir, ident)))"

definition set_half :: "changed_file \<Rightarrow> migration_pair \<Rightarrow> migration_pair" where
  "set_half f pr = (if is_down f then pr\<lparr>mp_down := Some f\<rparr> else pr\<lparr>mp_up := Some f\<rparr>)"

fun put_pair :: "string \<times> string \<Rightarrow> changed_file \<Rightarrow> ((string \<times> string) \<times> migration_pair) list
    \<Rightarrow> ((string \<times> string) \<times> migration_pair) list" where
  "put_pair k f [] = [(k, set_half f \<lparr>mp_id = snd k, mp_up = None, mp_down = None\<rparr>)]"
| "put_pair k f ((k', pr) # ps) = (if k' = k then (k', set_half f pr) # ps else (k', pr) # put_pair k f ps)"

definition add_file :: "((string \<times> string) \<times> migration_pair) list \<Rightarrow> changed_file
    \<Rightarrow> ((string \<times> string) \<times> migration_pair) list" where
  "add_file ps f = (case pair_key f of None \<Rightarrow> ps | Some k \<Rightarrow> put_pair k f ps)"

definition pair_migrations :: "changed_file list \<Rightarrow> migration_pair list" where
  "pair_migrations files = map snd (sort_key fst (foldl add_file [] files))"

subsection \<open>Symmetry\<close>

definition object_set :: "statement list \<Rightarrow> (statement \<Rightarrow> object_ref option) \<Rightarrow> object_ref list" where
  "object_set stmts get = List.map_filter get stmts"

fun dedupe :: "string list \<Rightarrow> string list" where
  "dedupe [] = []"
| "dedupe [s] = [s]"
| "dedupe (s # s' # ss) = (if s = s' then dedupe (s' # ss) else s # dedupe (s' # ss))"

definition statement_notes :: "object_ref list \<Rightarrow> object_ref list \<Rightarrow> statement \<Rightarrow> string list" where
  "statement_notes down_drops down_creates s =
     (case creates s of
        None \<Rightarrow> []
      | Some ob \<Rightarrow> if ob \<in> set down_drops then []
                   else [''up creates '' @ object_text ob @ '' but down never drops it''])
     @ (case drops s of
        None \<Rightarrow> []
      | Some ob \<Rightarrow> if ob \<in> set down_creates then []
                   else [''up drops '' @ object_text ob @ '' but down never recreates it''])"

definition check_symmetry :: "statement list \<Rightarrow> statement list \<Rightarrow> bool \<times> string list" where
  "check_symmetry up down =
     (let notes = concat (map (statement_notes (object_set down drops) (object_set down creates)) up) in
      if notes = [] then (True, []) else (False, dedupe (sort notes)))"

subsection \<open>Statuses\<close>

definition status_of :: "sql_parser \<Rightarrow> string \<Rightarrow> changed_file \<Rightarrow> changed_file option \<Rightarrow> down_migration_status" where
  "status_of parse ident up down =
     (let st = \<lparr>d_migration = ident, d_up_file = p_path up, d_down_file = [], d_exists = False,
                d_parses = False, d_symmetric = False, d_symmetry_notes = []\<rparr>
      in case down of
           None \<Rightarrow> st\<lparr>d_symmetry_notes := [''no down migration accompanies this up migration'']\<rparr>
         | Some f \<Rightarrow>
             (let st = st\<lparr>d_down_file := p_path f, d_exists := True\<rparr>; sql = trim_space (p_current f) in
              if sql = [] then st\<lparr>d_symmetry_notes := [''the down migration is empty'']\<rparr>
              else
                (case parse sql of
                   Inl e \<Rightarrow> st\<lparr>d_symmetry_notes := [''the down migration does not parse: '' @ e]\<rparr>
                 | Inr down_stmts \<Rightarrow>
                     (let st = st\<lparr>d_parses := True\<rparr> in
                      case parse (p_current up) of
                        Inl e \<Rightarrow>
                          st\<lparr>d_symmetry_notes :=
                            [''symmetry could not be checked because the up migration does not parse'']\<rparr>
                      | Inr up_stmts \<Rightarrow>
                          (case check_symmetry up_stmts down_stmts of
                             (symmetric, notes) \<Rightarrow>
                               st\<lparr>d_symmetric := symmetric, d_symmetry_notes := notes\<rparr>)))))"

definition down_statuses :: "sql_parser \<Rightarrow> changed_file list \<Rightarrow> down_migration_status list" where
  "down_statuses parse files =
     List.map_filter (\<lambda>pr. case mp_up pr of None \<Rightarrow> None
                           | Some up \<Rightarrow> Some (status_of parse (mp_id pr) up (mp_down pr)))
       (pair_migrations files)"

definition parser_unavailable :: string where
  "parser_unavailable = ''domain: sql parser unavailable''"

definition validate_down_migrations ::
  "sql_parser option \<Rightarrow> string option \<Rightarrow> changed_file list \<Rightarrow> down_migration_status list run" where
  "validate_down_migrations parser cancelled files =
     (case parser of
        None \<Rightarrow> Failed (''postgres: validating down migrations: '' @ parser_unavailable)
      | Some parse \<Rightarrow>
          (case cancelled of
             Some e \<Rightarrow> Failed (''postgres: validating down migrations: '' @ e)
           | None \<Rightarrow> Done (down_statuses parse files)))"

subsection \<open>What pairing computes\<close>

text \<open>The last file of a list, if there is one.\<close>

definition last_of :: "'a list \<Rightarrow> 'a option" where
  "last_of xs = (if xs = [] then None else Some (last xs))"

lemma last_of_snoc [simp]: "last_of (xs @ [x]) = Some x" "last_of [] = None"
  by (simp_all add: last_of_def)

text \<open>The pair of a key: the last up file and the last down file that have it.\<close>

definition pair_of :: "changed_file list \<Rightarrow> string \<times> string \<Rightarrow> migration_pair" where
  "pair_of files k =
     \<lparr>mp_id = snd k, mp_up = last_of (filter (\<lambda>f. pair_key f = Some k \<and> \<not> is_down f) files),
      mp_down = last_of (filter (\<lambda>f. pair_key f = Some k \<and> is_down f) files)\<rparr>"

lemma put_pair_keys:
  "map fst (put_pair k f ps) = (if k \<in> set (map fst ps) then map fst ps else map fst ps @ [k])"
  by (induction k f ps rule: put_pair.induct) auto

lemma put_pair_map:
  assumes "distinct ks" and "\<And>k'. k' \<noteq> k \<Longrightarrow> g k' = h k'" and "k \<in> set ks \<Longrightarrow> g k = set_half f (h k)"
    and "k \<notin> set ks \<Longrightarrow> g k = set_half f \<lparr>mp_id = snd k, mp_up = None, mp_down = None\<rparr>"
  shows "put_pair k f (map (\<lambda>k. (k, h k)) ks) = map (\<lambda>k. (k, g k)) (if k \<in> set ks then ks else ks @ [k])"
  using assms by (induction ks) (auto, metis+)

lemma pair_of_snoc:
  "pair_key f = Some k \<Longrightarrow> pair_of (files @ [f]) k = set_half f (pair_of files k)"
  "pair_key f \<noteq> Some k \<Longrightarrow> pair_of (files @ [f]) k = pair_of files k"
  by (simp_all add: pair_of_def set_half_def)

lemma pair_of_fresh:
  "k \<notin> set (List.map_filter pair_key files) \<Longrightarrow> pair_of files k = \<lparr>mp_id = snd k, mp_up = None, mp_down = None\<rparr>"
  by (force simp: pair_of_def last_of_def filter_empty_conv List.map_filter_def)

text \<open>Keys in the order in which they first appeared.\<close>

definition keys_in_order :: "changed_file list \<Rightarrow> (string \<times> string) list" where
  "keys_in_order files = rev (remdups (rev (List.map_filter pair_key files)))"

lemma keys_in_order_simps:
  "distinct (keys_in_order files)" "set (keys_in_order files) = set (List.map_filter pair_key files)"
  by (simp_all add: keys_in_order_def)

lemma keys_in_order_snoc:
  "keys_in_order (files @ [f]) =
     (case pair_key f of None \<Rightarrow> keys_in_order files
      | Some k \<Rightarrow> if k \<in> set (keys_in_order files) then keys_in_order files else keys_in_order files @ [k])"
  by (auto simp: keys_in_order_def List.map_filter_def split: option.split)

lemma foldl_add_file: "foldl add_file [] files = map (\<lambda>k. (k, pair_of files k)) (keys_in_order files)"
proof (induction files rule: rev_induct)
  case Nil
  then show ?case by (simp add: keys_in_order_def List.map_filter_def)
next
  case (snoc f files)
  show ?case
  proof (cases "pair_key f")
    case None
    with snoc show ?thesis by (simp add: add_file_def keys_in_order_snoc pair_of_snoc(2))
  next
    case (Some k)
    have "put_pair k f (map (\<lambda>k. (k, pair_of files k)) (keys_in_order files))
        = map (\<lambda>k. (k, pair_of (files @ [f]) k))
            (if k \<in> set (keys_in_order files) then keys_in_order files else keys_in_order files @ [k])"
      by (rule put_pair_map)
        (use Some in \<open>simp_all add: keys_in_order_simps pair_of_snoc pair_of_fresh\<close>)
    with snoc Some show ?thesis by (simp add: add_file_def keys_in_order_snoc)
  qed
qed

lemma sort_key_map_fst: "sort_key fst (map (\<lambda>k. (k, g k)) ks) = map (\<lambda>k. (k, g k)) (sort ks)"
proof -
  have "insort_key fst (k, g k) (map (\<lambda>k. (k, g k)) xs) = map (\<lambda>k. (k, g k)) (insort k xs)" for k xs
    by (induction xs) auto
  then show ?thesis by (induction ks) simp_all
qed

lemma pair_migrations_spec: "pair_migrations files = map (pair_of files) (sort (keys_in_order files))"
  by (simp add: pair_migrations_def foldl_add_file sort_key_map_fst comp_def)

subsection \<open>Symmetry and soundness\<close>

lemma dedupe_set: "set (dedupe ss) = set ss"
  by (induction ss rule: dedupe.induct) auto

lemma dedupe_sorted: "sorted ss \<Longrightarrow> sorted (dedupe ss) \<and> distinct (dedupe ss)"
proof (induction ss rule: dedupe.induct)
  case (3 s s' ss)
  then show ?case by (cases "s = s'") (auto simp: dedupe_set)
qed simp_all

lemma set_object_set: "set (object_set stmts get) = {ob. \<exists>s\<in>set stmts. get s = Some ob}"
  by (force simp: object_set_def List.map_filter_def)

lemma symmetric_iff:
  "fst (check_symmetry up down) \<longleftrightarrow>
     {ob. \<exists>s\<in>set up. creates s = Some ob} \<subseteq> {ob. \<exists>s\<in>set down. drops s = Some ob}
     \<and> {ob. \<exists>s\<in>set up. drops s = Some ob} \<subseteq> {ob. \<exists>s\<in>set down. creates s = Some ob}"
proof -
  have "statement_notes (object_set down drops) (object_set down creates) s = [] \<longleftrightarrow>
      (\<forall>ob. creates s = Some ob \<longrightarrow> (\<exists>d\<in>set down. drops d = Some ob))
      \<and> (\<forall>ob. drops s = Some ob \<longrightarrow> (\<exists>d\<in>set down. creates d = Some ob))" for s
    by (auto simp: statement_notes_def set_object_set split: option.split)
  then show ?thesis
    by (simp add: check_symmetry_def Let_def) blast
qed

text \<open>A pair whose down migration can be relied on: present, not blank, and readable.\<close>

definition usable_down :: "sql_parser \<Rightarrow> migration_pair \<Rightarrow> bool" where
  "usable_down parse pr =
     (case mp_down pr of
        None \<Rightarrow> False
      | Some f \<Rightarrow> trim_space (p_current f) \<noteq> []
                 \<and> (case parse (trim_space (p_current f)) of Inl e \<Rightarrow> False | Inr stmts \<Rightarrow> True))"

lemma status_sound:
  "d_exists (status_of parse ident up down) \<and> d_parses (status_of parse ident up down)
     \<longleftrightarrow> usable_down parse \<lparr>mp_id = ident, mp_up = Some up, mp_down = down\<rparr>"
  by (auto simp: status_of_def usable_down_def Let_def split: option.split sum.split prod.split)

lemma status_up_file [simp]: "d_up_file (status_of parse ident up down) = p_path up"
  by (auto simp: status_of_def Let_def split: option.split sum.split prod.split)

lemma usable_down_cong: "mp_down pr = mp_down qr \<Longrightarrow> usable_down parse pr = usable_down parse qr"
  by (simp add: usable_down_def)

lemma soundness_iff:
  "down_migrations_are_sound (down_statuses parse files) \<longleftrightarrow>
     list_all (\<lambda>pr. mp_up pr = None \<or> usable_down parse pr) (pair_migrations files)"
proof -
  let ?g = "\<lambda>pr. case mp_up pr of None \<Rightarrow> None | Some up \<Rightarrow> Some (status_of parse (mp_id pr) up (mp_down pr))"
  have status: "d_exists (status_of parse (mp_id pr) up (mp_down pr)) \<and> d_parses (status_of parse (mp_id pr) up (mp_down pr))
      \<longleftrightarrow> usable_down parse pr" for pr up
    by (simp add: status_sound usable_down_def)
  have "\<not> list_ex (\<lambda>s. \<not> d_exists s \<or> \<not> d_parses s) (List.map_filter ?g prs)
      \<longleftrightarrow> list_all (\<lambda>pr. mp_up pr = None \<or> usable_down parse pr) prs" for prs
  proof (induction prs)
    case (Cons pr prs)
    then show ?case using status [of pr] by (cases "mp_up pr") (auto simp: List.map_filter_simps)
  qed (simp add: List.map_filter_simps)
  then show ?thesis by (simp only: down_statuses_def down_migrations_are_sound_def)
qed

subsection \<open>Properties\<close>

text \<open>Pairing: the pairs are in the order of directory and identity, one for every key, and each
  holds the last up file and the last down file of its key, whatever the order of the files was.\<close>

theorem pairing_exact: "pair_migrations files = map (pair_of files) (sort (keys_in_order files))"
  by (rule pair_migrations_spec)

text \<open>C14. The scorer's condition on down migrations holds exactly when every pair with an up migration
  has a down migration that is there, is not blank, and parses.\<close>

theorem down_soundness_exact:
  "down_migrations_are_sound (down_statuses parse files) \<longleftrightarrow>
     list_all (\<lambda>pr. mp_up pr = None \<or> usable_down parse pr) (pair_migrations files)"
  by (rule soundness_iff)

text \<open>The symmetry check: it succeeds exactly when the down migration drops every object the up
  migration creates and creates every object it drops.\<close>

theorem symmetric_exact:
  "fst (check_symmetry up down) \<longleftrightarrow>
     {ob. \<exists>s\<in>set up. creates s = Some ob} \<subseteq> {ob. \<exists>s\<in>set down. drops s = Some ob}
     \<and> {ob. \<exists>s\<in>set up. drops s = Some ob} \<subseteq> {ob. \<exists>s\<in>set down. creates s = Some ob}"
  by (rule symmetric_iff)

text \<open>The third level is advisory: whatever the symmetry check says, the grade, the blockers and the
  causes are the same.\<close>

theorem symmetry_is_advisory:
  "score (i\<lparr>i_down_migrations := map (\<lambda>d. d\<lparr>d_symmetric := b, d_symmetry_notes := notes\<rparr>) ds\<rparr>)
     = score (i\<lparr>i_down_migrations := ds\<rparr>)"
proof -
  let ?f = "\<lambda>d. d\<lparr>d_symmetric := b, d_symmetry_notes := notes\<rparr>"
  have a: "down_migrations_are_sound (map ?f ds) = down_migrations_are_sound ds"
    by (simp add: down_migrations_are_sound_def list_ex_iff)
  have b: "unsound_down_migrations (map ?f ds) = unsound_down_migrations ds"
    by (simp add: unsound_down_migrations_def filter_map comp_def)
  have "measured fs (map ?f ds) = measured fs ds" for fs
    unfolding measured_def ceilings_def a b ..
  then show ?thesis unfolding score_def by (simp cong: analysis_outcome.case_cong)
qed

text \<open>Two up migrations of one key share a status: with \<open>0001.sql\<close> beside \<open>0001.up.sql\<close> and
  \<open>0001.down.sql\<close> both up files are classified, but only the second is reported on, so the down migration
  of the other is vouched for without having been looked at.\<close>

definition shadowing :: "changed_file list" where
  "shadowing = map bare_file [''db/0001.sql'', ''db/0001.up.sql'', ''db/0001.down.sql'']"

theorem shadowed_migration_is_not_validated:
  "filter is_up shadowing = [bare_file ''db/0001.sql'', bare_file ''db/0001.up.sql'']
   \<and> map d_up_file (down_statuses parse shadowing) = [''db/0001.up.sql'']"
proof
  show "filter is_up shadowing = [bare_file ''db/0001.sql'', bare_file ''db/0001.up.sql'']" by code_simp
  have "pair_migrations shadowing = [\<lparr>mp_id = ''0001'', mp_up = Some (bare_file ''db/0001.up.sql''),
      mp_down = Some (bare_file ''db/0001.down.sql'')\<rparr>]" by code_simp
  then show "map d_up_file (down_statuses parse shadowing) = [''db/0001.up.sql'']"
    by (simp add: down_statuses_def List.map_filter_def bare_file_def)
qed

text \<open>A migration that is removed together with its down migration is still asked for one: the removed
  file is blank, so the changeset fails the scorer's condition.\<close>

theorem removed_pair_is_unsound:
  "down_migrations_are_sound (down_statuses parse
     (map (\<lambda>p. (bare_file p)\<lparr>p_status := StatusRemoved, p_current := []\<rparr>) [''db/1.up.sql'', ''db/1.down.sql''])) = False"
proof -
  have "pair_migrations (map (\<lambda>p. (bare_file p)\<lparr>p_status := StatusRemoved, p_current := []\<rparr>) [''db/1.up.sql'', ''db/1.down.sql''])
    = [\<lparr>mp_id = ''1'', mp_up = Some ((bare_file ''db/1.up.sql'')\<lparr>p_status := StatusRemoved, p_current := []\<rparr>),
        mp_down = Some ((bare_file ''db/1.down.sql'')\<lparr>p_status := StatusRemoved, p_current := []\<rparr>)\<rparr>]" by code_simp
  then show ?thesis
    by (simp add: down_statuses_def down_migrations_are_sound_def List.map_filter_def status_of_def trim_space_def)
qed

end
