(* ===== verification/Postgres_Analyzer.thy ===== *)
theory Postgres_Analyzer
  imports Analyzer_Contract Guarantees Postgres_Rules Postgres_Down Statement_Text
begin

text \<open>
  The PostgreSQL analyzer, \<open>internal/analyzer/postgres/postgres.go\<close>: which files it reads, the loop over
  the files in path order with the schema tracker threaded through every statement, and what an unreadable
  file becomes. The parser is a parameter. A context is the answers it gives, in the order in which it is
  asked: once at the start and once before every file.
\<close>

subsection \<open>Files that do not parse\<close>

fun first_line :: "int \<Rightarrow> string list \<Rightarrow> (int \<times> string) option" where
  "first_line i [] = None"
| "first_line i (l # ls) = (if trim_space l \<noteq> [] then Some (i, trim_space l) else first_line (i + 1) ls)"

definition parse_error_line :: "string \<Rightarrow> int" where
  "parse_error_line sql =
     (case first_line 1 (split_on (CHR 0x0A) sql) of None \<Rightarrow> 1 | Some (i, l) \<Rightarrow> i)"

definition first_non_empty_line :: "string \<Rightarrow> string" where
  "first_non_empty_line sql =
     (case first_line 1 (split_on (CHR 0x0A) sql) of None \<Rightarrow> [] | Some (i, l) \<Rightarrow> l)"

definition template_markers :: "string list" where
  "template_markers = [''{{'', ''{%'', ''<%'']"

definition parse_failure_rationale :: "string \<Rightarrow> string \<Rightarrow> string" where
  "parse_failure_rationale sql err =
     (case find (contains sql) template_markers of
        Some marker \<Rightarrow>
          ''This file appears to be a template rather than SQL '' @ emdash @ '' it contains '' @ go_quote marker
          @ '' '' @ emdash @ '' and this engine ''
          @ ''does not render templates. It was not analyzed, so nothing about its reversibility is known. ''
          @ ''Render it first and analyze the output. (Parser: '' @ err @ ''.)''
      | None \<Rightarrow> ''This migration could not be parsed, so nothing in it can be classified: '' @ err @ ''.'')"

definition unparsed_finding :: "changed_file \<Rightarrow> string \<Rightarrow> finding" where
  "unparsed_finding f err =
     \<lparr>f_rule_id = ''PG027'', f_file = p_path f, f_line = parse_error_line (p_current f),
      f_statement = normalize_statement (first_non_empty_line (p_current f)), f_reversibility = Unknown,
      f_lock = LockExclusive, f_rationale = parse_failure_rationale (p_current f) err, f_undo = [],
      f_subject = no_subject, f_context = None\<rparr>"

subsection \<open>Files that parse\<close>

definition statement_finding :: "string \<Rightarrow> schema \<Rightarrow> statement \<Rightarrow> finding" where
  "statement_finding path sch s =
     (let c = classify s sch in
      \<lparr>f_rule_id = cf_rule c, f_file = path, f_line = st_line s, f_statement = normalize_statement (st_sql s),
       f_reversibility = cf_rev c, f_lock = cf_lock c, f_rationale = cf_rationale c, f_undo = cf_undo c,
       f_subject = \<lparr>s_relation = st_relation s, s_object = st_object s\<rparr>, f_context = None\<rparr>)"

fun statement_findings :: "string \<Rightarrow> statement list \<Rightarrow> schema \<Rightarrow> finding list \<times> schema" where
  "statement_findings path [] sch = ([], sch)"
| "statement_findings path (s # ss) sch =
     (case statement_findings path ss (schema_apply sch s) of
        (fs, sch') \<Rightarrow> (statement_finding path sch s # fs, sch'))"

definition analyze_file :: "sql_parser \<Rightarrow> changed_file \<Rightarrow> schema \<Rightarrow> finding list \<times> schema" where
  "analyze_file parse f sch =
     (case parse (p_current f) of
        Inl err \<Rightarrow> ([unparsed_finding f err], sch)
      | Inr stmts \<Rightarrow> statement_findings (p_path f) stmts sch)"

subsection \<open>The changeset\<close>

definition sql_supports :: "located \<Rightarrow> bool" where
  "sql_supports at \<longleftrightarrow> loc_ext at = ''.sql''"

definition analyzed :: "changed_file \<Rightarrow> bool" where
  "analyzed f \<longleftrightarrow> sql_supports (location_of f) \<and> \<not> is_removed f \<and> is_up f"

fun analyze_loop :: "sql_parser \<Rightarrow> changed_file list \<Rightarrow> schema \<Rightarrow> finding list" where
  "analyze_loop parse [] sch = []"
| "analyze_loop parse (f # fs) sch =
     (if \<not> analyzed f then analyze_loop parse fs sch
      else (case analyze_file parse f sch of (out, sch') \<Rightarrow> out @ analyze_loop parse fs sch'))"

definition postgres_findings :: "sql_parser \<Rightarrow> changed_file list \<Rightarrow> finding list" where
  "postgres_findings parse files =
     sort_findings (analyze_loop parse (sort_key p_path files) new_schema)"

definition postgres_analyze :: "sql_parser option \<Rightarrow> (nat \<Rightarrow> string option) \<Rightarrow> changed_file list
    \<Rightarrow> finding list run" where
  "postgres_analyze parser ctx files =
     (case parser of
        None \<Rightarrow> Failed (''postgres analyzer: '' @ parser_unavailable)
      | Some parse \<Rightarrow>
          (case first_cancel ctx (Suc (length files)) of
             Some e \<Rightarrow> Failed (''postgres analyzer: '' @ e)
           | None \<Rightarrow> Done (postgres_findings parse files)))"

definition postgres_analyzer :: "sql_parser option \<Rightarrow> (nat \<Rightarrow> string option) \<Rightarrow> analyzer" where
  "postgres_analyzer parser ctx =
     \<lparr>a_name = ''postgres'', a_supports = sql_supports, a_analyze = postgres_analyze parser ctx,
      a_validate = Some (validate_down_migrations parser (ctx 0)), a_catalog = None\<rparr>"

subsection \<open>Findings, file by file\<close>

text \<open>The statements a file contributes to the schema.\<close>

definition statements_of :: "sql_parser \<Rightarrow> changed_file \<Rightarrow> statement list" where
  "statements_of parse f = (if analyzed f then (case parse (p_current f) of Inl e \<Rightarrow> [] | Inr ss \<Rightarrow> ss) else [])"

lemma statement_findings_schema: "snd (statement_findings path ss sch) = foldl schema_apply sch ss"
  by (induction ss arbitrary: sch) (simp_all add: split_beta)

lemma statement_findings_nth:
  "fst (statement_findings path ss sch)
     = map (\<lambda>i. statement_finding path (foldl schema_apply sch (take i ss)) (ss ! i)) [0..<length ss]"
proof (induction ss arbitrary: sch)
  case (Cons s ss)
  then show ?case
    by (simp add: split_beta map_upt_Suc del: upt_Suc)
qed simp

lemma analyze_loop_append:
  "analyze_loop parse (fs @ gs) sch
     = analyze_loop parse fs sch
       @ analyze_loop parse gs (foldl schema_apply sch (concat (map (statements_of parse) fs)))"
proof (induction fs arbitrary: sch)
  case (Cons f fs)
  then show ?case
    by (auto simp: analyze_file_def statements_of_def statement_findings_schema split_beta
        split: sum.split prod.split)
qed simp

definition file_findings :: "sql_parser \<Rightarrow> schema \<Rightarrow> changed_file \<Rightarrow> finding list" where
  "file_findings parse sch f = (if analyzed f then fst (analyze_file parse f sch) else [])"

lemma in_analyze_loop:
  "g \<in> set (analyze_loop parse files sch) \<Longrightarrow>
     \<exists>f\<in>set files. analyzed f \<and> (\<exists>sch'. g \<in> set (file_findings parse sch' f))"
proof (induction files arbitrary: sch)
  case (Cons f fs)
  then show ?case
    by (fastforce simp: file_findings_def split_beta split: if_splits)
qed simp

lemma file_findings_fields:
  assumes "g \<in> set (file_findings parse sch f)"
  shows "f_file g = p_path f \<and> rev_valid (f_reversibility g) \<and> lock_valid (f_lock g) \<and> f_context g = None"
proof -
  have "rev_valid (cf_rev (classify s sch)) \<and> lock_valid (cf_lock (classify s sch))" for s sch
    unfolding classify_def
    by (cases "st_cascade s"; cases "st_kind s") (simp_all add: row_facts split: width_change.split)
  with assms show ?thesis
    by (auto simp: file_findings_def analyze_file_def unparsed_finding_def statement_findings_nth
        statement_finding_def Let_def split: if_splits sum.splits)
qed

lemma postgres_findings_from_files:
  "g \<in> set (postgres_findings parse files) \<Longrightarrow>
     \<exists>f\<in>set files. analyzed f \<and> (\<exists>sch. g \<in> set (file_findings parse sch f))"
  using in_analyze_loop [of g parse "sort_key p_path files" new_schema] by (simp add: postgres_findings_def)

lemma postgres_findings_order:
  "mset files = mset files' \<Longrightarrow> distinct (map p_path files) \<Longrightarrow>
     postgres_findings parse files = postgres_findings parse files'"
  unfolding postgres_findings_def by (subst sort_key_permutation [of files files']) (auto simp: distinct_map)

interpretation pg: canonical_analyzer sql_supports "postgres_analyze parser ctx" for parser ctx
proof
  fix files fs f
  assume d: "postgres_analyze parser ctx files = Done fs"
  then obtain parse where fs: "fs = postgres_findings parse files"
    by (auto simp: postgres_analyze_def split: option.splits)
  show "sorted (map finding_key fs)" by (simp add: fs postgres_findings_def sort_findings_sorted)
  assume "f \<in> set fs"
  with fs obtain c sch where "c \<in> set files" "analyzed c" "f \<in> set (file_findings parse sch c)"
    using postgres_findings_from_files by blast
  then show "\<exists>c\<in>set files. p_path c = f_file f \<and> sql_supports (location_of c)"
    and "rev_valid (f_reversibility f) \<and> lock_valid (f_lock f) \<and> f_context f = None"
    using file_findings_fields [of f parse sch c] by (auto simp: analyzed_def)
next
  fix files files' :: "changed_file list"
  assume m: "mset files = mset files'" and "distinct (map p_path files)"
  then have "postgres_findings parse files = postgres_findings parse files'" for parse
    by (rule postgres_findings_order)
  with mset_eq_length [OF m] show "postgres_analyze parser ctx files = postgres_analyze parser ctx files'"
    by (simp only: postgres_analyze_def)
qed

subsection \<open>The run as a sequence of events\<close>

text \<open>The specification of a run: the events of the changeset in path order, an unreadable file or a
  statement of a file, and the judgement of each against the statements before it.\<close>

type_synonym event = "changed_file \<times> string + string \<times> statement"

definition events_of :: "sql_parser \<Rightarrow> changed_file \<Rightarrow> event list" where
  "events_of parse f =
     (if \<not> analyzed f then []
      else (case parse (p_current f) of
              Inl e \<Rightarrow> [Inl (f, e)]
            | Inr ss \<Rightarrow> map (\<lambda>s. Inr (p_path f, s)) ss))"

definition events :: "sql_parser \<Rightarrow> changed_file list \<Rightarrow> event list" where
  "events parse files = concat (map (events_of parse) (sort_key p_path files))"

definition event_statements :: "event list \<Rightarrow> statement list" where
  "event_statements es = List.map_filter (\<lambda>e. case e of Inl _ \<Rightarrow> None | Inr (path, s) \<Rightarrow> Some s) es"

definition judged :: "schema \<Rightarrow> event \<Rightarrow> finding" where
  "judged sch e = (case e of Inl (f, err) \<Rightarrow> unparsed_finding f err | Inr (path, s) \<Rightarrow> statement_finding path sch s)"

definition judgements :: "schema \<Rightarrow> event list \<Rightarrow> finding list" where
  "judgements sch es =
     map (\<lambda>i. judged (foldl schema_apply sch (event_statements (take i es))) (es ! i)) [0..<length es]"

lemma judgements_Cons:
  "judgements sch (e # es)
     = judged sch e # judgements (case e of Inl _ \<Rightarrow> sch | Inr (path, s) \<Rightarrow> schema_apply sch s) es"
  unfolding judgements_def
  by (auto simp: map_upt_Suc event_statements_def List.map_filter_simps split: sum.split prod.split simp del: upt_Suc)

lemma judgements_statements:
  "judgements sch (map (\<lambda>s. Inr (path, s)) ss @ es)
     = fst (statement_findings path ss sch) @ judgements (foldl schema_apply sch ss) es"
  by (induction ss arbitrary: sch) (simp_all add: judgements_Cons judged_def split_beta)

lemma analyze_loop_events:
  "analyze_loop parse fs sch = judgements sch (concat (map (events_of parse) fs))"
proof (induction fs arbitrary: sch)
  case Nil
  then show ?case by (simp add: judgements_def)
next
  case (Cons f fs)
  then show ?case
    by (auto simp: events_of_def analyze_file_def judgements_statements judgements_Cons judged_def
        statement_findings_schema split_beta split: sum.split)
qed

lemma set_judgements: "e \<in> set es \<Longrightarrow> \<exists>sch'. judged sch' e \<in> set (judgements sch es)"
  unfolding judgements_def by (fastforce simp: in_set_conv_nth)

lemma judged_event_found:
  assumes "f \<in> set files" and "e \<in> set (events_of parse f)"
  shows "\<exists>sch. judged sch e \<in> set (postgres_findings parse files)"
proof -
  from assms have "e \<in> set (concat (map (events_of parse) (sort_key p_path files)))" by auto
  then show ?thesis
    unfolding postgres_findings_def analyze_loop_events by (simp add: set_judgements)
qed

subsection \<open>Migrations that can be let through\<close>

text \<open>A migration that can be let through: readable, and every statement reversible as far as the
  statement itself goes.\<close>

definition safe_statement :: "statement \<Rightarrow> bool" where
  "safe_statement s \<longleftrightarrow> \<not> st_cascade s \<and> \<not> destroys (st_kind s)"

definition migration_safe :: "sql_parser \<Rightarrow> changed_file \<Rightarrow> bool" where
  "migration_safe parse f =
     (case parse (p_current f) of Inl e \<Rightarrow> False | Inr ss \<Rightarrow> list_all safe_statement ss)"

lemma reversible_run_safe:
  assumes "list_all (\<lambda>g. f_reversibility g = Reversible) (postgres_findings parse files)"
    and "f \<in> set files" and "analyzed f"
  shows "migration_safe parse f"
proof -
  have found: "\<exists>sch. f_reversibility (judged sch e) = Reversible" if "e \<in> set (events_of parse f)" for e
    using judged_event_found [OF assms(2) that] assms(1) by (auto simp: list_all_iff)
  show ?thesis
  proof (cases "parse (p_current f)")
    case (Inl err)
    with found [of "Inl (f, err)"] assms(3) show ?thesis
      by (simp add: events_of_def judged_def unparsed_finding_def)
  next
    case (Inr ss)
    have "safe_statement s" if "s \<in> set ss" for s
    proof -
      from found [of "Inr (p_path f, s)"] Inr assms(3) that obtain sch where "cf_rev (classify s sch) = Reversible"
        by (auto simp: events_of_def judged_def statement_finding_def Let_def)
      then have "cf_rev (classify s sch) \<noteq> Irreversible" by simp
      then show ?thesis unfolding irreversible_iff safe_statement_def by blast
    qed
    with Inr show ?thesis by (simp add: migration_safe_def list_all_iff)
  qed
qed

subsection \<open>Properties\<close>

text \<open>The run of the analyzer: for every file in path order that is a \<open>.sql\<close> up migration and was not
  removed, every statement is judged once, against the column types that all statements before it, in this
  and in earlier files, leave; a file that does not parse is judged once, as unknown.\<close>

theorem every_statement_is_judged:
  "postgres_findings parse files = sort_findings (judgements new_schema (events parse files))"
  by (simp add: postgres_findings_def analyze_loop_events events_def)

text \<open>C13. The order in which a caller lists the files makes no difference, for any parser and any context, as
  long as no two of them have the same path: files are read in the order of their paths, so a column that
  an earlier migration declares is known to a later one however they are listed. Of a list that holds
  one path twice nothing is claimed.\<close>

theorem file_order_irrelevant:
  assumes "mset files = mset files'" and "distinct (map p_path files)"
  shows "postgres_analyze parser ctx files = postgres_analyze parser ctx files'"
  by (rule pg.file_order [OF assms])

text \<open>Two migrations, of which the first declares the column the second one widens.\<close>

definition column_parser :: sql_parser where
  "column_parser sql =
     Inr [(bare_statement (if sql = ''add'' then KindAddColumn else KindAlterColumnType))
            \<lparr>st_relation := ''t'', st_object := ''c'',
              st_column_type := Some \<lparr>ty_name = (if sql = ''add'' then ''int4'' else ''int8''), ty_mods = []\<rparr>\<rparr>]"

definition column_migrations :: "changed_file list" where
  "column_migrations = [(bare_file ''db/1.sql'')\<lparr>p_current := ''add''\<rparr>, (bare_file ''db/2.sql'')\<lparr>p_current := ''widen''\<rparr>]"

definition rules_reported :: "finding list run \<Rightarrow> string list" where
  "rules_reported r = (case r of Done fs \<Rightarrow> map f_rule_id fs | Failed e \<Rightarrow> [] | Panicked e \<Rightarrow> [])"

theorem file_order_irrelevant_witness:
  "rules_reported (postgres_analyze (Some column_parser) (\<lambda>i. None) column_migrations) = [''PG020'', ''PG007'']
   \<and> postgres_analyze (Some column_parser) (\<lambda>i. None) (rev column_migrations)
       = postgres_analyze (Some column_parser) (\<lambda>i. None) column_migrations"
proof
  show "rules_reported (postgres_analyze (Some column_parser) (\<lambda>i. None) column_migrations) = [''PG020'', ''PG007'']"
    by code_simp
  show "postgres_analyze (Some column_parser) (\<lambda>i. None) (rev column_migrations)
      = postgres_analyze (Some column_parser) (\<lambda>i. None) column_migrations"
    by (rule file_order_irrelevant) (simp_all add: column_migrations_def bare_file_def)
qed

text \<open>An up migration that does not parse fails the changeset closed: whatever the other files hold,
  the grade is F.\<close>

theorem unparsed_migration_grades_F:
  assumes "f \<in> set files" and "analyzed f" and "parse (p_current f) = Inl err"
  shows "r_grade (score_of (postgres_findings parse files) down errors out unsupported) = GradeF"
proof -
  from judged_event_found [of f files "Inl (f, err)" parse] assms
  have "unparsed_finding f err \<in> set (postgres_findings parse files)"
    by (simp add: events_of_def judged_def)
  moreover have "f_reversibility (unparsed_finding f err) = Unknown" by (simp add: unparsed_finding_def)
  ultimately have "list_ex (\<lambda>g. f_reversibility g \<noteq> Reversible \<and> f_reversibility g \<noteq> Costly) (postgres_findings parse files)"
    by (force simp: list_ex_iff)
  then show ?thesis by (simp add: score_of_def score_F)
qed

theorem unparsed_migration_grades_F_witness:
  "r_grade (score_of (postgres_findings (\<lambda>sql. Inl ''bad'') [bare_file ''db/1.sql'']) [] [] OutcomeAnalyzed []) = GradeF"
proof (rule unparsed_migration_grades_F [of "bare_file ''db/1.sql''" _ _ "''bad''"])
  show "analyzed (bare_file ''db/1.sql'')" by code_simp
qed simp_all

text \<open>What a \<open>PASS\<close> means for migrations: with the analyzer registered, whatever other analyzers,
  policy and snapshots there are, every \<open>.sql\<close> up migration of the change parses and holds no statement
  with \<open>CASCADE\<close> and none that destroys rows, objects, positions or protection, and every up migration that
  is paired has a usable down migration.\<close>

theorem pass_means_safe_migrations:
  assumes "c_gate (fst (certify sha e cancelled c given)) = GatePass"
    and "postgres_analyzer (Some parse) ctx \<in> set (e_analyzers e)"
  shows "list_all (\<lambda>f. if analyzed f then migration_safe parse f else True) (stamp_located given (locator c))
    \<and> list_all (\<lambda>pr. mp_up pr = None \<or> usable_down parse pr)
        (pair_migrations (stamp_located given (locator c)))"
proof -
  let ?files = "stamp_located given (locator c)"
  from registered_pass [OF assms] obtain got sts where
    got: "postgres_analyze (Some parse) ctx ?files = Done got" "list_all blocks_nothing got"
    and sts: "validate_down_migrations (Some parse) (ctx 0) ?files = Done sts"
      "list_all (\<lambda>s. d_exists s \<and> d_parses s) sts"
    unfolding postgres_analyzer_def by auto
  from got have "list_all (\<lambda>g. f_reversibility g = Reversible) (postgres_findings parse ?files)"
    by (auto simp: postgres_analyze_def list_all_iff blocks_nothing_def split: option.splits)
  then have "migration_safe parse f" if "f \<in> set ?files" "analyzed f" for f
    using that by (rule reversible_run_safe)
  moreover from sts have "down_migrations_are_sound (down_statuses parse ?files)"
    by (auto simp: validate_down_migrations_def down_migrations_are_sound_def list_all_iff list_ex_iff split: option.splits)
  ultimately show ?thesis by (simp add: soundness_iff list_all_iff)
qed

text \<open>A migration that creates a table, with its down migration.\<close>

definition sample_parser :: sql_parser where
  "sample_parser sql =
     Inr [(bare_statement (if sql = ''up'' then KindCreateTable else KindDropTable))
            \<lparr>st_relation := ''t'', st_object := ''t''\<rparr>]"

definition sample_migration :: "changed_file list" where
  "sample_migration = [(bare_file ''db/1.up.sql'')\<lparr>p_current := ''up''\<rparr>, (bare_file ''db/1.down.sql'')\<lparr>p_current := ''down''\<rparr>]"

definition sample_engine :: engine where
  "sample_engine = new_engine [postgres_analyzer (Some sample_parser) (\<lambda>i. None)] None 0 None"

lemma sample_passes:
  "c_gate (fst (certify (\<lambda>b. b) sample_engine None (plain_run\<lparr>rc_enumerated := []\<rparr>) sample_migration)) = GatePass"
  by code_simp

theorem pass_means_safe_migrations_witness:
  "list_all (\<lambda>f. if analyzed f then migration_safe sample_parser f else True)
     (stamp_located sample_migration (locator (plain_run\<lparr>rc_enumerated := []\<rparr>)))"
  by (rule pass_means_safe_migrations [OF sample_passes, THEN conjunct1])
    (simp add: sample_engine_def new_engine_def)

end
