(* ===== verification/Postgres_Adapter.thy ===== *)
theory Postgres_Adapter
  imports Postgres_Complexity Postgres_Analyzer
begin

text \<open>
  The parser over PostgreSQL's grammar, \<open>internal/analyzer/postgres/parser/pgquery.go\<close>. The grammar itself,
  \<open>pg.Parse\<close>, is a parameter: a function from a text to an error or the statements with their positions.
  The messages of its parse tree are datatypes with the fields the code reads and three that it does not
  read, which the properties need: the clause \<open>WITH\<close> of the statements that are not a \<open>SELECT\<close>, the
  expression a column is converted with, and the bounds of an array type. A message that is absent is
  \<open>None\<close> or the last constructor of its type, so that a getter on it gives the zero value, as the
  generated getters do. Statements stand apart from the expressions and definitions inside them.
\<close>

subsection \<open>The parse tree\<close>

datatype drop_behavior = Drop_restrict | Drop_cascade

datatype pg_object_type =
    Object_table | Object_schema | Object_index | Object_view | Object_matview | Object_function
  | Object_procedure | Object_routine | Object_trigger | Object_type | Object_domain | Object_sequence
  | Object_extension | Object_policy | Object_column | Object_other string

datatype alter_table_type =
    At_drop_column | At_drop_constraint | At_set_not_null | At_drop_not_null | At_column_default
  | At_alter_column_type | At_add_column | At_add_constraint | At_validate_constraint
  | At_enable_row_security | At_disable_row_security | At_set_rel_options | At_reset_rel_options
  | At_set_logged | At_set_unlogged | At_attach_partition | At_detach_partition | At_other string

datatype constr_type =
  Constr_notnull | Constr_default | Constr_foreign | Constr_check | Constr_other string

datatype conflict_action = Onconflict_nothing | Onconflict_update

datatype pg_const = Const_string string | Const_int int | Const_other

record pg_range =
  rv_schema :: string
  rv_name :: string

datatype pg_expr =
    Expr_string string
  | Expr_const pg_const
  | Expr_list "pg_expr list"
  | Expr_range pg_range
  | Expr_object_with_args "pg_expr list"
  | Expr_type_cast "pg_expr option"
  | Expr_func_call "pg_expr list" "pg_expr list"
  | Expr_other string

record pg_type =
  tn_names :: "pg_expr list"
  tn_typmods :: "pg_expr list"
  tn_array_bounds :: nat

record pg_constraint =
  cn_type :: constr_type
  cn_name :: string
  cn_skip_validation :: bool
  cn_index :: string
  cn_raw_expr :: "pg_expr option"

record pg_column =
  co_name :: string
  co_type :: "pg_type option"
  co_constraints :: "pg_constraint option list"
  co_using :: "pg_expr option"

datatype pg_def = Def_column pg_column | Def_constraint pg_constraint | Def_partition bool | Def_other

record alter_cmd =
  am_type :: alter_table_type
  am_behavior :: drop_behavior
  am_name :: string
  am_def :: "pg_def option"

datatype pg_stmt =
    Drop_stmt pg_object_type drop_behavior bool "pg_expr list"
  | Dropdb_stmt string
  | Truncate_stmt drop_behavior "pg_expr list"
  | Alter_table_stmt "pg_range option" "alter_cmd option list"
  | Rename_stmt pg_object_type "pg_range option" string string
  | Delete_stmt "pg_range option" "pg_expr option" "pg_stmt option list"
  | Update_stmt "pg_range option" "pg_expr option" "pg_stmt option list"
  | Insert_stmt "pg_range option" "conflict_action option" "pg_stmt option list"
  | Select_stmt "pg_expr option list" "pg_stmt option list"
  | Alter_seq_stmt "pg_range option" "string list"
  | Index_stmt string "pg_range option" bool
  | Create_stmt "pg_range option" "pg_def list"
  | View_stmt bool "pg_range option"
  | Create_enum_stmt "pg_expr list"
  | Composite_type_stmt "pg_range option"
  | Create_schema_stmt string
  | Create_seq_stmt "pg_range option"
  | Create_extension_stmt string
  | Create_function_stmt bool "pg_expr list"
  | Create_trig_stmt string "pg_range option"
  | Grant_stmt bool "pg_expr list"
  | Comment_stmt "pg_expr option"
  | Variable_set_stmt string
  | Lock_stmt "pg_expr list"
  | Vacuum_stmt bool "string list" "pg_range option list"
  | Create_table_as_stmt pg_object_type "pg_range option" bool
  | Refresh_matview_stmt bool "pg_range option"
  | Alter_enum_stmt "pg_expr list" string string
  | Create_policy_stmt string "pg_range option"
  | Other_stmt string

record raw_stmt =
  rw_stmt :: "pg_stmt option"
  rw_location :: int
  rw_len :: int

text \<open>The library returns an error, no result, or the statements.\<close>

type_synonym pg_library = "string \<Rightarrow> string + raw_stmt list option"

subsection \<open>Names and types\<close>

definition relname :: "pg_range option \<Rightarrow> string" where
  "relname r = (case r of None \<Rightarrow> [] | Some v \<Rightarrow> rv_name v)"

fun expr_range :: "pg_expr \<Rightarrow> pg_range option" where
  "expr_range (Expr_range r) = Some r"
| "expr_range _ = None"

fun expr_sval :: "pg_expr \<Rightarrow> string" where
  "expr_sval (Expr_string s) = s"
| "expr_sval _ = []"

definition last_name :: "pg_expr list \<Rightarrow> string" where
  "last_name names = (if names = [] then [] else expr_sval (last names))"

definition first_relname :: "pg_expr list \<Rightarrow> string" where
  "first_relname rels = (case rels of [] \<Rightarrow> [] | r # rs \<Rightarrow> relname (expr_range r))"

definition type_of :: "pg_type option \<Rightarrow> sql_type option" where
  "type_of tn =
     (case tn of
        None \<Rightarrow> None
      | Some t \<Rightarrow>
          if last_name (tn_names t) = [] then None
          else Some \<lparr>ty_name = last_name (tn_names t),
            ty_mods = List.map_filter (\<lambda>m. case m of Expr_const (Const_int i) \<Rightarrow> Some i | _ \<Rightarrow> None) (tn_typmods t)\<rparr>)"

fun def_column :: "pg_def option \<Rightarrow> pg_column option" where
  "def_column (Some (Def_column c)) = Some c"
| "def_column _ = None"

fun def_constraint :: "pg_def option \<Rightarrow> pg_constraint option" where
  "def_constraint (Some (Def_constraint c)) = Some c"
| "def_constraint _ = None"

fun def_concurrent :: "pg_def option \<Rightarrow> bool" where
  "def_concurrent (Some (Def_partition b)) = b"
| "def_concurrent _ = False"

definition columns_of :: "pg_def list \<Rightarrow> column_def list" where
  "columns_of elts =
     List.map_filter (\<lambda>e. map_option (\<lambda>c. \<lparr>cd_name = co_name c, cd_type = type_of (co_type c)\<rparr>)
       (def_column (Some e))) elts"

fun is_volatile :: "pg_expr option \<Rightarrow> bool" where
  "is_volatile None = False"
| "is_volatile (Some (Expr_const c)) = False"
| "is_volatile (Some (Expr_type_cast arg)) = is_volatile arg"
| "is_volatile (Some e) = True"

fun constraint_kind_of :: "constr_type \<Rightarrow> constraint_kind" where
  "constraint_kind_of Constr_foreign = ConstraintForeignKey"
| "constraint_kind_of Constr_check = ConstraintCheck"
| "constraint_kind_of _ = ConstraintOther"

text \<open>Whether an added column is not null, has a default, and has a volatile one.\<close>

fun column_constraints :: "pg_constraint option list \<Rightarrow> bool \<times> bool \<times> bool \<Rightarrow> bool \<times> bool \<times> bool" where
  "column_constraints [] acc = acc"
| "column_constraints (None # cs) acc = column_constraints cs acc"
| "column_constraints (Some c # cs) (not_null, has_default, volatile_default) =
     (case cn_type c of
        Constr_notnull \<Rightarrow> column_constraints cs (True, has_default, volatile_default)
      | Constr_default \<Rightarrow> column_constraints cs (not_null, True, is_volatile (cn_raw_expr c))
      | _ \<Rightarrow> column_constraints cs (not_null, has_default, volatile_default))"

definition target_name :: "pg_expr \<Rightarrow> string" where
  "target_name obj =
     (if relname (expr_range obj) \<noteq> [] then relname (expr_range obj) else last_name [obj])"

text \<open>The names of what \<open>GRANT\<close> and \<open>COMMENT\<close> apply to.\<close>

definition grant_target_name :: "pg_expr list \<Rightarrow> string" where
  "grant_target_name objs =
     (case find (\<lambda>obj. target_name obj \<noteq> []) objs of None \<Rightarrow> [] | Some obj \<Rightarrow> target_name obj)"

definition comment_target_name :: "pg_expr option \<Rightarrow> string" where
  "comment_target_name obj = (case obj of None \<Rightarrow> [] | Some x \<Rightarrow> target_name x)"

definition drop_target_name :: "pg_expr list \<Rightarrow> string" where
  "drop_target_name objs =
     (case objs of
        [] \<Rightarrow> []
      | first # rest \<Rightarrow>
          (case first of
             Expr_string s \<Rightarrow> s
           | Expr_list items \<Rightarrow> last_name items
           | Expr_object_with_args names \<Rightarrow> last_name names
           | _ \<Rightarrow> []))"

subsection \<open>Statements\<close>

definition convert_drop :: "pg_object_type \<Rightarrow> drop_behavior \<Rightarrow> bool \<Rightarrow> pg_expr list \<Rightarrow> statement \<Rightarrow> statement" where
  "convert_drop t b concurrent objs base =
     (let s = base\<lparr>st_cascade := (b = Drop_cascade), st_concurrent := concurrent, st_object := drop_target_name objs\<rparr> in
      s\<lparr>st_kind :=
        (case t of
           Object_table \<Rightarrow> KindDropTable
         | Object_schema \<Rightarrow> KindDropSchema
         | Object_index \<Rightarrow> KindDropIndex
         | Object_view \<Rightarrow> KindDropView
         | Object_matview \<Rightarrow> KindDropMatView
         | Object_function \<Rightarrow> KindDropFunction
         | Object_procedure \<Rightarrow> KindDropFunction
         | Object_routine \<Rightarrow> KindDropFunction
         | Object_trigger \<Rightarrow> KindDropTrigger
         | Object_type \<Rightarrow> KindDropType
         | Object_domain \<Rightarrow> KindDropType
         | Object_sequence \<Rightarrow> KindDropSequence
         | Object_extension \<Rightarrow> KindDropExtension
         | Object_policy \<Rightarrow> KindDropPolicy
         | _ \<Rightarrow> KindUnrecognized)\<rparr>)"

definition added_column :: "pg_column \<Rightarrow> statement \<Rightarrow> statement" where
  "added_column c s =
     (case column_constraints (co_constraints c) (False, False, False) of
        (not_null, has_default, volatile_default) \<Rightarrow>
          s\<lparr>st_object := co_name c, st_column_type := type_of (co_type c), st_not_null := not_null,
            st_has_default := has_default, st_volatile_default := volatile_default\<rparr>)"

definition added_constraint :: "pg_constraint \<Rightarrow> statement \<Rightarrow> statement" where
  "added_constraint c s =
     (let s = s\<lparr>st_object := cn_name c, st_not_valid := cn_skip_validation c,
            st_constraint := constraint_kind_of (cn_type c)\<rparr> in
      if cn_index c \<noteq> [] then s\<lparr>st_kind := KindAddConstraintUsingIndex, st_index := cn_index c\<rparr> else s)"

text \<open>One command of an \<open>ALTER TABLE\<close>.\<close>

definition convert_command :: "statement \<Rightarrow> alter_cmd \<Rightarrow> statement" where
  "convert_command base cmd =
     (let s = base\<lparr>st_cascade := (am_behavior cmd = Drop_cascade), st_object := am_name cmd\<rparr>;
          d = am_def cmd
      in case am_type cmd of
           At_drop_column \<Rightarrow> s\<lparr>st_kind := KindDropColumn\<rparr>
         | At_drop_constraint \<Rightarrow> s\<lparr>st_kind := KindDropConstraint\<rparr>
         | At_set_not_null \<Rightarrow> s\<lparr>st_kind := KindSetNotNull\<rparr>
         | At_drop_not_null \<Rightarrow> s\<lparr>st_kind := KindDropNotNull\<rparr>
         | At_column_default \<Rightarrow> s\<lparr>st_kind := (if d \<noteq> None then KindSetDefault else KindDropDefault)\<rparr>
         | At_alter_column_type \<Rightarrow>
             (let s = s\<lparr>st_kind := KindAlterColumnType\<rparr> in
              case def_column d of None \<Rightarrow> s | Some c \<Rightarrow> s\<lparr>st_column_type := type_of (co_type c)\<rparr>)
         | At_add_column \<Rightarrow>
             (let s = s\<lparr>st_kind := KindAddColumn\<rparr> in
              case def_column d of None \<Rightarrow> s | Some c \<Rightarrow> added_column c s)
         | At_add_constraint \<Rightarrow>
             (let s = s\<lparr>st_kind := KindAddConstraint\<rparr> in
              case def_constraint d of None \<Rightarrow> s | Some c \<Rightarrow> added_constraint c s)
         | At_validate_constraint \<Rightarrow> s\<lparr>st_kind := KindValidateConstraint\<rparr>
         | At_enable_row_security \<Rightarrow> s\<lparr>st_kind := KindEnableRLS\<rparr>
         | At_disable_row_security \<Rightarrow> s\<lparr>st_kind := KindDisableRLS\<rparr>
         | At_set_rel_options \<Rightarrow> s\<lparr>st_kind := KindSetRelOptions\<rparr>
         | At_reset_rel_options \<Rightarrow> s\<lparr>st_kind := KindSetRelOptions\<rparr>
         | At_set_logged \<Rightarrow> s\<lparr>st_kind := KindSetLogged\<rparr>
         | At_set_unlogged \<Rightarrow> s\<lparr>st_kind := KindSetLogged\<rparr>
         | At_attach_partition \<Rightarrow> s\<lparr>st_kind := KindAttachPartition\<rparr>
         | At_detach_partition \<Rightarrow> s\<lparr>st_kind := KindDetachPartition, st_concurrent := def_concurrent d\<rparr>
         | At_other t \<Rightarrow> s\<lparr>st_kind := KindUnrecognized\<rparr>)"

definition convert_alter_table :: "pg_range option \<Rightarrow> alter_cmd option list \<Rightarrow> statement \<Rightarrow> statement list" where
  "convert_alter_table r cmds base =
     (let base = base\<lparr>st_relation := relname r\<rparr> in
      if cmds = [] then [base]
      else map (\<lambda>c. case c of None \<Rightarrow> base | Some cmd \<Rightarrow> convert_command base cmd) cmds)"

definition convert_rename :: "pg_object_type \<Rightarrow> pg_range option \<Rightarrow> string \<Rightarrow> string \<Rightarrow> statement \<Rightarrow> statement" where
  "convert_rename t r subname newname base =
     (let s = base\<lparr>st_new_name := newname, st_relation := relname r\<rparr> in
      case t of
        Object_table \<Rightarrow> s\<lparr>st_kind := KindRenameTable, st_object := st_relation s\<rparr>
      | Object_column \<Rightarrow> s\<lparr>st_kind := KindRenameColumn, st_object := subname\<rparr>
      | Object_index \<Rightarrow> s\<lparr>st_kind := KindRenameIndex, st_object := st_relation s\<rparr>
      | _ \<Rightarrow> s\<lparr>st_kind := KindUnrecognized\<rparr>)"

fun data_modifying_cte :: "pg_stmt option list \<Rightarrow> statement \<Rightarrow> statement option" where
  "data_modifying_cte [] base = None"
| "data_modifying_cte (Some (Delete_stmt r w ctes) # rest) base =
     Some (base\<lparr>st_kind := KindDelete, st_relation := relname r, st_has_where := w \<noteq> None, st_in_cte := True\<rparr>)"
| "data_modifying_cte (Some (Update_stmt r w ctes) # rest) base =
     Some (base\<lparr>st_kind := KindUpdate, st_relation := relname r, st_has_where := w \<noteq> None, st_in_cte := True\<rparr>)"
| "data_modifying_cte (Some (Insert_stmt r oc ctes) # rest) base =
     Some (base\<lparr>st_relation := relname r, st_in_cte := True\<rparr>)"
| "data_modifying_cte (q # rest) base = data_modifying_cte rest base"

definition sequence_reset_funcs :: "string list" where "sequence_reset_funcs = [''setval'']"

definition sequence_argument :: "pg_expr list \<Rightarrow> string" where
  "sequence_argument args =
     (case List.map_filter (\<lambda>a. case a of Expr_const (Const_string s) \<Rightarrow> Some s | _ \<Rightarrow> None) args of
        [] \<Rightarrow> [] | s # ss \<Rightarrow> s)"

fun calls_side_effecting_func :: "pg_expr option list \<Rightarrow> string option" where
  "calls_side_effecting_func [] = None"
| "calls_side_effecting_func (Some (Expr_func_call names args) # rest) =
     (if to_lower (last_name names) \<in> set sequence_reset_funcs then Some (sequence_argument args)
      else calls_side_effecting_func rest)"
| "calls_side_effecting_func (t # rest) = calls_side_effecting_func rest"

definition convert_select :: "pg_expr option list \<Rightarrow> pg_stmt option list \<Rightarrow> statement \<Rightarrow> statement" where
  "convert_select targets ctes base =
     (case data_modifying_cte ctes base of
        Some s \<Rightarrow> s
      | None \<Rightarrow>
          (case calls_side_effecting_func targets of
             Some name \<Rightarrow> base\<lparr>st_kind := KindAlterSequenceRestart, st_object := name\<rparr>
           | None \<Rightarrow> base))"

definition has_vacuum_option :: "string list \<Rightarrow> string \<Rightarrow> bool" where
  "has_vacuum_option options name = list_ex (\<lambda>o'. equal_fold o' name) options"

fun convert_one :: "pg_stmt \<Rightarrow> statement \<Rightarrow> statement" where
  "convert_one (Drop_stmt t b concurrent objs) base = convert_drop t b concurrent objs base"
| "convert_one (Dropdb_stmt name) base = base\<lparr>st_kind := KindDropDatabase, st_object := name\<rparr>"
| "convert_one (Truncate_stmt b rels) base =
     base\<lparr>st_kind := KindTruncate, st_cascade := (b = Drop_cascade), st_relation := first_relname rels\<rparr>"
| "convert_one (Alter_table_stmt r cmds) base = base"
| "convert_one (Rename_stmt t r subname newname) base = convert_rename t r subname newname base"
| "convert_one (Delete_stmt r w ctes) base =
     base\<lparr>st_kind := KindDelete, st_relation := relname r, st_has_where := w \<noteq> None\<rparr>"
| "convert_one (Update_stmt r w ctes) base =
     base\<lparr>st_kind := KindUpdate, st_relation := relname r, st_has_where := w \<noteq> None\<rparr>"
| "convert_one (Select_stmt targets ctes) base = convert_select targets ctes base"
| "convert_one (Alter_seq_stmt r options) base =
     (if list_ex (\<lambda>o'. equal_fold o' ''restart'') options then
        base\<lparr>st_kind := KindAlterSequenceRestart, st_relation := relname r\<rparr>
      else base)"
| "convert_one (Index_stmt name r concurrent) base =
     base\<lparr>st_kind := KindCreateIndex, st_object := name, st_relation := relname r, st_concurrent := concurrent\<rparr>"
| "convert_one (Create_stmt r elts) base =
     base\<lparr>st_kind := KindCreateTable, st_relation := relname r, st_columns := columns_of elts\<rparr>"
| "convert_one (View_stmt replace r) base =
     base\<lparr>st_kind := (if replace then KindReplaceView else KindCreateView), st_relation := relname r\<rparr>"
| "convert_one (Create_enum_stmt names) base = base\<lparr>st_kind := KindCreateType, st_object := last_name names\<rparr>"
| "convert_one (Composite_type_stmt r) base = base\<lparr>st_kind := KindCreateType, st_object := relname r\<rparr>"
| "convert_one (Create_schema_stmt name) base = base\<lparr>st_kind := KindCreateSchema, st_object := name\<rparr>"
| "convert_one (Create_seq_stmt r) base = base\<lparr>st_kind := KindCreateSequence, st_relation := relname r\<rparr>"
| "convert_one (Create_extension_stmt name) base = base\<lparr>st_kind := KindCreateExtension, st_object := name\<rparr>"
| "convert_one (Create_function_stmt replace names) base =
     base\<lparr>st_kind := (if replace then KindReplaceFunction else KindCreateFunction), st_object := last_name names\<rparr>"
| "convert_one (Create_trig_stmt name r) base =
     base\<lparr>st_kind := KindCreateTrigger, st_object := name, st_relation := relname r\<rparr>"
| "convert_one (Grant_stmt is_grant objs) base =
     base\<lparr>st_kind := (if is_grant then KindGrant else KindRevoke), st_object := grant_target_name objs\<rparr>"
| "convert_one (Comment_stmt obj) base = base\<lparr>st_kind := KindComment, st_object := comment_target_name obj\<rparr>"
| "convert_one (Variable_set_stmt name) base = base\<lparr>st_kind := KindSetVariable, st_object := name\<rparr>"
| "convert_one (Lock_stmt rels) base = base\<lparr>st_kind := KindLockTable, st_relation := first_relname rels\<rparr>"
| "convert_one (Vacuum_stmt is_vacuum options rels) base =
     base\<lparr>st_kind := (if \<not> is_vacuum then KindAnalyze
         else if has_vacuum_option options ''full'' then KindVacuumFull else KindVacuum),
       st_relation := (case rels of [] \<Rightarrow> st_relation base | r # rs \<Rightarrow> relname r)\<rparr>"
| "convert_one (Create_table_as_stmt t r skip_data) base =
     base\<lparr>st_relation := relname r,
       st_kind := (if t \<noteq> Object_matview then KindUnrecognized
         else if skip_data then KindCreateMatViewNoData else KindCreateMatView)\<rparr>"
| "convert_one (Refresh_matview_stmt concurrent r) base =
     base\<lparr>st_kind := (if concurrent then KindRefreshMatViewConcurr else KindRefreshMatView),
       st_relation := relname r\<rparr>"
| "convert_one (Alter_enum_stmt names old_val new_val) base =
     (if old_val = [] then
        base\<lparr>st_kind := KindAddEnumValue, st_object := last_name names, st_new_name := new_val\<rparr>
      else base)"
| "convert_one (Create_policy_stmt name r) base =
     base\<lparr>st_kind := KindCreatePolicy, st_object := name, st_relation := relname r\<rparr>"
| "convert_one (Insert_stmt r oc ctes) base =
     base\<lparr>st_relation := relname r, st_kind := (if oc = Some Onconflict_update then KindUpsert else KindInsert)\<rparr>"
| "convert_one (Other_stmt tag) base = base"

definition base_statement :: "string \<Rightarrow> int \<Rightarrow> statement" where
  "base_statement sql n = (bare_statement KindUnrecognized)\<lparr>st_sql := sql, st_line := n\<rparr>"

definition convert :: "pg_stmt \<Rightarrow> string \<Rightarrow> int \<Rightarrow> statement list" where
  "convert node sql n =
     (case node of
        Alter_table_stmt r cmds \<Rightarrow> convert_alter_table r cmds (base_statement sql n)
      | _ \<Rightarrow> [convert_one node (base_statement sql n)])"

subsection \<open>Positions\<close>

definition blank :: "char \<Rightarrow> bool" where
  "blank c \<longleftrightarrow> c \<in> {CHR 0x20, CHR 0x09, CHR 0x0D, CHR 0x0A}"

definition skip_leading_space :: "string \<Rightarrow> int \<Rightarrow> int" where
  "skip_leading_space s offset =
     (if offset < 0 then 0
      else offset + int (length (takeWhile blank (drop (nat offset) s))))"

definition statement_text :: "string \<Rightarrow> int \<Rightarrow> int \<Rightarrow> string" where
  "statement_text sql offset len =
     (let n = int (length sql) in
      if offset < 0 \<or> n < offset then []
      else
        (let stop = (if 0 < len \<and> offset + len \<le> n then offset + len else n) in
         trim_space (take (nat (stop - offset)) (drop (nat offset) sql))))"

fun later_lines :: "nat \<Rightarrow> string \<Rightarrow> nat list" where
  "later_lines i [] = []"
| "later_lines i (c # s) = (if c = CHR 0x0A then Suc i # later_lines (Suc i) s else later_lines (Suc i) s)"

definition new_line_index :: "string \<Rightarrow> nat list" where
  "new_line_index s = 0 # later_lines 0 s"

definition line_at :: "nat list \<Rightarrow> int \<Rightarrow> int" where
  "line_at starts offset =
     (case find (\<lambda>i. int (starts ! i) \<le> offset) (rev [0..<length starts]) of
        Some i \<Rightarrow> int i + 1
      | None \<Rightarrow> 1)"

subsection \<open>Parsing\<close>

definition utf8_bom :: string where "utf8_bom = [CHR 0xEF, CHR 0xBB, CHR 0xBF]"

definition trim_bom :: "string \<Rightarrow> string" where
  "trim_bom s = (if has_prefix s utf8_bom then drop (length utf8_bom) s else s)"

definition raw_statements :: "string \<Rightarrow> raw_stmt \<Rightarrow> statement list" where
  "raw_statements sql raw =
     (case rw_stmt raw of
        None \<Rightarrow> []
      | Some node \<Rightarrow>
          (let start = skip_leading_space sql (rw_location raw) in
           convert node (statement_text sql start (rw_location raw + rw_len raw - start))
             (line_at (new_line_index sql) start)))"

definition parse_sql :: "pg_library \<Rightarrow> string option \<Rightarrow> string \<Rightarrow> string + statement list" where
  "parse_sql pg cancelled text =
     (case cancelled of
        Some e \<Rightarrow> Inl (''parse: '' @ e)
      | None \<Rightarrow>
          (let sql = trim_bom text in
           case guard_complexity sql of
             Some e \<Rightarrow> Inl (too_complex_text e)
           | None \<Rightarrow>
               (case pg sql of
                  Inl e \<Rightarrow> Inl (''parse: '' @ e)
                | Inr None \<Rightarrow> Inl ''parse: parser returned no result''
                | Inr (Some raws) \<Rightarrow> Inr (concat (map (raw_statements sql) raws)))))"

subsection \<open>What every conversion keeps\<close>

lemma data_modifying_cte_kind:
  "data_modifying_cte ctes base = Some s \<Longrightarrow>
     st_kind s \<in> {KindDelete, KindUpdate, st_kind base} \<and> st_sql s = st_sql base \<and> st_line s = st_line base
     \<and> st_cascade s = st_cascade base"
  by (induction ctes base rule: data_modifying_cte.induct) auto

lemma convert_select_kind:
  "st_kind (convert_select targets ctes base)
     \<in> {KindDelete, KindUpdate, KindAlterSequenceRestart, st_kind base}"
  "st_cascade (convert_select targets ctes base) = st_cascade base"
  "st_sql (convert_select targets ctes base) = st_sql base"
  "st_line (convert_select targets ctes base) = st_line base"
  using data_modifying_cte_kind [of ctes base]
  by (auto simp: convert_select_def split: option.split)

lemma convert_command_place:
  "st_sql (convert_command base cmd) = st_sql base" "st_line (convert_command base cmd) = st_line base"
  by (auto simp: convert_command_def added_column_def added_constraint_def Let_def
      split: alter_table_type.split option.split prod.split)

lemma convert_drop_place:
  "st_sql (convert_drop t b concurrent objs base) = st_sql base"
  "st_line (convert_drop t b concurrent objs base) = st_line base"
  by (simp_all add: convert_drop_def Let_def)

lemma convert_rename_place:
  "st_sql (convert_rename t r subname newname base) = st_sql base"
  "st_line (convert_rename t r subname newname base) = st_line base"
  by (cases t; simp add: convert_rename_def Let_def)+

lemma convert_one_place:
  "st_sql (convert_one node base) = st_sql base" "st_line (convert_one node base) = st_line base"
  by (cases node; simp add: convert_select_kind convert_drop_place convert_rename_place)+

text \<open>The number of statements a node becomes.\<close>

definition statement_count :: "pg_stmt \<Rightarrow> nat" where
  "statement_count node = (case node of Alter_table_stmt r cmds \<Rightarrow> max 1 (length cmds) | _ \<Rightarrow> 1)"

lemma convert_alter_table_place:
  "length (convert_alter_table r cmds base) = max 1 (length cmds)"
  "s \<in> set (convert_alter_table r cmds base) \<Longrightarrow> st_sql s = st_sql base \<and> st_line s = st_line base"
  by (auto simp: convert_alter_table_def Let_def convert_command_place Suc_le_eq split: option.splits if_splits)

lemma base_statement_place [simp]:
  "st_sql (base_statement sql n) = sql" "st_line (base_statement sql n) = n"
  "st_kind (base_statement sql n) = KindUnrecognized" "\<not> st_cascade (base_statement sql n)"
  by (simp_all add: base_statement_def bare_statement_def)

lemma convert_cases:
  "(\<exists>r cmds. node = Alter_table_stmt r cmds \<and> convert node sql n = convert_alter_table r cmds (base_statement sql n))
   \<or> (\<forall>r cmds. node \<noteq> Alter_table_stmt r cmds) \<and> convert node sql n = [convert_one node (base_statement sql n)]
     \<and> statement_count node = 1"
  by (cases node) (simp_all add: convert_def statement_count_def)

lemma convert_place:
  "length (convert node sql n) = statement_count node"
  "s \<in> set (convert node sql n) \<Longrightarrow> st_sql s = sql \<and> st_line s = n"
  using convert_cases [of node sql n] convert_alter_table_place(2) [of s _ _ "base_statement sql n"]
  by (auto simp: statement_count_def convert_alter_table_place(1) convert_one_place)

subsection \<open>What may pass\<close>

text \<open>The nodes of the grammar that may pass, read off the tree.\<close>

fun may_pass_command :: "alter_cmd option \<Rightarrow> bool" where
  "may_pass_command None = False"
| "may_pass_command (Some cmd) =
     (am_behavior cmd = Drop_restrict \<and>
      (case am_type cmd of
         At_drop_not_null \<Rightarrow> True
       | At_column_default \<Rightarrow> True
       | At_enable_row_security \<Rightarrow> True
       | At_add_column \<Rightarrow>
           (case def_column (am_def cmd) of
              None \<Rightarrow> True
            | Some c \<Rightarrow> (case column_constraints (co_constraints c) (False, False, False) of
                (not_null, has_default, volatile_default) \<Rightarrow>
                  (not_null \<longrightarrow> has_default) \<and> \<not> (has_default \<and> volatile_default)))
       | At_add_constraint \<Rightarrow>
           (case def_constraint (am_def cmd) of
              None \<Rightarrow> False
            | Some c \<Rightarrow> cn_index c \<noteq> [] \<or> cn_skip_validation c)
       | _ \<Rightarrow> False))"

fun may_pass :: "pg_stmt \<Rightarrow> bool" where
  "may_pass (Alter_table_stmt r cmds) = (cmds \<noteq> [] \<and> list_all may_pass_command cmds)"
| "may_pass (Index_stmt name r concurrent) = concurrent"
| "may_pass (Create_stmt r elts) = True"
| "may_pass (View_stmt replace r) = (\<not> replace)"
| "may_pass (Create_enum_stmt names) = True"
| "may_pass (Composite_type_stmt r) = True"
| "may_pass (Create_schema_stmt name) = True"
| "may_pass (Create_seq_stmt r) = True"
| "may_pass (Create_extension_stmt name) = True"
| "may_pass (Create_function_stmt replace names) = (\<not> replace)"
| "may_pass (Create_trig_stmt name r) = True"
| "may_pass (Grant_stmt is_grant objs) = True"
| "may_pass (Comment_stmt obj) = True"
| "may_pass (Variable_set_stmt name) = True"
| "may_pass (Vacuum_stmt is_vacuum options rels) = (\<not> (is_vacuum \<and> has_vacuum_option options ''full''))"
| "may_pass (Create_table_as_stmt t r skip_data) = (t = Object_matview \<and> skip_data)"
| "may_pass (Create_policy_stmt name r) = True"
| "may_pass _ = False"

definition passes :: "schema \<Rightarrow> statement \<Rightarrow> bool" where
  "passes sch s \<longleftrightarrow> cf_rev (classify s sch) = Reversible \<and> \<not> at_least (cf_lock (classify s sch)) LockFullScan"

fun kind_passes :: "kind \<Rightarrow> statement \<Rightarrow> bool" where
  "kind_passes KindDropNotNull s = True"
| "kind_passes KindSetDefault s = True"
| "kind_passes KindDropDefault s = True"
| "kind_passes KindEnableRLS s = True"
| "kind_passes KindAddColumn s =
     ((st_not_null s \<longrightarrow> st_has_default s) \<and> \<not> (st_has_default s \<and> st_volatile_default s))"
| "kind_passes KindAddConstraint s = st_not_valid s"
| "kind_passes KindAddConstraintUsingIndex s = True"
| "kind_passes KindCreateIndex s = st_concurrent s"
| "kind_passes KindCreateTable s = True"
| "kind_passes KindCreateView s = True"
| "kind_passes KindCreateType s = True"
| "kind_passes KindCreateSchema s = True"
| "kind_passes KindCreateSequence s = True"
| "kind_passes KindCreateExtension s = True"
| "kind_passes KindCreateFunction s = True"
| "kind_passes KindCreateTrigger s = True"
| "kind_passes KindGrant s = True"
| "kind_passes KindRevoke s = True"
| "kind_passes KindComment s = True"
| "kind_passes KindSetVariable s = True"
| "kind_passes KindAnalyze s = True"
| "kind_passes KindVacuum s = True"
| "kind_passes KindCreateMatViewNoData s = True"
| "kind_passes KindCreatePolicy s = True"
| "kind_passes _ s = False"

lemma passes_kind: "passes sch s \<longleftrightarrow> \<not> st_cascade s \<and> kind_passes (st_kind s) s"
  unfolding passes_def classify_def
  by (cases "st_cascade s"; cases "st_kind s")
    (auto simp: row_facts at_least_def split: width_change.split)

lemma command_passes:
  assumes "\<not> st_not_valid base" and "\<not> st_not_null base" and "\<not> st_has_default base"
  shows "passes sch (convert_command base cmd) \<longleftrightarrow> may_pass_command (Some cmd)"
proof (cases "am_type cmd")
  case At_add_column
  with assms show ?thesis
    by (cases "am_behavior cmd")
      (simp_all add: passes_kind convert_command_def added_column_def Let_def split: option.split prod.split)
next
  case At_add_constraint
  with assms show ?thesis
    by (cases "am_behavior cmd")
      (simp_all add: passes_kind convert_command_def added_constraint_def Let_def split: option.split)
next
  case At_alter_column_type
  then show ?thesis
    by (simp add: passes_kind convert_command_def Let_def split: option.split)
qed (cases "am_behavior cmd"; simp add: passes_kind convert_command_def Let_def)+

lemma node_passes:
  assumes "\<And>r cmds. node \<noteq> Alter_table_stmt r cmds" and "st_kind base = KindUnrecognized" and "\<not> st_cascade base"
  shows "passes sch (convert_one node base) \<longleftrightarrow> may_pass node"
proof (cases node)
  case (Select_stmt targets ctes)
  then show ?thesis
    using convert_select_kind(1) [of targets ctes base] assms(2) by (auto simp: passes_kind)
next
  case (Drop_stmt t b concurrent objs)
  then show ?thesis by (cases t; simp add: passes_kind convert_drop_def Let_def)
next
  case (Rename_stmt t r subname newname)
  then show ?thesis by (cases t; simp add: passes_kind convert_rename_def Let_def)
qed (use assms in \<open>simp_all add: passes_kind\<close>)

lemma convert_passes: "list_all (passes sch) (convert node sql n) \<longleftrightarrow> may_pass node"
  using convert_cases [of node sql n]
proof (elim disjE exE conjE)
  fix r cmds
  assume node: "node = Alter_table_stmt r cmds" "convert node sql n = convert_alter_table r cmds (base_statement sql n)"
  let ?base = "base_statement sql n\<lparr>st_relation := relname r\<rparr>"
  have base: "\<not> st_not_valid ?base" "\<not> st_not_null ?base" "\<not> st_has_default ?base" "\<not> passes sch ?base"
    by (simp_all add: base_statement_def bare_statement_def passes_kind)
  have "passes sch (case c of None \<Rightarrow> ?base | Some cmd \<Rightarrow> convert_command ?base cmd) \<longleftrightarrow> may_pass_command c" for c
    using command_passes [OF base(1-3)] base(4) by (cases c) auto
  with node base(4) show ?thesis
    by (simp add: convert_alter_table_def list_all_iff Let_def)
qed (simp add: node_passes)

text \<open>The specification of a run over the grammar: the text is within the limits, the grammar accepts it, and
  every node may pass.\<close>

definition grammar_permits :: "pg_library \<Rightarrow> string \<Rightarrow> bool" where
  "grammar_permits pg text =
     (guard_complexity (trim_bom text) = None \<and>
      (case pg (trim_bom text) of
         Inr (Some raws) \<Rightarrow> list_all (\<lambda>raw. case rw_stmt raw of None \<Rightarrow> True | Some node \<Rightarrow> may_pass node) raws
       | _ \<Rightarrow> False))"

lemma raw_statements_pass:
  "list_all (passes sch) (raw_statements sql raw) \<longleftrightarrow> (case rw_stmt raw of None \<Rightarrow> True | Some node \<Rightarrow> may_pass node)"
  by (simp add: raw_statements_def convert_passes Let_def split: option.split)

lemma parsed_passes:
  "(case parse_sql pg None text of Inl err \<Rightarrow> False | Inr ss \<Rightarrow> list_all (passes sch) ss) = grammar_permits pg text"
  by (simp add: parse_sql_def grammar_permits_def Let_def list_all_iff raw_statements_pass [unfolded list_all_iff]
      split: option.split sum.split)

lemma parse_sql_cancelled: "parse_sql pg (Some e) text = Inl (''parse: '' @ e)"
  by (simp add: parse_sql_def)

lemma blocks_nothing_passes: "blocks_nothing (statement_finding path sch s) = passes sch s"
  by (simp add: blocks_nothing_def statement_finding_def passes_def Let_def)

lemma passing_run_reads:
  assumes "list_all blocks_nothing (postgres_findings parse files)" and "f \<in> set files" and "analyzed f"
  shows "\<exists>ss. parse (p_current f) = Inr ss \<and> (\<forall>s\<in>set ss. \<exists>sch. passes sch s)"
proof -
  have found: "\<exists>sch. blocks_nothing (judged sch e)" if "e \<in> set (events_of parse f)" for e
    using judged_event_found [OF assms(2) that] assms(1) by (auto simp: list_all_iff)
  show ?thesis
  proof (cases "parse (p_current f)")
    case (Inl err)
    with found [of "Inl (f, err)"] assms(3) show ?thesis
      by (simp add: events_of_def judged_def unparsed_finding_def blocks_nothing_def)
  next
    case (Inr ss)
    have "\<exists>sch. passes sch s" if "s \<in> set ss" for s
      using found [of "Inr (p_path f, s)"] Inr assms(3) that
      by (auto simp: events_of_def judged_def blocks_nothing_passes)
    with Inr show ?thesis by blast
  qed
qed

text \<open>Whether a statement passes does not depend on the schema.\<close>

lemma passes_schema: "passes sch s \<Longrightarrow> passes sch' s"
  by (simp add: passes_kind)

subsection \<open>Where statements stand\<close>

text \<open>What the grammar says a statement's source is, and the line it begins on.\<close>

definition source_of :: "string \<Rightarrow> raw_stmt \<Rightarrow> string" where
  "source_of sql raw =
     (let rest = drop (nat (rw_location raw)) sql in
      trim_space (if rw_len raw = 0 then rest else take (nat (rw_len raw)) rest))"

definition first_line_of :: "string \<Rightarrow> raw_stmt \<Rightarrow> int" where
  "first_line_of sql raw =
     (let start = nat (rw_location raw) in
      1 + int (count_list (take (start + length (takeWhile blank (drop start sql))) sql) (CHR 0x0A)))"

definition well_placed :: "string \<Rightarrow> raw_stmt \<Rightarrow> bool" where
  "well_placed sql raw \<longleftrightarrow>
     0 \<le> rw_location raw \<and> 0 \<le> rw_len raw \<and> rw_location raw + rw_len raw \<le> int (length sql)
     \<and> source_of sql raw \<noteq> []"

lemma later_lines_greater: "j \<in> set (later_lines i s) \<Longrightarrow> i < j"
  by (induction i s rule: later_lines.induct) (force split: if_splits)+

lemma later_lines_sorted: "sorted (later_lines i s)"
  by (induction i s rule: later_lines.induct) (auto dest: later_lines_greater)

lemma later_lines_count:
  "int i \<le> n \<Longrightarrow>
     length (filter (\<lambda>j. int j \<le> n) (later_lines i s)) = count_list (take (nat (n - int i)) s) (CHR 0x0A)"
proof (induction i s rule: later_lines.induct)
  case (2 i c s)
  show ?case
  proof (cases "n = int i")
    case True
    then have "filter (\<lambda>j. int j \<le> n) (later_lines i (c # s)) = []"
      using later_lines_greater [of _ i "c # s"] by (force simp: filter_empty_conv simp del: later_lines.simps)
    with True show ?thesis by (simp del: later_lines.simps)
  next
    case False
    with 2(3) have "nat (n - int i) = Suc (nat (n - int (Suc i)))" and n: "int (Suc i) \<le> n" by linarith+
    then show ?thesis using 2(1,2) n by simp
  qed
qed simp

lemma last_start:
  "sorted xs \<Longrightarrow> xs \<noteq> [] \<Longrightarrow> int (xs ! 0) \<le> n \<Longrightarrow>
     find (\<lambda>i. int (xs ! i) \<le> n) (rev [0..<length xs]) = Some (length (filter (\<lambda>j. int j \<le> n) xs) - 1)"
proof (induction xs rule: rev_induct)
  case (snoc x xs)
  show ?case
  proof (cases "int x \<le> n")
    case True
    with snoc.prems(1) have "\<forall>y\<in>set xs. int y \<le> n" by (force simp: sorted_append)
    with True show ?thesis by simp
  next
    case False
    with snoc.prems have ne: "xs \<noteq> []" by (cases xs) auto
    have "find (\<lambda>i. int ((xs @ [x]) ! i) \<le> n) (rev [0..<length xs]) = find (\<lambda>i. int (xs ! i) \<le> n) (rev [0..<length xs])"
      by (rule find_cong) (simp_all add: nth_append)
    with snoc ne False show ?thesis by (simp add: nth_append sorted_append)
  qed
qed simp

lemma line_at_counts:
  assumes "0 \<le> n"
  shows "line_at (new_line_index s) n = 1 + int (count_list (take (nat n) s) (CHR 0x0A))"
proof -
  have "sorted (new_line_index s)" by (simp add: new_line_index_def later_lines_sorted)
  then show ?thesis
    using last_start [of "new_line_index s" n] later_lines_count [of 0 n s] assms
    by (simp add: line_at_def new_line_index_def)
qed

lemma trim_leading: "list_all is_space xs \<Longrightarrow> trim_space (xs @ ys) = trim_space ys"
  by (simp add: trim_space_def list_all_iff dropWhile_append)

lemma trim_blank: "list_all is_space xs \<Longrightarrow> trim_space xs = []"
  using trim_leading [of xs "[]"] by (simp add: trim_space_def)

lemma blanks_are_space: "list_all is_space (takeWhile blank s)"
  by (auto simp: list_all_iff is_space_def blank_def dest!: set_takeWhileD)

lemma statement_text_source:
  assumes "well_placed sql raw"
  shows "statement_text sql (skip_leading_space sql (rw_location raw))
      (rw_location raw + rw_len raw - skip_leading_space sql (rw_location raw)) = source_of sql raw"
proof -
  define rest where "rest = drop (nat (rw_location raw)) sql"
  define k where "k = length (takeWhile blank rest)"
  have loc: "0 \<le> rw_location raw" "0 \<le> rw_len raw" "rw_location raw + rw_len raw \<le> int (length sql)"
    and ne: "source_of sql raw \<noteq> []" using assms by (auto simp: well_placed_def)
  have start: "skip_leading_space sql (rw_location raw) = rw_location raw + int k"
    using loc by (simp add: skip_leading_space_def k_def rest_def)
  have k: "take k rest = takeWhile blank rest" "k \<le> length rest"
    by (simp_all add: k_def takeWhile_eq_take [symmetric] length_takeWhile_le)
  have at: "drop (nat (rw_location raw + int k)) sql = drop k rest"
    using loc by (simp add: rest_def nat_add_distrib add.commute)
  have within: "rw_location raw + int k \<le> int (length sql)" using k(2) loc by (simp add: rest_def)
  show ?thesis
  proof (cases "rw_len raw = 0")
    case True
    then have "source_of sql raw = trim_space rest" by (simp add: source_of_def rest_def Let_def)
    moreover have "rest = takeWhile blank rest @ drop k rest" by (metis append_take_drop_id k(1))
    ultimately have "source_of sql raw = trim_space (takeWhile blank rest @ drop k rest)" by simp
    then have "source_of sql raw = trim_space (drop k rest)"
      by (simp add: trim_leading [OF blanks_are_space])
    then show ?thesis using True start at within loc
      by (simp add: statement_text_def Let_def nat_diff_distrib rest_def)
  next
    case False
    let ?m = "nat (rw_len raw)"
    have src: "source_of sql raw = trim_space (take ?m rest)" using False by (simp add: source_of_def rest_def Let_def)
    have "k < ?m"
    proof (rule ccontr)
      assume "\<not> k < ?m"
      then have "take ?m rest = take ?m (takeWhile blank rest)" by (simp add: k(1) [symmetric])
      then have "list_all is_space (take ?m rest)"
        using blanks_are_space [of rest] by (auto simp: list_all_iff dest: in_set_takeD)
      with src ne show False by (simp add: trim_blank)
    qed
    then have "take ?m rest = takeWhile blank rest @ take (?m - k) (drop k rest)"
      by (metis k(1) le_add_diff_inverse less_imp_le_nat take_add)
    then have "source_of sql raw = trim_space (take (?m - k) (drop k rest))"
      by (simp add: src trim_leading [OF blanks_are_space])
    moreover have "nat (rw_len raw - int k) = ?m - k" by linarith
    ultimately show ?thesis using start at within loc \<open>k < ?m\<close>
      by (simp add: statement_text_def Let_def)
  qed
qed

text \<open>What one statement of the grammar becomes.\<close>

definition placed :: "string \<Rightarrow> raw_stmt \<Rightarrow> statement list \<Rightarrow> bool" where
  "placed sql raw ss \<longleftrightarrow>
     (case rw_stmt raw of
        None \<Rightarrow> ss = []
      | Some node \<Rightarrow> length ss = statement_count node
          \<and> (\<not> well_placed sql raw
             \<or> list_all (\<lambda>s. st_sql s = source_of sql raw \<and> st_line s = first_line_of sql raw) ss))"

lemma raw_statements_placed: "placed sql raw (raw_statements sql raw)"
proof (cases "rw_stmt raw")
  case (Some node)
  have "s \<in> set (raw_statements sql raw) \<Longrightarrow> well_placed sql raw \<Longrightarrow>
      st_sql s = source_of sql raw \<and> st_line s = first_line_of sql raw" for s
    using Some statement_text_source [of sql raw]
    by (auto simp: raw_statements_def Let_def first_line_of_def well_placed_def skip_leading_space_def
        line_at_counts nat_add_distrib dest!: convert_place(2))
  with Some show ?thesis
    by (auto simp: placed_def list_all_iff) (simp add: raw_statements_def Let_def convert_place(1))
qed (simp add: placed_def raw_statements_def)

text \<open>What a \<open>PASS\<close> of an engine with this analyzer says of every migration that was analyzed.\<close>

lemma passing_grammar:
  assumes "c_gate (fst (certify sha e cancelled c given)) = GatePass"
    and "postgres_analyzer (Some (parse_sql pg stop)) ctx \<in> set (e_analyzers e)"
    and "f \<in> set (stamp_located given (locator c))" and "analyzed f"
  shows "grammar_permits pg (p_current f)"
proof -
  let ?files = "stamp_located given (locator c)"
  from registered_pass [OF assms(1,2)] have "list_all blocks_nothing (postgres_findings (parse_sql pg stop) ?files)"
    by (auto simp: postgres_analyzer_def postgres_analyze_def split: option.splits)
  from passing_run_reads [OF this assms(3,4)] obtain ss
    where ss: "parse_sql pg stop (p_current f) = Inr ss" "\<forall>s\<in>set ss. \<exists>sch. passes sch s" by blast
  then have "stop = None" by (cases stop) (simp_all add: parse_sql_cancelled)
  moreover from ss(2) have "list_all (passes new_schema) ss" using passes_schema by (auto simp: list_all_iff)
  ultimately show ?thesis using ss(1) parsed_passes [of new_schema pg "p_current f"] by simp
qed

subsection \<open>Properties\<close>

text \<open>The adapter and the rules together, exactly: a text is parsed into statements that may all pass, if
  and only if it is within the limits, the grammar accepts it, and every node of the tree is on the list of
  what may pass.\<close>

theorem what_may_pass:
  "(case parse_sql pg None text of Inl err \<Rightarrow> False | Inr ss \<Rightarrow> list_all (passes sch) ss) = grammar_permits pg text"
  by (rule parsed_passes)

text \<open>C2. What a \<open>PASS\<close> means in terms of PostgreSQL's grammar: with this analyzer registered, every \<open>.sql\<close> up
  migration of the change is within the limits of the guard, is accepted by the grammar, and every node
  of its tree is on the list of what may pass.\<close>

theorem pass_reads_the_grammar:
  assumes "c_gate (fst (certify sha e cancelled c given)) = GatePass"
    and "postgres_analyzer (Some (parse_sql pg stop)) ctx \<in> set (e_analyzers e)"
    and "f \<in> set (stamp_located given (locator c))" and "analyzed f"
  shows "grammar_permits pg (p_current f)"
  using assms by (rule passing_grammar)

text \<open>A grammar that reads every text as a new table, and one that reads an error.\<close>

definition sample_grammar :: pg_library where
  "sample_grammar sql =
     Inr (Some [\<lparr>rw_stmt = Some (if sql = ''up'' then Create_stmt (Some \<lparr>rv_schema = [], rv_name = ''t''\<rparr>) []
         else Drop_stmt Object_table Drop_restrict False [Expr_list [Expr_string ''t'']]),
       rw_location = 0, rw_len = 0\<rparr>])"

definition grammar_engine :: engine where
  "grammar_engine = new_engine [postgres_analyzer (Some (parse_sql sample_grammar None)) (\<lambda>i. None)] None 0 None"

lemma grammar_engine_passes:
  "c_gate (fst (certify (\<lambda>b. b) grammar_engine None (plain_run\<lparr>rc_enumerated := []\<rparr>) sample_migration)) = GatePass"
  by code_simp

theorem pass_reads_the_grammar_witness:
  "grammar_permits sample_grammar (p_current (hd (stamp_located sample_migration (locator (plain_run\<lparr>rc_enumerated := []\<rparr>)))))"
proof (rule pass_reads_the_grammar [OF grammar_engine_passes])
  show "analyzed (hd (stamp_located sample_migration (locator (plain_run\<lparr>rc_enumerated := []\<rparr>))))" by code_simp
qed (simp_all add: grammar_engine_def new_engine_def sample_migration_def stamp_located_def)

text \<open>C16. Every statement the grammar reports is read, in order and in the place it stands: a node becomes one
  statement, an \<open>ALTER TABLE\<close> one for each of its commands; each quotes the source between the positions the
  grammar reports, and the line is that of its first character that is not blank.\<close>

theorem statements_are_placed:
  assumes "parse_sql pg None text = Inr ss"
  shows "\<exists>raws groups. pg (trim_bom text) = Inr (Some raws) \<and> ss = concat groups
    \<and> list_all2 (placed (trim_bom text)) raws groups"
proof -
  from assms obtain raws where "pg (trim_bom text) = Inr (Some raws)"
    and "ss = concat (map (raw_statements (trim_bom text)) raws)"
    by (auto simp: parse_sql_def Let_def split: option.splits sum.splits)
  moreover have "list_all2 (placed sql) raws (map (raw_statements sql) raws)" for sql
    by (simp add: list_all2_conv_all_nth raw_statements_placed)
  ultimately show ?thesis by blast
qed

theorem statements_are_placed_witness:
  "\<exists>raws groups. sample_grammar ''up'' = Inr (Some raws)
     \<and> [(bare_statement KindCreateTable)\<lparr>st_sql := ''up'', st_relation := ''t''\<rparr>] = concat groups
     \<and> list_all2 (placed ''up'') raws groups"
proof -
  have "trim_bom ''up'' = ''up''" by code_simp
  moreover have "parse_sql sample_grammar None ''up''
      = Inr [(bare_statement KindCreateTable)\<lparr>st_sql := ''up'', st_relation := ''t''\<rparr>]"
    by code_simp
  ultimately show ?thesis using statements_are_placed [of sample_grammar "''up''"] by metis
qed

fun modifies :: "pg_stmt option \<Rightarrow> bool" where
  "modifies (Some (Delete_stmt r w ctes)) = True"
| "modifies (Some (Update_stmt r w ctes)) = True"
| "modifies (Some (Insert_stmt r oc ctes)) = True"
| "modifies _ = False"

definition modified_kind :: "pg_stmt option \<Rightarrow> kind" where
  "modified_kind q =
     (case q of Some (Delete_stmt r w c) \<Rightarrow> KindDelete | Some (Update_stmt r w c) \<Rightarrow> KindUpdate | _ \<Rightarrow> KindUnrecognized)"

lemma data_modifying_cte_first:
  "st_kind base = KindUnrecognized \<Longrightarrow>
     map_option st_kind (data_modifying_cte ctes base) = map_option modified_kind (find modifies ctes)"
  by (induction ctes base rule: data_modifying_cte.induct) (simp_all add: modified_kind_def)

text \<open>The verdict on a \<open>SELECT\<close> is that of its effect: of the first query of its \<open>WITH\<close> clause that modifies
  data, of a call that moves a sequence otherwise; it is never one that passes.\<close>

theorem select_is_judged_by_effect:
  "cf_rev (classify (convert_select targets ctes (base_statement sql n)) sch) =
     (case find modifies ctes of
        Some (Some (Insert_stmt r oc c)) \<Rightarrow> Unknown
      | Some q \<Rightarrow> Irreversible
      | None \<Rightarrow> if calls_side_effecting_func targets = None then Unknown else Irreversible)"
proof -
  let ?s = "convert_select targets ctes (base_statement sql n)"
  have rev: "cf_rev (classify ?s sch) = (if st_kind ?s = KindUnrecognized then Unknown else Irreversible)"
    using convert_select_kind(1) [of targets ctes "base_statement sql n"]
    by (auto simp: classify_def row_facts convert_select_kind)
  show ?thesis
  proof (cases "find modifies ctes")
    case None
    with data_modifying_cte_first [of "base_statement sql n" ctes]
    have "?s = (case calls_side_effecting_func targets of
        Some name \<Rightarrow> base_statement sql n\<lparr>st_kind := KindAlterSequenceRestart, st_object := name\<rparr>
      | None \<Rightarrow> base_statement sql n)"
      by (simp add: convert_select_def)
    with rev None show ?thesis by (simp split: option.split)
  next
    case (Some q)
    then have "modifies q" by (auto simp: find_Some_iff)
    from Some data_modifying_cte_first [of "base_statement sql n" ctes] have "st_kind ?s = modified_kind q"
      by (auto simp: convert_select_def)
    with rev Some \<open>modifies q\<close> show ?thesis
      by (cases q rule: modifies.cases) (simp_all add: modified_kind_def)
  qed
qed

text \<open>The \<open>WITH\<close> clause of a statement that is no \<open>SELECT\<close> is not read: an \<open>INSERT\<close> whose clause deletes
  rows has the verdict of an \<open>INSERT\<close>, which adds rows and overwrites none, while the same clause under a
  \<open>SELECT\<close> is irreversible.\<close>

theorem insert_hides_a_delete:
  "cf_rule (classify (convert_one (Insert_stmt r None [Some (Delete_stmt t w [])]) (base_statement sql n)) sch) = ''PG058''
   \<and> cf_rev (classify (convert_one (Insert_stmt r None [Some (Delete_stmt t w [])]) (base_statement sql n)) sch) = Costly
   \<and> cf_rev (classify (convert_one (Select_stmt targets [Some (Delete_stmt t w [])]) (base_statement sql n)) sch) = Irreversible"
  using select_is_judged_by_effect [of targets "[Some (Delete_stmt t w [])]" sql n sch]
  by (simp add: classify_def row_facts)

text \<open>The constraints written on an added column are read for \<open>NOT NULL\<close> and \<open>DEFAULT\<close> only: a column
  that is added with a \<open>CHECK\<close>, a foreign key, a primary key or as generated passes as if it had
  none, while the same \<open>CHECK\<close> added as a constraint scans the whole table.\<close>

theorem inline_constraints_are_not_read:
  "convert_command base \<lparr>am_type = At_add_column, am_behavior = b, am_name = name,
       am_def = Some (Def_column c)\<rparr>
     = convert_command base \<lparr>am_type = At_add_column, am_behavior = b, am_name = name,
         am_def = Some (Def_column (c\<lparr>co_constraints := filter (\<lambda>x. case x of None \<Rightarrow> False
           | Some k \<Rightarrow> cn_type k = Constr_notnull \<or> cn_type k = Constr_default) (co_constraints c)\<rparr>))\<rparr>"
proof -
  have "column_constraints cs acc = column_constraints (filter (\<lambda>x. case x of None \<Rightarrow> False
      | Some k \<Rightarrow> cn_type k = Constr_notnull \<or> cn_type k = Constr_default) cs) acc" for cs acc
    by (induction cs acc rule: column_constraints.induct) (auto split: constr_type.split)
  then show ?thesis by (simp add: convert_command_def added_column_def)
qed

definition inline_check_command :: "bool \<Rightarrow> alter_cmd" where
  "inline_check_command inline =
     (let check = \<lparr>cn_type = Constr_check, cn_name = ''c'', cn_skip_validation = False, cn_index = [],
            cn_raw_expr = Some (Expr_other ''a > 0'')\<rparr> in
      if inline
      then \<lparr>am_type = At_add_column, am_behavior = Drop_restrict, am_name = [],
        am_def = Some (Def_column \<lparr>co_name = ''a'', co_type = None, co_constraints = [Some check], co_using = None\<rparr>)\<rparr>
      else \<lparr>am_type = At_add_constraint, am_behavior = Drop_restrict, am_name = [], am_def = Some (Def_constraint check)\<rparr>)"

theorem inline_check_escapes_the_scan:
  "may_pass_command (Some (inline_check_command True)) \<and> \<not> may_pass_command (Some (inline_check_command False))
   \<and> cf_lock (classify (convert_command (base_statement sql n) (inline_check_command True)) sch) = LockNone
   \<and> cf_lock (classify (convert_command (base_statement sql n) (inline_check_command False)) sch) = LockFullScan"
  by (simp add: inline_check_command_def convert_command_def classify_def row_facts added_column_def added_constraint_def
      base_statement_def bare_statement_def validated_constraint_def Let_def)

text \<open>A change of type is judged by the two types alone: the expression of \<open>USING\<close>, which may replace every
  value of the column, is not read, and an array is taken for its element.\<close>

theorem using_is_not_read:
  "convert_command base \<lparr>am_type = At_alter_column_type, am_behavior = b, am_name = name,
       am_def = Some (Def_column (c\<lparr>co_using := u\<rparr>))\<rparr>
     = convert_command base \<lparr>am_type = At_alter_column_type, am_behavior = b, am_name = name,
         am_def = Some (Def_column c)\<rparr>
   \<and> type_of (Some (t\<lparr>tn_array_bounds := k\<rparr>)) = type_of (Some t)"
  by (simp add: convert_command_def type_of_def)

text \<open>Of a list of objects the first is named: a down migration that drops two tables in one statement is
  reported as leaving the second in place.\<close>

theorem later_drops_are_not_seen:
  "drop_target_name (x # xs) = drop_target_name [x]
   \<and> first_relname (x # xs) = first_relname [x]
   \<and> snd (check_symmetry
       [convert_one (Create_stmt (Some \<lparr>rv_schema = [], rv_name = ''a''\<rparr>) []) (base_statement [] 1),
        convert_one (Create_stmt (Some \<lparr>rv_schema = [], rv_name = ''b''\<rparr>) []) (base_statement [] 1)]
       [convert_one (Drop_stmt Object_table Drop_restrict False [Expr_list [Expr_string ''a''], Expr_list [Expr_string ''b'']])
          (base_statement [] 1)])
     = [''up creates TABLE b but down never drops it'']"
proof -
  have "drop_target_name (x # xs) = drop_target_name [x] \<and> first_relname (x # xs) = first_relname [x]"
    by (simp add: drop_target_name_def first_relname_def)
  moreover have "snd (check_symmetry
       [convert_one (Create_stmt (Some \<lparr>rv_schema = [], rv_name = ''a''\<rparr>) []) (base_statement [] 1),
        convert_one (Create_stmt (Some \<lparr>rv_schema = [], rv_name = ''b''\<rparr>) []) (base_statement [] 1)]
       [convert_one (Drop_stmt Object_table Drop_restrict False [Expr_list [Expr_string ''a''], Expr_list [Expr_string ''b'']])
          (base_statement [] 1)])
     = [''up creates TABLE b but down never drops it'']"
    by code_simp
  ultimately show ?thesis by blast
qed

end
