(* ===== verification/Kubernetes_Object.thy ===== *)
theory Kubernetes_Object
  imports Domain Go_Json
begin

text \<open>
  Kubernetes objects, quantities and image references: \<open>object.go\<close>, \<open>quantity.go\<close> and \<open>image.go\<close> of
  \<open>internal/analyzer/kubernetes\<close>. The two YAML libraries are parameters, collected in a record: what the
  stream decoder of \<open>gopkg.in/yaml.v3\<close> returns, call by call, until the end of the stream, what its
  encoder makes of a node, and what \<open>sigs.k8s.io/yaml\<close> decodes from the encoded node, where \<open>None\<close> is
  the nil map. The conversion of hexadecimal floating-point literals is a field of the record too;
  decimal ones are converted here.
\<close>

subsection \<open>The YAML libraries\<close>

record yaml_node =
  nd_kind :: int
  nd_tags :: "string list"
  nd_text :: string

record yaml_library =
  ym_stream :: "string \<Rightarrow> (string + yaml_node) list"
  ym_marshal :: "yaml_node \<Rightarrow> string + string"
  ym_unmarshal :: "string \<Rightarrow> string + attributes option"
  ym_hex_float :: "string \<Rightarrow> string + float64"

subsection \<open>Objects\<close>

record k8s_object =
  ko_file :: string
  ko_api_version :: string
  ko_kind :: string
  ko_namespace :: string
  ko_name :: string
  ko_doc :: attributes

record object_key =
  ky_api_version :: string
  ky_kind :: string
  ky_namespace :: string
  ky_name :: string

definition key_text :: "object_key \<Rightarrow> string" where
  "key_text k =
     ky_api_version k @ '' '' @ ky_kind k @ '' ''
     @ (if ky_namespace k = [] then ''-'' else ky_namespace k) @ ''/'' @ ky_name k"

definition key_of :: "k8s_object \<Rightarrow> object_key" where
  "key_of x =
     \<lparr>ky_api_version = ko_api_version x, ky_kind = ko_kind x, ky_namespace = ko_namespace x, ky_name = ko_name x\<rparr>"

definition describe :: "k8s_object \<Rightarrow> string" where
  "describe x =
     (if ko_namespace x = [] then ko_kind x @ '' '' @ ko_name x
      else ko_kind x @ '' '' @ ko_namespace x @ ''/'' @ ko_name x)"

text \<open>Walking a document; a missing step and an explicit null are both \<open>nil\<close>.\<close>

fun value_from :: "json \<Rightarrow> string list \<Rightarrow> json" where
  "value_from cur [] = cur"
| "value_from cur (key # path) =
     (case as_object cur of
        None \<Rightarrow> JNull
      | Some m \<Rightarrow> (case attr m key of None \<Rightarrow> JNull | Some v \<Rightarrow> value_from v path))"

definition value_at :: "attributes \<Rightarrow> string list \<Rightarrow> json" where
  "value_at m path = value_from (JObj m) path"

definition map_at :: "attributes \<Rightarrow> string list \<Rightarrow> attributes" where
  "map_at m path = (case as_object (value_at m path) of None \<Rightarrow> [] | Some v \<Rightarrow> v)"

definition slice_at :: "attributes \<Rightarrow> string list \<Rightarrow> json list" where
  "slice_at m path = as_list (value_at m path)"

definition string_at :: "attributes \<Rightarrow> string list \<Rightarrow> string" where
  "string_at m path = as_string (value_at m path)"

definition equal_at :: "attributes \<Rightarrow> attributes \<Rightarrow> string list \<Rightarrow> bool" where
  "equal_at a b path \<longleftrightarrow> value_at a path = value_at b path"

definition is_empty_document :: "yaml_node \<Rightarrow> bool" where
  "is_empty_document node \<longleftrightarrow>
     (if nd_kind node = 0 \<or> nd_tags node = [] then True else hd (nd_tags node) = ''!!null'')"

definition object_of :: "string \<Rightarrow> attributes \<Rightarrow> k8s_object" where
  "object_of file doc =
     \<lparr>ko_file = file, ko_api_version = string_at doc [''apiVersion''], ko_kind = string_at doc [''kind''],
      ko_namespace = string_at doc [''metadata'', ''namespace''], ko_name = string_at doc [''metadata'', ''name''],
      ko_doc = doc\<rparr>"

text \<open>The loop over the stream, with the number of the document and the objects found so far.\<close>

fun parse_documents :: "yaml_library \<Rightarrow> string \<Rightarrow> nat \<Rightarrow> k8s_object list \<Rightarrow> (string + yaml_node) list
    \<Rightarrow> string + k8s_object list" where
  "parse_documents lib file i out [] = Inr out"
| "parse_documents lib file i out (Inl err # ds) = Inl (''document '' @ utoa i @ '': '' @ err)"
| "parse_documents lib file i out (Inr node # ds) =
     (if is_empty_document node then parse_documents lib file (Suc i) out ds
      else
        (case ym_marshal lib node of
           Inl err \<Rightarrow> Inl (''document '' @ utoa i @ '': re-encoding: '' @ err)
         | Inr raw \<Rightarrow>
             (case ym_unmarshal lib raw of
                Inl err \<Rightarrow> Inl (''document '' @ utoa i @ '': '' @ err)
              | Inr None \<Rightarrow> parse_documents lib file (Suc i) out ds
              | Inr (Some doc) \<Rightarrow>
                  (if ko_kind (object_of file doc) = [] then Inl (''document '' @ utoa i @ '' has no kind'')
                   else parse_documents lib file (Suc i) (out @ [object_of file doc]) ds))))"

definition parse_manifest :: "yaml_library \<Rightarrow> string \<Rightarrow> string \<Rightarrow> string + k8s_object list" where
  "parse_manifest lib file content = parse_documents lib file 1 [] (ym_stream lib content)"

definition recognized_kinds :: "string list" where
  "recognized_kinds =
     [''Deployment'', ''StatefulSet'', ''DaemonSet'', ''Service'', ''PersistentVolumeClaim'', ''StorageClass'',
      ''ConfigMap'', ''Secret'', ''Namespace'', ''CustomResourceDefinition'']"

definition workload_kinds :: "string list" where
  "workload_kinds = [''Deployment'', ''StatefulSet'', ''DaemonSet'']"

definition is_workload :: "k8s_object \<Rightarrow> bool" where
  "is_workload x \<longleftrightarrow> ko_kind x \<in> set workload_kinds"

definition is_recognized :: "k8s_object \<Rightarrow> bool" where
  "is_recognized x \<longleftrightarrow> ko_kind x \<in> set recognized_kinds"

definition pod_spec :: "k8s_object \<Rightarrow> attributes" where
  "pod_spec x = map_at (ko_doc x) [''spec'', ''template'', ''spec'']"

definition containers :: "k8s_object \<Rightarrow> attributes list" where
  "containers x =
     concat (map (\<lambda>field. List.map_filter as_object (slice_at (pod_spec x) [field]))
       [''initContainers'', ''containers''])"

subsection \<open>Quantities\<close>

text \<open>\<open>strconv.ParseFloat\<close> on a decimal literal: an optional sign, digits with an optional point, an
  optional exponent. The result is the fraction rounded to nearest; what rounds beyond the largest finite
  \<open>float64\<close> is an error. A literal that starts with a hexadecimal prefix is left to the library.\<close>

definition is_digit :: "char \<Rightarrow> bool" where
  "is_digit c \<longleftrightarrow> 48 \<le> (of_char c :: nat) \<and> (of_char c :: nat) \<le> 57"

definition digits_value :: "string \<Rightarrow> int" where
  "digits_value s = foldl (\<lambda>n c. 10 * n + int (of_char c - 48)) 0 s"

definition cut_sign :: "string \<Rightarrow> bool \<times> string" where
  "cut_sign s =
     (case s of
        [] \<Rightarrow> (False, [])
      | c # r \<Rightarrow> if c = CHR ''-'' then (True, r) else if c = CHR ''+'' then (False, r) else (False, s))"

definition cut_exponent :: "string \<Rightarrow> int option" where
  "cut_exponent s =
     (case s of
        [] \<Rightarrow> Some 0
      | c # r \<Rightarrow>
          (if c \<in> {CHR ''e'', CHR ''E''} then
             (case cut_sign r of (neg, ds) \<Rightarrow>
                if ds \<noteq> [] \<and> list_all is_digit ds
                then Some (if neg then - digits_value ds else digits_value ds) else None)
           else None))"

definition decimal :: "string \<Rightarrow> (int \<times> int) option" where
  "decimal s =
     (let whole = takeWhile is_digit s; r = dropWhile is_digit s;
          frac = (case r of [] \<Rightarrow> [] | c # r' \<Rightarrow> if c = CHR ''.'' then takeWhile is_digit r' else []);
          tail = (case r of [] \<Rightarrow> [] | c # r' \<Rightarrow> if c = CHR ''.'' then dropWhile is_digit r' else r)
      in if whole @ frac = [] then None
         else (case cut_exponent tail of
                 None \<Rightarrow> None
               | Some e \<Rightarrow> Some (digits_value (whole @ frac), e - int (length frac))))"

definition fl_power10 :: "int \<Rightarrow> int \<Rightarrow> float64" where
  "fl_power10 n e = (if 0 \<le> e then fl_round (n * 10 ^ nat e) 1 else fl_round n (10 ^ nat (- e)))"

definition fl_huge :: float64 where "fl_huge = Fl 1 1024"

definition parse_float :: "yaml_library \<Rightarrow> string \<Rightarrow> string + float64" where
  "parse_float lib s =
     (case cut_sign s of (neg, r) \<Rightarrow>
        if has_prefix (to_lower r) ''0x'' then ym_hex_float lib s
        else
          (case decimal r of
             None \<Rightarrow> Inl (''strconv.ParseFloat: parsing '' @ go_quote s @ '': invalid syntax'')
           | Some (n, e) \<Rightarrow>
               (let x = fl_power10 n e in
                if \<not> fl_less x fl_huge then
                  Inl (''strconv.ParseFloat: parsing '' @ go_quote s @ '': value out of range'')
                else Inr (if neg then fl_mult (fl_of_int (- 1)) x else x))))"

definition quantity_suffixes :: "(string \<times> float64) list" where
  "quantity_suffixes =
     [([], fl_of_int 1), (''m'', fl_round 1 1000),
      (''k'', fl_of_int (10 ^ 3)), (''M'', fl_of_int (10 ^ 6)), (''G'', fl_of_int (10 ^ 9)),
      (''T'', fl_of_int (10 ^ 12)), (''P'', fl_of_int (10 ^ 15)), (''E'', fl_of_int (10 ^ 18)),
      (''Ki'', fl_of_int (2 ^ 10)), (''Mi'', fl_of_int (2 ^ 20)), (''Gi'', fl_of_int (2 ^ 30)),
      (''Ti'', fl_of_int (2 ^ 40)), (''Pi'', fl_of_int (2 ^ 50)), (''Ei'', fl_of_int (2 ^ 60))]"

definition is_letter :: "char \<Rightarrow> bool" where
  "is_letter c \<longleftrightarrow>
     97 \<le> (of_char c :: nat) \<and> (of_char c :: nat) \<le> 122 \<or> 65 \<le> (of_char c :: nat) \<and> (of_char c :: nat) \<le> 90"

text \<open>A product beyond the largest finite value is the infinity of its sign.\<close>

definition fl_bounded :: "float64 \<Rightarrow> float64" where
  "fl_bounded x =
     (if \<not> fl_less x fl_huge then fl_huge
      else if \<not> fl_less (Fl (- 1) 1024) x then Fl (- 1) 1024 else x)"

definition parse_quantity :: "yaml_library \<Rightarrow> string \<Rightarrow> string + float64" where
  "parse_quantity lib s0 =
     (let s = trim_space s0 in
      if s = [] then Inl ''empty quantity''
      else
        (let suffix = rev (takeWhile is_letter (rev s)); number = rev (dropWhile is_letter (rev s)) in
         case map_of quantity_suffixes suffix of
           None \<Rightarrow> Inl (''unrecognised quantity suffix '' @ go_quote suffix @ '' in '' @ go_quote s)
         | Some multiplier \<Rightarrow>
             (case parse_float lib number of
                Inl err \<Rightarrow> Inl (''quantity '' @ go_quote s @ '': '' @ err)
              | Inr value \<Rightarrow> Inr (fl_bounded (fl_mult value multiplier)))))"

fun type_name :: "json \<Rightarrow> string" where
  "type_name JNull = ''<nil>''"
| "type_name (JBool b) = ''bool''"
| "type_name (JNum x) = ''float64''"
| "type_name (JStr s) = ''string''"
| "type_name (JList xs) = ''[]interface {}''"
| "type_name (JObj m) = ''map[string]interface {}''"

definition quantity_at :: "yaml_library \<Rightarrow> attributes \<Rightarrow> string list \<Rightarrow> string + float64 option" where
  "quantity_at lib m path =
     (case value_at m path of
        JNull \<Rightarrow> Inr None
      | JStr s \<Rightarrow> (case parse_quantity lib s of Inl err \<Rightarrow> Inl err | Inr q \<Rightarrow> Inr (Some q))
      | JNum x \<Rightarrow> Inr (Some x)
      | v \<Rightarrow> Inl (''quantity at '' @ join ''.'' path @ '' has unexpected type '' @ type_name v))"

subsection \<open>Images\<close>

text \<open>\<open>strings.Index\<close> and \<open>strings.LastIndex\<close>.\<close>

fun index_of :: "string \<Rightarrow> string \<Rightarrow> nat option" where
  "index_of [] p = (if p = [] then Some 0 else None)"
| "index_of (c # s) p =
     (if has_prefix (c # s) p then Some 0
      else (case index_of s p of None \<Rightarrow> None | Some i \<Rightarrow> Some (Suc i)))"

fun last_index_of :: "string \<Rightarrow> char \<Rightarrow> nat option" where
  "last_index_of [] c = None"
| "last_index_of (d # s) c =
     (case last_index_of s c of
        Some i \<Rightarrow> Some (Suc i) | None \<Rightarrow> if d = c then Some 0 else None)"

definition digest_separators :: "string list" where
  "digest_separators = [''@sha256:'', ''@sha512:'']"

definition is_pinned :: "string \<Rightarrow> bool" where
  "is_pinned img0 \<longleftrightarrow>
     (let img = trim_space img0 in
      if img = [] then False
      else list_ex (\<lambda>sep. case index_of img sep of
             None \<Rightarrow> False | Some i \<Rightarrow> 0 < i \<and> i + length sep < length img) digest_separators)"

definition cut_digest :: "string \<Rightarrow> string \<Rightarrow> string" where
  "cut_digest img sep =
     (case index_of img sep of None \<Rightarrow> img | Some i \<Rightarrow> if 0 < i then take i img else img)"

definition tag_of :: "string \<Rightarrow> string option" where
  "tag_of img0 =
     (let img = foldl cut_digest img0 digest_separators in
      case last_index_of img (CHR '':'') of
        None \<Rightarrow> None
      | Some colon \<Rightarrow>
          (if (case last_index_of img slash of None \<Rightarrow> False | Some i \<Rightarrow> colon < i) then None
           else (let tag = drop (Suc colon) img in if tag = [] then None else Some tag)))"

definition describe_reference :: "string \<Rightarrow> string" where
  "describe_reference img =
     (case tag_of img of
        Some tag \<Rightarrow> ''the mutable tag '' @ tag
      | None \<Rightarrow> ''no tag at all, which resolves to :latest at pull time'')"

text \<open>The same amount of storage in two spellings: rounding to 53 bits makes the second one smaller.\<close>

theorem respelled_quantity_is_smaller:
  "\<exists>a b. parse_quantity lib ''1005G'' = Inr a \<and> parse_quantity lib ''1.005T'' = Inr b \<and> fl_less b a"
proof (intro exI conjI)
  show "parse_quantity lib ''1005G'' = Inr (Fl 8232960000000000 (- 13))" by code_simp
  show "parse_quantity lib ''1.005T'' = Inr (Fl 8232959999999999 (- 13))" by code_simp
qed simp

end
