(* ===== verification/Kubernetes_Rules.thy ===== *)
theory Kubernetes_Rules
  imports Kubernetes_Object
begin

text \<open>
  The rules K8S001 to K8S015 of \<open>internal/analyzer/kubernetes/rules.go\<close>, one definition per rule and one
  for the loop over them. An index, the objects of one side of a changeset by key, is an association list
  with each key once. A \<open>range\<close> loop over a Go map visits it in an order the language leaves open: the
  function \<open>visit\<close> gives that order, and every definition whose result could depend on it takes it as an
  argument.
\<close>

subsection \<open>Changes and indices\<close>

type_synonym k8s_index = "(object_key \<times> k8s_object) list"

type_synonym visiting = "k8s_index \<Rightarrow> k8s_index"

record k8s_change =
  kc_key :: object_key
  kc_old :: "k8s_object option"
  kc_new :: "k8s_object option"
  kc_in_changeset :: bool

definition kc_added :: "k8s_change \<Rightarrow> bool" where
  "kc_added c \<longleftrightarrow> kc_old c = None \<and> kc_new c \<noteq> None"

definition kc_removed :: "k8s_change \<Rightarrow> bool" where
  "kc_removed c \<longleftrightarrow> kc_old c \<noteq> None \<and> kc_new c = None"

text \<open>A change has one side at least, see \<open>kubernetes_findings\<close>.\<close>

definition kc_object :: "k8s_change \<Rightarrow> k8s_object" where
  "kc_object c = (case kc_new c of Some x \<Rightarrow> x | None \<Rightarrow> the (kc_old c))"

definition namespaced :: "string \<Rightarrow> string \<Rightarrow> string" where
  "namespaced namespace name = (if namespace = [] then name else namespace @ ''/'' @ name)"

definition kc_finding :: "k8s_change \<Rightarrow> string \<Rightarrow> reversibility \<Rightarrow> string \<Rightarrow> string \<Rightarrow> finding" where
  "kc_finding c rule verdict rationale undo =
     \<lparr>f_rule_id = rule, f_file = ko_file (kc_object c), f_line = 0, f_statement = describe (kc_object c),
      f_reversibility = verdict, f_lock = LockNone, f_rationale = rationale, f_undo = undo,
      f_subject = \<lparr>s_relation = namespaced (ko_namespace (kc_object c)) (ko_name (kc_object c)),
                   s_object = ko_kind (kc_object c)\<rparr>,
      f_context = None\<rparr>"

text \<open>The two sides of a modification, for the rules that return early unless both exist.\<close>

definition both :: "k8s_change \<Rightarrow> (k8s_object \<Rightarrow> k8s_object \<Rightarrow> finding list) \<Rightarrow> finding list" where
  "both c f = (case (kc_old c, kc_new c) of (Some old, Some new) \<Rightarrow> f old new | _ \<Rightarrow> [])"

subsection \<open>Stateful sets, selectors and claims\<close>

definition rule_volume_claim_templates :: "k8s_change \<Rightarrow> finding list" where
  "rule_volume_claim_templates c = both c (\<lambda>old new.
     if ko_kind new \<noteq> ''StatefulSet'' then []
     else if equal_at (ko_doc old) (ko_doc new) [''spec'', ''volumeClaimTemplates''] then []
     else [kc_finding c ''K8S001'' Irreversible
       (''volumeClaimTemplates is immutable on a live StatefulSet, so applying this to '' @ describe new
        @ '' does not resize anything: it forces a recreate that orphans or destroys the existing volumes, and reverting the manifest does not bring them back.'')
       []])"

definition rule_selector :: "k8s_change \<Rightarrow> finding list" where
  "rule_selector c = both c (\<lambda>old new.
     if \<not> is_workload new then []
     else if equal_at (ko_doc old) (ko_doc new) [''spec'', ''selector''] then []
     else [kc_finding c ''K8S002'' Irreversible
       (''spec.selector is immutable, so this apply is either rejected outright or forces a recreate that orphans the existing ReplicaSet of ''
        @ describe new @ '', leaving no owner able to roll it back.'')
       []])"

definition class_reclaim_policy :: "visiting \<Rightarrow> k8s_index \<Rightarrow> string \<Rightarrow> string option" where
  "class_reclaim_policy visit ix class_name =
     (if class_name = [] then None
      else
        (case find (\<lambda>(k, x). ky_kind k = ''StorageClass'' \<and> ky_name k = class_name) (visit ix) of
           None \<Rightarrow> None
         | Some (k, x) \<Rightarrow>
             (let p = string_at (ko_doc x) [''reclaimPolicy''] in if p = [] then None else Some p)))"

definition rule_pvc_removed :: "visiting \<Rightarrow> k8s_index \<Rightarrow> k8s_change \<Rightarrow> finding list" where
  "rule_pvc_removed visit old_index c =
     (if \<not> kc_removed c then []
      else
        (let old = the (kc_old c) in
         if ko_kind old \<noteq> ''PersistentVolumeClaim'' then []
         else
           (let class_name = string_at (ko_doc old) [''spec'', ''storageClassName''];
                policy = class_reclaim_policy visit old_index class_name
            in if policy = Some ''Retain'' then []
               else [kc_finding c ''K8S003'' Irreversible
                 (''Removing '' @ describe old @ '' destroys the underlying volume because ''
                  @ (if policy = None
                     then ''its StorageClass could not be resolved from the changeset, and an unknown reclaim policy is treated as Delete''
                     else ''its StorageClass '' @ go_quote class_name @ '' reclaims volumes by deleting them'')
                  @ ''; re-applying the claim provisions an empty one.'')
                 []])))"

definition storage_request :: "string list" where
  "storage_request = [''spec'', ''resources'', ''requests'', ''storage'']"

definition rule_pvc_storage_decreased :: "yaml_library \<Rightarrow> k8s_change \<Rightarrow> finding list" where
  "rule_pvc_storage_decreased lib c = both c (\<lambda>old new.
     if ko_kind new \<noteq> ''PersistentVolumeClaim'' then []
     else
       (case (quantity_at lib (ko_doc old) storage_request, quantity_at lib (ko_doc new) storage_request) of
          (Inr old_q, Inr new_q) \<Rightarrow>
            (case (old_q, new_q) of
               (Some old_n, Some new_n) \<Rightarrow>
                 (if \<not> fl_less new_n old_n then []
                  else [kc_finding c ''K8S004'' Irreversible
                    (''The storage request on '' @ describe new
                     @ '' decreased, and Kubernetes cannot shrink a bound volume: the request is either rejected or satisfied by a replacement volume that does not carry the original data.'')
                    []])
             | _ \<Rightarrow> [])
        | _ \<Rightarrow> [kc_finding c ''K8S014'' Unknown
            (''The storage request on '' @ describe new @ '' could not be read, so whether it shrank is unknown.'')
            []]))"

definition rule_pvc_storage_class :: "k8s_change \<Rightarrow> finding list" where
  "rule_pvc_storage_class c = both c (\<lambda>old new.
     if ko_kind new \<noteq> ''PersistentVolumeClaim'' then []
     else if equal_at (ko_doc old) (ko_doc new) [''spec'', ''storageClassName''] then []
     else [kc_finding c ''K8S005'' Irreversible
       (''storageClassName is immutable on a bound claim, so changing it on '' @ describe new
        @ '' means a new volume, and the data on the old one does not follow.'')
       []])"

definition rule_namespace_or_crd_removed :: "k8s_change \<Rightarrow> finding list" where
  "rule_namespace_or_crd_removed c =
     (if \<not> kc_removed c then []
      else
        (let old = the (kc_old c) in
         if ko_kind old \<noteq> ''Namespace'' \<and> ko_kind old \<noteq> ''CustomResourceDefinition'' then []
         else [kc_finding c ''K8S006'' Irreversible
           (''Deleting '' @ describe old @ '' cascades to ''
            @ (if ko_kind old = ''CustomResourceDefinition'' then ''every custom resource of that kind''
               else ''every object inside it'')
            @ '', which is among the largest blast radii in Kubernetes and is not undone by re-applying the manifest.'')
           []]))"

subsection \<open>Services and images\<close>

definition rule_service_changed :: "k8s_change \<Rightarrow> finding list" where
  "rule_service_changed c = both c (\<lambda>old new.
     if ko_kind new \<noteq> ''Service'' then []
     else
       (let type_changed = \<not> equal_at (ko_doc old) (ko_doc new) [''spec'', ''type''];
            ip_changed = \<not> equal_at (ko_doc old) (ko_doc new) [''spec'', ''clusterIP'']
        in if \<not> type_changed \<and> \<not> ip_changed then []
           else [kc_finding c ''K8S007'' Costly
             (''Changing ''
              @ (if type_changed \<and> ip_changed then ''spec.type and spec.clusterIP''
                 else if ip_changed then ''spec.clusterIP'' else ''spec.type'')
              @ '' on '' @ describe new
              @ '' releases the address it was reachable at; reverting the manifest restores the spec but not the address, and anything pointing at the old one stays broken.'')
             (''kubectl apply -f '' @ ko_file (kc_object c)
              @ ''  # then repoint DNS at the newly allocated address'')]))"

definition container_field :: "attributes \<Rightarrow> string \<Rightarrow> json" where
  "container_field container field = value_at container [field]"

definition container_name :: "attributes \<Rightarrow> string" where
  "container_name container = as_string (container_field container ''name'')"

text \<open>The maps from names to containers that the rules build: the last container of a name stays.\<close>

definition container_names :: "k8s_object \<Rightarrow> string list" where
  "container_names x = sorted_keys (map container_name (containers x))"

definition by_name :: "k8s_object \<Rightarrow> string \<Rightarrow> attributes option" where
  "by_name x = map_of (rev (map (\<lambda>c. (container_name c, c)) (containers x)))"

definition rule_image_not_pinned :: "k8s_change \<Rightarrow> finding list" where
  "rule_image_not_pinned c =
     (case kc_new c of
        None \<Rightarrow> []
      | Some new \<Rightarrow>
          (if \<not> is_workload new then []
           else List.map_filter (\<lambda>container.
             (let img = as_string (container_field container ''image'') in
              if is_pinned img then None
              else Some (kc_finding c ''K8S008'' Costly
                (''Container '' @ go_quote (container_name container) @ '' in '' @ describe new @ '' runs image ''
                 @ go_quote img @ '', identified by '' @ describe_reference img
                 @ '' rather than a digest: static analysis cannot prove that reference still points at the same bytes, so re-applying the previous manifest may pull something other than what was running.'')
                (''kubectl set image '' @ ko_kind new @ ''/'' @ ko_name new @ '' '' @ container_name container
                 @ ''=<image@sha256:...>''))))
             (containers new)))"

definition container_images :: "k8s_object \<Rightarrow> string \<Rightarrow> string option" where
  "container_images x name = map_option (\<lambda>c. as_string (container_field c ''image'')) (by_name x name)"

definition rule_image_changed_pinned :: "k8s_change \<Rightarrow> finding list" where
  "rule_image_changed_pinned c = both c (\<lambda>old new.
     if \<not> is_workload new then []
     else List.map_filter (\<lambda>name.
       (case (container_images old name, container_images new name) of
          (Some previous, Some new_image) \<Rightarrow>
            (if previous = new_image \<or> \<not> is_pinned new_image then None
             else Some (kc_finding c ''K8S015'' Reversible
               (''Container '' @ go_quote name @ '' in '' @ describe new
                @ '' moves to a digest-pinned image, so the previous digest identifies the exact bytes to roll back to.'')
               (''kubectl set image '' @ ko_kind new @ ''/'' @ ko_name new @ '' '' @ name @ ''='' @ previous)))
        | _ \<Rightarrow> None))
       (container_names new))"

subsection \<open>Configuration\<close>

definition workload_references :: "k8s_object \<Rightarrow> string \<Rightarrow> string \<Rightarrow> bool" where
  "workload_references x kind name \<longleftrightarrow>
     (let secret = (kind = ''Secret'');
          env_from_key = (if secret then ''secretRef'' else ''configMapRef'');
          key_ref = (if secret then ''secretKeyRef'' else ''configMapKeyRef'');
          volume_key = (if secret then ''secret'' else ''configMap'');
          volume_name_field = (if secret then ''secretName'' else ''name'')
      in list_ex (\<lambda>container.
           list_ex (\<lambda>source. string_at source [env_from_key, ''name''] = name)
             (List.map_filter as_object (slice_at container [''envFrom'']))
           \<or> list_ex (\<lambda>entry. string_at entry [''valueFrom'', key_ref, ''name''] = name)
             (List.map_filter as_object (slice_at container [''env'']))) (containers x)
         \<or> list_ex (\<lambda>volume. string_at volume [volume_key, volume_name_field] = name)
             (List.map_filter as_object (slice_at (pod_spec x) [''volumes''])))"

definition sort_objects :: "k8s_object list \<Rightarrow> k8s_object list" where
  "sort_objects xs = sort_key (\<lambda>x. key_text (key_of x)) xs"

definition referencing_workloads :: "visiting \<Rightarrow> k8s_index \<Rightarrow> string \<Rightarrow> string \<Rightarrow> string \<Rightarrow> k8s_object list" where
  "referencing_workloads visit ix kind namespace name =
     sort_objects (map snd (filter (\<lambda>(k, x). is_workload x \<and> ky_namespace k = namespace
       \<and> workload_references x kind name) (visit ix)))"

definition join_descriptions :: "k8s_object list \<Rightarrow> string" where
  "join_descriptions xs = join '', '' (map describe xs)"

definition rule_config_removed :: "visiting \<Rightarrow> k8s_index \<Rightarrow> k8s_change \<Rightarrow> finding list" where
  "rule_config_removed visit new_index c =
     (if \<not> kc_removed c then []
      else
        (let old = the (kc_old c) in
         if ko_kind old \<noteq> ''ConfigMap'' \<and> ko_kind old \<noteq> ''Secret'' then []
         else
           (let referents = referencing_workloads visit new_index (ko_kind old) (ko_namespace old) (ko_name old)
            in if referents = [] then []
               else [kc_finding c ''K8S009'' Costly
                 (describe old @ '' is deleted while '' @ join_descriptions referents
                  @ '' still references it, so every pod that restarts afterwards fails to start; the object can be recreated, but a Secret''
                  @ [CHR 0x27] @ ''s contents are not recoverable from the manifest.'')
                 (''kubectl apply -f '' @ ko_file old)])))"

subsection \<open>Rollouts\<close>

definition rule_recreate_strategy :: "k8s_change \<Rightarrow> finding list" where
  "rule_recreate_strategy c = both c (\<lambda>old new.
     if ko_kind new \<noteq> ''Deployment'' then []
     else
       (let new_strategy = string_at (ko_doc new) [''spec'', ''strategy'', ''type''];
            old_strategy = string_at (ko_doc old) [''spec'', ''strategy'', ''type'']
        in if new_strategy \<noteq> ''Recreate'' \<or> old_strategy = ''Recreate'' then []
           else [kc_finding c ''K8S010'' Costly
             (''The Recreate strategy tears down every pod of '' @ describe new
              @ '' before starting replacements, so rolling back is a second full outage; the change is undoable but the downtime it causes is not.'')
             (let q = [CHR 0x22]; a = [CHR 0x27] in
              ''kubectl patch '' @ ko_kind new @ '' '' @ ko_name new @ '' -p '' @ a @ ''{'' @ q @ ''spec'' @ q @ '':{''
              @ q @ ''strategy'' @ q @ '':{'' @ q @ ''type'' @ q @ '':'' @ q @ or_else old_strategy ''RollingUpdate''
              @ q @ ''}}}'' @ a)]))"

definition has_probe :: "k8s_object \<Rightarrow> string \<Rightarrow> string \<Rightarrow> bool" where
  "has_probe x name probe \<longleftrightarrow>
     (case by_name x name of None \<Rightarrow> False | Some c \<Rightarrow> container_field c probe \<noteq> JNull)"

definition rule_probe_removed :: "k8s_change \<Rightarrow> finding list" where
  "rule_probe_removed c = both c (\<lambda>old new.
     if \<not> is_workload new then []
     else concat (map (\<lambda>name. List.map_filter (\<lambda>probe.
       (if \<not> has_probe old name probe \<or> has_probe new name probe then None
        else Some (kc_finding c ''K8S011'' Costly
          (''The '' @ probe @ '' on container '' @ go_quote name @ '' of '' @ describe new
           @ '' is removed, so traffic reaches pods that are not ready and a failing rollout no longer signals that it is failing; restoring the probe is easy, but the bad rollout it would have caught is not.'')
          (''kubectl apply -f '' @ ko_file (kc_object c) @ ''  # restore the '' @ probe @ '' on container '' @ name))))
       [''livenessProbe'', ''readinessProbe'']) (container_names old)))"

definition container_field_changed :: "k8s_object \<Rightarrow> k8s_object \<Rightarrow> string \<Rightarrow> bool" where
  "container_field_changed old new field \<longleftrightarrow>
     (if length (container_names old) \<noteq> length (container_names new) then True
      else list_ex (\<lambda>name.
        case (by_name old name, by_name new name) of
          (Some a, Some b) \<Rightarrow> container_field a field \<noteq> container_field b field
        | (Some a, None) \<Rightarrow> True
        | _ \<Rightarrow> False) (container_names old))"

definition tuning_fields :: "(string \<times> string list) list" where
  "tuning_fields =
     [(''replicas'', [''spec'', ''replicas'']), (''resources'', []), (''env'', []),
      (''labels'', [''spec'', ''template'', ''metadata'', ''labels''])]"

definition tuning_changed :: "k8s_object \<Rightarrow> k8s_object \<Rightarrow> string \<times> string list \<Rightarrow> bool" where
  "tuning_changed old new field =
     (if fst field = ''resources'' \<or> fst field = ''env'' then container_field_changed old new (fst field)
      else \<not> equal_at (ko_doc old) (ko_doc new) (snd field))"

definition rule_tuning_changed :: "k8s_change \<Rightarrow> finding list" where
  "rule_tuning_changed c = both c (\<lambda>old new.
     if \<not> is_workload new then []
     else map (\<lambda>field. kc_finding c ''K8S012'' Reversible
         (''The '' @ fst field @ '' of '' @ describe new
          @ '' changed; this is stateless and re-applying the previous manifest restores it exactly.'')
         (''kubectl apply -f '' @ ko_file (kc_object c) @ ''  # re-apply the previous manifest''))
       (filter (tuning_changed old new) tuning_fields))"

definition rule_new_workload :: "k8s_change \<Rightarrow> finding list" where
  "rule_new_workload c =
     (if \<not> kc_added c then []
      else
        (let new = the (kc_new c) in
         if \<not> is_workload new then []
         else [kc_finding c ''K8S013'' Reversible
           (describe new
            @ '' is new, so the change takes nothing away and the undo is a delete of an object nothing depended on yet.'')
           (''kubectl delete '' @ ko_kind new @ '' '' @ ko_name new)]))"

subsection \<open>One changed object\<close>

definition covered_findings :: "yaml_library \<Rightarrow> visiting \<Rightarrow> k8s_index \<Rightarrow> k8s_index \<Rightarrow> k8s_change \<Rightarrow> finding list" where
  "covered_findings lib visit old_index new_index c =
     rule_volume_claim_templates c @ rule_selector c @ rule_pvc_removed visit old_index c
     @ rule_pvc_storage_decreased lib c @ rule_pvc_storage_class c @ rule_namespace_or_crd_removed c
     @ rule_service_changed c @ rule_image_not_pinned c @ rule_config_removed visit new_index c
     @ rule_recreate_strategy c @ rule_probe_removed c @ rule_tuning_changed c @ rule_new_workload c
     @ rule_image_changed_pinned c"

definition classify_object :: "yaml_library \<Rightarrow> visiting \<Rightarrow> k8s_index \<Rightarrow> k8s_index \<Rightarrow> k8s_change \<Rightarrow> finding list" where
  "classify_object lib visit old_index new_index c =
     (if \<not> is_recognized (kc_object c) then
        [kc_finding c ''K8S014'' Unknown
          (''Kind '' @ go_quote (ko_kind (kc_object c))
           @ '' has no classification rule, and a resource the engine does not understand may own anything, so its reversibility cannot be vouched for.'')
          []]
      else
        (let findings = covered_findings lib visit old_index new_index c in
         if findings = [] then
           [kc_finding c ''K8S014'' Unknown
             (describe (kc_object c)
              @ '' changed in a way no classification rule covers, so whether the change can be rolled back is unknown.'')
             []]
         else findings))"

subsection \<open>Lemmas\<close>

text \<open>Every finding is about the object of its change, has a verdict of the enumeration and no hazard.\<close>

definition about :: "k8s_change \<Rightarrow> finding \<Rightarrow> bool" where
  "about c g \<longleftrightarrow> f_file g = ko_file (kc_object c) \<and> rev_valid (f_reversibility g) \<and> f_lock g = LockNone
     \<and> f_context g = None"

lemma about_finding [simp]: "about c (kc_finding c r v t u) \<longleftrightarrow> rev_valid v"
  by (simp add: about_def kc_finding_def)

lemma rev_kc_finding [simp]: "f_reversibility (kc_finding c r v t u) = v"
  by (simp add: kc_finding_def)

lemma both_Nil: "kc_old c = None \<or> kc_new c = None \<Longrightarrow> both c f = []"
  by (auto simp: both_def split: option.split)

lemma both_Some: "kc_old c = Some old \<Longrightarrow> kc_new c = Some new \<Longrightarrow> both c f = f old new"
  by (simp add: both_def)

lemma both_cases:
  "(\<And>old new. kc_old c = Some old \<Longrightarrow> kc_new c = Some new \<Longrightarrow> P (f old new)) \<Longrightarrow> P [] \<Longrightarrow> P (both c f)"
  by (auto simp: both_def split: option.split)

lemma list_all_map_filter: "(\<And>x y. g x = Some y \<Longrightarrow> P y) \<Longrightarrow> list_all P (List.map_filter g xs)"
  by (induction xs) (auto simp: map_filter_simps split: option.split)

lemma list_all_concat: "(\<And>x. list_all P (f x)) \<Longrightarrow> list_all P (concat (map f xs))"
  by (induction xs) simp_all

lemma about_rules:
  "list_all (about c) (rule_volume_claim_templates c)" "list_all (about c) (rule_selector c)"
  "list_all (about c) (rule_pvc_removed visit ix c)" "list_all (about c) (rule_pvc_storage_decreased lib c)"
  "list_all (about c) (rule_pvc_storage_class c)" "list_all (about c) (rule_namespace_or_crd_removed c)"
  "list_all (about c) (rule_service_changed c)" "list_all (about c) (rule_image_not_pinned c)"
  "list_all (about c) (rule_config_removed visit ix c)" "list_all (about c) (rule_recreate_strategy c)"
  "list_all (about c) (rule_probe_removed c)" "list_all (about c) (rule_tuning_changed c)"
  "list_all (about c) (rule_new_workload c)" "list_all (about c) (rule_image_changed_pinned c)"
  subgoal unfolding rule_volume_claim_templates_def by (rule both_cases) simp_all
  subgoal unfolding rule_selector_def by (rule both_cases) simp_all
  subgoal by (simp add: rule_pvc_removed_def Let_def)
  subgoal unfolding rule_pvc_storage_decreased_def by (rule both_cases) (simp_all split: sum.split option.split)
  subgoal unfolding rule_pvc_storage_class_def by (rule both_cases) simp_all
  subgoal by (simp add: rule_namespace_or_crd_removed_def Let_def)
  subgoal unfolding rule_service_changed_def by (rule both_cases) (simp_all add: Let_def)
  subgoal unfolding rule_image_not_pinned_def
    by (cases "kc_new c") (auto simp: Let_def intro!: list_all_map_filter split: if_splits)
  subgoal by (simp add: rule_config_removed_def Let_def)
  subgoal unfolding rule_recreate_strategy_def by (rule both_cases) (simp_all add: Let_def)
  subgoal unfolding rule_probe_removed_def
    by (rule both_cases) (auto intro!: list_all_concat list_all_map_filter split: if_splits)
  subgoal unfolding rule_tuning_changed_def by (rule both_cases) (simp_all add: list_all_iff)
  subgoal by (simp add: rule_new_workload_def Let_def)
  subgoal unfolding rule_image_changed_pinned_def
    by (rule both_cases) (auto intro!: list_all_map_filter split: if_splits option.splits)
  done

lemma about_classify: "list_all (about c) (classify_object lib visit old_index new_index c)"
  using about_rules
  by (simp add: classify_object_def covered_findings_def Let_def)

lemma classify_nonempty: "classify_object lib visit old_index new_index c \<noteq> []"
  by (simp add: classify_object_def Let_def)

subsection \<open>What is irreversible\<close>

definition irreversible :: "finding \<Rightarrow> bool" where
  "irreversible g \<longleftrightarrow> f_reversibility g = Irreversible"

text \<open>The fields of a kind that cannot be changed on a live object.\<close>

definition immutable_fields :: "string \<Rightarrow> string list list" where
  "immutable_fields kind =
     (if kind = ''StatefulSet'' then [[''spec'', ''volumeClaimTemplates'']] else [])
     @ (if kind \<in> set workload_kinds then [[''spec'', ''selector'']] else [])
     @ (if kind = ''PersistentVolumeClaim'' then [[''spec'', ''storageClassName'']] else [])"

definition shrinks :: "yaml_library \<Rightarrow> k8s_object \<Rightarrow> k8s_object \<Rightarrow> bool" where
  "shrinks lib old new \<longleftrightarrow>
     ko_kind new = ''PersistentVolumeClaim''
     \<and> (case (quantity_at lib (ko_doc old) storage_request, quantity_at lib (ko_doc new) storage_request) of
          (Inr (Some a), Inr (Some b)) \<Rightarrow> fl_less b a | _ \<Rightarrow> False)"

definition gone_for_good :: "visiting \<Rightarrow> k8s_index \<Rightarrow> k8s_object \<Rightarrow> bool" where
  "gone_for_good visit ix old \<longleftrightarrow>
     (if ko_kind old = ''PersistentVolumeClaim''
      then class_reclaim_policy visit ix (string_at (ko_doc old) [''spec'', ''storageClassName'']) \<noteq> Some ''Retain''
      else ko_kind old \<in> {''Namespace'', ''CustomResourceDefinition''})"

definition destructive :: "yaml_library \<Rightarrow> visiting \<Rightarrow> k8s_index \<Rightarrow> k8s_change \<Rightarrow> bool" where
  "destructive lib visit ix c \<longleftrightarrow>
     (case (kc_old c, kc_new c) of
        (Some old, Some new) \<Rightarrow>
          list_ex (\<lambda>p. \<not> equal_at (ko_doc old) (ko_doc new) p) (immutable_fields (ko_kind new))
          \<or> shrinks lib old new
      | (Some old, None) \<Rightarrow> gone_for_good visit ix old
      | _ \<Rightarrow> False)"

lemma list_ex_map_filter_False: "(\<And>x y. g x = Some y \<Longrightarrow> \<not> P y) \<Longrightarrow> \<not> list_ex P (List.map_filter g xs)"
  by (induction xs) (auto simp: map_filter_simps split: option.split)

lemma list_ex_concat_False: "(\<And>x. \<not> list_ex P (f x)) \<Longrightarrow> \<not> list_ex P (concat (map f xs))"
  by (induction xs) simp_all

lemma irreversible_finding [simp]: "irreversible (kc_finding c r v t u) \<longleftrightarrow> v = Irreversible"
  by (simp add: irreversible_def)

lemma never_irreversible:
  "\<not> list_ex irreversible (rule_service_changed c)" "\<not> list_ex irreversible (rule_image_not_pinned c)"
  "\<not> list_ex irreversible (rule_config_removed visit ix c)" "\<not> list_ex irreversible (rule_recreate_strategy c)"
  "\<not> list_ex irreversible (rule_probe_removed c)" "\<not> list_ex irreversible (rule_tuning_changed c)"
  "\<not> list_ex irreversible (rule_new_workload c)" "\<not> list_ex irreversible (rule_image_changed_pinned c)"
  subgoal unfolding rule_service_changed_def by (rule both_cases) (simp_all add: Let_def)
  subgoal unfolding rule_image_not_pinned_def
    by (cases "kc_new c") (auto simp: Let_def dest!: list_ex_map_filter_False [THEN notE, rotated] split: if_splits)
  subgoal by (simp add: rule_config_removed_def Let_def)
  subgoal unfolding rule_recreate_strategy_def by (rule both_cases) (simp_all add: Let_def)
  subgoal unfolding rule_probe_removed_def
    by (rule both_cases) (auto dest!: list_ex_concat_False [THEN notE, rotated] list_ex_map_filter_False [THEN notE, rotated] split: if_splits)
  subgoal unfolding rule_tuning_changed_def by (rule both_cases) (simp_all add: list_ex_iff)
  subgoal by (simp add: rule_new_workload_def Let_def)
  subgoal unfolding rule_image_changed_pinned_def
    by (rule both_cases) (auto dest!: list_ex_map_filter_False [THEN notE, rotated] split: if_splits option.splits)
  done

lemma irreversible_covered:
  "list_ex irreversible (covered_findings lib visit old_index new_index c) \<longleftrightarrow> destructive lib visit old_index c"
proof (cases "kc_old c")
  case None
  then show ?thesis
    by (simp add: covered_findings_def never_irreversible both_Nil destructive_def rule_volume_claim_templates_def
        rule_selector_def rule_pvc_removed_def rule_pvc_storage_decreased_def rule_pvc_storage_class_def
        rule_namespace_or_crd_removed_def kc_removed_def)
next
  case (Some old)
  show ?thesis
  proof (cases "kc_new c")
    case None
    with Some show ?thesis
      by (auto simp: covered_findings_def never_irreversible both_Nil destructive_def rule_volume_claim_templates_def
          rule_selector_def rule_pvc_removed_def rule_pvc_storage_decreased_def rule_pvc_storage_class_def
          rule_namespace_or_crd_removed_def kc_removed_def gone_for_good_def Let_def)
  next
    case new: (Some new)
    have storage: "list_ex irreversible (rule_pvc_storage_decreased lib c) \<longleftrightarrow> shrinks lib old new"
      by (auto simp: rule_pvc_storage_decreased_def both_Some [OF Some new] shrinks_def split: sum.split option.split)
    from Some new show ?thesis
      by (auto simp: covered_findings_def never_irreversible destructive_def storage rule_volume_claim_templates_def
          rule_selector_def rule_pvc_removed_def rule_pvc_storage_class_def both_Some [OF Some new]
          rule_namespace_or_crd_removed_def kc_removed_def immutable_fields_def is_workload_def)
  qed
qed

text \<open>When a changed object is reported as irreversible: exactly when its kind is known and a field that
  is immutable on a live object of the kind differs, or a claim asks for less storage than before, or it is
  a claim that is removed and whose class does not retain volumes, or a namespace or a custom resource
  definition that is removed.\<close>

theorem k8s_irreversible_exact:
  "list_ex (\<lambda>g. f_reversibility g = Irreversible) (classify_object lib visit old_index new_index c)
     \<longleftrightarrow> is_recognized (kc_object c) \<and> destructive lib visit old_index c"
proof -
  have "(\<lambda>g. f_reversibility g = Irreversible) = irreversible" by (simp add: irreversible_def fun_eq_iff)
  moreover have "list_ex irreversible (classify_object lib visit old_index new_index c)
      \<longleftrightarrow> is_recognized (kc_object c) \<and> list_ex irreversible (covered_findings lib visit old_index new_index c)"
    by (cases "covered_findings lib visit old_index new_index c = []")
      (simp_all add: classify_object_def Let_def irreversible_def)
  ultimately show ?thesis by (simp add: irreversible_covered)
qed

subsection \<open>What can be let through\<close>

definition pinned_container :: "attributes \<Rightarrow> bool" where
  "pinned_container container \<longleftrightarrow> is_pinned (as_string (container_field container ''image''))"

definition keeps_probes :: "k8s_object \<Rightarrow> k8s_object \<Rightarrow> bool" where
  "keeps_probes old new \<longleftrightarrow>
     list_all (\<lambda>name. list_all (\<lambda>probe. if has_probe old name probe then has_probe new name probe else True)
       [''livenessProbe'', ''readinessProbe'']) (container_names old)"

definition safe_rollout :: "k8s_object option \<Rightarrow> k8s_object option \<Rightarrow> bool" where
  "safe_rollout before after =
     (case after of
        None \<Rightarrow> False
      | Some new \<Rightarrow>
          is_workload new \<and> list_all pinned_container (containers new)
          \<and> (case before of
               None \<Rightarrow> True
             | Some old \<Rightarrow>
                 list_all (\<lambda>p. equal_at (ko_doc old) (ko_doc new) p) (immutable_fields (ko_kind new))
                 \<and> keeps_probes old new))"

definition reversible :: "finding \<Rightarrow> bool" where
  "reversible g \<longleftrightarrow> f_reversibility g = Reversible"

lemma reversible_finding [simp]: "reversible (kc_finding c r v t u) \<longleftrightarrow> v = Reversible"
  by (simp add: reversible_def)

lemma list_all_map_filter_iff:
  "list_all P (List.map_filter g xs) \<longleftrightarrow> (\<forall>x\<in>set xs. \<forall>y. g x = Some y \<longrightarrow> P y)"
  by (induction xs) (auto simp: map_filter_simps split: option.split)

lemma reversible_classify:
  assumes "list_all reversible (classify_object lib visit old_index new_index c)"
  shows "is_recognized (kc_object c)"
    and "list_all reversible (covered_findings lib visit old_index new_index c)"
    and "covered_findings lib visit old_index new_index c \<noteq> []"
  using assms by (simp_all add: classify_object_def Let_def split: if_splits)

text \<open>A removal is never reversible: the rules for removals say otherwise, and without one the change is
  unknown.\<close>

lemma removal_not_reversible:
  assumes "list_all reversible (classify_object lib visit old_index new_index c)" and "kc_old c = Some old"
  shows "kc_new c \<noteq> None"
proof
  assume new: "kc_new c = None"
  have "covered_findings lib visit old_index new_index c
      = rule_pvc_removed visit old_index c @ rule_namespace_or_crd_removed c @ rule_config_removed visit new_index c"
    by (simp add: covered_findings_def both_Nil new rule_volume_claim_templates_def rule_selector_def
        rule_pvc_storage_decreased_def rule_pvc_storage_class_def rule_service_changed_def rule_image_not_pinned_def
        rule_recreate_strategy_def rule_probe_removed_def rule_tuning_changed_def rule_new_workload_def kc_added_def
        rule_image_changed_pinned_def)
  with reversible_classify(2,3) [OF assms(1)] show False
    by (auto simp: rule_pvc_removed_def rule_namespace_or_crd_removed_def rule_config_removed_def Let_def
        split: if_splits)
qed

lemma other_kinds_not_reversible:
  assumes "list_all reversible (classify_object lib visit old_index new_index c)" and "kc_new c = Some new"
  shows "is_workload new"
proof (rule ccontr)
  assume no: "\<not> is_workload new"
  then have kind: "ko_kind new \<noteq> ''StatefulSet''" "ko_kind new \<noteq> ''Deployment''"
    by (auto simp: is_workload_def workload_kinds_def)
  have removed: "\<not> kc_removed c" using assms(2) by (simp add: kc_removed_def)
  have nil: "rule_volume_claim_templates c = []" "rule_selector c = []" "rule_recreate_strategy c = []"
    "rule_probe_removed c = []" "rule_tuning_changed c = []" "rule_image_changed_pinned c = []"
    unfolding rule_volume_claim_templates_def rule_selector_def rule_recreate_strategy_def rule_probe_removed_def
      rule_tuning_changed_def rule_image_changed_pinned_def
    by (rule both_cases; use assms(2) kind no in \<open>auto simp: Let_def\<close>)+
  have "covered_findings lib visit old_index new_index c
      = rule_pvc_storage_decreased lib c @ rule_pvc_storage_class c @ rule_service_changed c"
    using nil by (simp add: covered_findings_def rule_pvc_removed_def rule_namespace_or_crd_removed_def
        rule_config_removed_def rule_image_not_pinned_def rule_new_workload_def assms(2) no removed Let_def)
  moreover have "list_all (\<lambda>g. \<not> reversible g) (rule_pvc_storage_decreased lib c)"
    "list_all (\<lambda>g. \<not> reversible g) (rule_pvc_storage_class c)"
    "list_all (\<lambda>g. \<not> reversible g) (rule_service_changed c)"
    subgoal unfolding rule_pvc_storage_decreased_def by (rule both_cases) (simp_all split: sum.split option.split)
    subgoal unfolding rule_pvc_storage_class_def by (rule both_cases) simp_all
    subgoal unfolding rule_service_changed_def by (rule both_cases) (simp_all add: Let_def)
    done
  ultimately show False
    using reversible_classify(2,3) [OF assms(1)] by (auto simp: list_all_iff neq_Nil_conv)
qed

lemma reversible_object:
  assumes "list_all reversible (classify_object lib visit old_index new_index c)"
    and "\<not> (kc_old c = None \<and> kc_new c = None)"
  shows "safe_rollout (kc_old c) (kc_new c)"
proof -
  from assms removal_not_reversible obtain new where new: "kc_new c = Some new" by fastforce
  note work = other_kinds_not_reversible [OF assms(1) new]
  note all = reversible_classify(2) [OF assms(1)]
  from all have images: "list_all reversible (rule_image_not_pinned c)"
    and probes: "list_all reversible (rule_probe_removed c)" by (simp_all add: covered_findings_def)
  from images new work have "\<forall>x\<in>set (containers new). is_pinned (as_string (container_field x ''image''))"
    by (simp add: rule_image_not_pinned_def list_all_map_filter_iff Let_def split: if_splits)
  then have pinned: "list_all pinned_container (containers new)"
    by (simp add: list_all_iff pinned_container_def)
  have kept: "list_all (\<lambda>p. equal_at (ko_doc old) (ko_doc new) p) (immutable_fields (ko_kind new)) \<and> keeps_probes old new"
    if old: "kc_old c = Some old" for old
  proof
    have "\<not> list_ex irreversible (covered_findings lib visit old_index new_index c)"
      using all by (auto simp: list_all_iff list_ex_iff reversible_def irreversible_def)
    then show "list_all (\<lambda>p. equal_at (ko_doc old) (ko_doc new) p) (immutable_fields (ko_kind new))"
      unfolding irreversible_covered by (auto simp: destructive_def old new list_all_iff list_ex_iff)
    have "has_probe new name probe"
      if "name \<in> set (container_names old)" "probe \<in> {''livenessProbe'', ''readinessProbe''}" "has_probe old name probe"
      for name probe
    proof (rule ccontr)
      assume "\<not> has_probe new name probe"
      with that probes work show False
        by (auto simp: rule_probe_removed_def both_Some [OF old new] list_all_iff map_filter_simps split: if_splits)
    qed
    then show "keeps_probes old new" by (simp add: keeps_probes_def list_all_iff)
  qed
  with new work pinned show ?thesis by (simp add: safe_rollout_def split: option.split)
qed

end
