(* ===== verification/Kubernetes_Analyzer.thy ===== *)
theory Kubernetes_Analyzer
  imports Kubernetes_Rules Analyzer_Contract Guarantees "HOL-Library.AList"
begin

text \<open>
  The Kubernetes analyzer, \<open>internal/analyzer/kubernetes/kubernetes.go\<close>: the pass over the manifests in
  path order that builds the index of either side and the set of changed objects, and the rules applied to
  each changed object. The order in which loops over Go maps visit their entries is a parameter, for the
  indices and for the set of changed keys.
\<close>

subsection \<open>The pass over the files\<close>

record map_order =
  mo_index :: visiting
  mo_keys :: "object_key list \<Rightarrow> object_key list"

record k8s_state =
  ks_old :: k8s_index
  ks_new :: k8s_index
  ks_changed :: "object_key list"
  ks_findings :: "finding list"

definition k8s_init :: k8s_state where
  "k8s_init = \<lparr>ks_old = [], ks_new = [], ks_changed = [], ks_findings = []\<rparr>"

definition k8s_supports :: "located \<Rightarrow> bool" where
  "k8s_supports at \<longleftrightarrow> loc_ext at = ''.yaml'' \<or> loc_ext at = ''.yml''"

definition is_context :: "changed_file \<Rightarrow> bool" where
  "is_context f \<longleftrightarrow> p_status f = StatusModified \<and> p_previous f = p_current f"

definition index_objects :: "k8s_object list \<Rightarrow> k8s_index \<Rightarrow> k8s_index" where
  "index_objects xs ix = foldl (\<lambda>ix x. AList.update (key_of x) x ix) ix xs"

definition unread_manifest :: "changed_file \<Rightarrow> string \<Rightarrow> finding" where
  "unread_manifest f rationale =
     \<lparr>f_rule_id = ''K8S014'', f_file = p_path f, f_line = 0, f_statement = p_path f,
      f_reversibility = Unknown, f_lock = LockNone, f_rationale = rationale, f_undo = [],
      f_subject = no_subject, f_context = None\<rparr>"

definition previous_objects :: "yaml_library \<Rightarrow> changed_file \<Rightarrow> k8s_object list" where
  "previous_objects lib f =
     (if p_previous f = [] then []
      else (case parse_manifest lib (p_path f) (p_previous f) of Inl err \<Rightarrow> [] | Inr xs \<Rightarrow> xs))"

definition current_objects :: "yaml_library \<Rightarrow> changed_file \<Rightarrow> string + k8s_object list" where
  "current_objects lib f =
     (if p_current f = [] then Inr [] else parse_manifest lib (p_path f) (p_current f))"

definition removed_objects :: "yaml_library \<Rightarrow> changed_file \<Rightarrow> string + k8s_object list" where
  "removed_objects lib f = (if is_removed f then parse_manifest lib (p_path f) (p_previous f) else Inr [])"

definition k8s_step :: "yaml_library \<Rightarrow> k8s_state \<Rightarrow> changed_file \<Rightarrow> k8s_state" where
  "k8s_step lib st f =
     (if \<not> k8s_supports (location_of f) then st
      else
        (let st = st\<lparr>ks_old := index_objects (previous_objects lib f) (ks_old st)\<rparr> in
         case current_objects lib f of
           Inl err \<Rightarrow>
             st\<lparr>ks_findings := ks_findings st @ [unread_manifest f
               (''This manifest could not be parsed, so nothing in it can be classified: '' @ err @ ''.'')]\<rparr>
         | Inr xs \<Rightarrow>
             (let st = st\<lparr>ks_new := index_objects xs (ks_new st),
                         ks_changed := ks_changed st @ (if is_context f then [] else map key_of xs)\<rparr> in
              case removed_objects lib f of
                Inl err \<Rightarrow>
                  st\<lparr>ks_findings := ks_findings st @ [unread_manifest f
                    (''This manifest is being deleted but could not be parsed, so what the deletion destroys is unknown: ''
                     @ err @ ''.'')]\<rparr>
              | Inr ys \<Rightarrow> st\<lparr>ks_changed := ks_changed st @ map key_of ys\<rparr>)))"

definition k8s_pass :: "yaml_library \<Rightarrow> changed_file list \<Rightarrow> k8s_state" where
  "k8s_pass lib files = foldl (k8s_step lib) k8s_init (sort_key p_path files)"

subsection \<open>The changed objects\<close>

definition changed_keys :: "k8s_state \<Rightarrow> object_key list" where
  "changed_keys st =
     remdups (ks_changed st @ filter (\<lambda>k. map_of (ks_new st) k = None) (map fst (ks_old st)))"

definition change_of :: "k8s_state \<Rightarrow> object_key \<Rightarrow> k8s_change" where
  "change_of st k =
     \<lparr>kc_key = k, kc_old = map_of (ks_old st) k, kc_new = map_of (ks_new st) k, kc_in_changeset = True\<rparr>"

definition sorted_object_keys :: "map_order \<Rightarrow> object_key list \<Rightarrow> object_key list" where
  "sorted_object_keys ord ks = sort_key key_text (mo_keys ord ks)"

definition key_findings :: "yaml_library \<Rightarrow> map_order \<Rightarrow> k8s_state \<Rightarrow> object_key \<Rightarrow> finding list" where
  "key_findings lib ord st k =
     (let c = change_of st k in
      if kc_old c = None \<and> kc_new c = None then []
      else classify_object lib (mo_index ord) (ks_old st) (ks_new st) c)"

definition kubernetes_findings :: "yaml_library \<Rightarrow> map_order \<Rightarrow> changed_file list \<Rightarrow> finding list" where
  "kubernetes_findings lib ord files =
     (let st = k8s_pass lib files in
      sort_findings (ks_findings st
        @ concat (map (key_findings lib ord st) (sorted_object_keys ord (changed_keys st)))))"

definition kubernetes_analyze :: "yaml_library \<Rightarrow> map_order \<Rightarrow> (nat \<Rightarrow> string option) \<Rightarrow> changed_file list
    \<Rightarrow> finding list run" where
  "kubernetes_analyze lib ord ctx files =
     (case first_cancel ctx (Suc (length files)) of
        Some e \<Rightarrow> Failed (''kubernetes analyzer: '' @ e)
      | None \<Rightarrow> Done (kubernetes_findings lib ord files))"

definition kubernetes_analyzer :: "yaml_library \<Rightarrow> map_order \<Rightarrow> (nat \<Rightarrow> string option) \<Rightarrow> analyzer" where
  "kubernetes_analyzer lib ord ctx =
     \<lparr>a_name = ''kubernetes'', a_supports = k8s_supports, a_analyze = kubernetes_analyze lib ord ctx,
      a_validate = None, a_catalog = None\<rparr>"

text \<open>What the language promises of a loop over a map: every entry once.\<close>

definition visits_all :: "map_order \<Rightarrow> bool" where
  "visits_all ord \<longleftrightarrow> (\<forall>ix. mset (mo_index ord ix) = mset ix) \<and> (\<forall>ks. mset (mo_keys ord ks) = mset ks)"

subsection \<open>The indices\<close>

text \<open>An index of a pass holds every object under its own key, each key once, and every object comes from
  a claimed file of the changeset.\<close>

definition index_ok :: "changed_file list \<Rightarrow> k8s_index \<Rightarrow> bool" where
  "index_ok files ix \<longleftrightarrow> distinct (map fst ix)
     \<and> (\<forall>(k, x)\<in>set ix. key_of x = k
          \<and> (\<exists>f\<in>set files. p_path f = ko_file x \<and> k8s_supports (location_of f)))"

lemma index_ok_Nil [simp]: "index_ok files []"
  by (simp add: index_ok_def)

lemma index_ok_update:
  assumes "index_ok files ix" and "f \<in> set files" and "p_path f = ko_file x" and "k8s_supports (location_of f)"
  shows "index_ok files (AList.update (key_of x) x ix)"
proof -
  have sub: "set (AList.update k v al) \<subseteq> insert (k, v) (set al)" for k v and al :: k8s_index
    by (induction al) auto
  show ?thesis
    unfolding index_ok_def
  proof (intro conjI)
    show "distinct (map fst (AList.update (key_of x) x ix))"
      using assms(1) by (simp add: index_ok_def distinct_update)
    show "\<forall>(k, y)\<in>set (AList.update (key_of x) x ix). key_of y = k
      \<and> (\<exists>f\<in>set files. p_path f = ko_file y \<and> k8s_supports (location_of f))"
      using assms sub [of "key_of x" x ix] unfolding index_ok_def by fast
  qed
qed

lemma index_ok_objects:
  assumes "index_ok files ix" and "f \<in> set files" and "k8s_supports (location_of f)"
    and "\<forall>x\<in>set xs. ko_file x = p_path f"
  shows "index_ok files (index_objects xs ix)"
  using assms(1,4) unfolding index_objects_def
  by (induction xs arbitrary: ix) (simp_all add: index_ok_update [OF _ assms(2) _ assms(3)])

lemma map_of_index_objects:
  "map_of (index_objects xs ix) = map_of ix ++ map_of (rev (map (\<lambda>x. (key_of x, x)) xs))"
  unfolding index_objects_def
  by (induction xs rule: rev_induct) (simp_all add: update_conv' fun_eq_iff map_add_def)

lemma parse_documents_file:
  "parse_documents lib file i out ds = Inr xs \<Longrightarrow> \<forall>x\<in>set out. ko_file x = file \<Longrightarrow> \<forall>x\<in>set xs. ko_file x = file"
proof (induction ds arbitrary: i out)
  case Nil
  then show ?case by simp
next
  case (Cons d ds)
  then obtain node where node: "d = Inr node" by (cases d) auto
  have more: "\<forall>x\<in>set (out @ [object_of file doc]). ko_file x = file" for doc
    using Cons.prems(2) by (simp add: object_of_def)
  from Cons.prems(1) node
  have "parse_documents lib file (Suc i) out ds = Inr xs
    \<or> (\<exists>doc. parse_documents lib file (Suc i) (out @ [object_of file doc]) ds = Inr xs)"
    by (auto split: if_splits sum.splits option.splits)
  then show ?case using Cons.IH [OF _ Cons.prems(2)] Cons.IH [OF _ more] by blast
qed

lemma parse_manifest_file: "parse_manifest lib file content = Inr xs \<Longrightarrow> x \<in> set xs \<Longrightarrow> ko_file x = file"
  unfolding parse_manifest_def using parse_documents_file by force

lemma previous_objects_file: "x \<in> set (previous_objects lib f) \<Longrightarrow> ko_file x = p_path f"
  using parse_manifest_file [of lib "p_path f" "p_previous f"]
  by (cases "parse_manifest lib (p_path f) (p_previous f)") (auto simp: previous_objects_def split: if_splits)

lemma current_objects_file: "current_objects lib f = Inr xs \<Longrightarrow> x \<in> set xs \<Longrightarrow> ko_file x = p_path f"
  using parse_manifest_file [of lib "p_path f" "p_current f"]
  by (auto simp: current_objects_def split: if_splits)

text \<open>The invariant of the pass: both indices are well formed, and what was reported so far are unreadable
  manifests of claimed files.\<close>

definition state_ok :: "changed_file list \<Rightarrow> k8s_state \<Rightarrow> bool" where
  "state_ok files st \<longleftrightarrow> index_ok files (ks_old st) \<and> index_ok files (ks_new st)
     \<and> (\<forall>g\<in>set (ks_findings st). \<exists>f\<in>set files. \<exists>r. k8s_supports (location_of f) \<and> g = unread_manifest f r)"

lemma state_ok_init [simp]: "state_ok files k8s_init"
  by (simp add: state_ok_def k8s_init_def)

lemma state_ok_step:
  assumes "state_ok files st" and "f \<in> set files"
  shows "state_ok files (k8s_step lib st f)"
proof (cases "k8s_supports (location_of f)")
  case False
  with assms(1) show ?thesis by (simp add: k8s_step_def)
next
  case True
  have old: "index_ok files (index_objects (previous_objects lib f) (ks_old st))"
    using assms True by (intro index_ok_objects) (auto simp: state_ok_def previous_objects_file)
  have new: "index_ok files (index_objects xs (ks_new st))" if "current_objects lib f = Inr xs" for xs
    using assms True that by (intro index_ok_objects) (auto simp: state_ok_def current_objects_file)
  have one: "state_ok files (s\<lparr>ks_findings := ks_findings s @ [unread_manifest f r]\<rparr>)" if "state_ok files s" for s r
    using that assms(2) True by (auto simp: state_ok_def)
  define s1 where "s1 = st\<lparr>ks_old := index_objects (previous_objects lib f) (ks_old st)\<rparr>"
  have s1: "state_ok files s1" using assms(1) old by (simp add: state_ok_def s1_def)
  show ?thesis
  proof (cases "current_objects lib f")
    case (Inl err)
    with True one [OF s1] show ?thesis by (simp add: k8s_step_def s1_def Let_def)
  next
    case (Inr xs)
    define s2 where "s2 = s1\<lparr>ks_new := index_objects xs (ks_new st),
      ks_changed := ks_changed st @ (if is_context f then [] else map key_of xs)\<rparr>"
    have s2: "state_ok files s2" using s1 new [OF Inr] by (simp add: state_ok_def s2_def)
    then have s3: "state_ok files (s2\<lparr>ks_changed := ks\<rparr>)" for ks by (simp add: state_ok_def)
    show ?thesis
    proof (cases "removed_objects lib f")
      case (Inl err)
      with Inr True one [OF s2] show ?thesis by (simp add: k8s_step_def s1_def s2_def Let_def)
    next
      case removed: (Inr ys)
      from s3 [of "ks_changed s2 @ map key_of ys"] Inr True removed show ?thesis
        by (simp add: k8s_step_def s1_def s2_def Let_def)
    qed
  qed
qed

lemma state_ok_pass: "state_ok files (k8s_pass lib files)"
proof -
  have "state_ok files (foldl (k8s_step lib) st fs)" if "state_ok files st" and "set fs \<subseteq> set files" for st fs
    using that by (induction fs arbitrary: st) (simp_all add: state_ok_step)
  then show ?thesis by (simp add: k8s_pass_def)
qed

lemma index_entry:
  assumes "index_ok files ix" and "map_of ix k = Some x"
  shows "key_of x = k" and "\<exists>f\<in>set files. p_path f = ko_file x \<and> k8s_supports (location_of f)"
  using assms map_of_SomeD [OF assms(2)] by (auto simp: index_ok_def)

subsection \<open>The contract\<close>

lemma key_findings_about:
  assumes "g \<in> set (key_findings lib ord (k8s_pass lib files) k)"
  shows "(\<exists>f\<in>set files. p_path f = f_file g \<and> k8s_supports (location_of f))
    \<and> rev_valid (f_reversibility g) \<and> f_lock g = LockNone \<and> f_context g = None"
proof -
  let ?st = "k8s_pass lib files"
  let ?c = "change_of ?st k"
  from assms have some: "\<not> (kc_old ?c = None \<and> kc_new ?c = None)"
    and g: "g \<in> set (classify_object lib (mo_index ord) (ks_old ?st) (ks_new ?st) ?c)"
    by (auto simp: key_findings_def Let_def split: if_splits)
  have about: "about ?c g" using about_classify g by (auto simp: list_all_iff)
  have ok: "index_ok files (ks_old ?st)" "index_ok files (ks_new ?st)"
    using state_ok_pass [of files lib] by (simp_all add: state_ok_def)
  have "\<exists>f\<in>set files. p_path f = ko_file (kc_object ?c) \<and> k8s_supports (location_of f)"
  proof (cases "kc_new ?c")
    case (Some x)
    then show ?thesis
      using index_entry(2) [OF ok(2), of k x] by (simp add: kc_object_def change_of_def)
  next
    case None
    with some obtain x where "kc_old ?c = Some x" by auto
    with None show ?thesis
      using index_entry(2) [OF ok(1), of k x] by (simp add: kc_object_def change_of_def)
  qed
  with about show ?thesis by (simp add: about_def)
qed

lemma kubernetes_findings_set:
  "g \<in> set (kubernetes_findings lib ord files) \<longleftrightarrow>
     g \<in> set (ks_findings (k8s_pass lib files))
     \<or> (\<exists>k\<in>set (mo_keys ord (changed_keys (k8s_pass lib files))). g \<in> set (key_findings lib ord (k8s_pass lib files) k))"
  by (simp add: kubernetes_findings_def Let_def sorted_object_keys_def sort_findings_def)

interpretation k8s: canonical_analyzer k8s_supports "kubernetes_analyze lib ord ctx" for lib ord ctx
proof
  fix files fs g
  assume d: "kubernetes_analyze lib ord ctx files = Done fs"
  then have fs: "fs = kubernetes_findings lib ord files"
    by (simp add: kubernetes_analyze_def split: option.splits)
  show "sorted (map finding_key fs)"
    by (simp add: fs kubernetes_findings_def Let_def sort_findings_sorted)
  assume "g \<in> set fs"
  then have "g \<in> set (ks_findings (k8s_pass lib files))
      \<or> (\<exists>k. g \<in> set (key_findings lib ord (k8s_pass lib files) k))"
    unfolding fs kubernetes_findings_set by blast
  then have "(\<exists>f\<in>set files. p_path f = f_file g \<and> k8s_supports (location_of f))
      \<and> rev_valid (f_reversibility g) \<and> f_lock g = LockNone \<and> f_context g = None"
  proof
    assume "g \<in> set (ks_findings (k8s_pass lib files))"
    then show ?thesis
      using state_ok_pass [of files lib] by (fastforce simp: state_ok_def unread_manifest_def)
  next
    assume "\<exists>k. g \<in> set (key_findings lib ord (k8s_pass lib files) k)"
    then show ?thesis using key_findings_about by blast
  qed
  then show "\<exists>c\<in>set files. p_path c = f_file g \<and> k8s_supports (location_of c)"
    and "rev_valid (f_reversibility g) \<and> lock_valid (f_lock g) \<and> f_context g = None" by auto
next
  fix files files' :: "changed_file list"
  assume m: "mset files = mset files'" and "distinct (map p_path files)"
  then have "k8s_pass lib files = k8s_pass lib files'"
    by (simp add: k8s_pass_def sort_by_path_permutation)
  then have "kubernetes_findings lib ord files = kubernetes_findings lib ord files'"
    by (simp only: kubernetes_findings_def)
  with mset_eq_length [OF m] show "kubernetes_analyze lib ord ctx files = kubernetes_analyze lib ord ctx files'"
    by (simp only: kubernetes_analyze_def)
qed

subsection \<open>Unreadable manifests\<close>

text \<open>Read against the parser alone: the side to deploy decodes, and of a file that is deleted the side that
  goes away.\<close>

definition decodes :: "yaml_library \<Rightarrow> changed_file \<Rightarrow> string \<Rightarrow> bool" where
  "decodes lib f content \<longleftrightarrow> (case parse_manifest lib (p_path f) content of Inl err \<Rightarrow> False | Inr xs \<Rightarrow> True)"

definition manifest_readable :: "yaml_library \<Rightarrow> changed_file \<Rightarrow> bool" where
  "manifest_readable lib f \<longleftrightarrow>
     (p_current f = [] \<or> decodes lib f (p_current f)) \<and> (is_removed f \<longrightarrow> decodes lib f (p_previous f))"

lemma readable_objects:
  "manifest_readable lib f \<longleftrightarrow> (\<exists>xs. current_objects lib f = Inr xs) \<and> (\<exists>ys. removed_objects lib f = Inr ys)"
  by (auto simp: manifest_readable_def decodes_def current_objects_def removed_objects_def split: sum.splits)

lemma step_findings: "set (ks_findings st) \<subseteq> set (ks_findings (k8s_step lib st f))"
  by (auto simp: k8s_step_def Let_def split: sum.split)

lemma steps_findings: "set (ks_findings st) \<subseteq> set (ks_findings (foldl (k8s_step lib) st fs))"
proof (induction fs arbitrary: st)
  case (Cons f fs)
  from step_findings [of st lib f] Cons.IH [of "k8s_step lib st f"] show ?case by simp
qed simp

lemma unreadable_step:
  assumes "k8s_supports (location_of f)" and "\<not> manifest_readable lib f"
  shows "\<exists>r. unread_manifest f r \<in> set (ks_findings (k8s_step lib st f))"
  using assms unfolding readable_objects k8s_step_def Let_def
  by (cases "current_objects lib f"; cases "removed_objects lib f") auto

lemma unreadable_reported:
  assumes "f \<in> set files" and "k8s_supports (location_of f)" and "\<not> manifest_readable lib f"
  shows "\<exists>r. unread_manifest f r \<in> set (ks_findings (k8s_pass lib files))"
proof -
  from assms(1) have "f \<in> set (sort_key p_path files)" by simp
  from split_list [OF this] obtain xs ys where "sort_key p_path files = xs @ f # ys" by blast
  then have "k8s_pass lib files = foldl (k8s_step lib) (k8s_step lib (foldl (k8s_step lib) k8s_init xs) f) ys"
    by (simp add: k8s_pass_def)
  with unreadable_step [OF assms(2,3)] steps_findings show ?thesis by (metis subsetD)
qed

subsection \<open>The objects of either side\<close>

text \<open>What the files hold, read without the pass and its indices: the objects of the claimed files on one side,
  in the order of the files. A side that is empty or does not decode holds none.\<close>

definition file_objects :: "yaml_library \<Rightarrow> (changed_file \<Rightarrow> string) \<Rightarrow> changed_file \<Rightarrow> k8s_object list" where
  "file_objects lib side f =
     (if k8s_supports (location_of f) \<and> side f \<noteq> []
      then (case parse_manifest lib (p_path f) (side f) of Inl err \<Rightarrow> [] | Inr xs \<Rightarrow> xs) else [])"

definition side_objects :: "yaml_library \<Rightarrow> (changed_file \<Rightarrow> string) \<Rightarrow> changed_file list \<Rightarrow> k8s_object list" where
  "side_objects lib side files = concat (map (file_objects lib side) files)"

definition objects_named :: "object_key \<Rightarrow> k8s_object list \<Rightarrow> k8s_object list" where
  "objects_named k xs = filter (\<lambda>x. key_of x = k) xs"

definition the_object :: "k8s_object list \<Rightarrow> k8s_object option" where
  "the_object xs = (case xs of [] \<Rightarrow> None | x # xs' \<Rightarrow> Some x)"

text \<open>The rollout of every object that is defined at most once before and at most once after, and not the same,
  is safe.\<close>

definition rollouts_safe :: "yaml_library \<Rightarrow> changed_file list \<Rightarrow> bool" where
  "rollouts_safe lib files \<longleftrightarrow>
     list_all (\<lambda>k.
         let was = objects_named k (side_objects lib p_previous files);
             is_now = objects_named k (side_objects lib p_current files) in
         length was \<le> 1 \<and> length is_now \<le> 1 \<and> was \<noteq> is_now
           \<longrightarrow> safe_rollout (the_object was) (the_object is_now))
       (map key_of (side_objects lib p_previous files @ side_objects lib p_current files))"

text \<open>The indices of the pass hold the last of them.\<close>

definition later :: "'a option \<Rightarrow> 'a list \<Rightarrow> 'a option" where
  "later z xs = (if xs = [] then z else Some (last xs))"

lemma later_simps [simp]: "later z [] = z" "later (later z xs) ys = later z (xs @ ys)"
  by (simp_all add: later_def)

lemma later_the_object: "length xs \<le> 1 \<Longrightarrow> later None xs = the_object xs"
  by (cases xs) (auto simp: later_def the_object_def)

lemma side_objects_simps [simp]:
  "side_objects lib side [] = []"
  "side_objects lib side (f # fs) = file_objects lib side f @ side_objects lib side fs"
  by (simp_all add: side_objects_def)

lemma objects_named_append [simp]: "objects_named k (xs @ ys) = objects_named k xs @ objects_named k ys"
  by (simp add: objects_named_def)

lemma index_later: "map_of (index_objects xs ix) k = later (map_of ix k) (objects_named k xs)"
  unfolding index_objects_def
  by (induction xs rule: rev_induct) (auto simp: update_conv' later_def objects_named_def)

lemma file_objects_unclaimed [simp]: "\<not> k8s_supports (location_of f) \<Longrightarrow> file_objects lib side f = []"
  by (simp add: file_objects_def)

lemma file_objects_claimed:
  assumes "k8s_supports (location_of f)"
  shows "file_objects lib p_previous f = previous_objects lib f"
    and "file_objects lib p_current f = (case current_objects lib f of Inl err \<Rightarrow> [] | Inr xs \<Rightarrow> xs)"
  using assms by (simp_all add: file_objects_def previous_objects_def current_objects_def)

lemma objects_named_Nil [simp]: "objects_named k [] = []"
  by (simp add: objects_named_def)

lemma step_indices:
  "map_of (ks_old (k8s_step lib st f)) k = later (map_of (ks_old st) k) (objects_named k (file_objects lib p_previous f))"
  "map_of (ks_new (k8s_step lib st f)) k = later (map_of (ks_new st) k) (objects_named k (file_objects lib p_current f))"
proof -
  have "map_of (ks_old (k8s_step lib st f)) k = later (map_of (ks_old st) k) (objects_named k (file_objects lib p_previous f))
    \<and> map_of (ks_new (k8s_step lib st f)) k = later (map_of (ks_new st) k) (objects_named k (file_objects lib p_current f))"
  proof (cases "k8s_supports (location_of f)")
    case False
    then show ?thesis by (simp add: k8s_step_def)
  next
    case True
    note objs = file_objects_claimed [OF True]
    show ?thesis
      by (cases "current_objects lib f"; cases "removed_objects lib f")
        (simp_all add: k8s_step_def Let_def True objs index_later)
  qed
  then show "map_of (ks_old (k8s_step lib st f)) k = later (map_of (ks_old st) k) (objects_named k (file_objects lib p_previous f))"
    "map_of (ks_new (k8s_step lib st f)) k = later (map_of (ks_new st) k) (objects_named k (file_objects lib p_current f))" by blast+
qed

lemma steps_indices:
  "map_of (ks_old (foldl (k8s_step lib) st fs)) k = later (map_of (ks_old st) k) (objects_named k (side_objects lib p_previous fs))"
  "map_of (ks_new (foldl (k8s_step lib) st fs)) k = later (map_of (ks_new st) k) (objects_named k (side_objects lib p_current fs))"
proof (induction fs arbitrary: st)
  case Nil
  { case 1 show ?case by (simp add: objects_named_def) }
  { case 2 show ?case by (simp add: objects_named_def) }
next
  case (Cons f fs)
  { case 1 show ?case by (simp add: Cons.IH step_indices) }
  { case 2 show ?case by (simp add: Cons.IH step_indices) }
qed

lemma objects_named_sorted:
  assumes "length (objects_named k (side_objects lib side files)) \<le> 1"
  shows "objects_named k (side_objects lib side (sort_key p_path files)) = objects_named k (side_objects lib side files)"
proof -
  have "mset (side_objects lib side (sort_key p_path files)) = mset (side_objects lib side files)"
    unfolding side_objects_def mset_concat sum_mset_sum_list [symmetric] mset_map by simp
  then have m: "mset (objects_named k (side_objects lib side (sort_key p_path files)))
      = mset (objects_named k (side_objects lib side files))"
    by (simp add: objects_named_def mset_filter)
  show ?thesis
  proof (cases "objects_named k (side_objects lib side files)")
    case Nil
    with m show ?thesis by simp
  next
    case (Cons x xs)
    with assms have "xs = []" by simp
    with Cons m show ?thesis by simp
  qed
qed

lemma pass_indices:
  assumes "length (objects_named k (side_objects lib p_previous files)) \<le> 1"
    and "length (objects_named k (side_objects lib p_current files)) \<le> 1"
  shows "map_of (ks_old (k8s_pass lib files)) k = the_object (objects_named k (side_objects lib p_previous files))"
    and "map_of (ks_new (k8s_pass lib files)) k = the_object (objects_named k (side_objects lib p_current files))"
  using assms by (simp_all add: k8s_pass_def steps_indices objects_named_sorted later_the_object k8s_init_def)

lemma step_changed: "set (ks_changed st) \<subseteq> set (ks_changed (k8s_step lib st f))"
  by (auto simp: k8s_step_def Let_def split: sum.split)

lemma steps_changed: "set (ks_changed st) \<subseteq> set (ks_changed (foldl (k8s_step lib) st fs))"
proof (induction fs arbitrary: st)
  case (Cons f fs)
  from step_changed [of st lib f] Cons.IH [of "k8s_step lib st f"] show ?case by simp
qed simp

lemma current_object_changed:
  assumes "f \<in> set files" and "\<not> is_context f" and "x \<in> set (file_objects lib p_current f)"
  shows "key_of x \<in> set (ks_changed (k8s_pass lib files))"
proof -
  from assms(1) have "f \<in> set (sort_key p_path files)" by simp
  from split_list [OF this] obtain xs ys where "sort_key p_path files = xs @ f # ys" by blast
  then have "k8s_pass lib files = foldl (k8s_step lib) (k8s_step lib (foldl (k8s_step lib) k8s_init xs) f) ys"
    by (simp add: k8s_pass_def)
  moreover have "key_of x \<in> set (ks_changed (k8s_step lib st f))" for st
  proof -
    have claimed: "k8s_supports (location_of f)"
    proof (rule ccontr)
      assume "\<not> k8s_supports (location_of f)"
      from file_objects_unclaimed [OF this] assms(3) show False by simp
    qed
    then obtain zs where "current_objects lib f = Inr zs" "x \<in> set zs"
      using assms(3) unfolding file_objects_claimed(2) [OF claimed] by (cases "current_objects lib f") simp_all
    with claimed assms(2) show ?thesis
      by (cases "removed_objects lib f") (simp_all add: k8s_step_def Let_def)
  qed
  ultimately show ?thesis using steps_changed by (metis subsetD)
qed

text \<open>An object that differs is among the changed ones: of an untouched file both sides hold the same.\<close>

lemma differing_changed:
  assumes old: "length (objects_named k (side_objects lib p_previous files)) \<le> 1"
    and new: "length (objects_named k (side_objects lib p_current files)) \<le> 1"
    and differ: "objects_named k (side_objects lib p_previous files) \<noteq> objects_named k (side_objects lib p_current files)"
  shows "k \<in> set (changed_keys (k8s_pass lib files))"
proof (cases "objects_named k (side_objects lib p_current files)")
  case Nil
  then have "map_of (ks_new (k8s_pass lib files)) k = None"
    using pass_indices(2) [OF old new] by (simp add: the_object_def)
  moreover have "map_of (ks_old (k8s_pass lib files)) k \<noteq> None"
    using pass_indices(1) [OF old new] Nil differ by (simp add: the_object_def split: list.split)
  then have "k \<in> set (map fst (ks_old (k8s_pass lib files)))" by (simp add: map_of_eq_None_iff)
  ultimately show ?thesis by (simp add: changed_keys_def)
next
  case (Cons x xs)
  with new have only: "objects_named k (side_objects lib p_current files) = [x]" by simp
  then have "x \<in> set (objects_named k (side_objects lib p_current files))" by simp
  then obtain f where f: "f \<in> set files" "x \<in> set (file_objects lib p_current f)" and key: "key_of x = k"
    by (auto simp: objects_named_def side_objects_def)
  have "\<not> is_context f"
  proof
    assume "is_context f"
    then have "file_objects lib p_previous f = file_objects lib p_current f"
      by (simp add: is_context_def file_objects_def)
    with f(2) have "x \<in> set (file_objects lib p_previous f)" by (simp only:)
    with f(1) have "x \<in> set (side_objects lib p_previous files)" unfolding side_objects_def by auto
    with key have "x \<in> set (objects_named k (side_objects lib p_previous files))" by (simp add: objects_named_def)
    with old have "objects_named k (side_objects lib p_previous files) = [x]"
      by (cases "objects_named k (side_objects lib p_previous files)") auto
    with only differ show False by simp
  qed
  from current_object_changed [OF f(1) this f(2)] key show ?thesis by (simp add: changed_keys_def)
qed

subsection \<open>The order of map iteration\<close>

lemma find_unique:
  assumes "set xs = set ys" and "\<And>x y. x \<in> set xs \<Longrightarrow> y \<in> set xs \<Longrightarrow> P x \<Longrightarrow> P y \<Longrightarrow> x = y"
  shows "find P xs = find P ys"
proof (cases "find P xs")
  case None
  with assms(1) have "find P ys = None" by (simp add: find_None_iff)
  with None show ?thesis by simp
next
  case (Some x)
  then have x: "x \<in> set xs" "P x" by (auto simp: find_Some_iff)
  then have "find P ys \<noteq> None" using assms(1) by (auto simp: find_None_iff)
  then obtain y where y: "find P ys = Some y" by blast
  then have "y \<in> set ys" "P y" by (auto simp: find_Some_iff)
  with x assms have "x = y" by blast
  with Some y show ?thesis by simp
qed

definition unique_storage_classes :: "k8s_index \<Rightarrow> bool" where
  "unique_storage_classes ix \<longleftrightarrow>
     distinct (map (ky_name \<circ> fst) (filter (\<lambda>(k, x). ky_kind k = ''StorageClass'') ix))"

lemma reclaim_policy_order:
  assumes "mset (visit ix) = mset ix" and "mset (visit' ix) = mset ix" and "unique_storage_classes ix"
  shows "class_reclaim_policy visit ix n = class_reclaim_policy visit' ix n"
proof -
  have sets: "set (visit ix) = set ix" "set (visit' ix) = set ix" using assms(1,2) by (metis mset_eq_setD)+
  have "find (\<lambda>(k, x). ky_kind k = ''StorageClass'' \<and> ky_name k = n) (visit ix)
      = find (\<lambda>(k, x). ky_kind k = ''StorageClass'' \<and> ky_name k = n) (visit' ix)"
  proof (rule find_unique)
    fix p q
    assume "p \<in> set (visit ix)" "q \<in> set (visit ix)"
      "case p of (k, x) \<Rightarrow> ky_kind k = ''StorageClass'' \<and> ky_name k = n"
      "case q of (k, x) \<Rightarrow> ky_kind k = ''StorageClass'' \<and> ky_name k = n"
    then have "p \<in> set (filter (\<lambda>(k, x). ky_kind k = ''StorageClass'') ix)"
      "q \<in> set (filter (\<lambda>(k, x). ky_kind k = ''StorageClass'') ix)" "(ky_name \<circ> fst) p = (ky_name \<circ> fst) q"
      by (auto simp: sets)
    with assms(3) show "p = q" unfolding unique_storage_classes_def distinct_map by (meson inj_onD)
  qed (simp add: sets)
  then show ?thesis by (simp only: class_reclaim_policy_def)
qed

lemma referencing_order:
  assumes "mset (visit ix) = mset ix" and "mset (visit' ix) = mset ix" and "index_ok files ix"
    and "inj_on key_text (set (map fst ix))"
  shows "referencing_workloads visit ix kind ns n = referencing_workloads visit' ix kind ns n"
  unfolding referencing_workloads_def sort_objects_def
proof (rule sort_key_permutation)
  let ?P = "\<lambda>(k, x). is_workload x \<and> ky_namespace k = ns \<and> workload_references x kind n"
  show "mset (map snd (filter ?P (visit ix))) = mset (map snd (filter ?P (visit' ix)))"
    using assms(1,2) by (simp add: mset_filter)
  have key: "\<exists>k. (k, x) \<in> set ix \<and> key_of x = k" if "x \<in> set (map snd (filter ?P (visit ix)))" for x
    using that assms(3) mset_eq_setD [OF assms(1)] by (auto simp: index_ok_def)
  show "inj_on (\<lambda>x. key_text (key_of x)) (set (map snd (filter ?P (visit ix))))"
  proof (rule inj_onI)
    fix x y
    assume "x \<in> set (map snd (filter ?P (visit ix)))" "y \<in> set (map snd (filter ?P (visit ix)))"
      and eq: "key_text (key_of x) = key_text (key_of y)"
    then obtain k l where k: "(k, x) \<in> set ix" "key_of x = k" "(l, y) \<in> set ix" "key_of y = l" using key by blast
    then have "k \<in> set (map fst ix)" "l \<in> set (map fst ix)" by force+
    have "k = l" by (rule inj_onD [OF assms(4)]) (use eq k \<open>k \<in> _\<close> \<open>l \<in> _\<close> in simp_all)
    moreover have "distinct (map fst ix)" using assms(3) by (simp add: index_ok_def)
    ultimately show "x = y" using k(1,3) eq_key_imp_eq_value by fast
  qed
qed

lemma classify_object_order:
  assumes "\<And>n. class_reclaim_policy visit old_index n = class_reclaim_policy visit' old_index n"
    and "\<And>kind ns n. referencing_workloads visit new_index kind ns n = referencing_workloads visit' new_index kind ns n"
  shows "classify_object lib visit old_index new_index c = classify_object lib visit' old_index new_index c"
  unfolding classify_object_def covered_findings_def rule_pvc_removed_def rule_config_removed_def
  by (simp only: assms)

subsection \<open>Sample manifests\<close>

text \<open>A stand-in for the YAML libraries: every byte of a file is a document, looked up in a table, and a
  byte that is not in the table does not decode.\<close>

definition sample_library :: "(char \<times> attributes) list \<Rightarrow> yaml_library" where
  "sample_library docs =
     \<lparr>ym_stream = map (\<lambda>c. Inr \<lparr>nd_kind = 1, nd_tags = [''!!map''], nd_text = [c]\<rparr>),
      ym_marshal = (\<lambda>n. Inr (nd_text n)),
      ym_unmarshal = (\<lambda>t. case map_of docs (hd t) of None \<Rightarrow> Inl ''bad'' | Some d \<Rightarrow> Inr (Some d)),
      ym_hex_float = (\<lambda>t. Inl ''bad'')\<rparr>"

definition in_order :: map_order where
  "in_order = \<lparr>mo_index = (\<lambda>ix. ix), mo_keys = (\<lambda>ks. ks)\<rparr>"

definition backwards :: map_order where
  "backwards = \<lparr>mo_index = rev, mo_keys = rev\<rparr>"

lemma visits_all_samples [simp]: "visits_all in_order" "visits_all backwards"
  by (simp_all add: visits_all_def in_order_def backwards_def)

definition sample_doc :: "string \<Rightarrow> string \<Rightarrow> string \<Rightarrow> attributes \<Rightarrow> attributes" where
  "sample_doc version kind name rest =
     (''apiVersion'', JStr version) # (''kind'', JStr kind) # (''metadata'', JObj [(''name'', JStr name)]) # rest"

definition sample_deployment :: "string \<Rightarrow> int \<Rightarrow> string \<Rightarrow> attributes" where
  "sample_deployment command replicas selector =
     sample_doc ''v1'' ''Deployment'' ''a''
       [(''spec'', JObj
          [(''replicas'', JNum (Fl replicas 0)), (''selector'', JStr selector),
           (''template'', JObj [(''spec'', JObj [(''containers'', JList
              [JObj [(''command'', JStr command), (''image'', JStr ''i@sha256:0''), (''name'', JStr ''c'')]])])])])]"

definition sample_table :: "(char \<times> attributes) list" where
  "sample_table =
     [(CHR ''a'', sample_deployment ''run'' 1 ''s''),
      (CHR ''b'', sample_deployment ''run'' 2 ''s''),
      (CHR ''c'', sample_deployment ''halt'' 1 ''s''),
      (CHR ''d'', sample_deployment ''halt'' 2 ''s''),
      (CHR ''e'', sample_deployment ''run'' 1 ''t''),
      (CHR ''m'', sample_doc ''v1'' ''ConfigMap'' ''m'' []),
      (CHR ''p'', sample_doc ''v1'' ''PersistentVolumeClaim'' ''p'' [(''spec'', JObj [(''storageClassName'', JStr ''s'')])]),
      (CHR ''r'', sample_doc ''v1'' ''StorageClass'' ''s'' [(''reclaimPolicy'', JStr ''Retain'')]),
      (CHR ''q'', sample_doc ''v2'' ''StorageClass'' ''s'' [(''reclaimPolicy'', JStr ''Delete'')])]"

definition sample_manifest :: "string \<Rightarrow> string \<Rightarrow> string \<Rightarrow> changed_file" where
  "sample_manifest p was is_now =
     (bare_file p)\<lparr>p_status := (if was = [] then StatusAdded else StatusModified),
                   p_previous := was, p_current := is_now\<rparr>"

definition sample_run :: "map_order \<Rightarrow> changed_file list \<Rightarrow> (string \<times> string \<times> reversibility) list" where
  "sample_run ord files =
     map (\<lambda>g. (f_rule_id g, f_statement g, f_reversibility g))
       (kubernetes_findings (sample_library sample_table) ord files)"

text \<open>What a \<open>PASS\<close> of an engine with this analyzer says of the manifests.\<close>

lemma passing_rollouts:
  assumes "c_gate (fst (certify sha e cancelled c given)) = GatePass"
    and "kubernetes_analyzer lib ord ctx \<in> set (e_analyzers e)" and "visits_all ord"
    and "files = stamp_located given (locator c)" and "st = k8s_pass lib files"
  shows "list_all (\<lambda>f. if k8s_supports (location_of f) then manifest_readable lib f else True) files
    \<and> list_all (\<lambda>k. if map_of (ks_old st) k = None \<and> map_of (ks_new st) k = None then True
                   else safe_rollout (map_of (ks_old st) k) (map_of (ks_new st) k)) (changed_keys st)"
proof -
  from registered_pass [OF assms(1,2)] have all: "list_all blocks_nothing (kubernetes_findings lib ord files)"
    unfolding assms(4) by (auto simp: kubernetes_analyzer_def kubernetes_analyze_def split: option.splits)
  have rev: "f_reversibility g = Reversible" if "g \<in> set (kubernetes_findings lib ord files)" for g
    using all that by (simp add: list_all_iff blocks_nothing_def)
  have "manifest_readable lib f" if "f \<in> set files" "k8s_supports (location_of f)" for f
  proof (rule ccontr)
    assume "\<not> manifest_readable lib f"
    with that obtain r where "unread_manifest f r \<in> set (ks_findings (k8s_pass lib files))"
      using unreadable_reported by blast
    then show False using rev [of "unread_manifest f r"] by (simp add: kubernetes_findings_set unread_manifest_def)
  qed
  moreover have "safe_rollout (map_of (ks_old st) k) (map_of (ks_new st) k)"
    if k: "k \<in> set (changed_keys st)" and some: "\<not> (map_of (ks_old st) k = None \<and> map_of (ks_new st) k = None)" for k
  proof -
    have "k \<in> set (mo_keys ord (changed_keys st))"
      using assms(3) k unfolding visits_all_def by (metis mset_eq_setD)
    then have "list_all reversible (key_findings lib ord st k)"
      using rev unfolding assms(5) kubernetes_findings_set list_all_iff reversible_def by blast
    with some show ?thesis
      using reversible_object [of lib "mo_index ord" "ks_old st" "ks_new st" "change_of st k"]
      by (auto simp: key_findings_def change_of_def)
  qed
  ultimately show ?thesis by (simp add: list_all_iff)
qed

text \<open>The same without the pass and its indices.\<close>

lemma passing_manifests:
  assumes "c_gate (fst (certify sha e cancelled c given)) = GatePass"
    and "kubernetes_analyzer lib ord ctx \<in> set (e_analyzers e)" and "visits_all ord"
    and "files = stamp_located given (locator c)"
  shows "list_all (\<lambda>f. if k8s_supports (location_of f) then manifest_readable lib f else True) files
    \<and> rollouts_safe lib files"
proof
  note both = passing_rollouts [OF assms refl]
  then show "list_all (\<lambda>f. if k8s_supports (location_of f) then manifest_readable lib f else True) files" ..
  have "safe_rollout (the_object was) (the_object is_now)"
    if was: "was = objects_named k (side_objects lib p_previous files)"
      and is_now: "is_now = objects_named k (side_objects lib p_current files)"
      and one: "length was \<le> 1" "length is_now \<le> 1" "was \<noteq> is_now" for k was is_now
  proof -
    note ix = pass_indices [OF one(1) [unfolded was] one(2) [unfolded is_now]]
    have "the_object was \<noteq> None \<or> the_object is_now \<noteq> None"
      using one(3) by (auto simp: the_object_def split: list.splits)
    moreover have "k \<in> set (changed_keys (k8s_pass lib files))"
      using differing_changed one unfolding was is_now by blast
    ultimately show ?thesis
      using both ix by (auto simp: list_all_iff was is_now split: if_splits)
  qed
  then show "rollouts_safe lib files" by (simp add: rollouts_safe_def list_all_iff Let_def)
qed

subsection \<open>Properties\<close>

text \<open>C4. What a \<open>PASS\<close> means for a cluster, said of the files alone: with the analyzer registered, whatever
  else the engine holds and in whatever order maps are visited, the side to deploy of every claimed manifest
  is empty or parses, and so does the previous side of one that is deleted; and every object that the claimed
  files define at most once before and at most once after the change, and not the same, is a workload that
  exists after the change, all its images are pinned by a digest, and when it existed before no field that is immutable on a
  live object differs and no probe is lost. The previous side of a file that is not deleted may fail to
  parse; it counts as holding no object, so what it held is compared with nothing. An object that is
  defined more than once on a side is outside the claim: the analyzer compares its last definition only.\<close>

theorem pass_means_safe_rollouts:
  assumes "c_gate (fst (certify sha e cancelled c given)) = GatePass"
    and "kubernetes_analyzer lib ord ctx \<in> set (e_analyzers e)" and "visits_all ord"
    and "files = stamp_located given (locator c)"
  shows "list_all (\<lambda>f. if k8s_supports (location_of f) then manifest_readable lib f else True) files
    \<and> rollouts_safe lib files"
  using assms by (rule passing_manifests)

text \<open>A deployment with a pinned image, scaled, beside an untouched file.\<close>

definition sample_k8s_engine :: engine where
  "sample_k8s_engine =
     new_engine [kubernetes_analyzer (sample_library sample_table) in_order (\<lambda>i. None)] None 0 None"

definition sample_k8s_files :: "changed_file list" where
  "sample_k8s_files = [sample_manifest ''k/a.yaml'' ''a'' ''b'', sample_manifest ''k/m.yaml'' ''m'' ''m'']"

lemma sample_k8s_passes:
  "c_gate (fst (certify (\<lambda>b. b) sample_k8s_engine None (plain_run\<lparr>rc_enumerated := []\<rparr>) sample_k8s_files)) = GatePass"
  by code_simp

theorem pass_means_safe_rollouts_witness:
  "list_all (\<lambda>f. if k8s_supports (location_of f) then manifest_readable (sample_library sample_table) f else True)
     (stamp_located sample_k8s_files (locator (plain_run\<lparr>rc_enumerated := []\<rparr>)))
   \<and> rollouts_safe (sample_library sample_table)
     (stamp_located sample_k8s_files (locator (plain_run\<lparr>rc_enumerated := []\<rparr>)))"
  by (rule pass_means_safe_rollouts [OF sample_k8s_passes _ visits_all_samples(1) refl])
    (simp add: sample_k8s_engine_def new_engine_def)

text \<open>C19. Two runs give the same findings although the language leaves the order of loops over maps open:
  when no two objects of the pass print alike and no two storage classes that existed before share a name.\<close>

theorem kubernetes_deterministic:
  assumes "visits_all ord" and "visits_all ord'" and "st = k8s_pass lib files"
    and "inj_on key_text (set (changed_keys st) \<union> set (map fst (ks_new st)))"
    and "unique_storage_classes (ks_old st)"
  shows "kubernetes_findings lib ord files = kubernetes_findings lib ord' files"
proof -
  have ok: "index_ok files (ks_new st)" using state_ok_pass [of files lib] by (simp add: state_ok_def assms(3))
  have inj: "inj_on key_text (set (changed_keys st))" "inj_on key_text (set (map fst (ks_new st)))"
    using assms(4) by (auto intro: inj_on_subset)
  have m: "mset (mo_index ord ix) = mset ix" "mset (mo_index ord' ix) = mset ix"
    "mset (mo_keys ord ks) = mset ks" "mset (mo_keys ord' ks) = mset ks" for ix ks
    using assms(1,2) by (simp_all add: visits_all_def)
  have reclaim: "class_reclaim_policy (mo_index ord) (ks_old st) n = class_reclaim_policy (mo_index ord') (ks_old st) n" for n
    by (rule reclaim_policy_order) (simp_all add: m assms(5))
  have refs: "referencing_workloads (mo_index ord) (ks_new st) kind ns n
      = referencing_workloads (mo_index ord') (ks_new st) kind ns n" for kind ns n
    by (rule referencing_order [where visit = "mo_index ord" and visit' = "mo_index ord'", OF m(1) m(2) ok inj(2)])
  have "key_findings lib ord st k = key_findings lib ord' st k" for k
    unfolding key_findings_def Let_def classify_object_order [OF reclaim refs] ..
  moreover have "sorted_object_keys ord (changed_keys st) = sorted_object_keys ord' (changed_keys st)"
    unfolding sorted_object_keys_def
  proof (rule sort_key_permutation)
    show "inj_on key_text (set (mo_keys ord (changed_keys st)))"
      using inj(1) mset_eq_setD [OF m(3)] by simp
  qed (simp add: m)
  ultimately have "concat (map (key_findings lib ord st) (sorted_object_keys ord (changed_keys st)))
      = concat (map (key_findings lib ord' st) (sorted_object_keys ord' (changed_keys st)))"
    by (metis map_cong)
  then show ?thesis unfolding kubernetes_findings_def Let_def assms(3) [symmetric] by simp
qed

lemma sample_pass_keys:
  "changed_keys (k8s_pass (sample_library sample_table) [sample_manifest ''k/a.yaml'' ''a'' ''b''])
     = [\<lparr>ky_api_version = ''v1'', ky_kind = ''Deployment'', ky_namespace = [], ky_name = ''a''\<rparr>]
   \<and> map fst (ks_new (k8s_pass (sample_library sample_table) [sample_manifest ''k/a.yaml'' ''a'' ''b'']))
     = [\<lparr>ky_api_version = ''v1'', ky_kind = ''Deployment'', ky_namespace = [], ky_name = ''a''\<rparr>]
   \<and> map fst (ks_old (k8s_pass (sample_library sample_table) [sample_manifest ''k/a.yaml'' ''a'' ''b'']))
     = [\<lparr>ky_api_version = ''v1'', ky_kind = ''Deployment'', ky_namespace = [], ky_name = ''a''\<rparr>]"
  by code_simp

theorem kubernetes_deterministic_witness:
  "kubernetes_findings (sample_library sample_table) in_order [sample_manifest ''k/a.yaml'' ''a'' ''b'']
     = kubernetes_findings (sample_library sample_table) backwards [sample_manifest ''k/a.yaml'' ''a'' ''b'']"
proof (rule kubernetes_deterministic [OF visits_all_samples refl])
  let ?st = "k8s_pass (sample_library sample_table) [sample_manifest ''k/a.yaml'' ''a'' ''b'']"
  have new: "set (map fst (ks_new ?st)) = {\<lparr>ky_api_version = ''v1'', ky_kind = ''Deployment'', ky_namespace = [], ky_name = ''a''\<rparr>}"
    using sample_pass_keys by (metis list.set)
  show "inj_on key_text (set (changed_keys ?st) \<union> set (map fst (ks_new ?st)))"
    unfolding new by (simp add: sample_pass_keys)
  obtain x where "ks_old ?st = [(\<lparr>ky_api_version = ''v1'', ky_kind = ''Deployment'', ky_namespace = [], ky_name = ''a''\<rparr>, x)]"
    using sample_pass_keys by auto
  then show "unique_storage_classes (ks_old ?st)" by (simp add: unique_storage_classes_def)
qed

text \<open>The findings on a change are those of the rules that match, and a change no rule covers is reported as
  unknown only when nothing else is found: a different command alone is unknown, the same change together
  with a different number of replicas is reversible.\<close>

text \<open>A change that no rule covers is silent next to one that a rule covers.\<close>

theorem uncovered_change_hides_behind_tuning:
  "sample_run in_order [sample_manifest ''k/a.yaml'' ''a'' ''c''] = [(''K8S014'', ''Deployment a'', Unknown)]
   \<and> sample_run in_order [sample_manifest ''k/a.yaml'' ''a'' ''d''] = [(''K8S012'', ''Deployment a'', Reversible)]"
proof
  show "sample_run in_order [sample_manifest ''k/a.yaml'' ''a'' ''c''] = [(''K8S014'', ''Deployment a'', Unknown)]"
    by code_simp
  show "sample_run in_order [sample_manifest ''k/a.yaml'' ''a'' ''d''] = [(''K8S012'', ''Deployment a'', Reversible)]"
    by code_simp
qed

text \<open>An object defined in two files counts once, as the last file defines it: a selector that differs in the
  first file is not seen.\<close>

theorem shadowed_object_is_not_compared:
  "sample_run in_order [sample_manifest ''k/a.yaml'' ''a'' ''e''] = [(''K8S002'', ''Deployment a'', Irreversible)]
   \<and> sample_run in_order [sample_manifest ''k/a.yaml'' ''a'' ''e'', sample_manifest ''k/b.yaml'' ''a'' ''b'']
       = [(''K8S012'', ''Deployment a'', Reversible)]"
proof
  show "sample_run in_order [sample_manifest ''k/a.yaml'' ''a'' ''e''] = [(''K8S002'', ''Deployment a'', Irreversible)]"
    by code_simp
  show "sample_run in_order [sample_manifest ''k/a.yaml'' ''a'' ''e'', sample_manifest ''k/b.yaml'' ''a'' ''b'']
       = [(''K8S012'', ''Deployment a'', Reversible)]"
    by code_simp
qed

text \<open>A previous side that does not decode makes every object of the file a new one.\<close>

theorem unreadable_previous_is_new:
  "sample_run in_order [sample_manifest ''k/a.yaml'' ''?'' ''e''] = [(''K8S013'', ''Deployment a'', Reversible)]"
  by code_simp

text \<open>An object that is the same on both sides is reported as unknown when another object of its file
  changed.\<close>

theorem untouched_neighbour_is_unknown:
  "sample_run in_order [sample_manifest ''k/a.yaml'' ''ma'' ''mb'']
     = [(''K8S012'', ''Deployment a'', Reversible), (''K8S014'', ''ConfigMap m'', Unknown)]"
  by code_simp

text \<open>With two storage classes of one name, in two versions of the interface, the order in which a map is
  visited decides whether the removal of a claim is irreversible.\<close>

theorem reclaim_policy_depends_on_map_order:
  "list_ex (\<lambda>(rule, text, verdict). rule = ''K8S003'')
     (sample_run backwards [sample_manifest ''k/a.yaml'' ''prq'' ''rq''])
   \<and> \<not> list_ex (\<lambda>(rule, text, verdict). rule = ''K8S003'')
     (sample_run in_order [sample_manifest ''k/a.yaml'' ''prq'' ''rq''])"
proof
  show "list_ex (\<lambda>(rule, text, verdict). rule = ''K8S003'')
     (sample_run backwards [sample_manifest ''k/a.yaml'' ''prq'' ''rq''])" by code_simp
  show "\<not> list_ex (\<lambda>(rule, text, verdict). rule = ''K8S003'')
     (sample_run in_order [sample_manifest ''k/a.yaml'' ''prq'' ''rq''])" by code_simp
qed

end
