(* ===== verification/Terraform_Analyzer.thy ===== *)
theory Terraform_Analyzer
  imports Terraform_Catalog Statement_Text Analyzer_Contract Guarantees
begin

text \<open>
  The Terraform analyzer: construction with the user's overrides and the run over plan files
  (\<open>terraform.go\<close>), and the rules TF001 to TF010 (\<open>rules.go\<close>). The decoder of a plan is a parameter, as in
  \<open>Terraform_Plan\<close>; a context is asked once. The map of the catalog that \<open>applyOverride\<close> writes into is
  part of the analyzer that is returned.
\<close>

subsection \<open>Construction\<close>

record tf_override =
  ov_type :: string
  ov_class :: tf_class

record tf_analyzer =
  ta_catalog :: catalog
  ta_overrides :: "string \<Rightarrow> tf_class option"
  ta_extra :: "located list"

definition invalid_policy :: string where "invalid_policy = ''domain: invalid policy''"

definition load_embedded :: "(string \<Rightarrow> string) \<Rightarrow> (string \<Rightarrow> string + catalog_document) \<Rightarrow> string + string
    \<Rightarrow> string + catalog" where
  "load_embedded sha yaml embedded =
     (case embedded of
        Inl err \<Rightarrow> Inl (''reading the embedded catalog: '' @ err)
      | Inr raw \<Rightarrow> parse_catalog sha yaml raw)"

definition apply_override :: "tf_analyzer \<Rightarrow> tf_override \<Rightarrow> string + tf_analyzer" where
  "apply_override a ov =
     (if trim_space (ov_type ov) = [] then
        Inl (invalid_policy @ '': a terraform_types entry names no type'')
      else if \<not> class_valid (ov_class ov) then
        Inl (invalid_policy @ '': terraform_types entry for '' @ ov_type ov @ '' has class ''
             @ go_quote (class_text (ov_class ov)) @ ''; want STATEFUL or STATELESS'')
      else
        (let accepted = Inr (a
               \<lparr>ta_overrides := (ta_overrides a)(ov_type ov \<mapsto> ov_class ov),
                ta_catalog := (ta_catalog a)\<lparr>cg_by_type := (cg_by_type (ta_catalog a))(ov_type ov \<mapsto>
                   \<lparr>en_type = ov_type ov, en_class = ov_class ov,
                    en_evidence = ''classified in .reversibility.yml'', en_added_in = []\<rparr>)\<rparr>\<rparr>)
         in case cg_by_type (ta_catalog a) (ov_type ov) of
              None \<Rightarrow> accepted
            | Some existing \<Rightarrow>
                (if \<not> at_least_as_severe_as (ov_class ov) (en_class existing) then
                   Inl (invalid_policy @ '': terraform_types reclassifies '' @ ov_type ov @ '' from ''
                        @ class_text (en_class existing) @ '' to '' @ class_text (ov_class ov)
                        @ '', which weakens it. An override may only tighten a classification; to accept the risk on a specific plan, use a waiver, which carries a reason and an expiry'')
                 else accepted)))"

fun apply_all_overrides :: "tf_analyzer \<Rightarrow> tf_override list \<Rightarrow> string + tf_analyzer" where
  "apply_all_overrides a [] = Inr a"
| "apply_all_overrides a (ov # ovs) =
     (case apply_override a ov of Inl err \<Rightarrow> Inl err | Inr a' \<Rightarrow> apply_all_overrides a' ovs)"

definition normalize_path :: "string \<Rightarrow> string" where
  "normalize_path p = path_clean (replace_char (CHR 0x5C) slash p)"

definition new_terraform :: "string + catalog \<Rightarrow> catalog option \<Rightarrow> tf_override list \<Rightarrow> string list
    \<Rightarrow> string + tf_analyzer" where
  "new_terraform embedded given overrides extra =
     (case (case given of
              Some c \<Rightarrow> Inr c
            | None \<Rightarrow> (case embedded of
                         Inl err \<Rightarrow> Inl (''loading the embedded catalog: '' @ err)
                       | Inr c \<Rightarrow> Inr c)) of
        Inl err \<Rightarrow> Inl err
      | Inr c \<Rightarrow>
          (case apply_all_overrides \<lparr>ta_catalog = c, ta_overrides = (\<lambda>t. None), ta_extra = []\<rparr> overrides of
             Inl err \<Rightarrow> Inl err
           | Inr a \<Rightarrow> Inr (a\<lparr>ta_extra := map normalize_path extra\<rparr>)))"

subsection \<open>Rules\<close>

record tf_classification =
  tc_rule :: string
  tc_rev :: reversibility
  tc_rationale :: string
  tc_undo :: string
  tc_unclassified :: string

definition destroy_verb :: "bool \<Rightarrow> string" where
  "destroy_verb replacement =
     (if replacement then ''replaced, which destroys the existing object before creating its successor''
      else ''destroyed'')"

definition pick :: "bool \<Rightarrow> string \<Rightarrow> string \<Rightarrow> string" where
  "pick cond when_true when_false = (if cond then when_true else when_false)"

definition source_of :: "tf_analyzer \<Rightarrow> string \<Rightarrow> string" where
  "source_of a t =
     (if ta_overrides a t \<noteq> None then ''classified in .reversibility.yml''
      else ''catalog '' @ cg_version (ta_catalog a))"

definition class_of :: "tf_analyzer \<Rightarrow> resource_change \<Rightarrow> (tf_class \<times> string) option" where
  "class_of a r =
     (case has_stateful_evidence (ch_before (rs_change r)) of
        Some key \<Rightarrow> Some (Stateful, ''the plan shows '' @ key @ '' on it'')
      | None \<Rightarrow>
          (case cg_by_type (ta_catalog a) (rs_type r) of
             Some entry \<Rightarrow> Some (en_class entry, source_of a (rs_type r))
           | None \<Rightarrow> None))"

definition classify_destroy :: "tf_analyzer \<Rightarrow> resource_change \<Rightarrow> tf_classification" where
  "classify_destroy a r =
     (let replacement = change_replaces (rs_change r) in
      case has_disabled_safety (ch_before (rs_change r)) of
        Some key \<Rightarrow>
          \<lparr>tc_rule = pick replacement ''TF002'' ''TF001'', tc_rev = Irreversible,
           tc_rationale = rs_address r @ '' is being '' @ destroy_verb replacement @ '' with '' @ key
             @ '' set, so the mechanism that would have preserved its contents was explicitly disabled and nothing will remain to restore from.'',
           tc_undo = [], tc_unclassified = []\<rparr>
      | None \<Rightarrow>
          (case class_of a r of
             None \<Rightarrow>
               \<lparr>tc_rule = ''TF010'', tc_rev = Unknown,
                tc_rationale = rs_address r @ '' is being '' @ destroy_verb replacement
                  @ '', and the resource type '' @ rs_type r
                  @ '' is not in the catalog, so whether destroying it loses anything is unknown.'',
                tc_undo = [], tc_unclassified = rs_type r\<rparr>
           | Some (cls, source) \<Rightarrow>
               (if cls = Stateful then
                  \<lparr>tc_rule = pick replacement ''TF002'' ''TF001'', tc_rev = Irreversible,
                   tc_rationale = rs_address r @ '' is being '' @ destroy_verb replacement @ ''. '' @ rs_type r
                     @ '' is stateful ('' @ source
                     @ ''): destroying it destroys data, an identity that re-applying cannot recreate, or a recovery capability a rollback would need.'',
                   tc_undo = [], tc_unclassified = []\<rparr>
                else
                  \<lparr>tc_rule = pick replacement ''TF006'' ''TF005'', tc_rev = Costly,
                   tc_rationale = rs_address r @ '' is being '' @ destroy_verb replacement @ ''. '' @ rs_type r
                     @ '' is stateless ('' @ source @ ''), so re-applying recreates it '' @ emdash
                     @ '' but everything depending on it is broken until that happens.'',
                   tc_undo = ''terraform apply -target='' @ rs_address r, tc_unclassified = []\<rparr>)))"

definition classify_update :: "resource_change \<Rightarrow> tf_classification" where
  "classify_update r =
     (case find (\<lambda>t. fires t (ch_before (rs_change r)) (ch_after (rs_change r))) safety_transitions of
        Some t \<Rightarrow>
          \<lparr>tc_rule = ''TF004'', tc_rev = Irreversible,
           tc_rationale = ''On '' @ rs_address r @ '', '' @ tr_why t
             @ ''. The setting itself is one line to restore, but the recovery capability it protected is not ''
             @ emdash @ '' this is graded with deleting a snapshot rather than with an ordinary update.'',
           tc_undo = [], tc_unclassified = []\<rparr>
      | None \<Rightarrow>
          \<lparr>tc_rule = ''TF007'', tc_rev = Reversible,
           tc_rationale = ''Updating '' @ rs_address r
             @ '' in place changes no identity and destroys nothing; re-applying the previous configuration reverses it.'',
           tc_undo = ''terraform apply -target='' @ rs_address r, tc_unclassified = []\<rparr>)"

definition classify_change :: "tf_analyzer \<Rightarrow> resource_change \<Rightarrow> tf_classification option" where
  "classify_change a r =
     (if rs_mode r = ''data'' then None
      else if change_destroys (rs_change r) then Some (classify_destroy a r)
      else if change_updates (rs_change r) then Some (classify_update r)
      else if change_creates (rs_change r) then
        Some \<lparr>tc_rule = ''TF008'', tc_rev = Reversible,
              tc_rationale = ''Creating '' @ rs_address r
                @ '' can be undone by destroying it, which is the reverse Terraform already generates.'',
              tc_undo = ''terraform destroy -target='' @ rs_address r, tc_unclassified = []\<rparr>
      else None)"

subsection \<open>The run\<close>

definition plan_suffix :: string where "plan_suffix = ''.tfplan.json''"

definition tf_supports :: "tf_analyzer \<Rightarrow> located \<Rightarrow> bool" where
  "tf_supports a at \<longleftrightarrow> has_suffix at plan_suffix \<or> at \<in> set (ta_extra a)"

definition first_line_of :: "string \<Rightarrow> string" where
  "first_line_of s = takeWhile (\<lambda>c. c \<noteq> CHR 0x0A) s"

definition unread_plan_finding :: "changed_file \<Rightarrow> string \<Rightarrow> finding" where
  "unread_plan_finding f err =
     \<lparr>f_rule_id = ''TF009'', f_file = p_path f, f_line = 0,
      f_statement = normalize_statement (first_line_of (p_current f)), f_reversibility = Unknown,
      f_lock = LockNone,
      f_rationale = ''This Terraform plan could not be read, so nothing in it can be classified: '' @ err @ ''.'',
      f_undo = [], f_subject = no_subject, f_context = None\<rparr>"

definition change_finding :: "string \<Rightarrow> resource_change \<Rightarrow> tf_classification \<Rightarrow> finding" where
  "change_finding path r c =
     \<lparr>f_rule_id = tc_rule c, f_file = path, f_line = 0,
      f_statement = normalize_statement (rs_address r @ '' ('' @ join ''+'' (ch_actions (rs_change r)) @ '')''),
      f_reversibility = tc_rev c, f_lock = LockNone, f_rationale = tc_rationale c, f_undo = tc_undo c,
      f_subject = \<lparr>s_relation = rs_type r, s_object = rs_address r\<rparr>, f_context = None\<rparr>"

definition analyze_plan :: "tf_analyzer \<Rightarrow> (string \<Rightarrow> string + tf_plan) \<Rightarrow> changed_file \<Rightarrow> finding list" where
  "analyze_plan a unmarshal f =
     (case decode_plan unmarshal (p_current f) of
        Inl err \<Rightarrow> [unread_plan_finding f err]
      | Inr p \<Rightarrow>
          List.map_filter (\<lambda>r. map_option (change_finding (p_path f) r) (classify_change a r))
            (sort_key rs_address (pl_changes p)))"

definition plan_read :: "tf_analyzer \<Rightarrow> changed_file \<Rightarrow> bool" where
  "plan_read a f \<longleftrightarrow> tf_supports a (location_of f) \<and> \<not> is_removed f"

definition terraform_findings :: "tf_analyzer \<Rightarrow> (string \<Rightarrow> string + tf_plan) \<Rightarrow> changed_file list
    \<Rightarrow> finding list" where
  "terraform_findings a unmarshal files =
     concat (map (\<lambda>f. if plan_read a f then analyze_plan a unmarshal f else []) (sort_key p_path files))"

definition terraform_analyze :: "tf_analyzer \<Rightarrow> (string \<Rightarrow> string + tf_plan) \<Rightarrow> string option
    \<Rightarrow> changed_file list \<Rightarrow> finding list run" where
  "terraform_analyze a unmarshal cancelled files =
     (case cancelled of
        Some e \<Rightarrow> Failed (''terraform analyzer: '' @ e)
      | None \<Rightarrow> Done (terraform_findings a unmarshal files))"

definition terraform_analyzer :: "tf_analyzer \<Rightarrow> (string \<Rightarrow> string + tf_plan) \<Rightarrow> string option \<Rightarrow> analyzer" where
  "terraform_analyzer a unmarshal cancelled =
     \<lparr>a_name = ''terraform'', a_supports = tf_supports a, a_analyze = terraform_analyze a unmarshal cancelled,
      a_validate = None, a_catalog = Some (cg_version (ta_catalog a), cg_digest (ta_catalog a))\<rparr>"

subsection \<open>Verdicts\<close>

definition verdict_of :: "tf_analyzer \<Rightarrow> resource_change \<Rightarrow> reversibility option" where
  "verdict_of a r = map_option tc_rev (classify_change a r)"

definition marked :: "attributes \<Rightarrow> bool" where
  "marked before \<longleftrightarrow>
     list_ex (\<lambda>key. attr before key = Some (JBool True)) disabled_safety_keys
     \<or> list_ex (\<lambda>key. case attr before key of None \<Rightarrow> False | Some v \<Rightarrow> meaningfully_set v) stateful_evidence_keys"

definition transition :: "plan_change \<Rightarrow> bool" where
  "transition c \<longleftrightarrow> list_ex (\<lambda>t. fires t (ch_before c) (ch_after c)) safety_transitions"

lemma marked_iff: "marked before \<longleftrightarrow> has_disabled_safety before \<noteq> None \<or> has_stateful_evidence before \<noteq> None"
  unfolding marked_def list_ex_iff
  using safety_None [of before] evidence_None [of before] by (auto split: option.splits)

lemma rev_destroy:
  "tc_rev (classify_destroy a r) =
     (if marked (ch_before (rs_change r)) then Irreversible
      else case class_of_type (ta_catalog a) (rs_type r) of
             None \<Rightarrow> Unknown | Some k \<Rightarrow> if k = Stateful then Irreversible else Costly)"
proof (cases "has_disabled_safety (ch_before (rs_change r))")
  case (Some key)
  then show ?thesis by (simp add: classify_destroy_def Let_def marked_iff)
next
  case None
  show ?thesis
  proof (cases "has_stateful_evidence (ch_before (rs_change r))")
    case (Some key)
    with None show ?thesis by (simp add: classify_destroy_def Let_def class_of_def marked_iff)
  next
    case none: None
    show ?thesis
      by (cases "cg_by_type (ta_catalog a) (rs_type r)")
        (simp_all add: classify_destroy_def Let_def class_of_def class_of_type_def marked_iff None none)
  qed
qed

lemma rev_update:
  "tc_rev (classify_update r) = (if transition (rs_change r) then Irreversible else Reversible)"
proof -
  let ?P = "\<lambda>t. fires t (ch_before (rs_change r)) (ch_after (rs_change r))"
  have "transition (rs_change r) \<longleftrightarrow> find ?P safety_transitions \<noteq> None"
    unfolding transition_def list_ex_iff find_None_iff by auto
  then show ?thesis
    by (cases "find ?P safety_transitions") (simp_all add: classify_update_def)
qed

lemma verdict_of_eq:
  "verdict_of a r =
     (if rs_mode r = ''data'' then None
      else if change_destroys (rs_change r) then
        Some (if marked (ch_before (rs_change r)) then Irreversible
              else case class_of_type (ta_catalog a) (rs_type r) of
                     None \<Rightarrow> Unknown | Some k \<Rightarrow> if k = Stateful then Irreversible else Costly)
      else if change_updates (rs_change r) then
        Some (if transition (rs_change r) then Irreversible else Reversible)
      else if change_creates (rs_change r) then Some Reversible else None)"
  by (simp add: verdict_of_def classify_change_def rev_destroy rev_update)

lemma updates_not_destroys: "change_updates c \<Longrightarrow> \<not> change_destroys c"
  by (simp add: change_updates_def change_destroys_def)

lemma rule_TF010:
  "classify_change a r = Some c \<Longrightarrow> tc_rule c = ''TF010'' \<Longrightarrow>
     rs_mode r \<noteq> ''data'' \<and> change_destroys (rs_change r) \<and> \<not> marked (ch_before (rs_change r))
     \<and> class_of_type (ta_catalog a) (rs_type r) = None"
proof -
  assume c: "classify_change a r = Some c" and ten: "tc_rule c = ''TF010''"
  have "tc_rule (classify_update r) \<noteq> ''TF010''"
    by (cases "find (\<lambda>t. fires t (ch_before (rs_change r)) (ch_after (rs_change r))) safety_transitions")
      (simp_all add: classify_update_def)
  with c ten have mode: "rs_mode r \<noteq> ''data''" "change_destroys (rs_change r)" "c = classify_destroy a r"
    by (auto simp: classify_change_def split: if_splits)
  have no_pick: "pick b ''TF002'' ''TF001'' \<noteq> ''TF010''" "pick b ''TF006'' ''TF005'' \<noteq> ''TF010''" for b
    by (simp_all add: pick_def)
  from mode(3) ten have "has_disabled_safety (ch_before (rs_change r)) = None \<and> class_of a r = None"
    by (auto simp: classify_destroy_def Let_def no_pick split: option.splits prod.splits if_splits)
  with mode show ?thesis
    by (auto simp: class_of_def marked_iff class_of_type_def split: option.splits)
qed

lemma unclassified_rule:
  assumes "rs_mode r \<noteq> ''data''" and "change_destroys (rs_change r)" and "\<not> marked (ch_before (rs_change r))"
    and "class_of_type (ta_catalog a) (rs_type r) = None"
  shows "\<exists>c. classify_change a r = Some c \<and> tc_rule c = ''TF010''"
  using assms by (simp add: classify_change_def classify_destroy_def Let_def class_of_def marked_iff class_of_type_def)

subsection \<open>Overrides\<close>

definition override_ok :: "tf_analyzer \<Rightarrow> tf_override \<Rightarrow> bool" where
  "override_ok a ov \<longleftrightarrow> trim_space (ov_type ov) \<noteq> [] \<and> class_valid (ov_class ov)
     \<and> (case class_of_type (ta_catalog a) (ov_type ov) of
          None \<Rightarrow> True | Some k \<Rightarrow> at_least_as_severe_as (ov_class ov) k)"

lemma apply_override_Inr:
  "(\<exists>a'. apply_override a ov = Inr a') \<longleftrightarrow> override_ok a ov"
  "apply_override a ov = Inr a' \<Longrightarrow> class_of_type (ta_catalog a') = (class_of_type (ta_catalog a))(ov_type ov \<mapsto> ov_class ov)"
proof -
  show "(\<exists>a'. apply_override a ov = Inr a') \<longleftrightarrow> override_ok a ov"
    by (cases "cg_by_type (ta_catalog a) (ov_type ov)")
      (simp_all add: apply_override_def override_ok_def class_of_type_def Let_def)
  show "apply_override a ov = Inr a' \<Longrightarrow> class_of_type (ta_catalog a') = (class_of_type (ta_catalog a))(ov_type ov \<mapsto> ov_class ov)"
    by (cases "cg_by_type (ta_catalog a) (ov_type ov)")
      (auto simp: apply_override_def class_of_type_def Let_def fun_eq_iff split: if_splits)
qed

lemma at_least_as_severe_trans:
  "at_least_as_severe_as a b \<Longrightarrow> at_least_as_severe_as b c \<Longrightarrow> at_least_as_severe_as a c"
  by (simp add: at_least_as_severe_as_def)

lemma apply_all_tightens:
  assumes "apply_all_overrides a ovs = Inr a'" and "class_of_type (ta_catalog a) t = Some k"
  shows "\<exists>k'. class_of_type (ta_catalog a') t = Some k' \<and> at_least_as_severe_as k' k"
  using assms
proof (induction ovs arbitrary: a k)
  case Nil
  then show ?case by (simp add: at_least_as_severe_as_def)
next
  case (Cons ov ovs)
  from Cons.prems(1) obtain b where b: "apply_override a ov = Inr b" "apply_all_overrides b ovs = Inr a'"
    by (auto split: sum.splits)
  then have ok: "override_ok a ov" using apply_override_Inr(1) by blast
  define k1 where "k1 = (if t = ov_type ov then ov_class ov else k)"
  have "class_of_type (ta_catalog b) t = Some k1"
    using apply_override_Inr(2) [OF b(1)] Cons.prems(2) by (simp add: k1_def)
  moreover have "at_least_as_severe_as k1 k"
    using ok Cons.prems(2) by (auto simp: k1_def override_ok_def at_least_as_severe_as_def)
  ultimately show ?case using Cons.IH [OF b(2)] at_least_as_severe_trans by blast
qed

lemma apply_all_append:
  "apply_all_overrides a (ovs @ ovs') =
     (case apply_all_overrides a ovs of Inl err \<Rightarrow> Inl err | Inr b \<Rightarrow> apply_all_overrides b ovs')"
  by (induction ovs arbitrary: a) (auto split: sum.split)

text \<open>Classifying types as \<open>STATEFUL\<close> is always accepted.\<close>

definition stateful_overrides :: "string list \<Rightarrow> tf_override list" where
  "stateful_overrides types = map (\<lambda>t. \<lparr>ov_type = t, ov_class = Stateful\<rparr>) types"

lemma stateful_accepted:
  assumes "list_all (\<lambda>t. trim_space t \<noteq> []) types"
  shows "\<exists>b. apply_all_overrides a (stateful_overrides types) = Inr b
    \<and> (\<forall>t. class_of_type (ta_catalog b) t =
         (if t \<in> set types then Some Stateful else class_of_type (ta_catalog a) t))"
  using assms
proof (induction types arbitrary: a)
  case Nil
  then show ?case by (simp add: stateful_overrides_def)
next
  case (Cons t ts)
  then have "override_ok a \<lparr>ov_type = t, ov_class = Stateful\<rparr>"
    by (simp add: override_ok_def at_least_as_severe_as_def split: option.split)
      (metis class_severity.simps order.refl tf_class.exhaust zero_le_one)
  then obtain b where b: "apply_override a \<lparr>ov_type = t, ov_class = Stateful\<rparr> = Inr b"
    using apply_override_Inr(1) by blast
  from Cons obtain c where "apply_all_overrides b (stateful_overrides ts) = Inr c"
    and "\<forall>u. class_of_type (ta_catalog c) u = (if u \<in> set ts then Some Stateful else class_of_type (ta_catalog b) u)"
    by force
  with b apply_override_Inr(2) [OF b] show ?case by (auto simp: stateful_overrides_def)
qed

lemma new_terraform_Inr:
  "new_terraform embedded (Some c) ovs extra = Inr a \<longleftrightarrow>
     (\<exists>b. apply_all_overrides \<lparr>ta_catalog = c, ta_overrides = (\<lambda>t. None), ta_extra = []\<rparr> ovs = Inr b
        \<and> a = b\<lparr>ta_extra := map normalize_path extra\<rparr>)"
  by (auto simp: new_terraform_def split: sum.split)

subsection \<open>Findings\<close>

lemma terraform_findings_source:
  assumes "g \<in> set (terraform_findings a unmarshal files)"
  shows "\<exists>f\<in>set files. plan_read a f \<and> g \<in> set (analyze_plan a unmarshal f)"
  using assms by (auto simp: terraform_findings_def split: if_splits)

lemma terraform_findings_set:
  "set (terraform_findings a unmarshal files)
     = (\<Union>f\<in>{f \<in> set files. plan_read a f}. set (analyze_plan a unmarshal f))"
  by (auto simp: terraform_findings_def)

lemma map_filter_source: "set (List.map_filter g xs) = {y. \<exists>x\<in>set xs. g x = Some y}"
  by (induction xs) (auto simp: map_filter_simps split: option.splits)

lemma analyze_plan_source:
  assumes "g \<in> set (analyze_plan a unmarshal f)"
  shows "(\<exists>err. decode_plan unmarshal (p_current f) = Inl err \<and> g = unread_plan_finding f err)
    \<or> (\<exists>p r c. decode_plan unmarshal (p_current f) = Inr p \<and> r \<in> set (pl_changes p)
         \<and> classify_change a r = Some c \<and> g = change_finding (p_path f) r c)"
  using assms unfolding analyze_plan_def
  by (auto simp: map_filter_source split: sum.splits)

lemma analyze_plan_change:
  assumes "decode_plan unmarshal (p_current f) = Inr p" and "r \<in> set (pl_changes p)" and "classify_change a r = Some c"
  shows "change_finding (p_path f) r c \<in> set (analyze_plan a unmarshal f)"
  using assms unfolding analyze_plan_def by (auto simp: map_filter_source)

lemma rev_valid_change: "classify_change a r = Some c \<Longrightarrow> rev_valid (tc_rev c)"
proof -
  assume "classify_change a r = Some c"
  then have "verdict_of a r = Some (tc_rev c)" by (simp add: verdict_of_def)
  then show ?thesis by (auto simp: verdict_of_eq split: if_splits option.splits)
qed

lemma terraform_findings_order:
  "mset files = mset files' \<Longrightarrow> distinct (map p_path files) \<Longrightarrow>
     terraform_findings a unmarshal files = terraform_findings a unmarshal files'"
  unfolding terraform_findings_def by (simp add: sort_by_path_permutation)

interpretation tf: analyzer_contract "tf_supports a" "terraform_analyze a unmarshal cancelled"
  for a unmarshal cancelled
proof
  fix files fs g
  assume "terraform_analyze a unmarshal cancelled files = Done fs" and "g \<in> set fs"
  then have "g \<in> set (terraform_findings a unmarshal files)"
    by (auto simp: terraform_analyze_def split: option.splits)
  then obtain f where f: "f \<in> set files" "plan_read a f" "g \<in> set (analyze_plan a unmarshal f)"
    using terraform_findings_source by blast
  from analyze_plan_source [OF f(3)] show "\<exists>c\<in>set files. p_path c = f_file g \<and> tf_supports a (location_of c)"
    using f(1,2) by (auto simp: plan_read_def unread_plan_finding_def change_finding_def)
  from analyze_plan_source [OF f(3)]
  show "rev_valid (f_reversibility g) \<and> lock_valid (f_lock g) \<and> f_context g = None"
    by (auto simp: unread_plan_finding_def change_finding_def rev_valid_change)
next
  fix files files' :: "changed_file list"
  assume "mset files = mset files'" and "distinct (map p_path files)"
  then have "terraform_findings a unmarshal files = terraform_findings a unmarshal files'"
    by (rule terraform_findings_order)
  then show "terraform_analyze a unmarshal cancelled files = terraform_analyze a unmarshal cancelled files'"
    by (simp only: terraform_analyze_def)
qed

text \<open>A plan named on the command line is claimed under its own path only: one directory more or less in
  the spelling and it is not.\<close>

theorem plan_paths_compared_exactly:
  "\<exists>a. new_terraform (Inl []) (Some c) [] [''a/plan.json''] = Inr a \<and> tf_supports a ''a/plan.json''
     \<and> \<not> tf_supports a ''b/a/plan.json'' \<and> \<not> tf_supports a ''plan.json''"
proof -
  have "normalize_path ''a/plan.json'' = ''a/plan.json''" by code_simp
  then show ?thesis
    by (simp add: new_terraform_def tf_supports_def has_suffix_def has_prefix_def plan_suffix_def)
qed

subsection \<open>Plans that can be let through\<close>

definition harmless_change :: "resource_change \<Rightarrow> bool" where
  "harmless_change r \<longleftrightarrow>
     (if rs_mode r = ''data'' then True
      else \<not> change_destroys (rs_change r) \<and> \<not> (change_updates (rs_change r) \<and> transition (rs_change r)))"

definition plan_harmless :: "(string \<Rightarrow> string + tf_plan) \<Rightarrow> changed_file \<Rightarrow> bool" where
  "plan_harmless unmarshal f =
     (case decode_plan unmarshal (p_current f) of
        Inl err \<Rightarrow> False | Inr p \<Rightarrow> list_all harmless_change (pl_changes p))"

lemma harmless_iff:
  "harmless_change r \<longleftrightarrow> (case verdict_of a r of None \<Rightarrow> True | Some v \<Rightarrow> v = Reversible)"
proof (cases "rs_mode r = ''data''")
  case True
  then show ?thesis by (simp add: harmless_change_def verdict_of_eq)
next
  case managed: False
  show ?thesis
  proof (cases "change_destroys (rs_change r)")
    case True
    with managed show ?thesis
      by (auto simp: harmless_change_def verdict_of_eq split: option.split)
  next
    case False
    with managed show ?thesis by (simp add: harmless_change_def verdict_of_eq)
  qed
qed

lemma harmless_plan:
  assumes "\<forall>g\<in>set (analyze_plan a unmarshal f). f_reversibility g = Reversible"
  shows "plan_harmless unmarshal f"
proof (cases "decode_plan unmarshal (p_current f)")
  case (Inl err)
  with assms show ?thesis by (simp add: analyze_plan_def unread_plan_finding_def)
next
  case (Inr p)
  have "harmless_change r" if "r \<in> set (pl_changes p)" for r
  proof (cases "classify_change a r")
    case None
    then show ?thesis by (simp add: harmless_iff [of r a] verdict_of_def)
  next
    case (Some c)
    with assms analyze_plan_change [OF Inr that Some] have "tc_rev c = Reversible"
      by (force simp: change_finding_def)
    with Some show ?thesis by (simp add: harmless_iff [of r a] verdict_of_def)
  qed
  with Inr show ?thesis by (simp add: plan_harmless_def list_all_iff)
qed

text \<open>What a \<open>PASS\<close> of an engine with this analyzer says of the plans.\<close>

lemma passing_plans:
  assumes "c_gate (fst (certify sha e cancelled c given)) = GatePass"
    and "terraform_analyzer a unmarshal ctx \<in> set (e_analyzers e)"
  shows "list_all (\<lambda>f. if plan_read a f then plan_harmless unmarshal f else True) (stamp_located given (locator c))"
proof -
  let ?files = "stamp_located given (locator c)"
  from registered_pass [OF assms] have "list_all blocks_nothing (terraform_findings a unmarshal ?files)"
    by (auto simp: terraform_analyzer_def terraform_analyze_def split: option.splits)
  then have "plan_harmless unmarshal f" if "f \<in> set ?files" "plan_read a f" for f
    using that by (intro harmless_plan [of a]) (auto simp: list_all_iff terraform_findings_set blocks_nothing_def)
  then show ?thesis by (simp add: list_all_iff)
qed

subsection \<open>Properties\<close>

text \<open>C3. What a \<open>PASS\<close> means for infrastructure: with the analyzer registered, whatever else the engine
  holds, every plan of the change that is claimed can be read, and no managed resource in it is destroyed
  or replaced, and no update in it switches a recovery capability off.\<close>

theorem pass_means_no_destruction:
  assumes "c_gate (fst (certify sha e cancelled c given)) = GatePass"
    and "terraform_analyzer a unmarshal ctx \<in> set (e_analyzers e)"
  shows "list_all (\<lambda>f. if plan_read a f then plan_harmless unmarshal f else True) (stamp_located given (locator c))"
  using assms by (rule passing_plans)

text \<open>C18. The verdict on a change, stated without the order of the rules: irreversible exactly when a managed
  resource is destroyed that was configured to leave nothing behind, that shows evidence of state, or whose
  type is classified \<open>STATEFUL\<close>, or when an update makes one of the listed transitions; unknown exactly when
  a resource of an unclassified type without such marks is destroyed.\<close>

theorem terraform_verdict_exact:
  "(verdict_of a r = Some Irreversible \<longleftrightarrow> rs_mode r \<noteq> ''data'' \<and>
      (if change_destroys (rs_change r)
       then marked (ch_before (rs_change r)) \<or> class_of_type (ta_catalog a) (rs_type r) = Some Stateful
       else change_updates (rs_change r) \<and> transition (rs_change r)))
   \<and> (verdict_of a r = Some Unknown \<longleftrightarrow> rs_mode r \<noteq> ''data'' \<and> change_destroys (rs_change r)
      \<and> \<not> marked (ch_before (rs_change r)) \<and> class_of_type (ta_catalog a) (rs_type r) = None)"
  unfolding verdict_of_eq by (auto split: option.split if_splits)

lemma lookup_from_mono:
  assumes "map_of b \<subseteq>\<^sub>m map_of b'" and "lookup_path b path = Some v" and "path \<noteq> []"
  shows "lookup_path b' path = Some v"
proof -
  obtain key rest where path: "path = key # rest" using assms(3) by (cases path) auto
  with assms(2) obtain w where w: "attr b key = Some w" "lookup_from w rest = Some v"
    by (auto simp: lookup_path_def split: option.splits)
  then have "attr b' key = Some w" using assms(1) by (auto simp: attr_def map_le_def dom_def)
  with path w(2) show ?thesis by (simp add: lookup_path_def)
qed

lemma transition_paths: "t \<in> set safety_transitions \<Longrightarrow> tr_path t \<noteq> []"
  by (auto simp: safety_transitions_def from_true_def to_true_def from_pos_def)

lemma fires_mono:
  assumes "map_of b \<subseteq>\<^sub>m map_of b'" and "t \<in> set safety_transitions" and "fires t b after"
  shows "fires t b' after"
proof -
  from assms(3) obtain v where v: "lookup_path b (tr_path t) = Some v"
    by (auto simp: fires_def split: option.splits)
  from lookup_from_mono [OF assms(1) v transition_paths [OF assms(2)]] assms(3) v show ?thesis
    by (simp add: fires_def)
qed

lemma marked_mono:
  assumes "map_of b \<subseteq>\<^sub>m map_of b'" and "marked b"
  shows "marked b'"
proof -
  have "attr b' key = Some v" if "attr b key = Some v" for key v
    using assms(1) that by (auto simp: attr_def map_le_def dom_def)
  with assms(2) show ?thesis
    unfolding marked_def list_ex_iff by (fastforce split: option.splits)
qed

text \<open>Evidence only raises: when the plan shows more about the object before the change, nothing it
  showed being withdrawn, the verdict is at least as severe.\<close>

theorem evidence_only_raises:
  assumes "map_of (ch_before (rs_change r)) \<subseteq>\<^sub>m map_of b"
    and "verdict_of a r = Some v"
  shows "\<exists>v'. verdict_of a (r\<lparr>rs_change := (rs_change r)\<lparr>ch_before := b\<rparr>\<rparr>) = Some v'
    \<and> rev_severity v \<le> rev_severity v'"
proof -
  let ?c = "(rs_change r)\<lparr>ch_before := b\<rparr>"
  have same: "change_destroys ?c = change_destroys (rs_change r)" "change_updates ?c = change_updates (rs_change r)"
    "change_creates ?c = change_creates (rs_change r)"
    by (simp_all add: change_destroys_def change_updates_def change_creates_def)
  have m: "marked (ch_before (rs_change r)) \<Longrightarrow> marked b" using marked_mono [OF assms(1)] .
  have t: "transition (rs_change r) \<Longrightarrow> transition ?c"
    using fires_mono [OF assms(1)] by (auto simp: transition_def list_ex_iff)
  show ?thesis
    using assms(2) m t unfolding verdict_of_eq same
    by (auto simp: same split: if_splits option.splits)
qed

text \<open>A destroyed database that shows more and more.\<close>

definition sample_change :: "string list \<Rightarrow> string \<Rightarrow> attributes \<Rightarrow> resource_change" where
  "sample_change actions t before =
     \<lparr>rs_address = ''m.'' @ t, rs_mode = ''managed'', rs_type = t, rs_name = ''m'', rs_provider = ''p'',
      rs_change = \<lparr>ch_actions = actions, ch_before = before, ch_after = []\<rparr>\<rparr>"

definition sample_terraform :: tf_analyzer where
  "sample_terraform = \<lparr>ta_catalog = sample_catalog [], ta_overrides = (\<lambda>t. None), ta_extra = []\<rparr>"

lemma sample_classes: "class_of_type (sample_catalog raw) = [''db'' \<mapsto> Stateful, ''vm'' \<mapsto> Stateless]"
  by (cases "raw = []") (simp_all add: sample_defs class_of_type_def fun_eq_iff)

lemma sample_verdict: "verdict_of sample_terraform (sample_change [''delete''] ''vm'' []) = Some Costly"
  by (simp add: verdict_of_eq sample_change_def sample_terraform_def sample_classes change_destroys_def
      marked_def disabled_safety_keys_def stateful_evidence_keys_def)

theorem evidence_only_raises_witness:
  "\<exists>v'. verdict_of sample_terraform (sample_change [''delete''] ''vm'' [(''kms_key_id'', JStr ''k'')]) = Some v'
     \<and> rev_severity Costly \<le> rev_severity v'"
  using evidence_only_raises [of "sample_change [''delete''] ''vm'' []" "[(''kms_key_id'', JStr ''k'')]", OF _ sample_verdict]
  by (simp add: sample_change_def)

text \<open>What the user's \<open>terraform_types\<close> can do: when they are accepted, every type the catalog knows
  keeps a class at least as severe, and no change of a resource of such a type gets a milder verdict.\<close>

theorem terraform_overrides_only_tighten:
  assumes "new_terraform embedded (Some c) ovs extra = Inr a"
    and "new_terraform embedded (Some c) [] extra = Inr a0"
    and "class_of_type c (rs_type r) = Some k" and "verdict_of a0 r = Some v"
  shows "\<exists>v'. verdict_of a r = Some v' \<and> rev_severity v \<le> rev_severity v'"
proof -
  from assms(2) have "ta_catalog a0 = c" by (auto simp: new_terraform_Inr)
  with assms(3) have a0: "class_of_type (ta_catalog a0) (rs_type r) = Some k" by simp
  from assms(1) obtain b where b: "apply_all_overrides \<lparr>ta_catalog = c, ta_overrides = (\<lambda>t. None), ta_extra = []\<rparr> ovs = Inr b"
    and a: "ta_catalog a = ta_catalog b" by (auto simp: new_terraform_Inr)
  from apply_all_tightens [OF b, of "rs_type r" k] assms(3) a
  obtain k' where k': "class_of_type (ta_catalog a) (rs_type r) = Some k'" "at_least_as_severe_as k' k" by auto
  have "k = Stateful \<Longrightarrow> k' = Stateful" using k'(2) by (cases k') (simp_all add: at_least_as_severe_as_def)
  with assms(4) show ?thesis
    unfolding verdict_of_eq a0 k'(1) by (auto split: if_splits)
qed

lemma sample_override:
  "\<exists>a. new_terraform (Inl []) (Some (sample_catalog [])) [\<lparr>ov_type = ''vm'', ov_class = Stateful\<rparr>] [] = Inr a"
  by (simp add: sample_defs new_terraform_def apply_override_def at_least_as_severe_as_def)

theorem terraform_overrides_only_tighten_witness:
  "\<exists>a v'. new_terraform (Inl []) (Some (sample_catalog [])) [\<lparr>ov_type = ''vm'', ov_class = Stateful\<rparr>] [] = Inr a
     \<and> verdict_of a (sample_change [''delete''] ''vm'' []) = Some v' \<and> rev_severity Costly \<le> rev_severity v'"
proof -
  have plain: "new_terraform (Inl []) (Some (sample_catalog [])) [] [] = Inr sample_terraform"
    by (simp add: new_terraform_def sample_terraform_def)
  from sample_override obtain a
    where a: "new_terraform (Inl []) (Some (sample_catalog [])) [\<lparr>ov_type = ''vm'', ov_class = Stateful\<rparr>] [] = Inr a" ..
  from terraform_overrides_only_tighten [OF a plain, of "sample_change [''delete''] ''vm'' []" Stateless]
  have "\<exists>v'. verdict_of a (sample_change [''delete''] ''vm'' []) = Some v' \<and> rev_severity Costly \<le> rev_severity v'"
    by (simp add: sample_classes sample_verdict) (simp add: sample_change_def)
  with a show ?thesis by blast
qed

text \<open>The remedy that the output offers for unclassified types works: classifying all of them as the
  snippet does is accepted, and the next run over the same changeset finds no unclassified type.\<close>

theorem snippet_closes_the_gap:
  assumes "new_terraform embedded (Some c) ovs extra = Inr a"
    and "types = unclassified_types (terraform_findings a unmarshal files)"
    and "list_all (\<lambda>t. trim_space t \<noteq> []) types"
  shows "\<exists>a'. new_terraform embedded (Some c) (ovs @ stateful_overrides types) extra = Inr a'
    \<and> unclassified_types (terraform_findings a' unmarshal files) = []"
proof -
  from assms(1) obtain b where b: "apply_all_overrides \<lparr>ta_catalog = c, ta_overrides = (\<lambda>t. None), ta_extra = []\<rparr> ovs = Inr b"
    and a: "a = b\<lparr>ta_extra := map normalize_path extra\<rparr>" by (auto simp: new_terraform_Inr)
  from stateful_accepted [OF assms(3), of b] obtain d where d: "apply_all_overrides b (stateful_overrides types) = Inr d"
    and cls: "\<And>t. class_of_type (ta_catalog d) t = (if t \<in> set types then Some Stateful else class_of_type (ta_catalog b) t)"
    by blast
  define a' where "a' = d\<lparr>ta_extra := map normalize_path extra\<rparr>"
  have new: "new_terraform embedded (Some c) (ovs @ stateful_overrides types) extra = Inr a'"
    using b d by (auto simp: new_terraform_Inr apply_all_append a'_def)
  have reads: "plan_read a' f = plan_read a f" for f by (simp add: plan_read_def tf_supports_def a a'_def)
  have False if g: "g \<in> set (terraform_findings a' unmarshal files)" "f_rule_id g = ''TF010''" "s_relation (f_subject g) \<noteq> []" for g
  proof -
    from g(1) obtain f where f: "f \<in> set files" "plan_read a' f" "g \<in> set (analyze_plan a' unmarshal f)"
      using terraform_findings_source by blast
    from analyze_plan_source [OF f(3)] g(2) obtain p r k where
      p: "decode_plan unmarshal (p_current f) = Inr p" "r \<in> set (pl_changes p)" and k: "classify_change a' r = Some k"
      and gk: "g = change_finding (p_path f) r k" by (auto simp: unread_plan_finding_def)
    from gk g(2) have "tc_rule k = ''TF010''" by (simp add: change_finding_def)
    note r = rule_TF010 [OF k this]
    then have old: "class_of_type (ta_catalog a) (rs_type r) = None" and new: "rs_type r \<notin> set types"
      using cls [of "rs_type r"] by (auto simp: a a'_def split: if_splits)
    from unclassified_rule [OF _ _ _ old] r obtain k0 where k0: "classify_change a r = Some k0" "tc_rule k0 = ''TF010''"
      by blast
    have "change_finding (p_path f) r k0 \<in> set (terraform_findings a unmarshal files)"
      using analyze_plan_change [OF p k0(1)] f(1,2) reads by (auto simp: terraform_findings_set)
    then have "rs_type r \<in> set types"
      using k0(2) g(3) gk unfolding assms(2) unclassified_types_def
      by (force simp: change_finding_def)
    with new show False by simp
  qed
  then have "unclassified_types (terraform_findings a' unmarshal files) = []"
    by (auto simp: unclassified_types_def sorted_keys_def filter_empty_conv)
  with new show ?thesis by blast
qed

definition sample_plan :: "resource_change list \<Rightarrow> tf_plan" where
  "sample_plan rs = \<lparr>pl_format = ''1.0'', pl_terraform = ''1'', pl_changes = rs\<rparr>"

definition bare_terraform :: tf_analyzer where
  "bare_terraform =
     \<lparr>ta_catalog = \<lparr>cg_version = ''1'', cg_provider = ''p'', cg_entries = [], cg_digest = [],
                    cg_by_type = (\<lambda>t. None)\<rparr>,
      ta_overrides = (\<lambda>t. None), ta_extra = []\<rparr>"

lemma bare_terraform_new: "new_terraform (Inl []) (Some (ta_catalog bare_terraform)) [] [] = Inr bare_terraform"
  by (simp add: new_terraform_def bare_terraform_def)

definition delete_plan :: "string \<Rightarrow> string + tf_plan" where
  "delete_plan raw = Inr (sample_plan [sample_change [''delete''] ''x'' []])"

lemma sample_unclassified:
  "unclassified_types (terraform_findings bare_terraform delete_plan [bare_file ''a.tfplan.json'']) = [''x'']"
  by code_simp

theorem snippet_closes_the_gap_witness:
  "\<exists>a'. new_terraform (Inl []) (Some (ta_catalog bare_terraform)) (stateful_overrides [''x'']) [] = Inr a'
     \<and> unclassified_types (terraform_findings a' delete_plan [bare_file ''a.tfplan.json'']) = []"
  using snippet_closes_the_gap [OF bare_terraform_new sample_unclassified [symmetric]]
  by (simp add: trim_space_def is_space_def)

text \<open>A plan that creates one resource passes.\<close>

definition create_plan :: "string \<Rightarrow> string + tf_plan" where
  "create_plan raw = Inr (sample_plan [sample_change [''create''] ''x'' []])"

definition terraform_engine :: engine where
  "terraform_engine = new_engine [terraform_analyzer bare_terraform create_plan None] None 0 None"

lemma create_plan_passes:
  "c_gate (fst (certify (\<lambda>b. b) terraform_engine None (plain_run\<lparr>rc_enumerated := []\<rparr>) [bare_file ''a.tfplan.json''])) = GatePass"
  by code_simp

theorem pass_means_no_destruction_witness:
  "list_all (\<lambda>f. if plan_read bare_terraform f then plan_harmless create_plan f else True)
     (stamp_located [bare_file ''a.tfplan.json''] (locator (plain_run\<lparr>rc_enumerated := []\<rparr>)))"
  by (rule pass_means_no_destruction [OF create_plan_passes]) (simp add: terraform_engine_def new_engine_def)

end
