(* ===== verification/Provider_Fs.thy ===== *)
theory Provider_Fs
  imports Provider
begin

text \<open>
  The file system provider, \<open>internal/provider/fs.go\<close>. A disk gives every name on the command line a tree
  or an error. A tree tells regular files, directories with their entries in the order \<open>os.ReadDir\<close>
  returns, and symbolic links with what they lead to; what cannot be read carries its error. \<open>os.Stat\<close>
  and \<open>os.ReadFile\<close> follow links, \<open>filepath.WalkDir\<close> does not, not even at its root. A Go map is a list
  of its keys or of its bindings, the latest first; every loop over one is followed by a sort.
\<close>

subsection \<open>Trees\<close>

datatype node =
    Regular "string + string"
  | Directory "string + (string \<times> node) list"
  | Symlink "string + node"

type_synonym disk = "string \<Rightarrow> string + node"

fun follow :: "node \<Rightarrow> string + node" where
  "follow (Symlink (Inl e)) = Inl e"
| "follow (Symlink (Inr n)) = follow n"
| "follow n = Inr n"

fun is_directory :: "node \<Rightarrow> bool" where
  "is_directory (Directory d) = True"
| "is_directory n = False"

definition os_stat :: "disk \<Rightarrow> string \<Rightarrow> string + node" where
  "os_stat disk name = and_then (disk name) follow"

definition read_file :: "node \<Rightarrow> string + string" where
  "read_file n = and_then (follow n) (\<lambda>m. case m of Regular content \<Rightarrow> content | _ \<Rightarrow> Inl ''is a directory'')"

text \<open>\<open>filepath.WalkDir\<close> below a directory: \<open>skip\<close> tells the directories that are left out, \<open>visit\<close>
  is called on everything else with its name and its path relative to the root.\<close>

type_synonym 's visitor = "string \<Rightarrow> string \<Rightarrow> node \<Rightarrow> 's \<Rightarrow> string + 's"

fun walk_entries ::
  "(string \<Rightarrow> bool) \<Rightarrow> 's visitor \<Rightarrow> string \<Rightarrow> (string \<times> node) list \<Rightarrow> 's \<Rightarrow> string + 's" where
  "walk_entries skip visit prefix [] s = Inr s"
| "walk_entries skip visit prefix ((name, Directory d) # es) s =
     (if skip name then walk_entries skip visit prefix es s
      else case d of
        Inl e \<Rightarrow> Inl e
      | Inr inner \<Rightarrow>
          and_then (walk_entries skip visit (prefix @ name @ ''/'') inner s)
            (walk_entries skip visit prefix es))"
| "walk_entries skip visit prefix ((name, n) # es) s =
     and_then (visit name (prefix @ name) n s) (walk_entries skip visit prefix es)"

text \<open>From a root; a link at the root is visited itself, under the path that \<open>filepath.Rel\<close> gives a
  root relative to itself.\<close>

definition walk_dir :: "(string \<Rightarrow> bool) \<Rightarrow> 's visitor \<Rightarrow> disk \<Rightarrow> string \<Rightarrow> 's \<Rightarrow> string + 's" where
  "walk_dir skip visit disk root s =
     and_then (disk root) (\<lambda>n. case n of
        Directory d \<Rightarrow> and_then d (\<lambda>es. walk_entries skip visit [] es s)
      | _ \<Rightarrow> visit (path_base root) ''.'' n s)"

subsection \<open>The file system provider\<close>

definition skip_dir :: "string \<Rightarrow> bool" where
  "skip_dir name \<longleftrightarrow>
     name \<in> {''.git'', ''.hg'', ''.svn'', ''node_modules'', ''vendor'', ''.terraform''}
     \<or> has_prefix name ''.'' \<and> name \<noteq> ''.''"

fun visit_name :: "string list visitor" where
  "visit_name name path n names = Inr (path # names)"

definition read_as :: "string \<Rightarrow> node \<Rightarrow> string + string" where
  "read_as path n = map_sum (\<lambda>e. ''reading '' @ path @ '': '' @ e) (\<lambda>x. x) (read_file n)"

fun visit_content :: "string \<Rightarrow> string list \<Rightarrow> (string \<times> string) list visitor" where
  "visit_content root wanted name path n out =
     (if path \<notin> set wanted then Inr out
      else and_then (read_as (path_join [root, path]) n) (\<lambda>content. Inr ((path, content) # out)))"

definition walking :: "string \<Rightarrow> string + 'a \<Rightarrow> string + 'a" where
  "walking root r = map_sum (\<lambda>e. ''fs provider: walking '' @ root @ '': '' @ e) (\<lambda>x. x) r"

definition stat_root :: "disk \<Rightarrow> string \<Rightarrow> string + node" where
  "stat_root disk root = map_sum (\<lambda>e. ''fs provider: '' @ root @ '': '' @ e) (\<lambda>x. x) (os_stat disk root)"

fun list_trees :: "disk \<Rightarrow> string list \<Rightarrow> string list \<Rightarrow> string + string list" where
  "list_trees disk [] out = Inr out"
| "list_trees disk (root # roots) out =
     and_then (stat_root disk root) (\<lambda>info.
       if \<not> is_directory info then list_trees disk roots (path_base root # out)
       else and_then (walking root (walk_dir skip_dir visit_name disk root out)) (list_trees disk roots))"

fun read_trees ::
  "disk \<Rightarrow> string list \<Rightarrow> string list \<Rightarrow> (string \<times> string) list \<Rightarrow> string + (string \<times> string) list" where
  "read_trees disk wanted [] out = Inr out"
| "read_trees disk wanted (root # roots) out =
     and_then (stat_root disk root) (\<lambda>info.
       if \<not> is_directory info then
         (if path_base root \<in> set wanted then
            and_then (map_sum (\<lambda>e. ''fs provider: '' @ e) (\<lambda>x. x) (read_as root info)) (\<lambda>content.
              read_trees disk wanted roots ((path_base root, content) # out))
          else read_trees disk wanted roots out)
       else and_then (walking root (walk_dir skip_dir (visit_content root wanted) disk root out))
         (read_trees disk wanted roots))"

definition fs_path :: "string \<Rightarrow> change_status \<Rightarrow> provider_path" where
  "fs_path p status = \<lparr>pp_path = p, pp_prev_path = [], pp_status = status\<rparr>"

definition fs_file :: "string \<Rightarrow> change_status \<Rightarrow> string \<Rightarrow> string \<Rightarrow> changed_file" where
  "fs_file path status previous current =
     \<lparr>p_path = path, p_previous_path = [], p_status = status, p_previous = previous, p_current = current,
      p_at = []\<rparr>"

definition diff_listings :: "string list \<Rightarrow> string list \<Rightarrow> provider_path list" where
  "diff_listings old new =
     map (\<lambda>p. fs_path p
            (if p \<notin> set old then StatusAdded else if p \<notin> set new then StatusRemoved else StatusModified))
       (sorted_keys (old @ new))"

definition diff_trees :: "(string \<times> string) list \<Rightarrow> (string \<times> string) list \<Rightarrow> changed_file list" where
  "diff_trees old new =
     map (\<lambda>p. case (map_of old p, map_of new p) of
            (Some previous, Some current) \<Rightarrow> fs_file p StatusModified previous current
          | (None, Some current) \<Rightarrow> fs_file p StatusAdded [] current
          | (previous, None) \<Rightarrow> fs_file p StatusRemoved (case previous of None \<Rightarrow> [] | Some c \<Rightarrow> c) [])
       (sorted_keys (map fst old @ map fst new))"

definition fs_list ::
  "disk \<Rightarrow> string option \<Rightarrow> string list \<Rightarrow> string list \<Rightarrow> string + provider_path list" where
  "fs_list disk cancelled old new =
     (case cancelled of
        Some e \<Rightarrow> Inl (''fs provider: '' @ e)
      | None \<Rightarrow>
          if new = [] \<and> old = [] then Inl ''fs provider: no paths given: domain: file provider failed''
          else
            and_then (list_trees disk new []) (\<lambda>names.
              if old = [] then Inr (map (\<lambda>p. fs_path p StatusAdded) (sorted_keys names))
              else and_then (list_trees disk old []) (\<lambda>old_names. Inr (diff_listings old_names names))))"

definition fs_read ::
  "disk \<Rightarrow> string option \<Rightarrow> string list \<Rightarrow> string list \<Rightarrow> provider_path list \<Rightarrow> string + changed_file list" where
  "fs_read disk cancelled old new paths =
     (case cancelled of
        Some e \<Rightarrow> Inl (''fs provider: '' @ e)
      | None \<Rightarrow>
          (let wanted = map pp_path paths in
           and_then (read_trees disk wanted new []) (\<lambda>files.
             if old = [] then Inr (diff_trees [] files)
             else and_then (read_trees disk wanted old []) (\<lambda>old_files. Inr (diff_trees old_files files)))))"

definition fs_provider :: "disk \<Rightarrow> string option \<Rightarrow> string list \<Rightarrow> string list \<Rightarrow> file_provider" where
  "fs_provider disk cancelled old new =
     \<lparr>fp_list = fs_list disk cancelled old new, fp_read = fs_read disk cancelled old new\<rparr>"

subsection \<open>Listing and reading agree\<close>

lemma leaf_agrees:
  assumes "and_then (visit_content root wanted name path n out) f = Inr out'"
    and "\<And>x out'. f x = Inr out' \<Longrightarrow> \<exists>ns. (\<forall>names. g names = Inr (ns @ names))
      \<and> map fst out' = filter (\<lambda>p. p \<in> set wanted) ns @ map fst x"
  shows "\<exists>ns. (\<forall>names. and_then (visit_name name path n names) g = Inr (ns @ names))
    \<and> map fst out' = filter (\<lambda>p. p \<in> set wanted) ns @ map fst out"
proof -
  from assms(1) obtain x where v: "visit_content root wanted name path n out = Inr x" and "f x = Inr out'"
    by (auto simp: and_then_Inr)
  with assms(2) obtain ns where ns: "\<forall>names. g names = Inr (ns @ names)"
    "map fst out' = filter (\<lambda>p. p \<in> set wanted) ns @ map fst x" by blast
  from v have "map fst x = filter (\<lambda>p. p \<in> set wanted) [path] @ map fst out"
    by (auto simp: and_then_Inr split: if_splits)
  with ns show ?thesis by (intro exI [of _ "ns @ [path]"]) auto
qed

lemma walk_entries_agree:
  "walk_entries skip (visit_content root wanted) prefix es out = Inr out' \<Longrightarrow>
     \<exists>ns. (\<forall>names. walk_entries skip visit_name prefix es names = Inr (ns @ names))
       \<and> map fst out' = filter (\<lambda>p. p \<in> set wanted) ns @ map fst out"
proof (induction skip "visit_content root wanted" prefix es out arbitrary: out' rule: walk_entries.induct)
  case (2 skip prefix name d es out)
  show ?case
  proof (cases "skip name")
    case True
    with 2 show ?thesis by simp
  next
    case False
    with "2.prems" obtain inner mid where d: "d = Inr inner"
      and m: "walk_entries skip (visit_content root wanted) (prefix @ name @ ''/'') inner out = Inr mid"
      and r: "walk_entries skip (visit_content root wanted) prefix es mid = Inr out'"
      by (auto simp: and_then_Inr split: sum.splits)
    from "2.hyps"(2) [OF False d m] obtain ms where
      ms: "\<forall>names. walk_entries skip visit_name (prefix @ name @ ''/'') inner names = Inr (ms @ names)"
      "map fst mid = filter (\<lambda>p. p \<in> set wanted) ms @ map fst out" by blast
    from "2.hyps"(3) [OF False d r] obtain ns where
      ns: "\<forall>names. walk_entries skip visit_name prefix es names = Inr (ns @ names)"
      "map fst out' = filter (\<lambda>p. p \<in> set wanted) ns @ map fst mid" by blast
    from ms ns d False show ?thesis by (intro exI [of _ "ns @ ms"]) simp
  qed
next
  case "3_1"
  from leaf_agrees [OF "3_1.prems" [unfolded walk_entries.simps] "3_1.hyps"] show ?case by simp
next
  case "3_2"
  from leaf_agrees [OF "3_2.prems" [unfolded walk_entries.simps] "3_2.hyps"] show ?case by simp
qed simp

lemma walk_dir_agree:
  assumes "walk_dir skip (visit_content root wanted) disk root' out = Inr out'"
  shows "\<exists>ns. (\<forall>names. walk_dir skip visit_name disk root' names = Inr (ns @ names))
    \<and> map fst out' = filter (\<lambda>p. p \<in> set wanted) ns @ map fst out"
proof -
  from assms obtain n where n: "disk root' = Inr n" by (auto simp: walk_dir_def and_then_Inr)
  show ?thesis
  proof (cases n)
    case (Directory d)
    with n assms obtain es where "d = Inr es"
      and "walk_entries skip (visit_content root wanted) [] es out = Inr out'"
      by (auto simp: walk_dir_def and_then_Inr)
    with n Directory walk_entries_agree show ?thesis by (fastforce simp: walk_dir_def)
  next
    case (Regular c)
    with n assms show ?thesis
      by (intro exI [of _ "[''.'']"]) (auto simp: walk_dir_def and_then_Inr split: if_splits)
  next
    case (Symlink t)
    with n assms show ?thesis
      by (intro exI [of _ "[''.'']"]) (auto simp: walk_dir_def and_then_Inr split: if_splits)
  qed
qed

lemma map_sum_Inr [simp]: "map_sum f (\<lambda>x. x) r = Inr y \<longleftrightarrow> r = Inr y"
  by (cases r) simp_all

lemma walking_Inr [simp]: "walking root r = Inr y \<longleftrightarrow> r = Inr y"
  by (simp add: walking_def)

lemma trees_agree:
  "read_trees disk wanted roots out = Inr out' \<Longrightarrow>
     \<exists>ns. (\<forall>names. list_trees disk roots names = Inr (ns @ names))
       \<and> map fst out' = filter (\<lambda>p. p \<in> set wanted) ns @ map fst out"
proof (induction disk wanted roots out arbitrary: out' rule: read_trees.induct)
  case (2 disk wanted root roots out)
  from "2.prems" obtain info where info: "stat_root disk root = Inr info" by (auto simp: and_then_Inr)
  obtain mid ms where r: "read_trees disk wanted roots mid = Inr out'"
    and ms: "map fst mid = filter (\<lambda>p. p \<in> set wanted) ms @ map fst out"
    and l: "\<forall>names. list_trees disk (root # roots) names = list_trees disk roots (ms @ names)"
    and ih: "\<exists>ns. (\<forall>names. list_trees disk roots names = Inr (ns @ names))
       \<and> map fst out' = filter (\<lambda>p. p \<in> set wanted) ns @ map fst mid"
  proof (cases "is_directory info")
    case True
    with "2.prems" info obtain mid where
      m: "walk_dir skip_dir (visit_content root wanted) disk root out = Inr mid"
      and r: "read_trees disk wanted roots mid = Inr out'"
      by (auto simp: and_then_Inr)
    from walk_dir_agree [OF m] obtain ms where
      "\<forall>names. walk_dir skip_dir visit_name disk root names = Inr (ms @ names)"
      and "map fst mid = filter (\<lambda>p. p \<in> set wanted) ms @ map fst out" by blast
    with that [of mid ms] r "2.IH"(3) [OF _ r, of info] True info show thesis by (simp add: walking_def)
  next
    case False
    show thesis
    proof (cases "path_base root \<in> set wanted")
      case True
      with "2.prems" info False obtain content where
        "read_trees disk wanted roots ((path_base root, content) # out) = Inr out'"
        by (auto simp: and_then_Inr)
      with that [of "(path_base root, content) # out" "[path_base root]"] "2.IH"(1) True False info
      show thesis by simp
    next
      case no: False
      with that [of out "[path_base root]"] "2.prems" "2.IH"(2) False info show thesis by simp
    qed
  qed
  from ih obtain ns where "\<forall>names. list_trees disk roots names = Inr (ns @ names)"
    and "map fst out' = filter (\<lambda>p. p \<in> set wanted) ns @ map fst mid" by blast
  with ms l show ?case by (intro exI [of _ "ns @ ms"]) simp
qed simp

lemma trees_listed:
  assumes "list_trees disk roots [] = Inr names" and "read_trees disk wanted roots [] = Inr files"
  shows "set (map fst files) = set names \<inter> set wanted"
proof -
  from trees_agree [OF assms(2)] assms(1) have "map fst files = filter (\<lambda>p. p \<in> set wanted) names" by auto
  then have "set (map fst files) = set (filter (\<lambda>p. p \<in> set wanted) names)" by (simp only:)
  then show ?thesis by auto
qed

lemma wanted_paths:
  "set (map pp_path (filter (\<lambda>p. Q (pp_path p)) ps)) = {p \<in> set (map pp_path ps). Q p}"
  by auto

lemma entry_fs [simp]:
  "path_entry (fs_path p status) = (p, [], status)" "pp_path (fs_path p status) = p"
  "pp_status (fs_path p status) = status"
  "file_entry (fs_file p status previous current) = (p, [], status)"
  "p_path (fs_file p status previous current) = p"
  by (simp_all add: path_entry_def fs_path_def file_entry_def fs_file_def)

lemma diff_trees_entries:
  "map file_entry (diff_trees old new) =
     map (\<lambda>p. (p, [], if p \<notin> set (map fst old) then StatusAdded
               else if p \<notin> set (map fst new) then StatusRemoved else StatusModified))
       (sorted_keys (map fst old @ map fst new))"
proof -
  have "map_of xs p = None \<longleftrightarrow> p \<notin> set (map fst xs)" for xs :: "(string \<times> string) list" and p
    by (simp add: map_of_eq_None_iff)
  then show ?thesis
    by (auto simp: diff_trees_def split: option.splits) (metis option.distinct(1))+
qed

lemma diff_trees_paths: "map p_path (diff_trees old new) = sorted_keys (map fst old @ map fst new)"
proof -
  have "map p_path (diff_trees old new) = map fst (map file_entry (diff_trees old new))" by (simp add: comp_def)
  also have "\<dots> = sorted_keys (map fst old @ map fst new)"
    unfolding diff_trees_entries by (simp add: comp_def)
  finally show ?thesis .
qed

lemma filter_sorted_keys: "filter Q (sorted_keys ks) = sorted_keys (filter Q ks)"
  by (rule sorted_distinct_set_unique) (simp_all add: sorted_filter [where f = "\<lambda>x. x", simplified])

interpretation fs: provider_contract "fs_list disk cancelled old new" "fs_read disk cancelled old new"
  for disk cancelled old new
proof (unfold_locales, goal_cases)
  case (1 listed)
  then show ?case
    by (auto simp: fs_list_def diff_listings_def and_then_Inr comp_def split: option.splits if_splits)
next
  case (2 ps files)
  then show ?case
    by (auto simp: fs_read_def Let_def and_then_Inr diff_trees_paths split: option.splits if_splits)
next
  case (3 listed Q files)
  let ?wanted = "map pp_path (filter (\<lambda>p. Q (pp_path p)) listed)"
  from 3(1) have c: "cancelled = None" by (auto simp: fs_list_def split: option.splits)
  from 3 c obtain names fs where names: "list_trees disk new [] = Inr names"
    and fs: "read_trees disk ?wanted new [] = Inr fs"
    by (auto simp: fs_list_def fs_read_def Let_def and_then_Inr split: if_splits)
  show ?case
  proof (cases "old = []")
    case True
    with 3 c names fs have listed: "listed = map (\<lambda>p. fs_path p StatusAdded) (sorted_keys names)"
      and files: "files = diff_trees [] fs"
      by (auto simp: fs_list_def fs_read_def Let_def split: if_splits)
    have "set (map fst fs) = set (filter Q names)"
      unfolding trees_listed [OF names fs] wanted_paths by (auto simp: listed comp_def)
    then have "sorted_keys (map fst fs) = filter Q (sorted_keys names)"
      unfolding filter_sorted_keys by (rule sorted_keys_cong)
    then show ?thesis
      unfolding files diff_trees_entries by (simp add: listed filter_map comp_def)
  next
    case False
    with 3 c names fs obtain old_names gs where old: "list_trees disk old [] = Inr old_names"
      and gs: "read_trees disk ?wanted old [] = Inr gs"
      and listed: "listed = diff_listings old_names names" and files: "files = diff_trees gs fs"
      by (auto simp: fs_list_def fs_read_def Let_def and_then_Inr split: if_splits)
    have *: "set (map fst fs) = {p \<in> set names. Q p}" "set (map fst gs) = {p \<in> set old_names. Q p}"
      unfolding trees_listed [OF names fs] trees_listed [OF old gs] wanted_paths
      by (auto simp: listed diff_listings_def comp_def)
    then have "set (map fst gs @ map fst fs) = set (filter Q (old_names @ names))" by auto
    then have keys: "sorted_keys (map fst gs @ map fst fs) = filter Q (sorted_keys (old_names @ names))"
      unfolding filter_sorted_keys by (rule sorted_keys_cong)
    have "map (\<lambda>p. (p, [], if p \<notin> set (map fst gs) then StatusAdded
               else if p \<notin> set (map fst fs) then StatusRemoved else StatusModified))
        (filter Q (sorted_keys (old_names @ names)))
      = map (\<lambda>p. (p, [], if p \<notin> set old_names then StatusAdded
               else if p \<notin> set names then StatusRemoved else StatusModified))
        (filter Q (sorted_keys (old_names @ names)))"
      unfolding * by (rule map_cong) simp_all
    then have "map file_entry files = map path_entry (filter (\<lambda>p. Q (pp_path p)) listed)"
      unfolding files diff_trees_entries keys by (simp add: listed diff_listings_def filter_map comp_def)
    then show ?thesis by (simp only:)
  qed
qed

subsection \<open>What a walk visits\<close>

text \<open>Looking a path up in a tree, and the paths a listing should have: those that lead to something
  other than a directory through directories that are not left out.\<close>

fun find_node :: "(string \<times> node) list \<Rightarrow> string list \<Rightarrow> node option" where
  "find_node es [] = None"
| "find_node es [s] = map_of es s"
| "find_node es (s # t # ts) =
     (case map_of es s of Some (Directory (Inr inner)) \<Rightarrow> find_node inner (t # ts) | _ \<Rightarrow> None)"

definition reached :: "(string \<times> node) list \<Rightarrow> string list set" where
  "reached es = {segs. (\<exists>n. find_node es segs = Some n \<and> \<not> is_directory n)
     \<and> (\<forall>d\<in>set (butlast segs). \<not> skip_dir d)}"

fun tree_ok :: "(string \<times> node) list \<Rightarrow> bool" where
  "tree_ok [] = True"
| "tree_ok ((name, Directory (Inr inner)) # es) =
     (name \<notin> fst ` set es \<and> tree_ok inner \<and> tree_ok es)"
| "tree_ok ((name, n) # es) = (name \<notin> fst ` set es \<and> tree_ok es)"

lemma find_node_first: "find_node es (s # ts) = Some n \<Longrightarrow> s \<in> fst ` set es"
  by (cases ts) (auto split: option.splits dest!: map_of_SomeD intro: rev_image_eqI)

lemma reached_Nil [simp]: "reached [] = {}"
proof -
  have "find_node [] segs = None" for segs
    by (cases segs; cases "tl segs") auto
  then show ?thesis by (simp add: reached_def)
qed

lemma reached_Cons:
  assumes "name \<notin> fst ` set es"
  shows "reached ((name, n) # es) =
    (case n of Directory (Inr inner) \<Rightarrow> if skip_dir name then {} else (#) name ` reached inner
     | Directory (Inl e) \<Rightarrow> {} | _ \<Rightarrow> {[name]}) \<union> reached es" (is "_ = ?one \<union> _")
proof -
  have other: "segs \<in> reached ((name, n) # es) \<longleftrightarrow> segs \<in> reached es" if "segs = [] \<or> hd segs \<noteq> name" for segs
    using that by (cases segs; cases "tl segs") (auto simp: reached_def)
  have none: "segs \<notin> reached es" if "segs = name # ts" for segs ts
    using that assms find_node_first [of es name ts] by (auto simp: reached_def)
  have same: "segs \<in> reached ((name, n) # es) \<longleftrightarrow> segs \<in> ?one" if "segs = name # ts" for segs ts
  proof (cases ts)
    case Nil
    with that show ?thesis by (cases n) (auto simp: reached_def split: sum.splits)
  next
    case (Cons t us)
    with that show ?thesis
      by (cases n) (auto simp: reached_def image_iff split: sum.splits)
  qed
  have hd: "segs \<in> ?one \<Longrightarrow> \<exists>ts. segs = name # ts" for segs
    by (auto split: node.splits sum.splits if_splits)
  show ?thesis
  proof (rule set_eqI)
    fix segs
    show "segs \<in> reached ((name, n) # es) \<longleftrightarrow> segs \<in> ?one \<union> reached es"
    proof (cases "\<exists>ts. segs = name # ts")
      case True
      then obtain ts where ts: "segs = name # ts" by blast
      show ?thesis unfolding Un_iff same [OF ts] using none [OF ts] by simp
    next
      case False
      then have "segs = [] \<or> hd segs \<noteq> name" by (cases segs) auto
      from other [OF this] hd False show ?thesis by (simp only: Un_iff) blast
    qed
  qed
qed

lemma path_of_Cons: "ts \<noteq> [] \<Longrightarrow> path_of (s # ts) = s @ ''/'' @ path_of ts"
  by (cases ts) (simp_all add: path_of_def)

lemma reached_nonempty: "segs \<in> reached es \<Longrightarrow> segs \<noteq> []"
  by (auto simp: reached_def)

lemma walk_reaches:
  "walk_entries skip_dir visit_name prefix es names = Inr out \<Longrightarrow> tree_ok es \<Longrightarrow>
     set out = (\<lambda>segs. prefix @ path_of segs) ` reached es \<union> set names"
proof (induction skip_dir "visit_name" prefix es names arbitrary: out rule: walk_entries.induct)
  case (2 prefix name d es names)
  from "2.prems"(2) have fresh: "name \<notin> fst ` set es" and es: "tree_ok es"
    by (cases d; simp)+
  show ?case
  proof (cases "skip_dir name")
    case True
    with 2 fresh es show ?thesis by (cases d) (simp_all add: reached_Cons)
  next
    case False
    with "2.prems" obtain inner mid where d: "d = Inr inner"
      and m: "walk_entries skip_dir visit_name (prefix @ name @ ''/'') inner names = Inr mid"
      and r: "walk_entries skip_dir visit_name prefix es mid = Inr out"
      by (auto simp: and_then_Inr split: sum.splits)
    from d "2.prems"(2) have "tree_ok inner" by simp
    with "2.hyps"(2) [OF False d m] "2.hyps"(3) [OF False d r es]
    have "set out = (\<lambda>segs. prefix @ path_of segs) ` reached es
        \<union> ((\<lambda>segs. (prefix @ name @ ''/'') @ path_of segs) ` reached inner \<union> set names)"
      by simp
    moreover have "(\<lambda>segs. (prefix @ name @ ''/'') @ path_of segs) ` reached inner
        = (\<lambda>segs. prefix @ path_of segs) ` ((#) name) ` reached inner"
      unfolding image_image by (rule image_cong) (simp_all add: path_of_Cons reached_nonempty)
    ultimately show ?thesis using d False fresh by (simp add: reached_Cons image_Un) blast
  qed
next
  case "3_1"
  then show ?case by (auto simp: reached_Cons path_of_def)
next
  case "3_2"
  then show ?case by (auto simp: reached_Cons path_of_def)
qed simp

fun readable :: "(string \<times> node) list \<Rightarrow> bool" where
  "readable [] = True"
| "readable ((name, Directory (Inl e)) # es) = (skip_dir name \<and> readable es)"
| "readable ((name, Directory (Inr inner)) # es) = ((skip_dir name \<or> readable inner) \<and> readable es)"
| "readable ((name, n) # es) = readable es"

lemma walk_readable:
  "readable es \<Longrightarrow> \<exists>out. walk_entries skip_dir visit_name prefix es names = Inr out"
proof (induction es arbitrary: prefix names rule: readable.induct)
  case (3 name inner es)
  show ?case
  proof (cases "skip_dir name")
    case True
    with 3 show ?thesis by simp
  next
    case False
    with 3 obtain mid where "walk_entries skip_dir visit_name (prefix @ name @ ''/'') inner names = Inr mid"
      by (fastforce simp del: visit_name.simps)
    with 3 False show ?thesis by (simp del: visit_name.simps)
  qed
qed simp_all

subsection \<open>Properties\<close>

text \<open>The listing of a directory: when every directory that is not left out can be read, the listing
  succeeds and holds, each once and in order, exactly the paths that lead to something other than a
  directory without passing through a directory that is left out, all of them added.\<close>

theorem listing_is_the_tree:
  assumes "disk root = Inr (Directory (Inr es))" and "tree_ok es" and "readable es"
  shows "\<exists>listed. fs_list disk None [] [root] = Inr listed
    \<and> set (map pp_path listed) = path_of ` reached es
    \<and> sorted (map pp_path listed) \<and> distinct (map pp_path listed)
    \<and> list_all (\<lambda>p. pp_status p = StatusAdded) listed"
proof -
  from walk_readable [OF assms(3)] obtain out where
    w: "walk_entries skip_dir visit_name [] es [] = Inr out" by blast
  with assms(1) have "fs_list disk None [] [root] = Inr (map (\<lambda>p. fs_path p StatusAdded) (sorted_keys out))"
    by (simp add: fs_list_def stat_root_def os_stat_def walking_def walk_dir_def)
  moreover have "set out = path_of ` reached es"
    using walk_reaches [OF w assms(2)] by simp
  ultimately show ?thesis
    by (simp add: comp_def list_all_iff image_image)
qed

text \<open>Reading what was listed: for any choice of the listed paths the files that are read are exactly
  those, in the same order and with the same statuses.\<close>

theorem fs_reads_the_listing:
  assumes "fs_list disk cancelled old new = Inr listed"
    and "fs_read disk cancelled old new (filter (\<lambda>p. Q (pp_path p)) listed) = Inr files"
  shows "map file_entry files = map path_entry (filter (\<lambda>p. Q (pp_path p)) listed)"
proof (rule fs.reads_exactly [OF assms])
  show "distinct (map pp_path listed)"
    using assms(1) by (auto simp: fs_list_def diff_listings_def and_then_Inr comp_def
        split: option.splits if_splits)
qed

subsection \<open>A sample disk\<close>

definition sample_disk :: disk where
  "sample_disk name =
     (if name = ''a'' then Inr (Directory (Inr [(''.git'', Directory (Inl ''denied'')),
          (''1.sql'', Regular (Inr ''DROP TABLE t;'')), (''sub'', Directory (Inr [(''2.sql'', Regular (Inr ''x''))]))]))
      else if name = ''b'' then Inr (Directory (Inr [(''1.sql'', Regular (Inr ''SELECT 1;''))]))
      else if name = ''link'' then Inr (Symlink (Inr (Directory (Inr [(''1.sql'', Regular (Inr ''DROP TABLE t;''))]))))
      else Inl ''no such file or directory'')"

theorem listing_is_the_tree_witness:
  "\<exists>listed. fs_list sample_disk None [] [''b''] = Inr listed
     \<and> set (map pp_path listed) = path_of ` reached [(''1.sql'', Regular (Inr ''SELECT 1;''))]"
  using listing_is_the_tree [of sample_disk "''b''" "[(''1.sql'', Regular (Inr ''SELECT 1;''))]"]
  by (simp add: sample_disk_def) blast

theorem fs_reads_the_listing_witness:
  "\<exists>files. fs_read sample_disk None [''b''] [''a''] [fs_path ''1.sql'' StatusModified] = Inr files
     \<and> map file_entry files = [(''1.sql'', [], StatusModified)]"
proof -
  have l: "fs_list sample_disk None [''b''] [''a'']
      = Inr [fs_path ''1.sql'' StatusModified, fs_path ''sub/2.sql'' StatusAdded]"
    by code_simp
  have r: "fs_read sample_disk None [''b''] [''a''] (filter (\<lambda>p. pp_path p = ''1.sql'')
      [fs_path ''1.sql'' StatusModified, fs_path ''sub/2.sql'' StatusAdded])
      = Inr [fs_file ''1.sql'' StatusModified ''SELECT 1;'' ''DROP TABLE t;'']"
    by code_simp
  from fs_reads_the_listing [OF l r] r show ?thesis by simp
qed

text \<open>Files of two roots with one relative path: only the file under the last root is listed and read.
  The other one appears nowhere, so what it does to the database is not part of the certificate; two
  file names with one base name behave alike.\<close>

theorem later_root_hides_a_file:
  "fs_list sample_disk None [] [''a'', ''b'']
     = Inr [fs_path ''1.sql'' StatusAdded, fs_path ''sub/2.sql'' StatusAdded]
   \<and> fs_read sample_disk None [] [''a'', ''b''] [fs_path ''1.sql'' StatusAdded, fs_path ''sub/2.sql'' StatusAdded]
     = Inr [fs_file ''1.sql'' StatusAdded [] ''SELECT 1;'', fs_file ''sub/2.sql'' StatusAdded [] ''x'']"
  by (rule conjI; code_simp)

text \<open>A root that is a symbolic link to a directory is a directory for \<open>os.Stat\<close> and a file for
  \<open>filepath.WalkDir\<close>: its listing is the single path \<open>.\<close>, and no migration below it is seen.\<close>

theorem linked_root_lists_nothing:
  "fs_list sample_disk None [] [''link''] = Inr [fs_path ''.'' StatusAdded]"
  by code_simp

end
