(* ===== verification/Provider_Git.thy ===== *)
theory Provider_Git
  imports Provider Go_Decimal
begin

text \<open>
  The git provider, \<open>internal/provider/git.go\<close>: a changeset between two refs, from the answers of the
  git binary. Running git is the parameter \<open>run\<close>: the arguments give the output, the trimmed standard
  error and whether the process failed. A provider lists and reads in two calls, and each of them asks
  git again; the two calls of an instance of the contract have one \<open>run\<close>, a repository that does not
  change in between, and the last theorem says what happens otherwise.
\<close>

record git_output =
  go_out :: string
  go_err :: string
  go_failed :: bool

type_synonym git_run = "string list \<Rightarrow> git_output"

subsection \<open>Errors\<close>

datatype git_error =
    No_base_ref
  | Git_unavailable string
  | Git_cancelled string
  | Not_a_repository string string
  | Ambiguous_ref string string
  | Unknown_ref string string
  | Shallow_ref string string
  | Shallow_base string string string
  | No_common_ancestor string string string
  | Diff_failed string string string
  | Truncated_diff string
  | Bad_diff_status string
  | Tree_failed string string
  | Too_many_context_files
  | Blob_failed string string
  | Blob_size_invalid string string
  | Blob_too_large string int

definition max_context_files :: nat where "max_context_files = 200"

definition max_file_bytes :: int where "max_file_bytes = 2097152"

definition short :: "string \<Rightarrow> string" where
  "short sha = take 12 sha"

definition provider_failed :: string where
  "provider_failed = '': domain: file provider failed''"

fun size_error_text :: "string \<Rightarrow> string" where
  "size_error_text s =
     (if s = [] then ''empty size'' else ''non-numeric size '' @ go_quote s) @ provider_failed"

fun git_error_text :: "git_error \<Rightarrow> string" where
  "git_error_text No_base_ref = ''git provider: no base ref given'' @ provider_failed"
| "git_error_text (Git_unavailable e) =
     ''provider: git is not available: install git or use --before to compare two directories: '' @ e"
| "git_error_text (Git_cancelled e) = ''git provider: '' @ e"
| "git_error_text (Not_a_repository where' err) =
     ''provider: not a git repository: '' @ where' @ '': '' @ err"
| "git_error_text (Ambiguous_ref ref err) =
     ''provider: ambiguous ref: '' @ go_quote ref @ '' matches more than one object; qualify it as refs/heads/''
     @ ref @ '' or refs/tags/'' @ ref @ '': '' @ err"
| "git_error_text (Unknown_ref ref err) =
     ''provider: unknown ref: '' @ go_quote ref @ '' does not name a commit: '' @ err"
| "git_error_text (Shallow_ref ref err) =
     ''provider: shallow clone: ref '' @ go_quote ref @ '' is not in this shallow clone; set fetch-depth: 0 on actions/checkout, or fetch the ref before running: ''
     @ err"
| "git_error_text (Shallow_base base head err) =
     ''provider: shallow clone: '' @ short base @ '' and '' @ short head
     @ '' have no common ancestor in this shallow clone; set fetch-depth: 0 on actions/checkout so the base commit is present: ''
     @ err"
| "git_error_text (No_common_ancestor base head err) =
     ''git provider: '' @ short base @ '' and '' @ short head @ '' have no common ancestor: '' @ err @ provider_failed"
| "git_error_text (Diff_failed base head err) =
     ''git provider: diffing '' @ short base @ ''...'' @ short head @ '': '' @ err @ provider_failed"
| "git_error_text (Truncated_diff field) =
     ''git provider: truncated diff output at status '' @ go_quote field @ provider_failed"
| "git_error_text (Bad_diff_status field) =
     ''git provider: unrecognised diff status '' @ go_quote field @ provider_failed"
| "git_error_text (Tree_failed rev' err) =
     ''git provider: listing the tree at '' @ short rev' @ '': '' @ err @ provider_failed"
| "git_error_text Too_many_context_files =
     ''provider: changeset exceeds the fetch limit: more than '' @ utoa max_context_files @ '' context files''"
| "git_error_text (Blob_failed spec err) = ''git provider: reading '' @ spec @ '': '' @ err @ provider_failed"
| "git_error_text (Blob_size_invalid spec s) =
     ''git provider: reading the size of '' @ spec @ '': '' @ size_error_text s"
| "git_error_text (Blob_too_large spec n) =
     ''git provider: '' @ spec @ '' is '' @ itoa n @ '' bytes, over the '' @ itoa max_file_bytes @ '' limit''
     @ provider_failed"

subsection \<open>Construction\<close>

record git =
  g_where :: string
  g_base :: string
  g_head :: string
  g_paths :: "string list"

text \<open>\<open>NewGit\<close>; \<open>lookup\<close> is the error of the search for the binary, \<open>where'\<close> what \<open>where\<close> returns.\<close>

definition new_git :: "string option \<Rightarrow> string \<Rightarrow> string \<Rightarrow> string \<Rightarrow> string list \<Rightarrow> git_error + git" where
  "new_git lookup where' base head paths =
     (if trim_space base = [] then Inl No_base_ref
      else case lookup of
        Some e \<Rightarrow> Inl (Git_unavailable e)
      | None \<Rightarrow> Inr \<lparr>g_where = where', g_base = trim_space base,
          g_head = or_else (trim_space head) ''HEAD'', g_paths = paths\<rparr>)"

subsection \<open>Revisions\<close>

definition ensure_repository :: "git_run \<Rightarrow> git \<Rightarrow> git_error + unit" where
  "ensure_repository run g =
     (let o' = run [''rev-parse'', ''--show-toplevel'']
      in if go_failed o' then Inl (Not_a_repository (g_where g) (go_err o')) else Inr ())"

definition is_shallow :: "git_run \<Rightarrow> bool" where
  "is_shallow run =
     (let o' = run [''rev-parse'', ''--is-shallow-repository'']
      in \<not> go_failed o' \<and> trim_space (go_out o') = ''true'')"

definition resolve_ref :: "git_run \<Rightarrow> string \<Rightarrow> git_error + string" where
  "resolve_ref run ref =
     (let o' = run [''rev-parse'', ''--verify'', ''--end-of-options'', ref @ ''^{commit}'']
      in if go_failed o' then
           (if is_shallow run then Inl (Shallow_ref ref (go_err o')) else Inl (Unknown_ref ref (go_err o')))
         else if contains (go_err o') ''ambiguous'' then Inl (Ambiguous_ref ref (go_err o'))
         else Inr (trim_space (go_out o')))"

definition merge_base :: "git_run \<Rightarrow> string \<Rightarrow> string \<Rightarrow> git_error + string" where
  "merge_base run base head =
     (let o' = run [''merge-base'', base, head]
      in if go_failed o' then
           (if is_shallow run then Inl (Shallow_base base head (go_err o'))
            else Inl (No_common_ancestor base head (go_err o')))
         else Inr (trim_space (go_out o')))"

subsection \<open>The diff\<close>

record git_change =
  gc_status :: char
  gc_src :: string
  gc_dst :: string

definition two_paths :: "char \<Rightarrow> bool" where
  "two_paths c \<longleftrightarrow> c = CHR ''R'' \<or> c = CHR ''C''"

definition one_path :: "char \<Rightarrow> bool" where
  "one_path c \<longleftrightarrow> c = CHR ''A'' \<or> c = CHR ''M'' \<or> c = CHR ''D'' \<or> c = CHR ''T''"

fun parse_fields :: "string list \<Rightarrow> git_error + git_change list" where
  "parse_fields [] = Inr []"
| "parse_fields ([] # rest) = parse_fields rest"
| "parse_fields ((c # cs) # rest) =
     (if two_paths c then
        (case rest of
           src # dst # rest' \<Rightarrow>
             if src = [] \<or> dst = [] then Inl (Truncated_diff (c # cs))
             else and_then (parse_fields rest') (\<lambda>gs. Inr (\<lparr>gc_status = c, gc_src = src, gc_dst = dst\<rparr> # gs))
         | _ \<Rightarrow> Inl (Truncated_diff (c # cs)))
      else if one_path c then
        (case rest of
           p # rest' \<Rightarrow>
             if p = [] then Inl (Truncated_diff (c # cs))
             else and_then (parse_fields rest') (\<lambda>gs. Inr (\<lparr>gc_status = c, gc_src = p, gc_dst = p\<rparr> # gs))
         | [] \<Rightarrow> Inl (Truncated_diff (c # cs)))
      else Inl (Bad_diff_status (c # cs)))"

abbreviation nul :: char where "nul \<equiv> CHR 0x00"

definition parse_name_status :: "string \<Rightarrow> git_error + git_change list" where
  "parse_name_status out = parse_fields (split_on nul out)"

definition pathspecs :: "git \<Rightarrow> string list" where
  "pathspecs g = (if g_paths g = [] then [] else ''--'' # g_paths g)"

definition git_diff :: "git_run \<Rightarrow> git \<Rightarrow> string \<Rightarrow> string \<Rightarrow> git_error + git_change list" where
  "git_diff run g base head =
     (let o' = run ([''diff'', ''--name-status'', ''-z'', ''--no-color'', ''--find-renames'',
          base @ ''...'' @ head] @ pathspecs g)
      in if go_failed o' then Inl (Diff_failed base head (go_err o')) else parse_name_status (go_out o'))"

record git_plan =
  gp_previous_rev :: string
  gp_current_rev :: string
  gp_changes :: "git_change list"

definition make_plan :: "git_run \<Rightarrow> string option \<Rightarrow> git \<Rightarrow> git_error + git_plan" where
  "make_plan run cancelled g =
     (case cancelled of
        Some e \<Rightarrow> Inl (Git_cancelled e)
      | None \<Rightarrow>
          and_then (ensure_repository run g) (\<lambda>_.
          and_then (resolve_ref run (g_base g)) (\<lambda>base.
          and_then (resolve_ref run (g_head g)) (\<lambda>head.
          and_then (merge_base run base head) (\<lambda>fork.
          and_then (git_diff run g base head) (\<lambda>changes.
            Inr \<lparr>gp_previous_rev = fork, gp_current_rev = head, gp_changes = changes\<rparr>))))))"

subsection \<open>Listing\<close>

definition listed_path :: "string \<Rightarrow> change_status \<Rightarrow> provider_path" where
  "listed_path p status = \<lparr>pp_path = p, pp_prev_path = [], pp_status = status\<rparr>"

definition change_paths :: "git_change \<Rightarrow> provider_path list" where
  "change_paths c =
     (if gc_status c = CHR ''A'' then [listed_path (gc_dst c) StatusAdded]
      else if gc_status c = CHR ''D'' then [listed_path (gc_src c) StatusRemoved]
      else if gc_status c = CHR ''M'' \<or> gc_status c = CHR ''T'' then [listed_path (gc_dst c) StatusModified]
      else if gc_status c = CHR ''R'' then
        [listed_path (gc_src c) StatusRemoved, listed_path (gc_dst c) StatusAdded]
      else if gc_status c = CHR ''C'' then [listed_path (gc_dst c) StatusAdded]
      else [])"

definition changed_paths :: "git_change list \<Rightarrow> provider_path list" where
  "changed_paths cs = concat (map change_paths cs)"

definition empty_tree :: string where
  "empty_tree = ''4b825dc642cb6eb9a060e54bf8d69288fbee4904''"

definition tree_paths :: "git_run \<Rightarrow> git \<Rightarrow> string \<Rightarrow> git_error + string list" where
  "tree_paths run g rev' =
     (let o' = run ([''diff'', ''--name-only'', ''-z'', ''--no-color'', ''--no-renames'', ''--diff-filter=A'',
          empty_tree, rev'] @ pathspecs g)
      in if go_failed o' then Inl (Tree_failed rev' (go_err o'))
         else Inr (sort (filter (\<lambda>p. p \<noteq> []) (split_on nul (go_out o')))))"

text \<open>The loop over the candidates; \<open>n\<close> counts the paths kept so far.\<close>

fun context_loop :: "string list \<Rightarrow> string list \<Rightarrow> nat \<Rightarrow> string list \<Rightarrow> git_error + provider_path list" where
  "context_loop dirs known n [] = Inr []"
| "context_loop dirs known n (c # cs) =
     (if c \<in> set known \<or> path_dir c \<notin> set dirs then context_loop dirs known n cs
      else if Suc n > max_context_files then Inl Too_many_context_files
      else and_then (context_loop dirs (c # known) (Suc n) cs) (\<lambda>ps. Inr (listed_path c StatusModified # ps)))"

definition list_context :: "git_run \<Rightarrow> git \<Rightarrow> provider_path list \<Rightarrow> string \<Rightarrow> git_error + provider_path list" where
  "list_context run g changed rev' =
     (if changed = [] then Inr []
      else and_then (tree_paths run g rev') (\<lambda>candidates.
        context_loop (map (\<lambda>p. path_dir (pp_path p)) changed) (map pp_path changed) 0 candidates))"

definition git_list :: "git_run \<Rightarrow> string option \<Rightarrow> git \<Rightarrow> git_error + provider_path list" where
  "git_list run cancelled g =
     and_then (make_plan run cancelled g) (\<lambda>plan.
     and_then (list_context run g (changed_paths (gp_changes plan)) (gp_current_rev plan)) (\<lambda>siblings.
       Inr (sort_paths (changed_paths (gp_changes plan) @ siblings))))"

subsection \<open>Reading\<close>

fun size_loop :: "int \<Rightarrow> string \<Rightarrow> int option" where
  "size_loop size' [] = Some size'"
| "size_loop size' (c # cs) =
     (if c < CHR ''0'' \<or> CHR ''9'' < c then None
      else
        (let size'' = size' * 10 + (of_char c - 48) in
         if max_file_bytes < size'' then Some size'' else size_loop size'' cs))"

definition parse_size :: "string \<Rightarrow> int option" where
  "parse_size s = (if s = [] then None else size_loop 0 s)"

definition read_blob :: "git_run \<Rightarrow> string \<Rightarrow> string \<Rightarrow> git_error + string" where
  "read_blob run rev' path =
     (let spec = rev' @ '':'' @ path; s = run [''cat-file'', ''-s'', spec] in
      if go_failed s then Inl (Blob_failed spec (go_err s))
      else case parse_size (trim_space (go_out s)) of
        None \<Rightarrow> Inl (Blob_size_invalid spec (trim_space (go_out s)))
      | Some n \<Rightarrow>
          if max_file_bytes < n then Inl (Blob_too_large spec n)
          else
            (let c = run [''show'', ''--no-textconv'', spec] in
             if go_failed c then Inl (Blob_failed spec (go_err c)) else Inr (go_out c)))"

definition git_file :: "string \<Rightarrow> change_status \<Rightarrow> string \<Rightarrow> string \<Rightarrow> changed_file" where
  "git_file path status previous current =
     \<lparr>p_path = path, p_previous_path = [], p_status = status, p_previous = previous, p_current = current,
      p_at = []\<rparr>"

definition append_added :: "git_run \<Rightarrow> git_plan \<Rightarrow> string list \<Rightarrow> string \<Rightarrow> git_error + changed_file list" where
  "append_added run plan wanted p =
     (if p \<notin> set wanted then Inr []
      else and_then (read_blob run (gp_current_rev plan) p) (\<lambda>content.
        Inr [git_file p StatusAdded [] content]))"

definition append_removed :: "git_run \<Rightarrow> git_plan \<Rightarrow> string list \<Rightarrow> string \<Rightarrow> git_error + changed_file list" where
  "append_removed run plan wanted p =
     (if p \<notin> set wanted then Inr []
      else and_then (read_blob run (gp_previous_rev plan) p) (\<lambda>content.
        Inr [git_file p StatusRemoved content []]))"

definition read_change :: "git_run \<Rightarrow> git_plan \<Rightarrow> string list \<Rightarrow> git_change \<Rightarrow> git_error + changed_file list" where
  "read_change run plan wanted c =
     (if gc_status c = CHR ''A'' then append_added run plan wanted (gc_dst c)
      else if gc_status c = CHR ''D'' then append_removed run plan wanted (gc_src c)
      else if gc_status c = CHR ''M'' \<or> gc_status c = CHR ''T'' then
        (if gc_dst c \<notin> set wanted then Inr []
         else and_then (read_blob run (gp_previous_rev plan) (gc_src c)) (\<lambda>previous.
              and_then (read_blob run (gp_current_rev plan) (gc_dst c)) (\<lambda>current.
                Inr [git_file (gc_dst c) StatusModified previous current])))
      else if gc_status c = CHR ''R'' then
        and_then (append_removed run plan wanted (gc_src c)) (\<lambda>old.
        and_then (append_added run plan wanted (gc_dst c)) (\<lambda>new. Inr (old @ new)))
      else if gc_status c = CHR ''C'' then append_added run plan wanted (gc_dst c)
      else Inr [])"

fun read_changes :: "git_run \<Rightarrow> git_plan \<Rightarrow> string list \<Rightarrow> git_change list \<Rightarrow> git_error + changed_file list" where
  "read_changes run plan wanted [] = Inr []"
| "read_changes run plan wanted (c # cs) =
     and_then (read_change run plan wanted c) (\<lambda>fs.
     and_then (read_changes run plan wanted cs) (\<lambda>gs. Inr (fs @ gs)))"

text \<open>What was asked for and the diff did not mention.\<close>

fun read_siblings :: "git_run \<Rightarrow> git_plan \<Rightarrow> string list \<Rightarrow> string list \<Rightarrow> git_error + changed_file list" where
  "read_siblings run plan changed [] = Inr []"
| "read_siblings run plan changed (p # ps) =
     (if p \<in> set changed then read_siblings run plan changed ps
      else and_then (read_blob run (gp_current_rev plan) p) (\<lambda>content.
           and_then (read_siblings run plan changed ps) (\<lambda>fs.
             Inr (git_file p StatusModified content content # fs))))"

definition git_read :: "git_run \<Rightarrow> string option \<Rightarrow> git \<Rightarrow> provider_path list \<Rightarrow> git_error + changed_file list" where
  "git_read run cancelled g paths =
     and_then (make_plan run cancelled g) (\<lambda>plan.
     and_then (read_changes run plan (map pp_path paths) (gp_changes plan)) (\<lambda>files.
     and_then (read_siblings run plan (map p_path files) (map pp_path paths)) (\<lambda>siblings.
       Inr (sort_by_path (files @ siblings)))))"

definition git_provider :: "git_run \<Rightarrow> string option \<Rightarrow> git \<Rightarrow> file_provider" where
  "git_provider run cancelled g =
     \<lparr>fp_list = map_sum git_error_text (\<lambda>x. x) (git_list run cancelled g),
      fp_read = (\<lambda>ps. map_sum git_error_text (\<lambda>x. x) (git_read run cancelled g ps))\<rparr>"

subsection \<open>Parsing a diff\<close>

text \<open>A change as git writes it, with whatever follows the letter of its status.\<close>

definition change_ok :: "git_change \<Rightarrow> bool" where
  "change_ok c \<longleftrightarrow> (two_paths (gc_status c) \<or> one_path (gc_status c)) \<and> gc_src c \<noteq> [] \<and> gc_dst c \<noteq> []
     \<and> nul \<notin> set (gc_src c) \<and> nul \<notin> set (gc_dst c) \<and> (one_path (gc_status c) \<longrightarrow> gc_src c = gc_dst c)"

definition change_fields :: "string \<Rightarrow> git_change \<Rightarrow> string list" where
  "change_fields score c = (gc_status c # score)
     # (if two_paths (gc_status c) then [gc_src c, gc_dst c] else [gc_dst c])"

lemma status_disjoint: "one_path c \<Longrightarrow> \<not> two_paths c"
  by (auto simp: one_path_def two_paths_def)

lemma parse_fields_step:
  "change_ok c \<Longrightarrow> parse_fields (change_fields score c @ rest)
     = and_then (parse_fields rest) (\<lambda>cs. Inr (c # cs))"
  by (cases c) (auto simp: change_ok_def change_fields_def dest: status_disjoint)

lemma parse_fields_changes:
  "list_all (\<lambda>(score, c). change_ok c) cs \<Longrightarrow>
     parse_fields (concat (map (\<lambda>(score, c). change_fields score c) cs) @ [[]]) = Inr (map snd cs)"
  by (induction cs) (auto simp: parse_fields_step)

lemma change_new:
  "change_ok \<lparr>gc_status = c, gc_src = src, gc_dst = dst\<rparr> \<longleftrightarrow>
     (two_paths c \<or> one_path c) \<and> src \<noteq> [] \<and> dst \<noteq> [] \<and> nul \<notin> set src \<and> nul \<notin> set dst
     \<and> (one_path c \<longrightarrow> src = dst)"
  "change_fields score \<lparr>gc_status = c, gc_src = src, gc_dst = dst\<rparr>
     = (c # score) # (if two_paths c then [src, dst] else [dst])"
  by (simp_all add: change_ok_def change_fields_def)

lemma parse_fields_complete:
  assumes "parse_fields texts = Inr cs" and "\<forall>f\<in>set texts. nul \<notin> set f"
  shows "\<exists>scores. length scores = length cs \<and> list_all change_ok cs
     \<and> filter (\<lambda>f. f \<noteq> []) texts = concat (map2 change_fields scores cs)"
  using assms
proof (induction texts arbitrary: cs rule: parse_fields.induct)
  case (3 c score rest)
  consider (two) src dst rest' gs where "two_paths c" "rest = src # dst # rest'" "src \<noteq> []" "dst \<noteq> []"
      "parse_fields rest' = Inr gs" "cs = \<lparr>gc_status = c, gc_src = src, gc_dst = dst\<rparr> # gs"
    | (one) p rest' gs where "one_path c" "\<not> two_paths c" "rest = p # rest'" "p \<noteq> []"
      "parse_fields rest' = Inr gs" "cs = \<lparr>gc_status = c, gc_src = p, gc_dst = p\<rparr> # gs"
    using "3.prems"(1) by (auto simp: and_then_Inr split: if_splits list.splits)
  then show ?case
  proof cases
    case two
    with "3.IH"(1) [of src "dst # rest'" dst rest'] "3.prems"(2) obtain scores where
      "length scores = length gs" "list_all change_ok gs"
      "filter (\<lambda>f. f \<noteq> []) rest' = concat (map2 change_fields scores gs)"
      by auto
    with two "3.prems"(2) show ?thesis
      by (intro exI [of _ "score # scores"]) (auto simp: change_new dest: status_disjoint)
  next
    case one
    with "3.IH"(2) [of p rest'] "3.prems"(2) obtain scores where
      "length scores = length gs" "list_all change_ok gs"
      "filter (\<lambda>f. f \<noteq> []) rest' = concat (map2 change_fields scores gs)"
      by auto
    with one "3.prems"(2) show ?thesis
      by (intro exI [of _ "score # scores"]) (auto simp: change_new)
  qed
qed auto

subsection \<open>Listing and reading agree\<close>

lemma entry_git [simp]:
  "path_entry (listed_path p status) = (p, [], status)" "pp_path (listed_path p status) = p"
  "file_entry (git_file p status previous current) = (p, [], status)"
  "p_path (git_file p status previous current) = p"
  by (simp_all add: path_entry_def listed_path_def file_entry_def git_file_def)

lemma read_change_entries:
  "read_change run plan wanted c = Inr fs \<Longrightarrow>
     map file_entry fs = map path_entry (filter (\<lambda>p. pp_path p \<in> set wanted) (change_paths c))"
  by (auto simp: read_change_def change_paths_def append_added_def append_removed_def and_then_Inr
      split: if_splits)

lemma read_changes_entries:
  "read_changes run plan wanted cs = Inr fs \<Longrightarrow>
     map file_entry fs = map path_entry (filter (\<lambda>p. pp_path p \<in> set wanted) (changed_paths cs))"
  by (induction cs arbitrary: fs)
    (auto simp: changed_paths_def and_then_Inr dest!: read_change_entries)

lemma read_changes_paths:
  assumes "read_changes run plan wanted cs = Inr fs"
  shows "set (map p_path fs) = set (map pp_path (changed_paths cs)) \<inter> set wanted"
proof -
  have "map p_path fs = map fst (map file_entry fs)" by (simp add: comp_def)
  also have "\<dots> = map pp_path (filter (\<lambda>p. pp_path p \<in> set wanted) (changed_paths cs))"
    by (simp only: read_changes_entries [OF assms]) (simp add: comp_def)
  finally show ?thesis by auto
qed

lemma read_siblings_entries:
  "read_siblings run plan changed ps = Inr fs \<Longrightarrow>
     map file_entry fs = map (\<lambda>p. (p, [], StatusModified)) (filter (\<lambda>p. p \<notin> set changed) ps)"
  by (induction ps arbitrary: fs) (auto simp: and_then_Inr split: if_splits)

lemma context_loop_Inr:
  "context_loop dirs known n cs = Inr ps \<Longrightarrow>
     ps = map (\<lambda>p. listed_path p StatusModified) (map pp_path ps) \<and> distinct (map pp_path ps)
     \<and> set (map pp_path ps) = {c \<in> set cs. c \<notin> set known \<and> path_dir c \<in> set dirs}
     \<and> (n \<le> max_context_files \<longrightarrow> n + length ps \<le> max_context_files)
     \<and> (sorted cs \<longrightarrow> sorted (map pp_path ps))"
proof (induction cs arbitrary: known n ps)
  case (Cons c cs)
  show ?case
  proof (cases "c \<in> set known \<or> path_dir c \<notin> set dirs")
    case True
    with Cons.prems Cons.IH [of known n ps] show ?thesis by auto
  next
    case False
    with Cons.prems obtain qs where q: "context_loop dirs (c # known) (Suc n) cs = Inr qs"
      and ps: "ps = listed_path c StatusModified # qs" and n: "Suc n \<le> max_context_files"
      by (auto simp: and_then_Inr split: if_splits)
    from Cons.IH [OF q] n False show ?thesis unfolding ps by auto
  qed
qed simp

lemma list_context_Inr:
  assumes "list_context run g changed r = Inr ps"
  shows "ps = map (\<lambda>p. listed_path p StatusModified) (map pp_path ps)" and "distinct (map pp_path ps)"
    and "set (map pp_path ps) \<inter> set (map pp_path changed) = {}"
    and "path_dir ` set (map pp_path ps) \<subseteq> path_dir ` set (map pp_path changed)"
    and "length ps \<le> max_context_files" and "sorted (map pp_path ps)"
proof -
  have *: "ps = map (\<lambda>p. listed_path p StatusModified) (map pp_path ps) \<and> distinct (map pp_path ps)
     \<and> set (map pp_path ps) \<inter> set (map pp_path changed) = {}
     \<and> path_dir ` set (map pp_path ps) \<subseteq> path_dir ` set (map pp_path changed)
     \<and> length ps \<le> max_context_files \<and> sorted (map pp_path ps)"
  proof (cases "changed = []")
    case True
    with assms show ?thesis by (simp add: list_context_def)
  next
    case False
    with assms obtain cands where "tree_paths run g r = Inr cands"
      and l: "context_loop (map (\<lambda>p. path_dir (pp_path p)) changed) (map pp_path changed) 0 cands = Inr ps"
      by (auto simp: list_context_def and_then_Inr)
    then have "sorted cands" by (auto simp: tree_paths_def Let_def split: if_splits)
    with context_loop_Inr [OF l] show ?thesis by (auto simp: image_image)
  qed
  from * show "ps = map (\<lambda>p. listed_path p StatusModified) (map pp_path ps)" by blast
  from * show "distinct (map pp_path ps)"
    and "set (map pp_path ps) \<inter> set (map pp_path changed) = {}"
    and "path_dir ` set (map pp_path ps) \<subseteq> path_dir ` set (map pp_path changed)"
    and "length ps \<le> max_context_files" and "sorted (map pp_path ps)"
    by blast+
qed

interpretation gp: provider_contract "git_list run cancelled g" "git_read run cancelled g" for run cancelled g
proof (unfold_locales, goal_cases)
  case (1 listed)
  then show ?case by (auto simp: git_list_def and_then_Inr)
next
  case (2 ps files)
  then show ?case by (auto simp: git_read_def and_then_Inr)
next
  case (3 listed Q files)
  from 3(1) obtain plan sib where plan: "make_plan run cancelled g = Inr plan"
    and sib: "list_context run g (changed_paths (gp_changes plan)) (gp_current_rev plan) = Inr sib"
    and listed: "listed = sort_paths (changed_paths (gp_changes plan) @ sib)"
    by (auto simp: git_list_def and_then_Inr)
  let ?ch = "changed_paths (gp_changes plan)"
  let ?q = "\<lambda>p. Q (pp_path p)"
  let ?wanted = "map pp_path (filter ?q listed)"
  from 3(2) plan obtain fs gs where fs: "read_changes run plan ?wanted (gp_changes plan) = Inr fs"
    and gs: "read_siblings run plan (map p_path fs) ?wanted = Inr gs" and files: "files = sort_by_path (fs @ gs)"
    by (auto simp: git_read_def and_then_Inr)
  have wanted: "mset ?wanted = mset (map pp_path (filter ?q ?ch)) + mset (map pp_path (filter ?q sib))"
    by (simp add: listed mset_filter)
  have "map file_entry fs = map path_entry (filter ?q ?ch)"
    unfolding read_changes_entries [OF fs] by (rule arg_cong [of _ _ "map path_entry"], rule filter_cong)
      (auto simp: listed)
  moreover have "mset (filter (\<lambda>p. p \<notin> set (map p_path fs)) ?wanted) = mset (map pp_path (filter ?q sib))"
  proof -
    have "filter (\<lambda>p. p \<notin> set (map p_path fs)) (map pp_path (filter ?q ?ch)) = []"
      unfolding read_changes_paths [OF fs] by (auto simp: filter_empty_conv listed)
    moreover have "filter (\<lambda>p. p \<notin> set (map p_path fs)) (map pp_path (filter ?q sib)) = map pp_path (filter ?q sib)"
      unfolding read_changes_paths [OF fs] filter_id_conv using list_context_Inr(3) [OF sib] by auto
    ultimately show ?thesis
      using wanted by (metis add_0 mset.simps(1) mset_filter filter_union_mset)
  qed
  then have "mset (map file_entry gs) = mset (map (\<lambda>p. (p, [], StatusModified)) (map pp_path (filter ?q sib)))"
    unfolding read_siblings_entries [OF gs] by (simp only: mset_map)
  moreover have "map (\<lambda>p. (p, [], StatusModified)) (map pp_path (filter ?q sib)) = map path_entry (filter ?q sib)"
  proof -
    from list_context_Inr(1) [OF sib] have "\<forall>x\<in>set sib. x = listed_path (pp_path x) StatusModified"
      using map_eq_conv [of "\<lambda>x. x" sib "\<lambda>x. listed_path (pp_path x) StatusModified"] by (simp add: comp_def)
    then have "\<forall>x\<in>set sib. path_entry x = (pp_path x, [], StatusModified)"
      by (metis entry_git(1))
    then show ?thesis by (simp add: comp_def)
  qed
  ultimately have "mset (map file_entry (fs @ gs)) = mset (map path_entry (filter ?q (?ch @ sib)))"
    by (simp only: map_append mset_append filter_append)
  then show ?case
    by (simp only: files listed mset_map mset_filter mset_sort_paths mset_sort_by_path)
qed

interpretation gt: provider_contract
    "fp_list (git_provider run cancelled g)" "fp_read (git_provider run cancelled g)" for run cancelled g
  by (simp add: git_provider_def gp.with_error_text)

subsection \<open>The bound on what is read\<close>

lemma size_loop_value:
  "size_loop a s = Some m \<Longrightarrow> m \<le> max_file_bytes \<Longrightarrow> m = foldl (\<lambda>n c. n * 10 + (of_char c - 48)) a s"
  by (induction a s rule: size_loop.induct) (auto simp: Let_def split: if_splits)

lemma size_loop_bound:
  "0 \<le> a \<Longrightarrow> a \<le> max_file_bytes \<Longrightarrow> size_loop a s = Some m \<Longrightarrow> 0 \<le> m \<and> m \<le> 10 * max_file_bytes + 9"
proof (induction a s rule: size_loop.induct)
  case (2 a c cs)
  from "2.prems"(3) have nc: "\<not> (c < CHR ''0'' \<or> CHR ''9'' < c)" by (auto split: if_splits)
  then have "CHR ''0'' \<le> c" "c \<le> CHR ''9''" by (simp_all only: de_Morgan_disj not_less)
  then have "48 \<le> (of_char c :: nat)" and "(of_char c :: nat) \<le> 57"
    by (simp_all add: less_eq_char_def)
  then have "48 \<le> int (of_char c)" and "int (of_char c) \<le> 57" by simp_all
  then have d: "48 \<le> (of_char c :: int)" "(of_char c :: int) \<le> 57"
    by (simp_all only: of_nat_of_char)
  let ?n = "a * 10 + (of_char c - 48)"
  from "2.prems"(1,2) d have n: "0 \<le> ?n" "?n \<le> 10 * max_file_bytes + 9" by linarith+
  show ?case
  proof (cases "max_file_bytes < ?n")
    case True
    with "2.prems"(3) nc n show ?thesis by (auto simp: Let_def)
  next
    case False
    with "2.prems"(3) nc "2.IH" [OF nc refl False] n show ?thesis by (auto simp: Let_def)
  qed
qed simp

lemma parse_size_utoa:
  assumes "parse_size (utoa n) = Some m" and "m \<le> max_file_bytes"
  shows "m = int n"
  using assms size_loop_value [of 0 "digits (int n)" m] decimal_digits [of "int n"]
  by (simp add: parse_size_def utoa_def itoa_def decimal_def)

text \<open>What the git documentation says of \<open>cat-file -s\<close>: it prints the size of the object.\<close>

definition sizes_reported :: "git_run \<Rightarrow> bool" where
  "sizes_reported run \<longleftrightarrow> (\<forall>spec. \<not> go_failed (run [''cat-file'', ''-s'', spec]) \<longrightarrow>
     trim_space (go_out (run [''cat-file'', ''-s'', spec]))
       = utoa (length (go_out (run [''show'', ''--no-textconv'', spec]))))"

definition within_limit :: "changed_file \<Rightarrow> bool" where
  "within_limit f \<longleftrightarrow> int (length (p_previous f)) \<le> max_file_bytes \<and> int (length (p_current f)) \<le> max_file_bytes"

lemma within_limit_git [simp]:
  "within_limit (git_file p status a b)
     \<longleftrightarrow> int (length a) \<le> max_file_bytes \<and> int (length b) \<le> max_file_bytes"
  by (simp add: within_limit_def git_file_def)

lemma max_file_bytes_pos [simp]: "0 \<le> max_file_bytes"
  by (simp add: max_file_bytes_def)

lemma read_blob_bound:
  "sizes_reported run \<Longrightarrow> read_blob run r p = Inr content \<Longrightarrow> int (length content) \<le> max_file_bytes"
  by (auto simp: read_blob_def sizes_reported_def Let_def not_less dest!: parse_size_utoa
      split: if_splits option.splits)

lemma read_change_bound:
  "sizes_reported run \<Longrightarrow> read_change run plan wanted c = Inr fs \<Longrightarrow> list_all within_limit fs"
  by (auto simp: read_change_def append_added_def append_removed_def and_then_Inr
      dest: read_blob_bound split: if_splits)

lemma read_changes_bound:
  "sizes_reported run \<Longrightarrow> read_changes run plan wanted cs = Inr fs \<Longrightarrow> list_all within_limit fs"
  by (induction cs arbitrary: fs) (auto simp: and_then_Inr dest: read_change_bound)

lemma read_siblings_bound:
  "sizes_reported run \<Longrightarrow> read_siblings run plan changed ps = Inr fs \<Longrightarrow> list_all within_limit fs"
  by (induction ps arbitrary: fs)
    (auto simp: and_then_Inr dest: read_blob_bound split: if_splits)

lemma split_terminated:
  "\<forall>f\<in>set fs. c \<notin> set f \<Longrightarrow> split_on c (concat (map (\<lambda>f. f @ [c]) fs)) = fs @ [[]]"
  by (induction fs) (simp_all add: seg_simps)

subsection \<open>Properties\<close>

definition print_changes :: "(string \<times> git_change) list \<Rightarrow> string" where
  "print_changes cs = concat (map (\<lambda>f. f @ [nul]) (concat (map (\<lambda>(score, c). change_fields score c) cs)))"

text \<open>What git prints for a list of changes, each text ended by a NUL byte, is parsed back to exactly
  those changes, whatever similarity scores follow the letters. Conversely no text of an output that is
  accepted is lost: the texts are those of the changes that come out, in order.\<close>

theorem diff_round_trip:
  "(list_all (\<lambda>(score, c). change_ok c \<and> nul \<notin> set score) cs \<longrightarrow>
      parse_name_status (print_changes cs) = Inr (map snd cs))
   \<and> (parse_name_status out = Inr gs \<longrightarrow>
      (\<exists>scores. length scores = length gs \<and> list_all change_ok gs
        \<and> filter (\<lambda>f. f \<noteq> []) (split_on nul out) = concat (map2 change_fields scores gs)))"
proof (intro conjI impI)
  assume cs: "list_all (\<lambda>(score, c). change_ok c \<and> nul \<notin> set score) cs"
  then have "\<forall>f\<in>set (concat (map (\<lambda>(score, c). change_fields score c) cs)). nul \<notin> set f"
    by (fastforce simp: list_all_iff change_ok_def change_fields_def two_paths_def one_path_def)
  note terminated = split_terminated [OF this]
  from cs have "list_all (\<lambda>(score, c). change_ok c) cs" by (auto simp: list_all_iff)
  from parse_fields_changes [OF this] show "parse_name_status (print_changes cs) = Inr (map snd cs)"
    unfolding parse_name_status_def print_changes_def terminated .
next
  assume "parse_name_status out = Inr gs"
  then show "\<exists>scores. length scores = length gs \<and> list_all change_ok gs
      \<and> filter (\<lambda>f. f \<noteq> []) (split_on nul out) = concat (map2 change_fields scores gs)"
    unfolding parse_name_status_def by (rule parse_fields_complete) (blast dest: split_on_no_sep)
qed

text \<open>C34. Reading what was listed: for any choice of the listed paths, the files that are read are those,
  with the same statuses and none twice or missing, in the order of their paths.\<close>

theorem git_reads_the_listing:
  assumes "git_list run cancelled g = Inr listed"
    and "git_read run cancelled g (filter (\<lambda>p. Q (pp_path p)) listed) = Inr files"
  shows "mset (map file_entry files) = mset (map path_entry (filter (\<lambda>p. Q (pp_path p)) listed))
    \<and> sorted (map p_path files)"
  using gp.reads_what_was_asked [OF assms] gp.reading_sorted [OF assms(2)] by blast

text \<open>Bounds: at most 200 unchanged files accompany a change, each in a directory the change touches;
  and when git reports the sizes of its objects, no side of a file that is read is larger than 2 MiB.\<close>

theorem git_is_bounded:
  assumes "sizes_reported run" and "git_read run cancelled g paths = Inr files"
  shows "list_all within_limit files
    \<and> (\<forall>changed rev' siblings. list_context run g changed rev' = Inr siblings \<longrightarrow>
        length siblings \<le> 200
        \<and> path_dir ` set (map pp_path siblings) \<subseteq> path_dir ` set (map pp_path changed))"
proof -
  from assms(2) obtain plan fs gs where fs: "read_changes run plan (map pp_path paths) (gp_changes plan) = Inr fs"
    and gs: "read_siblings run plan (map p_path fs) (map pp_path paths) = Inr gs"
    and files: "files = sort_by_path (fs @ gs)"
    by (auto simp: git_read_def and_then_Inr)
  have "list_all within_limit files"
    using read_changes_bound [OF assms(1) fs] read_siblings_bound [OF assms(1) gs]
    by (auto simp: files list_all_iff)
  moreover have "length siblings \<le> 200
      \<and> path_dir ` set (map pp_path siblings) \<subseteq> path_dir ` set (map pp_path changed)"
    if "list_context run g changed rev' = Inr siblings" for changed rev' siblings
    using list_context_Inr(4,5) [OF that] by (simp add: max_context_files_def)
  ultimately show ?thesis by blast
qed

subsection \<open>A sample repository\<close>

text \<open>The branch \<open>HEAD\<close> adds one migration beside an older one.\<close>

definition git_ok :: "string \<Rightarrow> git_output" where
  "git_ok out = \<lparr>go_out = out, go_err = [], go_failed = False\<rparr>"

definition sample_git :: git where
  "sample_git = \<lparr>g_where = ''.'', g_base = ''main'', g_head = ''HEAD'', g_paths = []\<rparr>"

definition sample_run :: "string \<Rightarrow> git_run" where
  "sample_run diff args =
     (if args = [''rev-parse'', ''--verify'', ''--end-of-options'', ''main^{commit}''] then git_ok ''aaa''
      else if args = [''rev-parse'', ''--verify'', ''--end-of-options'', ''HEAD^{commit}''] then git_ok ''bbb''
      else if take 2 args = [''diff'', ''--name-status''] then git_ok diff
      else if take 2 args = [''diff'', ''--name-only'']
        then git_ok (''m/1.sql'' @ [nul] @ ''m/2.sql'' @ [nul])
      else if take 2 args = [''cat-file'', ''-s''] then git_ok ''4''
      else if take 1 args = [''show''] then git_ok ''text'' else git_ok [])"

definition one_added :: string where "one_added = ''A'' @ [nul] @ ''m/2.sql'' @ [nul]"

lemma sample_listing:
  "git_list (sample_run one_added) None sample_git
     = Inr [listed_path ''m/1.sql'' StatusModified, listed_path ''m/2.sql'' StatusAdded]"
  by code_simp

lemma sample_sizes: "sizes_reported (sample_run diff)"
proof -
  have "utoa (Suc (Suc (Suc (Suc 0)))) = ''4''" and "trim_space ''4'' = ''4''" by code_simp+
  then show ?thesis by (simp add: sizes_reported_def sample_run_def git_ok_def)
qed

lemma sample_reading:
  "git_read (sample_run one_added) None sample_git (filter (\<lambda>p. True) [listed_path ''m/1.sql'' StatusModified,
     listed_path ''m/2.sql'' StatusAdded])
     = Inr [git_file ''m/1.sql'' StatusModified ''text'' ''text'', git_file ''m/2.sql'' StatusAdded [] ''text'']"
  by code_simp

theorem git_reads_the_listing_witness:
  "\<exists>listed files. git_list (sample_run one_added) None sample_git = Inr listed
     \<and> git_read (sample_run one_added) None sample_git listed = Inr files \<and> length files = 2
     \<and> mset (map file_entry files) = mset (map path_entry listed)"
  using git_reads_the_listing [OF sample_listing sample_reading] sample_listing sample_reading by auto

theorem git_is_bounded_witness:
  "\<exists>files. git_read (sample_run one_added) None sample_git [listed_path ''m/2.sql'' StatusAdded] = Inr files
     \<and> length files = 1 \<and> list_all within_limit files"
proof -
  have r: "git_read (sample_run one_added) None sample_git [listed_path ''m/2.sql'' StatusAdded]
      = Inr [git_file ''m/2.sql'' StatusAdded [] ''text'']"
    by code_simp
  from git_is_bounded [OF sample_sizes r] r show ?thesis by auto
qed

theorem diff_round_trip_witness:
  "parse_name_status (print_changes [(''100'', \<lparr>gc_status = CHR ''R'', gc_src = ''a'', gc_dst = ''b''\<rparr>)])
     = Inr [\<lparr>gc_status = CHR ''R'', gc_src = ''a'', gc_dst = ''b''\<rparr>]"
  using diff_round_trip [of "[(''100'', \<lparr>gc_status = CHR ''R'', gc_src = ''a'', gc_dst = ''b''\<rparr>)]"]
  by (simp add: change_new two_paths_def one_path_def)

text \<open>A branch that moves between the listing and the reading is not noticed. Here the listing was made
  when \<open>HEAD\<close> added \<open>m/2.sql\<close>, and the reading after \<open>main\<close> had taken that commit in: the file that was
  listed as added is handed on as one whose two sides are the same, which analyzers take for context.\<close>

theorem moved_branch_mixes_two_diffs:
  "\<exists>listed files. resolve_changes
       \<lparr>fp_list = fp_list (git_provider (sample_run one_added) None sample_git),
        fp_read = fp_read (git_provider (sample_run []) None sample_git)\<rparr> (\<lambda>ps. (ps, ()))
       = Inr (listed, files, ())
     \<and> listed_path ''m/2.sql'' StatusAdded \<in> set listed
     \<and> git_file ''m/2.sql'' StatusModified ''text'' ''text'' \<in> set files"
proof -
  have "git_read (sample_run []) None sample_git
      [listed_path ''m/1.sql'' StatusModified, listed_path ''m/2.sql'' StatusAdded]
      = Inr [git_file ''m/1.sql'' StatusModified ''text'' ''text'', git_file ''m/2.sql'' StatusModified ''text'' ''text'']"
    by code_simp
  then show ?thesis by (simp add: resolve_changes_def git_provider_def sample_listing)
qed

end
