(* ===== verification/Provider_Root.thy ===== *)
theory Provider_Root
  imports Candidate
begin

text \<open>
  Where an analysis is rooted, \<open>internal/provider/root.go\<close>: the prefix that puts the paths of the file
  system provider into the namespace decisions are made in, and the place of one file named on a command
  line. An absolute path, as \<open>filepath.Abs\<close> returns it, is the list of its segments, innermost first, and
  \<open>abs_text\<close> is its text. The file system is asked through parameters: \<open>abs\<close>, whether a directory holds
  a marker, and whether a path is a file.
\<close>

subsection \<open>Absolute paths\<close>

definition abs_text :: "string list \<Rightarrow> string" where
  "abs_text segs = ''/'' @ join ''/'' (rev segs)"

fun strip_common :: "'a list \<Rightarrow> 'a list \<Rightarrow> 'a list \<times> 'a list" where
  "strip_common (b # bs) (t # ts) = (if b = t then strip_common bs ts else (b # bs, t # ts))"
| "strip_common bs ts = (bs, ts)"

definition segment_names :: "string \<Rightarrow> string list" where
  "segment_names p = filter (\<lambda>s. s \<noteq> []) (split_on slash p)"

text \<open>\<open>filepath.Rel\<close>.\<close>

definition path_rel :: "string \<Rightarrow> string \<Rightarrow> string option" where
  "path_rel base target =
     (let b = path_clean base; t = path_clean target; b' = (if b = ''.'' then [] else b) in
      if b = t then Some ''.''
      else if is_rooted b' \<noteq> is_rooted t then None
      else case strip_common (segment_names b') (segment_names t) of
        (bs, ts) \<Rightarrow>
          if bs \<noteq> [] \<and> hd bs = ''..'' then None
          else Some (join ''/'' (replicate (length bs) ''..'' @ ts)))"

subsection \<open>The project a path is in\<close>

definition project_markers :: "string list" where
  "project_markers = [''.git'', ''.hg'', ''.svn'', ''.reversibility.yml'']"

fun project_root :: "(string list \<Rightarrow> string \<Rightarrow> bool) \<Rightarrow> string list \<Rightarrow> (string list \<times> string) option" where
  "project_root marked [] = map_option (\<lambda>m. ([], m)) (find (marked []) project_markers)"
| "project_root marked (s # parents) =
     (case find (marked (s # parents)) project_markers of
        Some m \<Rightarrow> Some (s # parents, m)
      | None \<Rightarrow> project_root marked parents)"

definition clean_namespaced :: "string \<Rightarrow> string" where
  "clean_namespaced p = (if path_clean p \<noteq> ''.'' then path_clean p else [])"

definition locate_path :: "(string list \<Rightarrow> string \<Rightarrow> bool) \<Rightarrow> string list \<Rightarrow> string \<times> string" where
  "locate_path marked segs =
     (case project_root marked segs of
        None \<Rightarrow> (clean_namespaced (abs_text segs), [])
      | Some (project, m) \<Rightarrow>
          (case path_rel (abs_text project) (abs_text segs) of
             None \<Rightarrow> (clean_namespaced (abs_text segs), [])
           | Some within \<Rightarrow> (clean_namespaced within, m)))"

subsection \<open>Roots\<close>

record disk_view =
  dv_abs :: "string \<Rightarrow> string list option"
  dv_marked :: "string list \<Rightarrow> string \<Rightarrow> bool"
  dv_is_file :: "string list \<Rightarrow> bool"

definition root_location :: "disk_view \<Rightarrow> string \<Rightarrow> (string \<times> string) option" where
  "root_location v root' =
     (case dv_abs v root' of
        None \<Rightarrow> None
      | Some segs \<Rightarrow> Some (locate_path (dv_marked v) (if dv_is_file v segs then tl segs else segs)))"

record analysis_root =
  ar_prefix :: string
  ar_anchor :: string

definition no_root :: analysis_root where "no_root = \<lparr>ar_prefix = [], ar_anchor = []\<rparr>"

definition anchored :: "analysis_root \<Rightarrow> bool" where
  "anchored r \<longleftrightarrow> ar_anchor r \<noteq> []"

definition common_path :: "string \<Rightarrow> string \<Rightarrow> string" where
  "common_path a b =
     (let as = split_on slash a
      in join ''/'' (take (length as - length (fst (strip_common as (split_on slash b)))) as))"

fun resolve_rest :: "disk_view \<Rightarrow> string \<Rightarrow> string \<Rightarrow> bool \<Rightarrow> string list \<Rightarrow> analysis_root" where
  "resolve_rest v common anchor agreed [] =
     \<lparr>ar_prefix = common, ar_anchor = (if agreed then anchor else [])\<rparr>"
| "resolve_rest v common anchor agreed (r # rs) =
     (case root_location v r of
        None \<Rightarrow> no_root
      | Some (at, m) \<Rightarrow> resolve_rest v (common_path common at) anchor (agreed \<and> m = anchor) rs)"

definition resolve_root :: "disk_view \<Rightarrow> string list \<Rightarrow> analysis_root" where
  "resolve_root v roots =
     (case roots of
        [] \<Rightarrow> no_root
      | r # rs \<Rightarrow>
          (case root_location v r of
             None \<Rightarrow> no_root
           | Some (at, m) \<Rightarrow> resolve_rest v at m True rs))"

definition qualify_path :: "disk_view \<Rightarrow> string \<Rightarrow> string" where
  "qualify_path v p =
     (case dv_abs v p of None \<Rightarrow> p | Some segs \<Rightarrow> fst (locate_path (dv_marked v) segs))"

subsection \<open>Lemmas\<close>

text \<open>Segments as a file system has them; unlike \<open>repo_segs\<close> the list may be empty, which is the root.\<close>

definition plain_path :: "string list \<Rightarrow> bool" where
  "plain_path segs \<longleftrightarrow> (\<forall>s\<in>set segs. plain_seg s \<and> CHR 0x5C \<notin> set s)"

lemma repo_segs_plain: "repo_segs segs \<longleftrightarrow> segs \<noteq> [] \<and> plain_path segs"
  by (simp add: repo_segs_def plain_path_def)

lemma plain_path_append [simp]: "plain_path (as @ bs) \<longleftrightarrow> plain_path as \<and> plain_path bs"
  "plain_path (rev as) \<longleftrightarrow> plain_path as"
  by (auto simp: plain_path_def)

lemma clean_abs: "plain_path segs \<Longrightarrow> path_clean (abs_text segs) = abs_text segs"
proof -
  assume "plain_path segs"
  then have "stack_ok True segs"
    by (auto simp: stack_ok_def plain_path_def intro!: exI [of _ segs] exI [of _ "0::nat"])
  from path_clean_of_stack [OF this] show ?thesis by (simp add: abs_text_def)
qed

lemma names_abs: "plain_path segs \<Longrightarrow> segment_names (abs_text segs) = rev segs"
proof (cases "segs = []")
  case False
  assume "plain_path segs"
  then have plain: "\<forall>s\<in>set (rev segs). plain_seg s" by (simp add: plain_path_def)
  then have "split_on slash (path_of (rev segs)) = rev segs" using False by (intro split_path_of) simp
  moreover from plain have "\<forall>s\<in>set (rev segs). s \<noteq> []" unfolding plain_seg_def by blast
  ultimately show ?thesis by (simp add: segment_names_def abs_text_def path_of_def)
qed (simp add: segment_names_def abs_text_def)

lemma abs_text_inject: "plain_path as \<Longrightarrow> plain_path bs \<Longrightarrow> abs_text as = abs_text bs \<longleftrightarrow> as = bs"
  by (metis names_abs rev_rev_ident)

lemma strip_common_prefix [simp]: "strip_common xs (xs @ ys) = ([], ys)"
  by (induction xs) (cases ys, simp_all)

lemma rel_below:
  assumes "plain_path (cs @ project)"
  shows "path_rel (abs_text project) (abs_text (cs @ project))
    = Some (if cs = [] then ''.'' else path_of (rev cs))"
proof (cases "cs = []")
  case False
  have p: "plain_path project" and r: "abs_text segs \<noteq> ''.''" "is_rooted (abs_text segs)" for segs
    using assms by (simp_all add: abs_text_def)
  from False assms have "abs_text project \<noteq> abs_text (cs @ project)"
    using abs_text_inject [OF p assms] by simp
  with False assms p r show ?thesis
    by (simp add: path_rel_def clean_abs names_abs path_of_def)
qed (simp add: path_rel_def)

lemma clean_namespaced_path: "plain_path segs \<Longrightarrow> clean_namespaced (path_of segs) = path_of segs"
proof (cases "segs = []")
  case False
  assume "plain_path segs"
  with False have r: "repo_segs segs" by (simp add: repo_segs_plain)
  then have "path_clean (path_of segs) = path_of segs"
    by (auto simp: repo_segs_def intro!: path_clean_path_of)
  with path_of_not_dot [OF r] show ?thesis by (simp add: clean_namespaced_def)
qed (simp add: clean_namespaced_def path_of_def path_clean_def clean_stack_def clean_step_def is_rooted_def
      has_prefix_def)

lemma clean_namespaced_abs: "plain_path segs \<Longrightarrow> clean_namespaced (abs_text segs) = abs_text segs"
  using clean_abs [of segs] by (simp add: clean_namespaced_def) (simp add: abs_text_def)

lemma clean_namespaced_dot: "clean_namespaced ''.'' = []"
  by (simp add: clean_namespaced_def path_clean_def clean_stack_def clean_step_def is_rooted_def has_prefix_def)

lemma project_root_above: "project_root marked segs = Some (p, m) \<Longrightarrow> \<exists>as. segs = as @ p"
proof (induction segs)
  case (Cons s segs)
  show ?case
  proof (cases "find (marked (s # segs)) project_markers")
    case None
    with Cons obtain as where "segs = as @ p" by auto
    then show ?thesis by (intro exI [of _ "s # as"]) simp
  next
    case (Some m')
    with Cons.prems show ?thesis by auto
  qed
qed auto

definition unmarked :: "(string list \<Rightarrow> string \<Rightarrow> bool) \<Rightarrow> string list \<Rightarrow> bool" where
  "unmarked marked segs \<longleftrightarrow> find (marked segs) project_markers = None"

lemma project_root_below:
  "\<forall>k<length cs. unmarked marked (drop k cs @ segs) \<Longrightarrow>
     project_root marked (cs @ segs) = project_root marked segs"
proof (induction cs)
  case (Cons c cs)
  have "unmarked marked (drop k cs @ segs)" if "k < length cs" for k
    using Cons.prems that by (auto dest: spec [of _ "Suc k"])
  with Cons.IH Cons.prems show ?case
    by (auto simp: unmarked_def dest: spec [of _ 0])
qed simp

text \<open>Where a path lies, anchored and not.\<close>

lemma locate_path_cases:
  assumes "plain_path segs"
  obtains (project) as p m where "project_root marked segs = Some (p, m)" and "segs = as @ p"
      and "locate_path marked segs = (path_of (rev as), m)"
    | (none) "project_root marked segs = None" and "locate_path marked segs = (abs_text segs, [])"
proof (cases "project_root marked segs")
  case None
  with none assms show thesis by (simp add: locate_path_def clean_namespaced_abs)
next
  case (Some pm)
  obtain p m where pm: "pm = (p, m)" by (cases pm)
  with Some obtain as where as: "segs = as @ p" using project_root_above by blast
  with assms have "plain_path (as @ p)" and "plain_path (rev as)" by simp_all
  with Some pm as have "locate_path marked segs = (path_of (rev as), m)"
    by (simp add: locate_path_def rel_below clean_namespaced_path clean_namespaced_dot)
      (simp add: path_of_def)
  with project Some pm as show thesis by blast
qed

lemma locate_absolute:
  assumes "plain_path segs" and "repo_segs bs"
  shows "new_locator (abs_text segs) (path_of bs) = abs_text (rev bs @ segs)"
proof -
  have bs: "bs \<noteq> []" "plain_path bs" using assms(2) by (simp_all add: repo_segs_plain)
  have "CHR 0x5C \<notin> set (abs_text segs)"
    using assms(1) set_join [of "''/''" "rev segs"] by (auto simp: abs_text_def plain_path_def)
  moreover have "abs_text segs \<noteq> []" by (simp add: abs_text_def)
  ultimately have n: "normalize_slashes (abs_text segs) = abs_text segs"
    by (simp add: normalize_slashes_def replace_char_id clean_abs assms(1))
  have "path_clean (abs_text segs @ ''/'' @ path_of bs) = abs_text (rev bs @ segs)"
  proof (cases "segs = []")
    case True
    have split: "split_on slash (path_of bs) = bs"
      using bs by (intro split_path_of) (simp_all add: plain_path_def)
    have "stack_ok True (rev bs)"
      using bs by (auto simp: stack_ok_def plain_path_def intro!: exI [of _ "rev bs"] exI [of _ "0::nat"])
    from clean_stack_fixpoint [OF this] True split show ?thesis
      by (simp add: path_clean_def abs_text_def)
  next
    case False
    then have "abs_text segs @ ''/'' @ path_of bs = abs_text (rev bs @ segs)"
      using bs by (simp add: abs_text_def path_of_def join_append)
    with clean_abs [of "rev bs @ segs"] assms bs show ?thesis by simp
  qed
  moreover have "abs_text segs \<noteq> []" "abs_text segs \<noteq> ''.''" by (simp_all add: abs_text_def)
  ultimately show ?thesis
    using n normalize_repo [OF assms(2)] path_of_not_dot [OF assms(2)]
    by (simp add: new_locator_def path_join_def)
qed

lemma locate_below:
  assumes "plain_path segs" and "repo_segs bs"
    and "\<forall>k<length bs. unmarked marked (drop k (rev bs) @ segs)"
  shows "new_locator (fst (locate_path marked segs)) (path_of bs) = fst (locate_path marked (rev bs @ segs))"
proof -
  have bs: "plain_path bs" using assms(2) by (simp add: repo_segs_plain)
  have pr: "project_root marked (rev bs @ segs) = project_root marked segs"
    using assms(3) by (intro project_root_below) simp
  show ?thesis
  proof (cases rule: locate_path_cases [OF assms(1), of marked, case_names project none])
    case (project as p m)
    from assms(1) bs project(2) have "plain_path ((rev bs @ as) @ p)" and "plain_path (as @ p)" by simp_all
    with pr project have "locate_path marked (rev bs @ segs) = (path_of (rev as @ bs), m)"
      using rel_below [of "rev bs @ as" p] clean_namespaced_path [of "rev as @ bs"] assms(2)
      by (simp add: locate_path_def repo_segs_def)
    moreover have "new_locator (path_of (rev as)) (path_of bs) = path_of (rev as @ bs)"
    proof (cases "as = []")
      case True
      with locate_identity [OF assms(2)] show ?thesis by (simp add: path_of_def)
    next
      case False
      with \<open>plain_path (as @ p)\<close> have "repo_segs (rev as)" by (simp add: repo_segs_plain)
      from locate_rooted [OF this assms(2)] show ?thesis .
    qed
    ultimately show ?thesis using project(3) by simp
  next
    case none
    with pr assms(1) bs have "locate_path marked (rev bs @ segs) = (abs_text (rev bs @ segs), [])"
      by (simp add: locate_path_def clean_namespaced_abs)
    with none locate_absolute [OF assms(1,2)] show ?thesis by simp
  qed
qed

text \<open>The directory a root on the command line stands for.\<close>

definition root_dir :: "disk_view \<Rightarrow> string \<Rightarrow> string list option" where
  "root_dir v r = map_option (\<lambda>segs. if dv_is_file v segs then tl segs else segs) (dv_abs v r)"

lemma resolve_one:
  "root_dir v r = Some segs \<Longrightarrow> ar_prefix (resolve_root v [r]) = fst (locate_path (dv_marked v) segs)"
  by (auto simp: root_dir_def resolve_root_def root_location_def split: prod.splits)

subsection \<open>Properties\<close>

text \<open>The two ways to place a file agree: under a root, a file whose path relative to the root is given
  lies, with the prefix of the root joined on, exactly where it lies when it is named by itself, in or
  outside a project, provided that no directory below the root starts a project of its own.\<close>

theorem placing_agrees:
  assumes "root_dir v r = Some segs" and "plain_path segs"
    and "dv_abs v f = Some (rev bs @ segs)" and "repo_segs bs"
    and "\<forall>k<length bs. unmarked (dv_marked v) (drop k (rev bs) @ segs)"
  shows "new_locator (ar_prefix (resolve_root v [r])) (path_of bs) = qualify_path v f"
  using locate_below [OF assms(2,4,5)] by (simp add: resolve_one [OF assms(1)] qualify_path_def assms(3))

text \<open>How a root is named makes no difference to where a file lies, and so none to whether it may be a
  migration: a directory and any directory above it in the same project give one place.\<close>

theorem root_naming_is_irrelevant:
  assumes "root_dir v r = Some segs" and "root_dir v outer = Some higher"
    and "segs = rev as @ higher" and "plain_path segs" and "as \<noteq> []" and "repo_segs bs"
    and "\<forall>k<length (as @ bs). unmarked (dv_marked v) (drop k (rev (as @ bs)) @ higher)"
  shows "new_locator (ar_prefix (resolve_root v [r])) (path_of bs)
      = new_locator (ar_prefix (resolve_root v [outer])) (path_of (as @ bs))
    \<and> candidate (new_locator (ar_prefix (resolve_root v [r])) (path_of bs))
      = candidate (new_locator (ar_prefix (resolve_root v [outer])) (path_of (as @ bs)))"
proof -
  have segs: "plain_path higher" "plain_path as" using assms(3,4) by simp_all
  with assms(5,6) have ab: "repo_segs (as @ bs)" by (simp add: repo_segs_plain)
  have "unmarked (dv_marked v) (drop k (rev bs) @ segs)" if "k < length bs" for k
    using that assms(7) by (auto simp: assms(3) dest: spec [of _ k])
  with locate_below [OF assms(4,6)] have
    "new_locator (fst (locate_path (dv_marked v) segs)) (path_of bs)
      = fst (locate_path (dv_marked v) (rev bs @ segs))" by blast
  moreover have "new_locator (fst (locate_path (dv_marked v) higher)) (path_of (as @ bs))
      = fst (locate_path (dv_marked v) (rev (as @ bs) @ higher))"
    using locate_below [OF segs(1) ab] assms(7) by blast
  ultimately show ?thesis
    by (simp add: resolve_one [OF assms(1)] resolve_one [OF assms(2)] assms(3))
qed

subsection \<open>A sample disk\<close>

lemma all_less_Suc: "(\<forall>k<Suc n. Q k) \<longleftrightarrow> Q n \<and> (\<forall>k<n. Q k)"
  by (auto simp: less_Suc_eq)

text \<open>A checkout at \<open>/repo\<close> with a package \<open>pkg\<close> that has a policy of its own. The names on the command
  line are absolute.\<close>

definition sample_view :: disk_view where
  "sample_view = \<lparr>dv_abs = (\<lambda>p. Some (rev (segment_names p))),
     dv_marked = (\<lambda>segs m. segs = [''repo''] \<and> m = ''.git''
       \<or> segs = [''pkg'', ''repo''] \<and> m = ''.reversibility.yml''),
     dv_is_file = (\<lambda>segs. False)\<rparr>"

lemma sample_abs [simp]: "dv_abs sample_view p = Some (rev (segment_names p))"
  "dv_is_file sample_view segs = False"
  by (simp_all add: sample_view_def)

theorem placing_agrees_witness:
  "new_locator (ar_prefix (resolve_root sample_view [''/repo/api''])) ''migrations/1.py''
     = qualify_path sample_view ''/repo/api/migrations/1.py''"
proof -
  have n: "segment_names ''/repo/api'' = [''repo'', ''api'']"
    "segment_names ''/repo/api/migrations/1.py'' = [''repo'', ''api'', ''migrations'', ''1.py'']"
    "path_of [''migrations'', ''1.py''] = ''migrations/1.py''"
    by code_simp+
  have r: "root_dir sample_view ''/repo/api'' = Some [''api'', ''repo'']" by (simp add: root_dir_def n)
  have f: "dv_abs sample_view ''/repo/api/migrations/1.py''
      = Some (rev [''migrations'', ''1.py''] @ [''api'', ''repo''])" by (simp add: n)
  have p: "plain_path [''api'', ''repo'']" and b: "repo_segs [''migrations'', ''1.py'']"
    by (simp_all add: plain_path_def repo_segs_def plain_seg_def)
  have u: "\<forall>k<length [''migrations'', ''1.py'']. unmarked (dv_marked sample_view)
      (drop k (rev [''migrations'', ''1.py'']) @ [''api'', ''repo''])"
    by (simp add: all_less_Suc unmarked_def sample_view_def project_markers_def)
  from placing_agrees [OF r p f b u] show ?thesis unfolding n(3) .
qed

theorem root_naming_is_irrelevant_witness:
  "candidate (new_locator (ar_prefix (resolve_root sample_view [''/repo/api/migrations''])) ''1.py'')
     = candidate (new_locator (ar_prefix (resolve_root sample_view [''/repo''])) ''api/migrations/1.py'')"
proof -
  have n: "segment_names ''/repo/api/migrations'' = [''repo'', ''api'', ''migrations'']"
    "segment_names ''/repo'' = [''repo'']"
    "path_of [''api'', ''migrations'', ''1.py''] = ''api/migrations/1.py''" "path_of [''1.py''] = ''1.py''"
    by code_simp+
  have r: "root_dir sample_view ''/repo/api/migrations'' = Some [''migrations'', ''api'', ''repo'']"
    and outer: "root_dir sample_view ''/repo'' = Some [''repo'']"
    by (simp_all add: root_dir_def n)
  have a: "[''migrations'', ''api'', ''repo''] = rev [''api'', ''migrations''] @ [''repo'']" by simp
  have p: "plain_path [''migrations'', ''api'', ''repo'']" and b: "repo_segs [''1.py'']"
    by (simp_all add: plain_path_def repo_segs_def plain_seg_def)
  have u: "\<forall>k<length ([''api'', ''migrations''] @ [''1.py'']). unmarked (dv_marked sample_view)
      (drop k (rev ([''api'', ''migrations''] @ [''1.py''])) @ [''repo''])"
    by (simp add: all_less_Suc unmarked_def sample_view_def project_markers_def)
  from root_naming_is_irrelevant [OF r outer a p _ b u] show ?thesis by (simp add: n)
qed

text \<open>Below a directory with a marker of its own the two do not agree: the plan file of a package is
  placed by its name in the package's project and by the changeset in the outer one, so the analyzer
  that is told the plan by name does not find it in the changeset.\<close>

theorem nested_project_splits_the_namespace:
  "new_locator (ar_prefix (resolve_root sample_view [''/repo''])) ''pkg/plan.json'' = ''pkg/plan.json''
   \<and> qualify_path sample_view ''/repo/pkg/plan.json'' = ''plan.json''"
  by (rule conjI; code_simp)

text \<open>Two roots have only the prefix they share, and a file of either is placed by that prefix alone:
  the directory that makes it a possible migration is lost, although each root by itself shows it.\<close>

theorem second_root_hides_the_migrations:
  "candidate (new_locator (ar_prefix (resolve_root sample_view [''/repo/api/migrations''])) ''0001.py'')
   \<and> candidate (new_locator (ar_prefix (resolve_root sample_view [''/repo/web/migrations''])) ''0002.py'')
   \<and> \<not> candidate (new_locator (ar_prefix (resolve_root sample_view
         [''/repo/api/migrations'', ''/repo/web/migrations''])) ''0001.py'')
   \<and> \<not> candidate (new_locator (ar_prefix (resolve_root sample_view
         [''/repo/api/migrations'', ''/repo/web/migrations''])) ''0002.py'')"
  by (intro conjI; code_simp)

end
