(* ===== verification/Cli_Catalog.thy ===== *)
theory Cli_Catalog
  imports Terraform_Analyzer Go_Float "HOL-Library.AList"
begin

text \<open>
  The commands \<open>catalog show\<close>, \<open>catalog scan\<close> and \<open>version\<close>, \<open>internal/delivery/cli/catalog.go\<close> and
  \<open>version.go\<close>, with the names of the embedded catalogs, \<open>catalog/catalog.go\<close>. The embedded files, the
  decoders of YAML and of JSON, the program \<open>terraform\<close> and the file system are parameters. A map of Go is a
  list of its bindings in the order in which the loop over it happens to run; a map that is built is an
  association list, and everything that is printed of it is sorted first.
\<close>

subsection \<open>Embedded catalogs\<close>

definition catalog_file :: "string \<Rightarrow> string" where
  "catalog_file provider = ''terraform/'' @ provider @ ''.yaml''"

definition embedded_catalog :: "(string \<Rightarrow> string + string) \<Rightarrow> string \<Rightarrow> string + string" where
  "embedded_catalog files provider =
     map_sum (\<lambda>e. ''no embedded catalog for provider '' @ go_quote provider @ '': '' @ e) (\<lambda>x. x)
       (files (catalog_file provider))"

definition terraform_providers :: "string + string list \<Rightarrow> string + string list" where
  "terraform_providers found =
     map_sum (\<lambda>e. ''listing embedded catalogs: '' @ e)
       (map (\<lambda>e. drop 10 (take (length e - 5) e))) found"

subsection \<open>The command show\<close>

record catalog_env =
  ce_files :: "string \<Rightarrow> string + string"
  ce_glob :: "string + string list"
  ce_yaml :: "string \<Rightarrow> string + catalog_document"
  ce_sha :: "string \<Rightarrow> string"
  ce_look_path :: "string option"
  ce_terraform :: "string + string"
  ce_json :: "string \<Rightarrow> string + (string \<times> (string \<times> string list \<times> string list) list) list"
  ce_write :: "string \<Rightarrow> string \<Rightarrow> nat \<Rightarrow> string option"

definition load_for :: "catalog_env \<Rightarrow> string \<Rightarrow> string + catalog" where
  "load_for v provider = load_embedded (ce_sha v) (ce_yaml v) (embedded_catalog (ce_files v) provider)"

definition show_catalog :: "catalog \<Rightarrow> string" where
  "show_catalog c =
     (case coverage_counts c of (stateful, stateless) \<Rightarrow>
        ''provider '' @ cg_provider c @ newline
        @ ''  catalog version  '' @ cg_version c @ newline
        @ ''  digest           '' @ cg_digest c @ newline
        @ ''  classified       '' @ utoa (length (cg_entries c)) @ '' types ('' @ utoa stateful @ '' stateful, ''
        @ utoa stateless @ '' stateless)'' @ newline)"

text \<open>What was printed before an error stays printed.\<close>

fun show_catalogs :: "catalog_env \<Rightarrow> string list \<Rightarrow> string \<Rightarrow> string option \<times> string" where
  "show_catalogs v [] out = (None, out)"
| "show_catalogs v (p # ps) out =
     (case load_for v p of
        Inl e \<Rightarrow> (Some (''loading the '' @ p @ '' catalog: '' @ e), out)
      | Inr c \<Rightarrow> show_catalogs v ps (out @ show_catalog c))"

definition run_catalog_show :: "catalog_env \<Rightarrow> string option \<times> string" where
  "run_catalog_show v =
     (case terraform_providers (ce_glob v) of
        Inl e \<Rightarrow> (Some (''listing embedded catalogs: '' @ e), [])
      | Inr ps \<Rightarrow> show_catalogs v ps [])"

subsection \<open>The command scan\<close>

type_synonym provider_types = "(string \<times> string list) list"

fun declare_types :: "(string \<times> string list \<times> string list) list \<Rightarrow> provider_types \<Rightarrow> provider_types" where
  "declare_types [] schema = schema"
| "declare_types ((name, attributes, nested) # rs) schema =
     declare_types rs (AList.update name (sort (attributes @ nested)) schema)"

fun matching_providers ::
  "string \<Rightarrow> (string \<times> (string \<times> string list \<times> string list) list) list \<Rightarrow> provider_types \<Rightarrow> provider_types" where
  "matching_providers provider [] schema = schema"
| "matching_providers provider ((name, types) # ps) schema =
     matching_providers provider ps
       (if contains name (''/'' @ provider) then declare_types types schema else schema)"

definition provider_schema :: "catalog_env \<Rightarrow> string \<Rightarrow> string + provider_types" where
  "provider_schema v provider =
     (case ce_terraform v of
        Inl e \<Rightarrow> Inl (''running `terraform providers schema -json`: ''
          @ ''the working directory must be an initialised Terraform configuration using the ''
          @ provider @ '' provider: '' @ e)
      | Inr out \<Rightarrow>
          (case ce_json v out of
             Inl e \<Rightarrow> Inl (''reading the provider schema: '' @ e)
           | Inr doc \<Rightarrow>
               (let schema = matching_providers provider doc [] in
                if schema = [] then
                  Inl (''the provider schema contained no resource types for that provider; ''
                    @ ''check the --provider name and that `terraform init` has run'')
                else Inr schema)))"

definition missing_types :: "catalog \<Rightarrow> provider_types \<Rightarrow> string list" where
  "missing_types existing schema = sort (filter (\<lambda>t. cg_by_type existing t = None) (map fst schema))"

definition coverage_percent :: "nat \<Rightarrow> nat \<Rightarrow> float64" where
  "coverage_percent classified types =
     (if types = 0 then fl_of_int 0
      else fl_mult (fl_div (fl_of_int (int classified)) (fl_of_int (int types))) (fl_of_int 100))"

definition attributes_of :: "provider_types \<Rightarrow> string \<Rightarrow> string list" where
  "attributes_of schema t = (case map_of schema t of None \<Rightarrow> [] | Some a \<Rightarrow> a)"

definition render_candidate :: "provider_types \<Rightarrow> string \<Rightarrow> string" where
  "render_candidate schema t =
     (case suggest_class (attributes_of schema t) of (suggested, why) \<Rightarrow>
        ''  - type: '' @ t @ newline
        @ ''    class: '' @ class_text suggested @ newline
        @ ''    evidence: '' @ [CHR 0x22, CHR 0x22] @ ''   # REQUIRED '' @ emdash
        @ '' link the provider documentation for this type'' @ newline
        @ (if why \<noteq> [] then ''    # suggested by: '' @ why @ newline
           else ''    # no stateful evidence in the schema; verify before accepting'' @ newline))"

definition render_candidates :: "catalog \<Rightarrow> provider_types \<Rightarrow> string list \<Rightarrow> string" where
  "render_candidates existing schema missing =
     ''# CANDIDATES '' @ emdash @ '' generated by `revctl catalog scan`. NOT a catalog.'' @ newline
     @ ''#'' @ newline
     @ ''# Every entry below is a proposal for a human to check. Each needs an evidence link'' @ newline
     @ ''# before it can be merged; entries without one fail the build, which is deliberate.'' @ newline
     @ ''#'' @ newline
     @ ''# Classified already: '' @ utoa (length (cg_entries existing)) @ '' of '' @ utoa (length schema) @ '' types (''
     @ fl_fixed 1 (coverage_percent (length (cg_entries existing)) (length schema)) @ ''%).'' @ newline
     @ newline @ ''candidates:'' @ newline
     @ concat (map (render_candidate schema) missing)"

definition scan_summary :: "catalog \<Rightarrow> provider_types \<Rightarrow> string \<Rightarrow> string list \<Rightarrow> string" where
  "scan_summary existing schema provider missing =
     ''revctl: '' @ utoa (length (cg_entries existing)) @ '' of '' @ utoa (length schema) @ '' '' @ provider
     @ '' resource types are classified ('' @ fl_fixed 1 (coverage_percent (length (cg_entries existing)) (length schema))
     @ ''%); '' @ utoa (length missing) @ '' candidates proposed'' @ newline"

record scan_result =
  sr_error :: "string option"
  sr_stdout :: string
  sr_file :: "(string \<times> string \<times> nat) option"
  sr_stderr :: string

definition scan_failed :: "string \<Rightarrow> scan_result" where
  "scan_failed e = \<lparr>sr_error = Some e, sr_stdout = [], sr_file = None, sr_stderr = []\<rparr>"

definition run_catalog_scan :: "catalog_env \<Rightarrow> string \<Rightarrow> string \<Rightarrow> scan_result" where
  "run_catalog_scan v provider output =
     (case ce_look_path v of
        Some e \<Rightarrow> scan_failed (''terraform is not on PATH, and `catalog scan` reads a provider schema through it. ''
          @ ''Install terraform and run `terraform init` in a directory using the provider first: '' @ e)
      | None \<Rightarrow>
          (case load_for v provider of
             Inl e \<Rightarrow> scan_failed (''loading the '' @ provider @ '' catalog: '' @ e)
           | Inr existing \<Rightarrow>
               (case provider_schema v provider of
                  Inl e \<Rightarrow> scan_failed e
                | Inr schema \<Rightarrow>
                    (let missing = missing_types existing schema;
                         rendered = render_candidates existing schema missing;
                         summary = scan_summary existing schema provider missing
                     in if output = [] then
                          \<lparr>sr_error = None, sr_stdout = rendered, sr_file = None, sr_stderr = summary\<rparr>
                        else
                          (case ce_write v output rendered 420 of
                             Some e \<Rightarrow> scan_failed (''writing '' @ output @ '': '' @ e)
                           | None \<Rightarrow> \<lparr>sr_error = None, sr_stdout = [], sr_file = Some (output, rendered, 420),
                               sr_stderr = summary\<rparr>)))))"

subsection \<open>The command version\<close>

definition version_line :: string where
  "version_line = ''certificate schema '' @ schema_version @ newline"

definition run_version :: "(string \<Rightarrow> string option) \<Rightarrow> string option" where
  "run_version write = map_option (\<lambda>e. ''writing the version: '' @ e) (write version_line)"

subsection \<open>The types of a provider\<close>

lemma declare_types_distinct: "distinct (map fst schema) \<Longrightarrow> distinct (map fst (declare_types rs schema))"
  by (induction rs schema rule: declare_types.induct) (simp_all add: distinct_update)

lemma matching_providers_distinct:
  "distinct (map fst schema) \<Longrightarrow> distinct (map fst (matching_providers provider ps schema))"
  by (induction provider ps schema rule: matching_providers.induct) (simp_all add: declare_types_distinct)

text \<open>The types that the matching providers declare, in the order in which the loops run.\<close>

definition declared :: "string \<Rightarrow> (string \<times> (string \<times> string list \<times> string list) list) list \<Rightarrow> provider_types" where
  "declared provider doc =
     concat (map (\<lambda>(name, types).
       if contains name (''/'' @ provider) then map (\<lambda>(t, attributes, nested). (t, sort (attributes @ nested))) types else []) doc)"

definition put_all :: "provider_types \<Rightarrow> provider_types \<Rightarrow> provider_types" where
  "put_all xs schema = fold (\<lambda>(t, attributes). AList.update t attributes) xs schema"

lemma put_all_simps [simp]:
  "put_all [] schema = schema" "put_all ((t, a) # xs) schema = put_all xs (AList.update t a schema)"
  "put_all (xs @ ys) schema = put_all ys (put_all xs schema)"
  by (simp_all add: put_all_def)

lemma declare_types_put:
  "declare_types rs schema = put_all (map (\<lambda>(t, attributes, nested). (t, sort (attributes @ nested))) rs) schema"
  by (induction rs schema rule: declare_types.induct) simp_all

lemma matching_providers_put: "matching_providers provider doc schema = put_all (declared provider doc) schema"
  by (induction provider doc schema rule: matching_providers.induct) (simp_all add: declared_def declare_types_put)

lemma put_all_types: "fst ` set (put_all xs schema) = fst ` set xs \<union> fst ` set schema"
proof (induction xs arbitrary: schema)
  case (Cons x xs)
  obtain t a where x: "x = (t, a)" by (cases x)
  have "fst ` set (put_all xs (AList.update t a schema)) = fst ` set xs \<union> ({t} \<union> fst ` set schema)"
    by (simp only: Cons dom_update)
  then show ?case by (simp add: x)
qed simp

lemma put_all_distinct: "distinct (map fst schema) \<Longrightarrow> distinct (map fst (put_all xs schema))"
  by (induction xs arbitrary: schema) (auto simp: distinct_update)

lemma put_all_map: "map_of (put_all xs schema) = map_of schema ++ map_of (rev xs)"
  by (induction xs arbitrary: schema) (auto simp: update_conv' map_add_def fun_eq_iff split: option.splits)

lemma provider_schema_Inr:
  assumes "provider_schema v provider = Inr schema"
  obtains out doc where "ce_terraform v = Inr out" "ce_json v out = Inr doc"
    "schema = put_all (declared provider doc) []"
  using assms by (auto simp: provider_schema_def Let_def matching_providers_put split: sum.splits if_splits)

lemma schema_types:
  assumes "schema = put_all (declared provider doc) []"
  shows "distinct (map fst schema)" and "fst ` set schema = fst ` set (declared provider doc)"
  by (simp_all add: assms put_all_distinct put_all_types)

lemma missing_types_once:
  assumes "distinct (map fst schema)"
  shows "sorted (missing_types existing schema)" and "distinct (missing_types existing schema)"
    and "set (missing_types existing schema) = {t \<in> fst ` set schema. cg_by_type existing t = None}"
    and "length schema = length (missing_types existing schema)
      + card {t \<in> fst ` set schema. cg_by_type existing t \<noteq> None}"
proof -
  show "sorted (missing_types existing schema)" and d: "distinct (missing_types existing schema)"
    and m: "set (missing_types existing schema) = {t \<in> fst ` set schema. cg_by_type existing t = None}"
    using assms by (auto simp: missing_types_def)
  have "length schema = card (fst ` set schema)"
    using distinct_card [OF assms] by simp
  also have "fst ` set schema = {t \<in> fst ` set schema. cg_by_type existing t = None} \<union> {t \<in> fst ` set schema. cg_by_type existing t \<noteq> None}"
    by auto
  also have "card \<dots> = length (missing_types existing schema) + card {t \<in> fst ` set schema. cg_by_type existing t \<noteq> None}"
    using distinct_card [OF d] by (subst card_Un_disjoint) (auto simp: m)
  finally show "length schema = length (missing_types existing schema)
      + card {t \<in> fst ` set schema. cg_by_type existing t \<noteq> None}" .
qed

lemma run_catalog_scan_ok:
  assumes "sr_error (run_catalog_scan v provider output) = None"
  obtains existing schema where "load_for v provider = Inr existing" "provider_schema v provider = Inr schema"
    "sr_stdout (run_catalog_scan v provider output)
       = (if output = [] then render_candidates existing schema (missing_types existing schema) else [])"
    "sr_file (run_catalog_scan v provider output)
       = (if output = [] then None else Some (output, render_candidates existing schema (missing_types existing schema), 420))"
    "sr_stderr (run_catalog_scan v provider output) = scan_summary existing schema provider (missing_types existing schema)"
  using assms
  by (auto simp: run_catalog_scan_def scan_failed_def Let_def split: option.splits sum.splits if_splits)

subsection \<open>Properties\<close>

text \<open>A scan proposes every type that a matching provider declares and the catalog does not classify exactly once,
  in the order of their names, and nothing else; the proposal goes to one place.\<close>

theorem scan_proposes_each_type_once:
  assumes "sr_error (run_catalog_scan v provider output) = None"
    and "ce_terraform v = Inr out" and "ce_json v out = Inr doc"
  shows "\<exists>existing schema missing. load_for v provider = Inr existing
    \<and> fst ` set schema = fst ` set (declared provider doc)
    \<and> sorted missing \<and> distinct missing
    \<and> set missing = {t \<in> fst ` set (declared provider doc). cg_by_type existing t = None}
    \<and> (sr_stdout (run_catalog_scan v provider output), sr_file (run_catalog_scan v provider output))
       = (if output = [] then (render_candidates existing schema missing, None)
          else ([], Some (output, render_candidates existing schema missing, 420)))"
proof -
  obtain existing schema where r: "load_for v provider = Inr existing" "provider_schema v provider = Inr schema"
    "sr_stdout (run_catalog_scan v provider output)
       = (if output = [] then render_candidates existing schema (missing_types existing schema) else [])"
    "sr_file (run_catalog_scan v provider output)
       = (if output = [] then None else Some (output, render_candidates existing schema (missing_types existing schema), 420))"
    using run_catalog_scan_ok [OF assms(1)] by metis
  from r(2) assms(2,3) have "schema = put_all (declared provider doc) []"
    by (elim provider_schema_Inr) simp
  note st = schema_types [OF this]
  show ?thesis
    using r st missing_types_once [OF st(1), of existing]
    by (intro exI [of _ existing] exI [of _ schema] exI [of _ "missing_types existing schema"]) simp
qed

text \<open>What a scan proposes cannot be loaded as it is: a catalog with a candidate in it, as it was proposed, has
  no evidence for it and is refused.\<close>

definition candidate_entry :: "provider_types \<Rightarrow> string \<Rightarrow> catalog_entry" where
  "candidate_entry schema t =
     \<lparr>en_type = t, en_class = fst (suggest_class (attributes_of schema t)), en_evidence = [], en_added_in = []\<rparr>"

theorem candidates_never_load:
  assumes "yaml raw = Inr d" and "candidate_entry schema t \<in> set (cg_entries d)"
  shows "\<exists>e. parse_catalog sha yaml raw = Inl e"
proof (cases "parse_catalog sha yaml raw")
  case (Inr c)
  then have "catalog_ok c" by (rule parse_catalog_Inr(1))
  moreover have "cg_entries c = cg_entries d"
    using Inr assms(1) by (auto simp: parse_catalog_def Let_def split: sum.splits if_splits)
  ultimately have "validate_entry (candidate_entry schema t) = None"
    using assms(2) by (simp add: catalog_ok_def list_all_iff)
  moreover have "validate_entry (candidate_entry schema t) \<noteq> None"
    by (simp add: validate_entry_def candidate_entry_def trim_space_def)
  ultimately show ?thesis by simp
qed simp

text \<open>The order in which the loops over the maps run does not show, as long as no type is declared twice.\<close>

theorem scan_order_does_not_show:
  assumes "mset (declared provider doc) = mset (declared provider doc')"
    and "distinct (map fst (declared provider doc))"
  shows "missing_types existing (matching_providers provider doc []) = missing_types existing (matching_providers provider doc' [])"
    and "render_candidates existing (matching_providers provider doc []) missing
       = render_candidates existing (matching_providers provider doc' []) missing"
    and "scan_summary existing (matching_providers provider doc []) provider missing
       = scan_summary existing (matching_providers provider doc' []) provider missing"
proof -
  let ?s = "put_all (declared provider doc) []" and ?s' = "put_all (declared provider doc') []"
  have d': "distinct (map fst (declared provider doc'))"
    using assms by (metis mset_eq_imp_distinct_iff mset_map)
  have set: "set (declared provider doc) = set (declared provider doc')" by (rule mset_eq_setD [OF assms(1)])
  have m: "map_of ?s = map_of ?s'"
  proof -
    have "map_of (rev (declared provider doc)) = map_of (rev (declared provider doc'))"
      using assms(2) d' set by (intro map_of_inject_set [THEN iffD2]) (simp_all add: rev_map [symmetric])
    then show ?thesis by (simp add: put_all_map)
  qed
  have ds: "distinct (map fst ?s)" "distinct (map fst ?s')" by (simp_all add: put_all_distinct)
  have keys: "fst ` set ?s = fst ` set ?s'" by (simp add: put_all_types set)
  then have l: "length ?s = length ?s'"
    using distinct_card [OF ds(1)] distinct_card [OF ds(2)] by simp
  have "mset (map fst ?s) = mset (map fst ?s')"
    using ds keys by (intro set_eq_iff_mset_eq_distinct [THEN iffD1]) simp_all
  then have "sort (filter P (map fst ?s)) = sort (filter P (map fst ?s'))" for P
    by (intro properties_for_sort) (simp_all add: mset_filter)
  then show "missing_types existing (matching_providers provider doc []) = missing_types existing (matching_providers provider doc' [])"
    by (simp add: missing_types_def matching_providers_put)
  have a: "attributes_of ?s = attributes_of ?s'" by (simp add: attributes_of_def fun_eq_iff m)
  have "render_candidate ?s = render_candidate ?s'" by (simp add: render_candidate_def fun_eq_iff a)
  then show "render_candidates existing (matching_providers provider doc []) missing
       = render_candidates existing (matching_providers provider doc' []) missing"
    by (simp add: render_candidates_def matching_providers_put l)
  show "scan_summary existing (matching_providers provider doc []) provider missing
       = scan_summary existing (matching_providers provider doc' []) provider missing"
    by (simp add: scan_summary_def matching_providers_put l)
qed

text \<open>A provider is matched by the beginning of its name. One provider whose name begins with another declares
  types for both; where both declare a type, the order of the loop decides what is proposed for it.\<close>

definition two_providers :: "(string \<times> (string \<times> string list \<times> string list) list) list" where
  "two_providers =
     [(''registry.terraform.io/hashicorp/google'', [(''google_sql_database_instance'', [''deletion_protection''], [])]),
      (''registry.terraform.io/hashicorp/google-beta'', [(''google_sql_database_instance'', [''name''], [])])]"

theorem providers_matched_by_prefix:
  "map fst (matching_providers ''aws''
     [(''registry.terraform.io/hashicorp/awscc'', [(''awscc_s3_bucket'', [''arn''], [])])] []) = [''awscc_s3_bucket'']"
  "render_candidate (matching_providers ''google'' two_providers []) ''google_sql_database_instance''
     \<noteq> render_candidate (matching_providers ''google'' (rev two_providers) []) ''google_sql_database_instance''"
  by code_simp+

text \<open>The share of types that are classified counts the entries of the catalog, not the types: a catalog with
  types the provider no longer declares covers more than all of it.\<close>

definition old_entries :: "catalog_entry list" where
  "old_entries = map (\<lambda>t. \<lparr>en_type = t, en_class = Stateful, en_evidence = ''https://x'', en_added_in = []\<rparr>)
     [''aws_a'', ''aws_b'', ''aws_c'']"

definition old_catalog :: catalog where
  "old_catalog =
     \<lparr>cg_version = ''1'', cg_provider = ''aws'', cg_entries = old_entries, cg_digest = [],
      cg_by_type = (\<lambda>t. find (\<lambda>e. en_type e = t) old_entries)\<rparr>"

theorem coverage_counts_entries:
  "scan_summary old_catalog [(''aws_d'', [])] ''aws'' (missing_types old_catalog [(''aws_d'', [])])
     = ''revctl: 3 of 1 aws resource types are classified (300.0%); 1 candidates proposed'' @ newline"
  by code_simp

text \<open>A provider with two types, one of which is classified.\<close>

definition sample_document :: catalog_document where
  "sample_document = \<lparr>cg_version = ''1'', cg_provider = ''aws'', cg_entries = take 1 old_entries\<rparr>"

definition sample_schema :: "(string \<times> (string \<times> string list \<times> string list) list) list" where
  "sample_schema =
     [(''registry.terraform.io/hashicorp/aws'', [(''aws_b'', [''arn''], []), (''aws_a'', [''arn''], [])]),
      (''registry.terraform.io/hashicorp/null'', [(''null_resource'', [], [])])]"

definition sample_catalogs :: catalog_env where
  "sample_catalogs =
     \<lparr>ce_files = (\<lambda>f. Inr []), ce_glob = Inr [''terraform/aws.yaml''], ce_yaml = (\<lambda>r. Inr sample_document), ce_sha = (\<lambda>x. x),
      ce_look_path = None, ce_terraform = Inr [], ce_json = (\<lambda>r. Inr sample_schema), ce_write = (\<lambda>p c m. None)\<rparr>"

lemma sample_catalog_loads: "\<exists>c. load_for sample_catalogs ''aws'' = Inr c"
  by (simp add: load_for_def load_embedded_def embedded_catalog_def sample_catalogs_def parse_catalog_def
      sample_document_def old_entries_def trim_space_def is_space_def validate_entry_def has_prefix_def)

lemma sample_scans: "sr_error (run_catalog_scan sample_catalogs ''aws'' ''out.yaml'') = None"
proof -
  have "matching_providers ''aws'' sample_schema [] \<noteq> []" by code_simp
  then have "provider_schema sample_catalogs ''aws'' = Inr (matching_providers ''aws'' sample_schema [])"
    by (simp add: provider_schema_def sample_catalogs_def)
  moreover have "ce_look_path sample_catalogs = None" "ce_write sample_catalogs = (\<lambda>p c m. None)"
    by (simp_all add: sample_catalogs_def)
  ultimately show ?thesis using sample_catalog_loads by (auto simp: run_catalog_scan_def Let_def)
qed

theorem scan_proposes_each_type_once_witness:
  "\<exists>existing missing. load_for sample_catalogs ''aws'' = Inr existing
     \<and> sorted missing \<and> set missing = {t \<in> fst ` set (declared ''aws'' sample_schema). cg_by_type existing t = None}"
proof -
  note scan_proposes_each_type_once [OF sample_scans, of "[]" sample_schema]
  moreover have "ce_terraform sample_catalogs = Inr []" "ce_json sample_catalogs [] = Inr sample_schema"
    by (simp_all add: sample_catalogs_def)
  ultimately show ?thesis by (elim exE conjE meta_impE) (assumption | blast)+
qed

theorem candidates_never_load_witness:
  "\<exists>e. parse_catalog (\<lambda>x. x)
     (\<lambda>raw. Inr \<lparr>cg_version = ''1'', cg_provider = ''aws'', cg_entries = [candidate_entry [] ''aws_b'']\<rparr>) [] = Inl e"
  by (rule candidates_never_load [OF refl, where t = "''aws_b''" and schema = "[]"]) simp

theorem scan_order_does_not_show_witness:
  "missing_types old_catalog (matching_providers ''aws'' sample_schema [])
     = missing_types old_catalog (matching_providers ''aws'' (rev sample_schema) [])"
proof (rule scan_order_does_not_show(1))
  show "mset (declared ''aws'' sample_schema) = mset (declared ''aws'' (rev sample_schema))"
    and "distinct (map fst (declared ''aws'' sample_schema))" by code_simp+
qed

end
