(* ===== verification/Collect_Redact.thy ===== *)
theory Collect_Redact
  imports Prelude
begin

text \<open>
  The scrubbing of messages before they are shown, \<open>internal/snapshot/collect/redact.go\<close>. The two regular
  expressions are matchers: a leftmost match, greedy, over the bytes of the text, with the boundary of a
  word, the white space and the folding of letters of RE2. What a message says apart from the
  credentials is the same for all credentials, for the shapes the comments name; other shapes get through.
\<close>

subsection \<open>Matching\<close>

definition is_word :: "char \<Rightarrow> bool" where
  "is_word c \<longleftrightarrow> (let n = (of_char c :: nat) in
     48 \<le> n \<and> n \<le> 57 \<or> 65 \<le> n \<and> n \<le> 90 \<or> 97 \<le> n \<and> n \<le> 122 \<or> c = CHR ''_'')"

definition re_space :: "char \<Rightarrow> bool" where
  "re_space c \<longleftrightarrow> c \<in> {CHR 0x20, CHR 0x09, CHR 0x0A, CHR 0x0C, CHR 0x0D}"

text \<open>The length of what matches a literal without regard to case: the folds of \<open>s\<close> are \<open>S\<close> and the long s.\<close>

fun fold_length :: "string \<Rightarrow> string \<Rightarrow> nat option" where
  "fold_length [] s = Some 0"
| "fold_length (p # ps) [] = None"
| "fold_length (p # ps) (c # s) =
     (if lower_char c = p then map_option Suc (fold_length ps s)
      else if p = CHR ''s'' \<and> c = CHR 0xC5 \<and> s \<noteq> [] \<and> hd s = CHR 0xBF
        then map_option (\<lambda>n. Suc (Suc n)) (fold_length ps (tl s))
      else None)"

definition scheme_length :: "string \<Rightarrow> nat option" where
  "scheme_length s =
     (case fold_length ''postgresql://'' s of
        Some n \<Rightarrow> Some n
      | None \<Rightarrow> fold_length ''postgres://'' s)"

definition user_char :: "char \<Rightarrow> bool" where
  "user_char c \<longleftrightarrow> \<not> re_space c \<and> c \<noteq> CHR ''/'' \<and> c \<noteq> CHR ''@''"

text \<open>The rest of a user name and password that ends in the sign, with what follows it.\<close>

definition after_user :: "string \<Rightarrow> string option" where
  "after_user s =
     (case dropWhile user_char s of c # r \<Rightarrow> if c = CHR ''@'' then Some r else None | [] \<Rightarrow> None)"

definition match_url :: "string \<Rightarrow> (string \<times> string) option" where
  "match_url s =
     (case scheme_length s of
        None \<Rightarrow> None
      | Some n \<Rightarrow> map_option (\<lambda>r. (take n s, r)) (after_user (drop n s)))"

lemma after_user_shorter: "after_user s = Some r \<Longrightarrow> length r < length s"
  using length_dropWhile_le [of user_char s]
  by (auto simp: after_user_def split: list.splits if_splits)

lemma match_url_shorter: "match_url s = Some (sch, r) \<Longrightarrow> length r < length s"
  by (auto simp: match_url_def dest!: after_user_shorter split: option.splits)

text \<open>\<open>ReplaceAllString\<close> of the first expression. The flag says that the byte before is part of a word.\<close>

function replace_urls :: "bool \<Rightarrow> string \<Rightarrow> string" where
  "replace_urls w [] = []"
| "replace_urls w (c # s) =
     (case (if w then None else match_url (c # s)) of
        Some (scheme, r) \<Rightarrow> scheme @ ''REDACTED@'' @ replace_urls False r
      | None \<Rightarrow> c # replace_urls (is_word c) s)"
  by pat_completeness auto

termination
  by (relation "measure (length \<circ> snd)") (auto dest: match_url_shorter split: if_splits)

text \<open>The value of a keyword: quoted, or up to white space. The result has the last byte of the match.\<close>

definition after_quote :: "char \<Rightarrow> string \<Rightarrow> string option" where
  "after_quote q r = (if q \<in> set r then Some (tl (dropWhile (\<lambda>c. c \<noteq> q) r)) else None)"

definition match_value :: "string \<Rightarrow> (char \<times> string) option" where
  "match_value s =
     (case s of
        [] \<Rightarrow> None
      | q # r \<Rightarrow>
          if (q = CHR 0x27 \<or> q = CHR 0x22) \<and> q \<in> set r
          then map_option (\<lambda>rest. (q, rest)) (after_quote q r)
          else if re_space q then None
          else Some (last (takeWhile (\<lambda>c. \<not> re_space c) s), dropWhile (\<lambda>c. \<not> re_space c) s))"

definition match_keyword :: "string \<Rightarrow> (char \<times> string) option" where
  "match_keyword s =
     (case fold_length ''password'' s of
        None \<Rightarrow> None
      | Some n \<Rightarrow>
          (case dropWhile re_space (drop n s) of
             [] \<Rightarrow> None
           | c # r \<Rightarrow> if c = CHR ''='' then match_value (dropWhile re_space r) else None))"

lemma match_value_shorter: "match_value s = Some (c, r) \<Longrightarrow> length r \<le> length s"
proof (cases s)
  case (Cons q t)
  assume "match_value s = Some (c, r)"
  with Cons consider "after_quote q t = Some r" | "r = dropWhile (\<lambda>c. \<not> re_space c) s"
    by (auto simp: match_value_def split: if_splits)
  then show ?thesis
  proof cases
    case 1
    then have "length r \<le> length (dropWhile (\<lambda>c. c \<noteq> q) t)" by (auto simp: after_quote_def split: if_splits)
    with length_dropWhile_le [of "\<lambda>c. c \<noteq> q" t] Cons show ?thesis by simp
  next
    case 2
    with length_dropWhile_le [of "\<lambda>c. \<not> re_space c" s] show ?thesis by simp
  qed
qed (simp add: match_value_def)

lemma match_keyword_shorter: "match_keyword s = Some (c, r) \<Longrightarrow> length r < length s"
proof -
  assume m: "match_keyword s = Some (c, r)"
  then obtain n e t where t: "dropWhile re_space (drop n s) = e # t" "match_value (dropWhile re_space t) = Some (c, r)"
    by (auto simp: match_keyword_def split: option.splits if_splits list.splits)
  have "length r \<le> length t"
    using match_value_shorter [OF t(2)] length_dropWhile_le [of re_space t] by simp
  moreover have "Suc (length t) \<le> length (drop n s)"
    using t(1) length_dropWhile_le [of re_space "drop n s"] by (metis length_Cons)
  ultimately show ?thesis by simp
qed

definition redacted_keyword :: string where "redacted_keyword = ''password=REDACTED''"

function replace_keywords :: "bool \<Rightarrow> string \<Rightarrow> string" where
  "replace_keywords w [] = []"
| "replace_keywords w (c # s) =
     (case (if w then None else match_keyword (c # s)) of
        Some (l, r) \<Rightarrow> redacted_keyword @ replace_keywords (is_word l) r
      | None \<Rightarrow> c # replace_keywords (is_word c) s)"
  by pat_completeness auto

termination
  by (relation "measure (length \<circ> snd)") (auto dest: match_keyword_shorter split: if_splits)

definition redact :: "string \<Rightarrow> string" where
  "redact s = replace_keywords False (replace_urls False s)"

text \<open>An error is its text; a message that is clean keeps it.\<close>

definition redact_dsn :: "string option \<Rightarrow> string option" where
  "redact_dsn err =
     (case err of
        None \<Rightarrow> None
      | Some e \<Rightarrow> if redact e = e then Some e else Some (redact e))"

definition credential_markers :: "string list" where
  "credential_markers = [''password'', ''passwd'', ''secret'', ''token'', ''apikey'', ''api_key'', ''credential'']"

definition looks_like_credential :: "string \<Rightarrow> bool" where
  "looks_like_credential s =
     (let lower = to_lower s in
      list_ex (contains lower) credential_markers \<or> contains lower ''://'' \<and> contains lower ''@'')"

subsection \<open>The shape of a URL\<close>

definition url_scheme :: "string \<Rightarrow> bool" where
  "url_scheme sch \<longleftrightarrow> sch = ''postgres://'' \<or> sch = ''postgresql://''"

definition no_word_before :: "bool \<Rightarrow> string \<Rightarrow> bool" where
  "no_word_before w pre \<longleftrightarrow> (if pre = [] then \<not> w else \<not> is_word (last pre))"

lemma lower_p: "lower_char c = CHR ''p'' \<Longrightarrow> c \<noteq> CHR 0xC5 \<and> c \<noteq> CHR 0xBF"
  by (auto simp: lower_char_def)

lemma fold_length_p:
  "\<lbrakk>CHR ''p'' \<notin> set ps; lower_char q = CHR ''p''\<rbrakk> \<Longrightarrow> fold_length ps (x @ q # y) = fold_length ps x"
proof (induction ps x rule: fold_length.induct)
  case (2 p ps)
  then show ?case using lower_p [of q] by auto
next
  case (3 p ps c s)
  then show ?case using lower_p [of q] by (cases s) auto
qed simp

lemma scheme_head:
  assumes "url_scheme sch"
  shows "\<exists>q rest. sch = q # rest \<and> lower_char q = CHR ''p''"
proof -
  have "lower_char (CHR ''p'') = CHR ''p''" by (simp add: lower_char_def)
  with assms show ?thesis by (auto simp: url_scheme_def)
qed

lemma scheme_length_append:
  assumes "x \<noteq> []" and "url_scheme sch"
  shows "scheme_length (x @ sch @ y) = scheme_length x"
proof -
  obtain q rest where q: "sch = q # rest" "lower_char q = CHR ''p''" using scheme_head [OF assms(2)] by blast
  obtain c x' where x: "x = c # x'" using assms(1) by (cases x) auto
  have "fold_length (CHR ''p'' # ps) (x @ sch @ y) = fold_length (CHR ''p'' # ps) x" if "CHR ''p'' \<notin> set ps" for ps
    using fold_length_p [OF that q(2), of x' "rest @ y"] by (simp add: x q(1))
  from this [of "''ostgresql://''"] this [of "''ostgres://''"] show ?thesis by (simp add: scheme_length_def split: option.split)
qed

lemma fold_length_le: "fold_length p s = Some n \<Longrightarrow> n \<le> length s"
proof (induction p s arbitrary: n rule: fold_length.induct)
  case (3 p ps c s)
  then show ?case by (cases s) (auto split: if_splits)
qed auto

lemma scheme_length_le: "scheme_length s = Some n \<Longrightarrow> n \<le> length s"
  by (auto simp: scheme_length_def dest: fold_length_le split: option.splits)

lemma after_user_append:
  assumes "url_scheme sch"
  shows "after_user (x @ sch @ y) = map_option (\<lambda>r. r @ sch @ y) (after_user x)"
proof (cases "list_all user_char x")
  case True
  then have "dropWhile user_char (x @ sch @ y) = dropWhile user_char (sch @ y)" and n: "dropWhile user_char x = []"
    by (simp_all add: list_all_iff dropWhile_append)
  moreover have "\<exists>r. dropWhile user_char (sch @ y) = CHR ''/'' # r"
    using assms by (auto simp: url_scheme_def user_char_def re_space_def)
  ultimately show ?thesis by (auto simp: after_user_def n simp del: dropWhile_eq_Nil_conv)
next
  case False
  then have "dropWhile user_char (x @ sch @ y) = dropWhile user_char x @ sch @ y" and "dropWhile user_char x \<noteq> []"
    by (auto simp: list_all_iff dropWhile_append)
  then show ?thesis by (auto simp: after_user_def split: list.split)
qed

lemma match_url_append:
  assumes "x \<noteq> []" and "url_scheme sch"
  shows "match_url (x @ sch @ y) = map_option (\<lambda>(s, r). (s, r @ sch @ y)) (match_url x)"
  using scheme_length_append [OF assms, of y] after_user_append [OF assms(2), of _ y] scheme_length_le [of x]
  by (auto simp: match_url_def option.map_comp comp_def split: option.split)

lemma match_url_suffix: "match_url x = Some (s, r) \<Longrightarrow> \<exists>z. x = z @ r \<and> z \<noteq> []"
proof -
  assume m: "match_url x = Some (s, r)"
  then obtain n c where "dropWhile user_char (drop n x) = c # r"
    by (auto simp: match_url_def after_user_def split: option.splits list.splits if_splits)
  then have "drop n x = takeWhile user_char (drop n x) @ c # r" by (metis takeWhile_dropWhile_id)
  then have "x = (take n x @ takeWhile user_char (drop n x) @ [c]) @ r" by (metis append.assoc append_Cons append_Nil append_take_drop_id)
  then show ?thesis by (metis append_is_Nil_conv not_Cons_self2)
qed

lemma match_scheme:
  assumes "url_scheme sch" and "list_all user_char u"
  shows "match_url (sch @ u @ ''@'' @ post) = Some (sch, post)"
proof -
  have "after_user (u @ ''@'' @ post) = Some post"
    using assms(2) by (simp add: after_user_def list_all_iff dropWhile_append user_char_def)
  then show ?thesis
    using assms(1) by (auto simp: match_url_def scheme_length_def url_scheme_def lower_char_def)
qed

lemma replace_urls_credentials:
  assumes "url_scheme sch" and "list_all user_char u" and "list_all user_char v"
  shows "no_word_before w pre \<Longrightarrow>
     replace_urls w (pre @ sch @ u @ ''@'' @ post) = replace_urls w (pre @ sch @ v @ ''@'' @ post)"
proof (induction w pre rule: replace_urls.induct)
  case (1 w)
  then have "replace_urls w (sch @ t @ ''@'' @ post) = sch @ ''REDACTED@'' @ replace_urls False post"
    if "list_all user_char t" for t
    using match_scheme [OF assms(1) that, of post] scheme_head [OF assms(1)]
    by (cases "sch @ t @ ''@'' @ post") (simp_all add: no_word_before_def)
  with assms show ?case by simp
next
  case (2 w c s)
  let ?y = "\<lambda>t. t @ ''@'' @ post"
  have m: "match_url (c # s @ sch @ ?y t) = map_option (\<lambda>(a, r). (a, r @ sch @ ?y t)) (match_url (c # s))" for t
    using match_url_append [of "c # s" sch "?y t"] assms(1) by simp
  show ?case
  proof (cases "if w then None else match_url (c # s)")
    case None
    have "no_word_before (is_word c) s" using 2(3) by (auto simp: no_word_before_def split: if_splits)
    with 2(1) [OF None] None show ?thesis using m [of u] m [of v] by (cases w) simp_all
  next
    case (Some p)
    obtain a r where p: "p = (a, r)" by (cases p)
    with Some have mr: "match_url (c # s) = Some (a, r)" "\<not> w" by (auto split: if_splits)
    from match_url_suffix [OF mr(1)] obtain z where "c # s = z @ r" by blast
    then have "no_word_before False r" using 2(3) by (auto simp: no_word_before_def split: if_splits)
    with 2(2) [OF Some p [symmetric]] mr show ?thesis using m [of u] m [of v] by simp
  qed
qed

subsection \<open>Properties\<close>

text \<open>C38. A message that quotes a connection URL says nothing of the credentials in it: whatever stands around
  the URL, as long as it does not run on from a word, the message after redaction is the same for any two
  user names and passwords without white space, slashes and at signs.\<close>

theorem redaction_hides_credentials:
  assumes "url_scheme sch" and "list_all user_char u" and "list_all user_char v"
    and "pre = [] \<or> \<not> is_word (last pre)"
  shows "redact (pre @ sch @ u @ ''@'' @ post) = redact (pre @ sch @ v @ ''@'' @ post)"
  using replace_urls_credentials [OF assms(1-3), of False pre post] assms(4)
  by (auto simp: redact_def no_word_before_def)

theorem redaction_hides_credentials_witness:
  "redact (''dial postgres://u:hunter2@db'') = redact (''dial postgres://u:other@db'')"
proof -
  have "redact (''dial '' @ ''postgres://'' @ ''u:hunter2'' @ ''@'' @ ''db'') = redact (''dial '' @ ''postgres://'' @ ''u:other'' @ ''@'' @ ''db'')"
    by (rule redaction_hides_credentials) (simp_all add: url_scheme_def user_char_def re_space_def is_word_def)
  then show ?thesis by simp
qed

text \<open>Shapes that get through: a slash in the password keeps the whole URL as it is, an at sign in it keeps
  what follows the first, an escaped quote or a space keeps the rest of a quoted password, and a keyword
  that is part of a longer name is not one.\<close>

theorem credentials_that_get_through:
  "redact ''postgres://u:a/b@h'' = ''postgres://u:a/b@h''"
  "redact ''postgres://u:a@b@h'' = ''postgres://REDACTED@b@h''"
  "redact (''password='' @ [CHR 0x27] @ ''a'' @ [CHR 0x5C, CHR 0x27] @ ''b'' @ [CHR 0x27])
     = ''password=REDACTEDb'' @ [CHR 0x27]"
  "redact ''PGPASSWORD=hunter2'' = ''PGPASSWORD=hunter2''"
  by code_simp+

end
