(* ===== verification/Collect.thy ===== *)
theory Collect
  imports Collect_Redact Enrich Go_Path Digest Go_Marshal
begin

text \<open>
  The collectors of production metadata, \<open>internal/snapshot/collect/postgres.go\<close> and \<open>kubernetes.go\<close>, and the
  command that runs them, \<open>internal/delivery/cli/snapshot.go\<close>. The driver of the database and the client of the
  cluster are parameters: what they answer to every call the code makes. A query fails as a whole, in one of
  its rows, or at its end; a row is what it was scanned into, and a scan that fails assigns nothing. The
  clock is read in seconds of UTC, to which the code truncates it.
\<close>

subsection \<open>PostgreSQL\<close>

record 'a rows =
  rs_rows :: "(string + 'a) list"
  rs_end :: "string option"

record pg_session =
  ps_identity :: "string + string \<times> string"
  ps_fallback :: "string + string option \<times> string"
  ps_reset :: "string + instant option"
  ps_tables :: "string + table_stat rows"
  ps_indexes :: "string + index_stat rows"
  ps_columns :: "string + column_stat rows"

text \<open>The runtime parameters of a connection, by name.\<close>

type_synonym runtime_params = "string \<rightharpoonup> string"

record pg_driver =
  dr_parse :: "string \<Rightarrow> string + runtime_params"
  dr_connect :: "string \<Rightarrow> runtime_params \<Rightarrow> string + pg_session"

definition wrapped :: "string \<Rightarrow> string \<Rightarrow> string" where
  "wrapped what e = what @ '': '' @ the (redact_dsn (Some e))"

fun read_rows :: "string \<Rightarrow> (string + 'a) list \<Rightarrow> 'a list \<Rightarrow> string + 'a list" where
  "read_rows what [] out = Inr out"
| "read_rows what (Inl e # rs) out = Inl (wrapped what e)"
| "read_rows what (Inr r # rs) out = read_rows what rs (out @ [r])"

definition collect_rows :: "string \<Rightarrow> string \<Rightarrow> string + 'a rows \<Rightarrow> string + 'a list" where
  "collect_rows what row q =
     (case q of
        Inl e \<Rightarrow> Inl (wrapped (''reading '' @ what) e)
      | Inr rs \<Rightarrow>
          (case read_rows (''reading '' @ row) (rs_rows rs) [] of
             Inl e \<Rightarrow> Inl e
           | Inr out \<Rightarrow>
               (case rs_end rs of
                  Some e \<Rightarrow> Inl (wrapped (''reading '' @ what) e)
                | None \<Rightarrow> Inr out)))"

definition collect_tables :: "pg_session \<Rightarrow> string + table_stat list" where
  "collect_tables s = collect_rows ''table sizes'' ''a table row'' (ps_tables s)"

definition collect_indexes :: "pg_session \<Rightarrow> string + index_stat list" where
  "collect_indexes s =
     (let reset_at = (case ps_reset s of Inl e \<Rightarrow> None | Inr t \<Rightarrow> t) in
      map_sum id (map (\<lambda>i. i\<lparr>ix_reset := reset_at\<rparr>))
        (collect_rows ''index statistics'' ''an index row'' (ps_indexes s)))"

definition collect_columns :: "pg_session \<Rightarrow> string + column_stat list" where
  "collect_columns s = collect_rows ''column statistics'' ''a column row'' (ps_columns s)"

definition pg_fingerprint :: "(string \<Rightarrow> string) \<Rightarrow> pg_session \<Rightarrow> string + string" where
  "pg_fingerprint sha s =
     (case (case ps_identity s of
              Inr p \<Rightarrow> Inr p
            | Inl e \<Rightarrow>
                (case ps_fallback s of
                   Inl e' \<Rightarrow> Inl (wrapped ''reading the database identity'' e)
                 | Inr (name, database) \<Rightarrow> Inr (case name of None \<Rightarrow> [] | Some n \<Rightarrow> n, database))) of
        Inl e \<Rightarrow> Inl e
      | Inr (identity, database) \<Rightarrow>
          Inr (hex_encode (sha (''postgres'' @ [CHR 0x00] @ identity @ [CHR 0x00] @ database))))"

definition read_only_params :: "runtime_params \<Rightarrow> runtime_params" where
  "read_only_params p =
     p(''default_transaction_read_only'' \<mapsto> ''on'', ''application_name'' \<mapsto> ''reversibility-engine-snapshot'')"

definition pg_snapshot :: "string \<Rightarrow> instant \<Rightarrow> string \<Rightarrow> postgres_data \<Rightarrow> snapshot" where
  "pg_snapshot environment now fingerprint d =
     \<lparr>sn_schema_version = snapshot_schema_version, sn_kind = kind_postgres, sn_environment = environment,
      sn_collected = now, sn_fingerprint = fingerprint, sn_postgres = Some d, sn_kubernetes = None\<rparr>"

definition collect_postgres ::
  "(string \<Rightarrow> string) \<Rightarrow> pg_driver \<Rightarrow> string \<Rightarrow> instant \<Rightarrow> string \<Rightarrow> string + snapshot" where
  "collect_postgres sha driver environment now dsn =
     (case dr_parse driver dsn of
        Inl e \<Rightarrow> Inl (wrapped ''the connection string could not be parsed'' e)
      | Inr params \<Rightarrow>
          (case dr_connect driver dsn (read_only_params params) of
             Inl e \<Rightarrow> Inl (wrapped ''connecting'' e)
           | Inr s \<Rightarrow>
               (case pg_fingerprint sha s of
                  Inl e \<Rightarrow> Inl e
                | Inr fingerprint \<Rightarrow>
                    (case collect_tables s of
                       Inl e \<Rightarrow> Inl e
                     | Inr tables \<Rightarrow>
                         (case collect_indexes s of
                            Inl e \<Rightarrow> Inl e
                          | Inr indexes \<Rightarrow>
                              (case collect_columns s of
                                 Inl e \<Rightarrow> Inl e
                               | Inr columns \<Rightarrow>
                                   Inr (canonicalize (pg_snapshot environment now fingerprint
                                     \<lparr>pg_tables = tables, pg_indexes = indexes, pg_columns = columns\<rparr>))))))))"

subsection \<open>Kubernetes\<close>

record claim_item =
  ci_namespace :: string
  ci_name :: string
  ci_phase :: string
  ci_class :: "string option"
  ci_storage :: "string option"

record workload_item =
  wi_namespace :: string
  wi_name :: string
  wi_replicas :: "int option"

record kube_client =
  kc_config :: "string + string"
  kc_new :: "string option"
  kc_classes :: "string + (string \<times> string option) list"
  kc_claims :: "string + claim_item list"
  kc_deployments :: "string + workload_item list"
  kc_stateful_sets :: "string + workload_item list"
  kc_daemon_sets :: "string + (string \<times> string \<times> int) list"
  kc_raw :: "string + string \<times> (string \<rightharpoonup> string)"

definition or_empty :: "string option \<Rightarrow> string" where
  "or_empty s = (case s of None \<Rightarrow> [] | Some t \<Rightarrow> t)"

definition collect_storage_classes :: "kube_client \<Rightarrow> string + storage_class list" where
  "collect_storage_classes k =
     map_sum (\<lambda>e. ''listing storage classes: '' @ e)
       (map (\<lambda>(name, policy). \<lparr>sc_name = name, sc_policy = or_empty policy\<rparr>)) (kc_classes k)"

definition collect_claims :: "kube_client \<Rightarrow> string + claim_stat list" where
  "collect_claims k =
     map_sum (\<lambda>e. ''listing persistent volume claims: '' @ e)
       (map (\<lambda>c. \<lparr>pv_namespace = ci_namespace c, pv_name = ci_name c, pv_phase = ci_phase c,
          pv_class = or_empty (ci_class c), pv_capacity = or_empty (ci_storage c)\<rparr>)) (kc_claims k)"

definition workload_of :: "string \<Rightarrow> workload_item \<Rightarrow> workload_stat" where
  "workload_of kind w =
     \<lparr>wl_namespace = wi_namespace w, wl_kind = kind, wl_name = wi_name w,
      wl_replicas = (case wi_replicas w of None \<Rightarrow> 0 | Some n \<Rightarrow> n)\<rparr>"

definition collect_workloads :: "kube_client \<Rightarrow> string + workload_stat list" where
  "collect_workloads k =
     (case kc_deployments k of
        Inl e \<Rightarrow> Inl (''listing deployments: '' @ e)
      | Inr ds \<Rightarrow>
          (case kc_stateful_sets k of
             Inl e \<Rightarrow> Inl (''listing stateful sets: '' @ e)
           | Inr ss \<Rightarrow>
               (case kc_daemon_sets k of
                  Inl e \<Rightarrow> Inl (''listing daemon sets: '' @ e)
                | Inr as \<Rightarrow>
                    Inr (map (workload_of ''Deployment'') ds @ map (workload_of ''StatefulSet'') ss
                      @ map (\<lambda>(ns, name, n). \<lparr>wl_namespace = ns, wl_kind = ''DaemonSet'', wl_name = name,
                          wl_replicas = n\<rparr>) as))))"

definition kube_fingerprint :: "(string \<Rightarrow> string) \<Rightarrow> kube_client \<Rightarrow> string \<Rightarrow> string \<Rightarrow> string + string" where
  "kube_fingerprint sha k ctx host =
     (case kc_raw k of
        Inl e \<Rightarrow> Inl (''reading the kubeconfig: '' @ e)
      | Inr (current, contexts) \<Rightarrow>
          (let name = (if ctx = [] then current else ctx);
               cluster = (case contexts name of None \<Rightarrow> name | Some c \<Rightarrow> c)
           in Inr (hex_encode (sha (''kubernetes'' @ [CHR 0x00] @ cluster @ [CHR 0x00] @ host)))))"

definition kube_snapshot :: "string \<Rightarrow> instant \<Rightarrow> string \<Rightarrow> kubernetes_data \<Rightarrow> snapshot" where
  "kube_snapshot environment now fingerprint d =
     \<lparr>sn_schema_version = snapshot_schema_version, sn_kind = kind_kubernetes, sn_environment = environment,
      sn_collected = now, sn_fingerprint = fingerprint, sn_postgres = None, sn_kubernetes = Some d\<rparr>"

definition collect_kubernetes ::
  "(string \<Rightarrow> string) \<Rightarrow> kube_client \<Rightarrow> string \<Rightarrow> string \<Rightarrow> instant \<Rightarrow> string + snapshot" where
  "collect_kubernetes sha k ctx environment now =
     (case kc_config k of
        Inl e \<Rightarrow> Inl (''resolving cluster credentials: '' @ e)
      | Inr host \<Rightarrow>
          (case kc_new k of
             Some e \<Rightarrow> Inl (''building a cluster client: '' @ e)
           | None \<Rightarrow>
               (case collect_storage_classes k of
                  Inl e \<Rightarrow> Inl e
                | Inr classes \<Rightarrow>
                    (case collect_claims k of
                       Inl e \<Rightarrow> Inl e
                     | Inr claims \<Rightarrow>
                         (case collect_workloads k of
                            Inl e \<Rightarrow> Inl e
                          | Inr workloads \<Rightarrow>
                              (case kube_fingerprint sha k ctx host of
                                 Inl e \<Rightarrow> Inl e
                               | Inr fingerprint \<Rightarrow>
                                   Inr (canonicalize (kube_snapshot environment now fingerprint
                                     \<lparr>k_classes = classes, k_claims = claims, k_workloads = workloads\<rparr>))))))))"

subsection \<open>The command\<close>

record snapshot_flags =
  sf_dsn :: string
  sf_kube_context :: string
  sf_context_given :: bool
  sf_kubeconfig :: string
  sf_environment :: string
  sf_output :: string

text \<open>The text of a file: \<open>Encode\<close> of \<open>snapshot/load.go\<close>. The encoder of JSON is a parameter.\<close>

definition encode_snapshot :: "(snapshot \<Rightarrow> string + string) \<Rightarrow> snapshot \<Rightarrow> string + string" where
  "encode_snapshot encoder s = map_sum (\<lambda>e. ''encoding snapshot: '' @ e) (\<lambda>x. x) (encoder (canonicalize s))"

text \<open>The file system: the error of making a directory, and of writing a file, with the mode.\<close>

record snapshot_env =
  se_driver :: pg_driver
  se_kube :: "string \<Rightarrow> string \<Rightarrow> kube_client"
  se_now :: instant
  se_encoder :: "snapshot \<Rightarrow> string + string"
  se_mkdir :: "string \<Rightarrow> nat \<Rightarrow> string option"
  se_write :: "string \<Rightarrow> string \<Rightarrow> nat \<Rightarrow> string option"
  se_clock :: "instant \<Rightarrow> string"

record written_file =
  wr_path :: string
  wr_content :: string
  wr_mode :: nat

definition write_snapshot :: "snapshot_env \<Rightarrow> string \<Rightarrow> string \<Rightarrow> string + written_file" where
  "write_snapshot v path content =
     (let dir = path_dir path;
          made = (if dir \<noteq> [] \<and> dir \<noteq> ''.'' then se_mkdir v dir 493 else None)
      in case made of
           Some e \<Rightarrow> Inl (''creating '' @ dir @ '': '' @ e)
         | None \<Rightarrow>
             (let file = \<lparr>wr_path = path, wr_content = content, wr_mode = 384\<rparr> in
              case se_write v (wr_path file) (wr_content file) (wr_mode file) of
                Some e \<Rightarrow> Inl (''writing '' @ path @ '': '' @ e)
              | None \<Rightarrow> Inr file))"

definition snapshot_summary :: "(instant \<Rightarrow> string) \<Rightarrow> string \<Rightarrow> snapshot \<Rightarrow> string list" where
  "snapshot_summary clock path s =
     [''revctl: wrote '' @ path @ '' ('' @ sn_kind s @ '', collected '' @ clock (sn_collected s) @ '')'']
     @ (case sn_postgres s of None \<Rightarrow> []
        | Some d \<Rightarrow> [''  '' @ utoa (length (pg_tables d)) @ '' tables, '' @ utoa (length (pg_indexes d)) @ '' indexes, ''
            @ utoa (length (pg_columns d)) @ '' column statistics''])
     @ (case sn_kubernetes s of None \<Rightarrow> []
        | Some d \<Rightarrow> [''  '' @ utoa (length (k_classes d)) @ '' storage classes, '' @ utoa (length (k_claims d)) @ '' claims, ''
            @ utoa (length (k_workloads d)) @ '' workloads''])"

text \<open>The collections of both kinds, as the command calls them.\<close>

definition collect ::
  "(string \<Rightarrow> string) \<Rightarrow> snapshot_env \<Rightarrow> snapshot_flags \<Rightarrow> string + snapshot" where
  "collect sha v flags =
     (if sf_dsn flags \<noteq> [] then
        collect_postgres sha (se_driver v) (sf_environment flags) (se_now v) (sf_dsn flags)
      else collect_kubernetes sha (se_kube v (sf_kubeconfig flags) (sf_kube_context flags))
        (sf_kube_context flags) (sf_environment flags) (se_now v))"

text \<open>The error of a run, the file it wrote, and what it says. The client of a cluster is that of the path
  and the context given.\<close>

definition run_snapshot ::
  "(string \<Rightarrow> string) \<Rightarrow> snapshot_env \<Rightarrow> snapshot_flags \<Rightarrow> string option \<times> written_file option \<times> string list" where
  "run_snapshot sha v flags =
     (let kube = (sf_context_given flags \<or> sf_kubeconfig flags \<noteq> []) in
      if sf_output flags = [] then
        (Some ''--out is required: a snapshot is a file, and the analysis reads it later'', None, [])
      else if sf_dsn flags \<noteq> [] \<and> kube then
        (Some (''--dsn collects a database and --kube-context collects a cluster; ''
           @ ''run the command twice and pass --context twice''), None, [])
      else if sf_dsn flags = [] \<and> \<not> kube then
        (Some ''nothing to collect: pass --dsn for PostgreSQL or --kube-context for Kubernetes'', None, [])
      else
        (case collect sha v flags of
           Inl e \<Rightarrow> (Some (''collecting the snapshot: '' @ e), None, [])
         | Inr s \<Rightarrow>
             (case encode_snapshot (se_encoder v) s of
                Inl e \<Rightarrow> (Some (''rendering the snapshot: '' @ e), None, [])
              | Inr content \<Rightarrow>
                  (case write_snapshot v (sf_output flags) content of
                     Inl e \<Rightarrow> (Some e, None, [])
                   | Inr file \<Rightarrow> (None, Some file, snapshot_summary (se_clock v) (sf_output flags) s)))))"

subsection \<open>Shape\<close>

lemma canonical_sorted [simp]:
  "canonical_postgres (canonical_postgres d) = canonical_postgres d"
  "canonical_kubernetes (canonical_kubernetes e) = canonical_kubernetes e"
  by (simp_all add: canonical_postgres_def canonical_kubernetes_def sort_key_id_if_sorted)

lemma canonicalize_idem [simp]: "canonicalize (canonicalize s) = canonicalize s"
  by (simp add: canonicalize_def option.map_comp comp_def)

text \<open>A collection that succeeds, and what it puts into the snapshot.\<close>

lemma collect_postgres_Inr:
  assumes "collect_postgres sha driver environment now dsn = Inr snap"
  obtains params s fingerprint d where
    "dr_connect driver dsn (read_only_params params) = Inr s"
    "pg_fingerprint sha s = Inr fingerprint"
    "snap = canonicalize (pg_snapshot environment now fingerprint d)"
  using assms by (auto simp: collect_postgres_def split: sum.splits)

lemma collect_kubernetes_Inr:
  assumes "collect_kubernetes sha k ctx environment now = Inr snap"
  obtains host fingerprint d where
    "kube_fingerprint sha k ctx host = Inr fingerprint"
    "snap = canonicalize (kube_snapshot environment now fingerprint d)"
  using assms by (auto simp: collect_kubernetes_def split: sum.splits option.splits)

lemma hex_encode_Nil [simp]: "hex_encode s = [] \<longleftrightarrow> s = []"
  by (auto simp: hex_encode_def)

lemma fingerprint_nonempty:
  assumes "\<And>x. sha x \<noteq> []"
  shows "pg_fingerprint sha s = Inr f \<Longrightarrow> f \<noteq> []" and "kube_fingerprint sha k ctx host = Inr f \<Longrightarrow> f \<noteq> []"
  using assms by (auto simp: pg_fingerprint_def kube_fingerprint_def Let_def split: sum.splits)

lemma kinds_differ [simp]: "kind_postgres \<noteq> kind_kubernetes" "kind_kubernetes \<noteq> kind_postgres"
  by (simp_all add: kind_postgres_def kind_kubernetes_def)

lemma collected_valid:
  assumes "f \<noteq> []" and "now \<noteq> zero_time"
  shows "validate_snapshot (canonicalize (pg_snapshot environment now f d)) = None"
    and "validate_snapshot (canonicalize (kube_snapshot environment now f e)) = None"
  using assms by (simp_all add: validate_snapshot_def canonicalize_def pg_snapshot_def kube_snapshot_def kind_valid_def)

definition of_one_kind :: "snapshot \<Rightarrow> bool" where
  "of_one_kind s \<longleftrightarrow>
     sn_kind s = kind_postgres \<and> sn_postgres s \<noteq> None \<and> sn_kubernetes s = None
     \<or> sn_kind s = kind_kubernetes \<and> sn_postgres s = None \<and> sn_kubernetes s \<noteq> None"

lemma one_kind:
  "of_one_kind (canonicalize (pg_snapshot environment now f d))"
  "of_one_kind (canonicalize (kube_snapshot environment now f e))"
  by (simp_all add: of_one_kind_def canonicalize_def pg_snapshot_def kube_snapshot_def)

lemma collect_valid:
  assumes "collect sha v flags = Inr snap" and "\<And>x. sha x \<noteq> []" and "se_now v \<noteq> zero_time"
  shows "validate_snapshot snap = None" and "canonicalize snap = snap" and "of_one_kind snap"
proof -
  have "validate_snapshot snap = None \<and> canonicalize snap = snap \<and> of_one_kind snap"
  proof (cases "sf_dsn flags = []")
    case True
    with assms(1) have "collect_kubernetes sha (se_kube v (sf_kubeconfig flags) (sf_kube_context flags))
        (sf_kube_context flags) (sf_environment flags) (se_now v) = Inr snap" by (simp add: collect_def)
    then obtain host f d where f: "kube_fingerprint sha (se_kube v (sf_kubeconfig flags) (sf_kube_context flags)) (sf_kube_context flags) host = Inr f"
      and s: "snap = canonicalize (kube_snapshot (sf_environment flags) (se_now v) f d)"
      by (rule collect_kubernetes_Inr)
    show ?thesis using collected_valid(2) [OF fingerprint_nonempty(2) [OF assms(2) f] assms(3)] by (simp add: s one_kind)
  next
    case False
    with assms(1) have "collect_postgres sha (se_driver v) (sf_environment flags) (se_now v) (sf_dsn flags) = Inr snap"
      by (simp add: collect_def)
    then obtain params c f d where f: "pg_fingerprint sha c = Inr f"
      and s: "snap = canonicalize (pg_snapshot (sf_environment flags) (se_now v) f d)"
      by (rule collect_postgres_Inr)
    show ?thesis using collected_valid(1) [OF fingerprint_nonempty(1) [OF assms(2) f] assms(3)] by (simp add: s one_kind)
  qed
  then show "validate_snapshot snap = None" and "canonicalize snap = snap" and "of_one_kind snap" by simp_all
qed

text \<open>A file is written when exactly one source was named, its collection succeeded, and only then.\<close>

lemma run_snapshot_file:
  assumes "run_snapshot sha v flags = (err, Some file, out)"
  obtains snap content where
    "collect sha v flags = Inr snap" "encode_snapshot (se_encoder v) snap = Inr content"
    "err = None" "file = \<lparr>wr_path = sf_output flags, wr_content = content, wr_mode = 384\<rparr>"
    "sf_output flags \<noteq> []" "(sf_dsn flags \<noteq> []) \<noteq> (sf_context_given flags \<or> sf_kubeconfig flags \<noteq> [])"
    "out = snapshot_summary (se_clock v) (sf_output flags) snap"
proof -
  from assms have g: "sf_output flags \<noteq> []" "(sf_dsn flags \<noteq> []) \<noteq> (sf_context_given flags \<or> sf_kubeconfig flags \<noteq> [])"
    by (auto simp: run_snapshot_def Let_def split: if_splits)
  with assms have r: "(case collect sha v flags of
      Inl e \<Rightarrow> (Some (''collecting the snapshot: '' @ e), None, [])
    | Inr s \<Rightarrow> (case encode_snapshot (se_encoder v) s of
        Inl e \<Rightarrow> (Some (''rendering the snapshot: '' @ e), None, [])
      | Inr content \<Rightarrow> (case write_snapshot v (sf_output flags) content of
          Inl e \<Rightarrow> (Some e, None, [])
        | Inr file \<Rightarrow> (None, Some file, snapshot_summary (se_clock v) (sf_output flags) s)))) = (err, Some file, out)"
    by (auto simp: run_snapshot_def Let_def split: if_splits)
  then obtain snap content where "collect sha v flags = Inr snap" "encode_snapshot (se_encoder v) snap = Inr content"
    "write_snapshot v (sf_output flags) content = Inr file" "err = None"
    "out = snapshot_summary (se_clock v) (sf_output flags) snap"
    by (auto split: sum.splits)
  moreover from this(3) have "file = \<lparr>wr_path = sf_output flags, wr_content = content, wr_mode = 384\<rparr>"
    by (auto simp: write_snapshot_def Let_def split: option.splits)
  ultimately show ?thesis using that g by blast
qed

subsection \<open>Loading what was collected\<close>

lemma add_to_nothing [simp]: "add_postgres None d = d" "add_kubernetes None e = e"
  by (simp_all add: add_postgres_def add_kubernetes_def)

lemma merge_into_empty:
  assumes "of_one_kind snap"
  shows "\<exists>s. merge_snapshot empty_context snap path now stale = Inr s
    \<and> cs_postgres s = sn_postgres snap \<and> cs_kubernetes s = sn_kubernetes snap"
  using assms by (auto simp: of_one_kind_def merge_snapshot_def empty_context_def Let_def)

lemma load_one_file:
  assumes "read path = Content raw" and "json raw = Inr snap"
    and "validate_snapshot snap = None" and "canonicalize snap = snap" and "of_one_kind snap"
  shows "\<exists>s. load_context sha fmt_g read json now stale_after [path] = Inr (Some s)
    \<and> cs_postgres s = sn_postgres snap \<and> cs_kubernetes s = sn_kubernetes snap"
proof -
  obtain s where s: "merge_snapshot empty_context snap path now (if stale_after = 0 then default_stale_after else stale_after) = Inr s"
      "cs_postgres s = sn_postgres snap" "cs_kubernetes s = sn_kubernetes snap"
    using merge_into_empty [OF assms(5)] by blast
  let ?s = "s\<lparr>cs_digest := context_digest sha fmt_g s, cs_warnings := sort (cs_warnings s)\<rparr>"
  have "load_context sha fmt_g read json now stale_after [path] = Inr (Some ?s)"
    using assms s(1) by (simp add: load_context_def decode_snapshot_def Let_def)
  with s(2,3) show ?thesis by simp
qed

subsection \<open>What a driver says\<close>

text \<open>A session without the credentials in its messages.\<close>

definition scrub :: "string + 'a \<Rightarrow> string + 'a" where
  "scrub r = map_sum redact (\<lambda>x. x) r"

definition scrub_rows :: "string + 'a rows \<Rightarrow> string + (string + 'a) list \<times> string option" where
  "scrub_rows q = map_sum redact (\<lambda>r. (map scrub (rs_rows r), map_option redact (rs_end r))) q"

definition forget_message :: "string + 'a \<Rightarrow> 'a option" where
  "forget_message r = (case r of Inl e \<Rightarrow> None | Inr x \<Rightarrow> Some x)"

definition same_answers :: "pg_session \<Rightarrow> pg_session \<Rightarrow> bool" where
  "same_answers s s' \<longleftrightarrow>
     scrub (ps_identity s) = scrub (ps_identity s')
     \<and> forget_message (ps_fallback s) = forget_message (ps_fallback s')
     \<and> forget_message (ps_reset s) = forget_message (ps_reset s')
     \<and> scrub_rows (ps_tables s) = scrub_rows (ps_tables s')
     \<and> scrub_rows (ps_indexes s) = scrub_rows (ps_indexes s')
     \<and> scrub_rows (ps_columns s) = scrub_rows (ps_columns s')"

fun same_connection :: "string + pg_session \<Rightarrow> string + pg_session \<Rightarrow> bool" where
  "same_connection (Inl e) (Inl e') \<longleftrightarrow> redact e = redact e'"
| "same_connection (Inr s) (Inr s') \<longleftrightarrow> same_answers s s'"
| "same_connection c c' \<longleftrightarrow> False"

lemma wrapped_redact: "wrapped what e = what @ '': '' @ redact e"
  by (simp add: wrapped_def redact_dsn_def)

lemma scrub_simps [simp]: "scrub (Inl e) = Inl (redact e)" "scrub (Inr x) = Inr x"
  by (simp_all add: scrub_def)

lemma scrub_eq:
  "scrub r = Inr x \<longleftrightarrow> r = Inr x" "scrub r = Inl m \<longleftrightarrow> (\<exists>e. r = Inl e \<and> redact e = m)"
  by (cases r; simp)+

lemma read_rows_scrub: "map scrub rs = map scrub rs' \<Longrightarrow> read_rows what rs out = read_rows what rs' out"
proof (induction what rs out arbitrary: rs' rule: read_rows.induct)
  case (2 what e rs out)
  then obtain r rest where rest: "rs' = r # rest" "scrub r = Inl (redact e)" by (cases rs') simp_all
  then obtain e' where "r = Inl e'" "redact e' = redact e" by (auto simp: scrub_eq)
  with rest show ?case by (simp add: wrapped_redact)
next
  case (3 what r rs out)
  then obtain q rest where rest: "rs' = q # rest" "scrub q = Inr r" "map scrub rs = map scrub rest" by (cases rs') simp_all
  with 3(1) [OF rest(3)] show ?case by (simp add: scrub_eq)
qed simp

lemma collect_rows_scrub:
  assumes "scrub_rows q = scrub_rows q'"
  shows "collect_rows what row q = collect_rows what row q'"
proof (cases q)
  case (Inl e)
  with assms obtain e' where "q' = Inl e'" "redact e' = redact e" by (cases q') (auto simp: scrub_rows_def)
  with Inl show ?thesis by (simp add: collect_rows_def wrapped_redact)
next
  case (Inr r)
  with assms obtain r' where q': "q' = Inr r'" and r: "map scrub (rs_rows r) = map scrub (rs_rows r')"
      and e: "map_option redact (rs_end r) = map_option redact (rs_end r')"
    by (cases q') (auto simp: scrub_rows_def)
  have "rs_end r = None \<and> rs_end r' = None \<or> (\<exists>m m'. rs_end r = Some m \<and> rs_end r' = Some m' \<and> redact m = redact m')"
    using e by (cases "rs_end r"; cases "rs_end r'") simp_all
  then show ?thesis
    using Inr q' read_rows_scrub [OF r, of "''reading '' @ row" "[]"]
    by (elim disjE exE conjE) (simp_all add: collect_rows_def wrapped_redact split: sum.split)
qed

lemma forget_message_cong:
  "forget_message r = forget_message r' \<Longrightarrow> (case r of Inl e \<Rightarrow> d | Inr x \<Rightarrow> g x) = (case r' of Inl e \<Rightarrow> d | Inr x \<Rightarrow> g x)"
  by (cases r; cases r') (simp_all add: forget_message_def)

lemma fingerprint_scrub:
  assumes "scrub (ps_identity s) = scrub (ps_identity s')"
    and "forget_message (ps_fallback s) = forget_message (ps_fallback s')"
  shows "pg_fingerprint sha s = pg_fingerprint sha s'"
proof (cases "ps_identity s")
  case (Inl e)
  then obtain e' where e': "ps_identity s' = Inl e'" "redact e' = redact e"
    using assms(1) by (metis scrub_eq(2) scrub_simps(1))
  have w: "wrapped what e' = wrapped what e" for what by (simp only: wrapped_redact e'(2))
  have f: "(case ps_fallback s of Inl e \<Rightarrow> d | Inr x \<Rightarrow> g x) = (case ps_fallback s' of Inl e \<Rightarrow> d | Inr x \<Rightarrow> g x)" for d g
    by (rule forget_message_cong [OF assms(2)])
  show ?thesis unfolding pg_fingerprint_def Inl e'(1) sum.case w f by (rule refl)
next
  case (Inr p)
  then have "ps_identity s' = Inr p" using assms(1) by (metis scrub_eq(1))
  with Inr show ?thesis by (simp add: pg_fingerprint_def)
qed

lemma same_answers_collected:
  assumes "same_answers s s'"
  shows "pg_fingerprint sha s = pg_fingerprint sha s'" and "collect_tables s = collect_tables s'"
    and "collect_indexes s = collect_indexes s'" and "collect_columns s = collect_columns s'"
proof -
  from assms show "pg_fingerprint sha s = pg_fingerprint sha s'"
    by (intro fingerprint_scrub) (simp_all add: same_answers_def)
  from assms show "collect_tables s = collect_tables s'" "collect_columns s = collect_columns s'"
    unfolding collect_tables_def collect_columns_def
    by (intro collect_rows_scrub; simp add: same_answers_def)+
  have "(case ps_reset s of Inl e \<Rightarrow> None | Inr t \<Rightarrow> t) = (case ps_reset s' of Inl e \<Rightarrow> None | Inr t \<Rightarrow> t)"
    using assms by (intro forget_message_cong) (simp add: same_answers_def)
  moreover have "collect_rows w r (ps_indexes s) = collect_rows w r (ps_indexes s')" for w r
    using assms by (intro collect_rows_scrub) (simp add: same_answers_def)
  ultimately show "collect_indexes s = collect_indexes s'" by (simp add: collect_indexes_def)
qed

subsection \<open>Properties\<close>

text \<open>C37. A collection asks the driver only for connections on which every transaction is read only, and repeats
  what it answers only after redaction: two drivers whose answers on such connections differ in nothing but
  the credentials of their messages, given any two connection strings, give the same result.\<close>

theorem collection_is_read_only_and_redacted:
  assumes "scrub (dr_parse driver dsn) = scrub (dr_parse driver' dsn')"
    and "\<And>p. p ''default_transaction_read_only'' = Some ''on'' \<Longrightarrow>
      same_connection (dr_connect driver dsn p) (dr_connect driver' dsn' p)"
  shows "collect_postgres sha driver environment now dsn = collect_postgres sha driver' environment now dsn'"
proof (cases "dr_parse driver dsn")
  case (Inl e)
  then obtain e' where "dr_parse driver' dsn' = Inl e'" "redact e' = redact e"
    using assms(1) by (metis scrub_eq(2) scrub_simps(1))
  with Inl show ?thesis by (simp add: collect_postgres_def wrapped_redact)
next
  case (Inr params)
  then have p: "dr_parse driver' dsn' = Inr params" using assms(1) by (metis scrub_eq(1))
  have c: "same_connection (dr_connect driver dsn (read_only_params params)) (dr_connect driver' dsn' (read_only_params params))"
    by (rule assms(2)) (simp add: read_only_params_def)
  show ?thesis
  proof (cases "dr_connect driver dsn (read_only_params params)")
    case (Inl e)
    with c obtain e' where "dr_connect driver' dsn' (read_only_params params) = Inl e'" "redact e = redact e'"
      by (cases "dr_connect driver' dsn' (read_only_params params)") auto
    with Inl Inr p show ?thesis by (simp add: collect_postgres_def wrapped_redact)
  next
    case (Inr s)
    with c obtain s' where s': "dr_connect driver' dsn' (read_only_params params) = Inr s'" "same_answers s s'"
      by (cases "dr_connect driver' dsn' (read_only_params params)") auto
    show ?thesis
      unfolding collect_postgres_def \<open>dr_parse driver dsn = Inr params\<close> p Inr s'(1) sum.case same_answers_collected [OF s'(2)]
      by (rule refl)
  qed
qed

text \<open>A server that cannot be reached, and would be written to on any other connection.\<close>

definition unreachable_server :: pg_driver where
  "unreachable_server =
     \<lparr>dr_parse = (\<lambda>dsn. Inr Map.empty),
      dr_connect = (\<lambda>dsn p. Inl (if p ''default_transaction_read_only'' = Some ''on'' then ''dial '' @ dsn else dsn))\<rparr>"

theorem collection_is_read_only_and_redacted_witness:
  "collect_postgres (\<lambda>x. x) unreachable_server ''prod'' 0 ''postgres://u:hunter2@db''
     = collect_postgres (\<lambda>x. x) unreachable_server ''prod'' 0 ''postgres://u:other@db''"
proof (rule collection_is_read_only_and_redacted)
  have r: "redact (''dial '' @ ''postgres://u:hunter2@db'') = redact (''dial '' @ ''postgres://u:other@db'')" by code_simp
  show "same_connection (dr_connect unreachable_server ''postgres://u:hunter2@db'' p)
      (dr_connect unreachable_server ''postgres://u:other@db'' p)"
    if "p ''default_transaction_read_only'' = Some ''on''" for p
    using r that by (simp add: unreachable_server_def del: append.simps)
qed (simp add: unreachable_server_def)

text \<open>What a value must be for JSON to keep it: the encoder replaces bytes that are not UTF-8, an integer is one
  of 64 bits, and a fraction is a number that \<open>float64\<close> has, in the one form with a significand of 53 bits.\<close>

definition snapshot_texts :: "snapshot \<Rightarrow> string list" where
  "snapshot_texts s =
     [sn_schema_version s, sn_kind s, sn_environment s, sn_fingerprint s]
     @ (case sn_postgres s of None \<Rightarrow> [] | Some d \<Rightarrow>
          concat (map (\<lambda>t. [tb_schema t, tb_name t]) (pg_tables d))
          @ concat (map (\<lambda>i. [ix_schema i, ix_table i, ix_name i]) (pg_indexes d))
          @ concat (map (\<lambda>c. [cl_schema c, cl_table c, cl_name c]) (pg_columns d)))
     @ (case sn_kubernetes s of None \<Rightarrow> [] | Some d \<Rightarrow>
          concat (map (\<lambda>c. [sc_name c, sc_policy c]) (k_classes d))
          @ concat (map (\<lambda>p. [pv_namespace p, pv_name p, pv_phase p, pv_class p, pv_capacity p]) (k_claims d))
          @ concat (map (\<lambda>w. [wl_namespace w, wl_kind w, wl_name w]) (k_workloads d)))"

definition snapshot_integers :: "snapshot \<Rightarrow> int list" where
  "snapshot_integers s =
     (case sn_postgres s of None \<Rightarrow> [] | Some d \<Rightarrow>
          concat (map (\<lambda>t. [tb_rows t, tb_bytes t, tb_total t]) (pg_tables d))
          @ concat (map (\<lambda>i. [ix_bytes i, ix_scans i]) (pg_indexes d))
          @ map cl_width (pg_columns d))
     @ (case sn_kubernetes s of None \<Rightarrow> [] | Some d \<Rightarrow> map wl_replicas (k_workloads d))"

definition snapshot_fractions :: "snapshot \<Rightarrow> float64 list" where
  "snapshot_fractions s = (case sn_postgres s of None \<Rightarrow> [] | Some d \<Rightarrow> map cl_null (pg_columns d))"

definition is_float64 :: "float64 \<Rightarrow> bool" where
  "is_float64 x \<longleftrightarrow>
     (case x of Fl m e \<Rightarrow> m = 0 \<and> e = 0 \<or> 2 ^ 52 \<le> \<bar>m\<bar> \<and> \<bar>m\<bar> < 2 ^ 53 \<and> - 1074 \<le> e \<and> e \<le> 971)"

definition kept_by_json :: "snapshot \<Rightarrow> bool" where
  "kept_by_json s \<longleftrightarrow> list_all (\<lambda>t. repaired t = t) (snapshot_texts s)
     \<and> list_all (\<lambda>n. wrap64 n = n) (snapshot_integers s) \<and> list_all is_float64 (snapshot_fractions s)"

text \<open>C36. What the command wrote is what the analysis loads: a run that wrote a file collected a snapshot, wrote it
  where it was told with a mode that keeps it from others, and a later run that is given the file has exactly
  the metadata that was collected, however old it is. This is said of a snapshot that JSON can hold: its texts
  are UTF-8, its integers have 64 bits, its fractions are those of \<open>float64\<close>. Of the library of JSON it takes
  that the decoder reads such a snapshot back from what the encoder wrote, and nothing of other snapshots; a
  digest is not empty and the clock is set.\<close>

theorem collected_snapshot_loads:
  assumes "run_snapshot sha v flags = (err, Some file, out)"
    and "read (wr_path file) = Content (wr_content file)"
    and "\<And>snap. collect sha v flags = Inr snap \<Longrightarrow> kept_by_json snap"
    and "\<And>s c. kept_by_json s \<Longrightarrow> se_encoder v s = Inr c \<Longrightarrow> json c = Inr s"
    and "\<And>x. sha x \<noteq> []" and "se_now v \<noteq> zero_time"
  shows "\<exists>snap loaded. collect sha v flags = Inr snap \<and> wr_path file = sf_output flags \<and> wr_mode file = 384
    \<and> load_context sha fmt_g read json now stale_after [wr_path file] = Inr (Some loaded)
    \<and> cs_postgres loaded = sn_postgres snap \<and> cs_kubernetes loaded = sn_kubernetes snap"
proof -
  obtain snap content where c: "collect sha v flags = Inr snap"
      and e: "encode_snapshot (se_encoder v) snap = Inr content"
      and f: "file = \<lparr>wr_path = sf_output flags, wr_content = content, wr_mode = 384\<rparr>"
    using run_snapshot_file [OF assms(1)] by metis
  have ok: "validate_snapshot snap = None" "canonicalize snap = snap" "of_one_kind snap"
    using collect_valid [OF c assms(5,6)] by simp_all
  have "se_encoder v snap = Inr content"
    using e ok(2) by (cases "se_encoder v snap") (simp_all add: encode_snapshot_def)
  from load_one_file [where path = "wr_path file" and read = read, OF assms(2) _ ok] assms(4) [OF assms(3) [OF c] this]
  show ?thesis using c f by auto
qed

text \<open>Collections of two databases go into one context only if the databases call themselves the same, or
  two different texts have one digest.\<close>

definition pg_identity :: "pg_session \<Rightarrow> (string \<times> string) option" where
  "pg_identity s =
     (case ps_identity s of
        Inr p \<Rightarrow> Some p
      | Inl e \<Rightarrow> (case ps_fallback s of Inl e' \<Rightarrow> None | Inr (name, database) \<Rightarrow> Some (or_empty name, database)))"

definition identity_text :: "string \<times> string \<Rightarrow> string" where
  "identity_text p = ''postgres'' @ [CHR 0x00] @ fst p @ [CHR 0x00] @ snd p"

lemma pg_fingerprint_Inr:
  "pg_fingerprint sha s = Inr f \<longleftrightarrow> (\<exists>p. pg_identity s = Some p \<and> f = hex_encode (sha (identity_text p)))"
  by (auto simp: pg_fingerprint_def pg_identity_def identity_text_def or_empty_def split: sum.splits option.splits prod.splits)

lemma split_at_zero:
  assumes "a @ CHR 0x00 # b = a' @ CHR 0x00 # b'" and "CHR 0x00 \<notin> set a" and "CHR 0x00 \<notin> set a'"
  shows "a = a' \<and> b = b'"
proof -
  have t: "takeWhile (\<lambda>c. c \<noteq> CHR 0x00) (x @ CHR 0x00 # y) = x" if "CHR 0x00 \<notin> set x" for x y
    using that by (subst takeWhile_append2) auto
  from t [OF assms(2), of b] t [OF assms(3), of b'] assms(1) have "a = a'" by metis
  with assms(1) show ?thesis by simp
qed

lemma identity_text_inject:
  assumes "CHR 0x00 \<notin> set (fst p)" and "CHR 0x00 \<notin> set (fst q)"
  shows "identity_text p = identity_text q \<longleftrightarrow> p = q"
  using split_at_zero [OF _ assms, of "snd p" "snd q"] by (auto simp: identity_text_def prod_eq_iff)

text \<open>The second of two databases joins the first exactly if it has its fingerprint.\<close>

lemma second_database:
  assumes "collect_postgres sha driver environment now dsn = Inr a"
    and "collect_postgres sha driver' environment' now' dsn' = Inr b"
    and "merge_snapshot empty_context a path today stale = Inr s"
  shows "(\<exists>s'. merge_snapshot s b path' today stale = Inr s') \<longleftrightarrow> sn_fingerprint a = sn_fingerprint b"
proof -
  obtain f d where a: "a = canonicalize (pg_snapshot environment now f d)"
    by (rule collect_postgres_Inr [OF assms(1)])
  obtain f' d' where b: "b = canonicalize (pg_snapshot environment' now' f' d')"
    by (rule collect_postgres_Inr [OF assms(2)])
  have k: "sn_kind a = kind_postgres" "sn_kind b = kind_postgres" and fs: "sn_fingerprint a = f" "sn_fingerprint b = f'"
    by (simp_all add: a b canonicalize_def pg_snapshot_def)
  obtain src where src: "cs_sources s kind_postgres = Some src" and sf: "so_fingerprint src = f"
    using merge_sources(1) [OF assms(3)] k(1) fs(1) by auto
  show ?thesis by (auto simp: merge_snapshot_def k fs src sf Let_def split: option.split if_splits)
qed

lemma collected_fingerprint:
  assumes "collect_postgres sha driver environment now dsn = Inr snap"
    and "dr_parse driver dsn = Inr params" and "dr_connect driver dsn (read_only_params params) = Inr c"
    and "pg_identity c = Some p"
  shows "sn_fingerprint snap = hex_encode (sha (identity_text p))"
proof -
  have "pg_fingerprint sha c = Inr (hex_encode (sha (identity_text p)))" using assms(4) by (auto simp: pg_fingerprint_Inr)
  with assms(1-3) show ?thesis
    by (auto simp: collect_postgres_def canonicalize_def pg_snapshot_def split: sum.splits)
qed

theorem databases_merge_by_identity:
  assumes "collect_postgres sha driver environment now dsn = Inr a"
    and "collect_postgres sha driver' environment' now' dsn' = Inr b"
    and "dr_parse driver dsn = Inr params" and "dr_connect driver dsn (read_only_params params) = Inr c"
    and "dr_parse driver' dsn' = Inr params'" and "dr_connect driver' dsn' (read_only_params params') = Inr c'"
    and "pg_identity c = Some p" and "pg_identity c' = Some p'"
    and "CHR 0x00 \<notin> set (fst p)" and "CHR 0x00 \<notin> set (fst p')"
    and "sha (identity_text p) = sha (identity_text p') \<Longrightarrow> identity_text p = identity_text p'"
    and "merge_snapshot empty_context a path today stale = Inr s"
  shows "(\<exists>s'. merge_snapshot s b path' today stale = Inr s') \<longleftrightarrow> p = p'"
proof -
  have "sn_fingerprint a = sn_fingerprint b \<longleftrightarrow> sha (identity_text p) = sha (identity_text p')"
    using collected_fingerprint [OF assms(1,3,4,7)] collected_fingerprint [OF assms(2,5,6,8)]
    by (simp add: hex_encode_inject)
  also have "\<dots> \<longleftrightarrow> p = p'" using assms(11) identity_text_inject [OF assms(9,10)] by auto
  finally show ?thesis using second_database [OF assms(1,2,12)] by blast
qed

text \<open>A server without the identity of its cluster and without a name for it is called by its database alone:
  two of them with one name of a database are one source, whatever their environments are called.\<close>

theorem unnamed_clusters_are_one_source:
  assumes "ps_identity c = Inl e" and "ps_fallback c = Inr (name, database)" and "or_empty name = []"
    and "ps_identity c' = Inl e'" and "ps_fallback c' = Inr (name', database)" and "or_empty name' = []"
  shows "pg_fingerprint sha c = pg_fingerprint sha c'"
proof -
  have "pg_identity c = Some ([], database)" "pg_identity c' = Some ([], database)"
    using assms by (simp_all add: pg_identity_def)
  then have "pg_fingerprint sha c = Inr (hex_encode (sha (identity_text ([], database))))"
    "pg_fingerprint sha c' = Inr (hex_encode (sha (identity_text ([], database))))"
    by (simp_all add: pg_fingerprint_Inr)
  then show ?thesis by simp
qed

text \<open>The view \<open>pg_stats\<close> has two rows for a column of a table with children, of the table alone and with them,
  and the query reads both. A column with two rows is not found, so its nulls are not seen.\<close>

lemma lookup_twice:
  assumes "xs = us @ c # vs @ c' # ws" and "P c" and "P c'"
  shows "\<not> snd (lookup P xs zero)"
  using assms by (simp add: lookup_def Let_def)

theorem duplicated_statistics_hide_nulls:
  assumes "cs_postgres x = Some d" and "pg_columns d = us @ c # vs @ c' # ws"
    and "cl_schema c' = cl_schema c" and "cl_table c' = cl_table c" and "cl_name c' = cl_name c"
    and "split_qualified (s_relation (f_subject f)) = (schema, cl_table c)" and "schema = [] \<or> schema = cl_schema c"
    and "s_object (f_subject f) = cl_name c"
  shows "f_reversibility (set_not_null x f) = f_reversibility f"
proof -
  let ?P = "\<lambda>e. \<not> (\<not> same_object schema (cl_table c) (cl_schema e) (cl_table e) \<or> \<not> equal_fold (cl_name e) (cl_name c))"
  have "?P c" "?P c'" using assms(3-5,7) by (auto simp: same_object_def equal_fold_def)
  with lookup_twice [OF assms(2), of ?P zero_column] have l: "\<not> snd (lookup ?P (pg_columns d) zero_column)" by blast
  have "\<not> snd (find_column x (s_relation (f_subject f)) (s_object (f_subject f)))"
    unfolding find_column_def assms(1,6,8) option.case prod.case using l by simp
  then show ?thesis
    by (auto simp: set_not_null_def split: prod.split option.split)
qed

definition sample_table :: "string \<Rightarrow> table_stat" where
  "sample_table n = \<lparr>tb_schema = ''public'', tb_name = n, tb_rows = 10, tb_bytes = 8192, tb_total = 16384\<rparr>"

definition no_rows :: "'a rows" where "no_rows = \<lparr>rs_rows = [], rs_end = None\<rparr>"

definition sample_session :: "string \<Rightarrow> string \<Rightarrow> pg_session" where
  "sample_session identity table =
     \<lparr>ps_identity = Inr (identity, ''app''), ps_fallback = Inl ''denied'', ps_reset = Inr None,
      ps_tables = Inr \<lparr>rs_rows = [Inr (sample_table table)], rs_end = None\<rparr>,
      ps_indexes = Inr no_rows, ps_columns = Inr no_rows\<rparr>"

definition sample_driver :: "pg_session \<Rightarrow> pg_driver" where
  "sample_driver s = \<lparr>dr_parse = (\<lambda>dsn. Inr Map.empty), dr_connect = (\<lambda>dsn p. Inr s)\<rparr>"

definition tagged :: "string \<Rightarrow> string" where "tagged x = CHR ''#'' # x"

definition sample_snapshot :: "string \<Rightarrow> string \<Rightarrow> snapshot" where
  "sample_snapshot identity table =
     pg_snapshot ''prod'' 0 (hex_encode (tagged (identity_text (identity, ''app''))))
       \<lparr>pg_tables = [sample_table table], pg_indexes = [], pg_columns = []\<rparr>"

lemma sample_collected:
  "collect_postgres tagged (sample_driver (sample_session i t)) ''prod'' 0 dsn = Inr (sample_snapshot i t)"
  by (simp add: collect_postgres_def sample_driver_def sample_session_def sample_snapshot_def pg_fingerprint_def
      identity_text_def collect_tables_def collect_indexes_def collect_columns_def collect_rows_def no_rows_def
      canonicalize_def canonical_postgres_def pg_snapshot_def)

lemma sample_canonical: "canonicalize (sample_snapshot i t) = sample_snapshot i t"
  by (simp add: sample_snapshot_def canonicalize_def canonical_postgres_def pg_snapshot_def)

lemma sample_one_kind: "of_one_kind (sample_snapshot i t)"
  by (simp add: sample_snapshot_def of_one_kind_def pg_snapshot_def)

lemma sample_identity: "pg_identity (sample_session i t) = Some (i, ''app'')"
proof -
  have "ps_identity (sample_session i t) = Inr (i, ''app'')" by (simp add: sample_session_def)
  then show ?thesis by (simp add: pg_identity_def)
qed

theorem databases_merge_by_identity_witness:
  "\<exists>s. merge_snapshot empty_context (sample_snapshot ''1'' ''orders'') ''a.json'' 0 0 = Inr s
     \<and> \<not> (\<exists>s'. merge_snapshot s (sample_snapshot ''2'' ''orders'') ''b.json'' 0 0 = Inr s')"
proof -
  obtain s where s: "merge_snapshot empty_context (sample_snapshot ''1'' ''orders'') ''a.json'' 0 0 = Inr s"
    using merge_into_empty [OF sample_one_kind] by blast
  have "(\<exists>s'. merge_snapshot s (sample_snapshot ''2'' ''orders'') ''b.json'' 0 0 = Inr s')
      \<longleftrightarrow> (''1'', ''app'') = (''2'', ''app'')"
    by (rule databases_merge_by_identity [OF sample_collected sample_collected _ _ _ _ _ _ _ _ _ s,
        where params = Map.empty and params' = Map.empty and c = "sample_session ''1'' ''orders''"
          and c' = "sample_session ''2'' ''orders''" and p = "(''1'', ''app'')" and p' = "(''2'', ''app'')"])
      (simp_all add: sample_driver_def sample_identity tagged_def)
  with s show ?thesis by auto
qed

definition sample_env :: snapshot_env where
  "sample_env =
     \<lparr>se_driver = sample_driver (sample_session ''1'' ''orders''),
      se_kube = (\<lambda>path ctx. \<lparr>kc_config = Inl ''no cluster'', kc_new = None, kc_classes = Inr [], kc_claims = Inr [],
        kc_deployments = Inr [], kc_stateful_sets = Inr [], kc_daemon_sets = Inr [], kc_raw = Inl ''no cluster''\<rparr>),
      se_now = 0, se_encoder = (\<lambda>s. if s = sample_snapshot ''1'' ''orders'' then Inr ''{}'' else Inl ''no''),
      se_mkdir = (\<lambda>d m. None), se_write = (\<lambda>p c m. None), se_clock = (\<lambda>t. ''now'')\<rparr>"

definition sample_flags :: snapshot_flags where
  "sample_flags =
     \<lparr>sf_dsn = ''postgres://db'', sf_kube_context = [], sf_context_given = False, sf_kubeconfig = [],
      sf_environment = ''prod'', sf_output = ''pg.json''\<rparr>"

lemma sample_run:
  "run_snapshot tagged sample_env sample_flags =
     (None, Some \<lparr>wr_path = ''pg.json'', wr_content = ''{}'', wr_mode = 384\<rparr>,
      snapshot_summary (\<lambda>t. ''now'') ''pg.json'' (sample_snapshot ''1'' ''orders''))"
proof -
  have "collect tagged sample_env sample_flags = Inr (sample_snapshot ''1'' ''orders'')"
    unfolding collect_def by (simp add: sample_env_def sample_flags_def sample_collected)
  moreover have "encode_snapshot (se_encoder sample_env) (sample_snapshot ''1'' ''orders'') = Inr ''{}''"
    by (simp add: encode_snapshot_def sample_canonical sample_env_def)
  moreover have "write_snapshot sample_env ''pg.json'' ''{}'' = Inr \<lparr>wr_path = ''pg.json'', wr_content = ''{}'', wr_mode = 384\<rparr>"
  proof -
    have "path_dir ''pg.json'' = ''.''" by code_simp
    then show ?thesis by (simp add: write_snapshot_def sample_env_def)
  qed
  moreover have "sf_output sample_flags = ''pg.json''" "sf_dsn sample_flags \<noteq> []" "\<not> sf_context_given sample_flags"
    "sf_kubeconfig sample_flags = []" "se_clock sample_env = (\<lambda>t. ''now'')"
    by (simp_all add: sample_flags_def sample_env_def)
  ultimately show ?thesis by (simp add: run_snapshot_def)
qed

lemma sample_env_collects: "collect tagged sample_env sample_flags = Inr (sample_snapshot ''1'' ''orders'')"
  unfolding collect_def by (simp add: sample_env_def sample_flags_def sample_collected)

lemma sample_kept: "kept_by_json (sample_snapshot ''1'' ''orders'')"
  by code_simp

theorem collected_snapshot_loads_witness:
  "\<exists>snap loaded. collect tagged sample_env sample_flags = Inr snap
     \<and> load_context tagged (\<lambda>x. []) (\<lambda>p. Content ''{}'') (\<lambda>c. Inr (sample_snapshot ''1'' ''orders'')) 9 0 [''pg.json'']
       = Inr (Some loaded)
     \<and> cs_postgres loaded = sn_postgres snap"
proof -
  have "\<exists>snap loaded. collect tagged sample_env sample_flags = Inr snap
      \<and> wr_path \<lparr>wr_path = ''pg.json'', wr_content = ''{}'', wr_mode = 384\<rparr> = sf_output sample_flags
      \<and> wr_mode \<lparr>wr_path = ''pg.json'', wr_content = ''{}'', wr_mode = 384\<rparr> = 384
      \<and> load_context tagged (\<lambda>x. []) (\<lambda>p. Content ''{}'') (\<lambda>c. Inr (sample_snapshot ''1'' ''orders'')) 9 0
          [wr_path \<lparr>wr_path = ''pg.json'', wr_content = ''{}'', wr_mode = 384\<rparr>] = Inr (Some loaded)
      \<and> cs_postgres loaded = sn_postgres snap \<and> cs_kubernetes loaded = sn_kubernetes snap"
  proof (rule collected_snapshot_loads [OF sample_run])
    show "kept_by_json snap" if "collect tagged sample_env sample_flags = Inr snap" for snap
      using that sample_kept by (simp add: sample_env_collects)
    show "(\<lambda>c. Inr (sample_snapshot ''1'' ''orders'')) c = Inr s" if "se_encoder sample_env s = Inr c" for s c
      using that by (simp add: sample_env_def split: if_splits)
  qed (simp_all add: sample_env_def tagged_def zero_time_def)
  then show ?thesis by auto
qed

text \<open>Two servers of a managed service, with the staging and the production database of an application.\<close>

theorem unnamed_clusters_are_one_source_witness:
  "pg_fingerprint tagged (sample_session ''1'' ''orders''\<lparr>ps_identity := Inl ''denied'', ps_fallback := Inr (Some [], ''app'')\<rparr>)
     = pg_fingerprint tagged (sample_session ''2'' ''users''\<lparr>ps_identity := Inl ''denied'', ps_fallback := Inr (None, ''app'')\<rparr>)"
  by (rule unnamed_clusters_are_one_source [where name = "Some []" and name' = None]) (simp_all add: or_empty_def)

text \<open>A parent table whose column has nulls, and whose children have none: nulls that would fail the migration
  are found with the row of the table, and are not with the row of both.\<close>

definition with_children :: context_set where
  "with_children = production\<lparr>cs_postgres := Some \<lparr>pg_tables = [], pg_indexes = [],
     pg_columns = [email_column, email_column\<lparr>cl_null := fl_of_int 0\<rparr>]\<rparr>\<rparr>"

theorem duplicated_statistics_hide_nulls_witness:
  "f_reversibility (set_not_null production set_not_null_finding) = WillFail
   \<and> f_reversibility (set_not_null with_children set_not_null_finding) = f_reversibility set_not_null_finding"
proof
  show "f_reversibility (set_not_null production set_not_null_finding) = WillFail" by code_simp
  show "f_reversibility (set_not_null with_children set_not_null_finding) = f_reversibility set_not_null_finding"
  proof (rule duplicated_statistics_hide_nulls [where us = "[]" and vs = "[]" and ws = "[]" and c = email_column
        and c' = "email_column\<lparr>cl_null := fl_of_int 0\<rparr>" and schema = "[]" and d = "the (cs_postgres with_children)"])
    show "split_qualified (s_relation (f_subject set_not_null_finding)) = ([], cl_table email_column)"
      by code_simp
    show "s_object (f_subject set_not_null_finding) = cl_name email_column" by code_simp
  qed (simp_all add: with_children_def)
qed

end
