(* ===== verification/Revctl.thy ===== *)
theory Revctl
  imports Sarif_Format Postgres_Adapter Kubernetes_Analyzer Terraform_Analyzer Provider_Fs Provider_Git Provider_Root
    Cli_Catalog Collect
begin

text \<open>
  The program \<open>revctl\<close>: the components of the development in the places the command line gives them,
  \<open>internal/delivery/cli\<close>. What is left of the arguments of the components is the machine: the grammar of
  PostgreSQL and the decoders of YAML and JSON, the embedded files, the disk, git, and the clock. The parser
  of the command line is third-party code; a command is what it hands to the functions here.
\<close>

subsection \<open>The machine\<close>

record machine =
  m_sha :: "string \<Rightarrow> string"
  m_grammar :: pg_library
  m_yaml :: yaml_library
  m_order :: map_order
  m_plan :: "string \<Rightarrow> string + tf_plan"
  m_catalog_yaml :: "string \<Rightarrow> string + catalog_document"
  m_catalog_files :: "string \<Rightarrow> string + string"
  m_policy_yaml :: "string \<Rightarrow> string + policy_file"
  m_policy_error :: "load_error \<Rightarrow> string"
  m_read :: "string \<Rightarrow> string + string"
  m_snapshot :: "string \<Rightarrow> file_read"
  m_snapshot_json :: "string \<Rightarrow> string + snapshot"
  m_fmt_g :: "float64 \<Rightarrow> string"
  m_disk :: disk
  m_view :: disk_view
  m_cwd_error :: string
  m_has_policy :: "string list \<Rightarrow> bool"
  m_has_git :: "string list \<Rightarrow> bool"
  m_git_lookup :: "string option"
  m_git_where :: string
  m_git :: git_run
  m_create :: "string \<Rightarrow> string option"
  m_write :: "string \<Rightarrow> string \<Rightarrow> string option"
  m_now :: instant

subsection \<open>Configuration\<close>

definition tf_class_of :: "string \<Rightarrow> tf_class" where
  "tf_class_of s = (if s = ''STATEFUL'' then Stateful else if s = ''STATELESS'' then Stateless else Class_other s)"

definition policy_search_root :: "disk \<Rightarrow> string list \<Rightarrow> string" where
  "policy_search_root disk paths =
     (case find (\<lambda>p. case os_stat disk p of Inl e \<Rightarrow> False | Inr n \<Rightarrow> True) paths of None \<Rightarrow> ''.'' | Some p \<Rightarrow> p)"

text \<open>\<open>Discover\<close>, from a name to the path of a policy.\<close>

definition discover_policy :: "machine \<Rightarrow> string \<Rightarrow> string + string option" where
  "discover_policy m start =
     (case dv_abs (m_view m) start of
        None \<Rightarrow> Inl (''resolving '' @ start @ '': '' @ m_cwd_error m)
      | Some segs \<Rightarrow>
          Inr (map_option (\<lambda>dir. abs_text (policy_file_name # dir))
            (discover (m_has_policy m) (m_has_git m) (if dv_is_file (m_view m) segs then tl segs else segs))))"

text \<open>\<open>Load\<close> and the head of \<open>Parse\<close>.\<close>

definition load_policy :: "machine \<Rightarrow> string \<Rightarrow> string + policy" where
  "load_policy m path =
     (case m_read m path of
        Inl e \<Rightarrow> Inl (invalid_policy @ '': reading '' @ path @ '': '' @ e)
      | Inr raw \<Rightarrow>
          (case m_policy_yaml m raw of
             Inl e \<Rightarrow> Inl (invalid_policy @ '': '' @ path @ '': '' @ e)
           | Inr f \<Rightarrow>
               map_sum (\<lambda>e. invalid_policy @ '': '' @ path @ '': '' @ m_policy_error m e) (\<lambda>p. p)
                 (parse_policy (m_sha m) f path (m_now m))))"

definition terraform_for :: "machine \<Rightarrow> check_flags \<Rightarrow> policy option \<Rightarrow> string + tf_analyzer" where
  "terraform_for m flags pol =
     (let overrides = (case pol of None \<Rightarrow> []
            | Some p \<Rightarrow> map (\<lambda>t. \<lparr>ov_type = t_type t, ov_class = tf_class_of (t_class t)\<rparr>) (l_terraform_types p));
          plans = map (qualify_path (m_view m)) (fl_plans flags)
      in map_sum (\<lambda>e. ''configuring the Terraform analyzer: '' @ e) (\<lambda>a. a)
           (new_terraform (load_embedded (m_sha m) (m_catalog_yaml m) (embedded_catalog (m_catalog_files m) ''aws''))
              None overrides plans))"

definition analyzers_of :: "machine \<Rightarrow> tf_analyzer \<Rightarrow> analyzer list" where
  "analyzers_of m tf =
     [postgres_analyzer (Some (parse_sql (m_grammar m) None)) (\<lambda>i. None),
      kubernetes_analyzer (m_yaml m) (m_order m) (\<lambda>i. None), terraform_analyzer tf (m_plan m) None]"

definition build_analyzers :: "machine \<Rightarrow> check_flags \<Rightarrow> policy option \<Rightarrow> string + analyzer list" where
  "build_analyzers m flags pol = map_sum (\<lambda>e. e) (analyzers_of m) (terraform_for m flags pol)"

fun provider_of :: "machine \<Rightarrow> check_flags \<Rightarrow> string list \<Rightarrow> provider_kind \<Rightarrow> string + file_provider" where
  "provider_of m flags paths Git_refs =
     map_sum (\<lambda>e. ''resolving the git refs: '' @ git_error_text e) (git_provider (m_git m) None)
       (new_git (m_git_lookup m) (m_git_where m) (fl_base flags) (fl_head flags) paths)"
| "provider_of m flags paths File_trees = Inr (fs_provider (m_disk m) None (fl_before flags) paths)"

fun root_of :: "machine \<Rightarrow> string list \<Rightarrow> provider_kind \<Rightarrow> string \<times> string" where
  "root_of m paths Git_refs = ([], [])"
| "root_of m paths File_trees = (let r = resolve_root (m_view m) paths in (ar_prefix r, ar_anchor r))"

subsection \<open>Printing\<close>

fun rendered :: "renderer \<Rightarrow> certificate \<Rightarrow> string" where
  "rendered Json_renderer x = render_json x"
| "rendered Markdown_renderer x = render_markdown x"
| "rendered Sarif_renderer x = render_sarif_text x"

definition open_output :: "machine \<Rightarrow> string \<Rightarrow> string option" where
  "open_output m path =
     (if path = [] then None
      else map_option (\<lambda>e. ''creating output file '' @ path @ '': '' @ e) (m_create m path))"

definition document :: "check_flags \<Rightarrow> certificate \<Rightarrow> string" where
  "document flags x = (case renderer_for (fl_format flags) of Inl e \<Rightarrow> [] | Inr r \<Rightarrow> rendered r x)"

definition emit_certificate :: "machine \<Rightarrow> check_flags \<Rightarrow> certificate \<Rightarrow> string option" where
  "emit_certificate m flags x =
     (case open_output m (fl_output flags) of
        Some e \<Rightarrow> Some e
      | None \<Rightarrow> map_option (\<lambda>e. ''writing the '' @ fl_format flags @ '' certificate: '' @ e)
          (m_write m (fl_output flags) (document flags x)))"

subsection \<open>The command check\<close>

definition check_env_of :: "machine \<Rightarrow> check_flags \<Rightarrow> string list \<Rightarrow> check_env" where
  "check_env_of m flags paths =
     \<lparr>ev_renderer = (\<lambda>format. case renderer_for format of Inl e \<Rightarrow> Some e | Inr r \<Rightarrow> None),
      ev_discovered = discover_policy m (policy_search_root (m_disk m) paths), ev_load_policy = load_policy m,
      ev_context = load_context (m_sha m) (m_fmt_g m) (m_snapshot m) (m_snapshot_json m) (m_now m) 0 (fl_context flags),
      ev_analyzers = build_analyzers m flags, ev_provider = provider_of m flags paths, ev_root = root_of m paths,
      ev_today = m_now m, ev_emit = emit_certificate m flags\<rparr>"

text \<open>The exit code, the document with the file it goes to, and standard error.\<close>

definition check_command :: "machine \<Rightarrow> check_flags \<Rightarrow> string list \<Rightarrow> int \<times> (string \<times> string) option \<times> string list" where
  "check_command m flags paths =
     (case run_check (m_sha m) (check_env_of m flags paths) flags paths of
        (cert, lines, err) \<Rightarrow>
          (case execute err of
             (code, last_lines) \<Rightarrow>
               (code,
                (case cert of
                   Some x \<Rightarrow> if emit_certificate m flags x = None then Some (fl_output flags, document flags x) else None
                 | None \<Rightarrow> None),
                lines @ last_lines)))"

subsection \<open>The commands\<close>

text \<open>What the parser of the command line hands over: a command with its flags, no command at all, a request for
  help, which the library answers, or an error of its own. The text is that of the error of printing help.\<close>

datatype command =
    Check check_flags "string list"
  | Collect_snapshot snapshot_flags
  | Show_catalogs
  | Scan_catalog string string
  | Print_version
  | Bare "string option"
  | Help "string option"
  | Unparsed string

fun command_error :: "machine \<Rightarrow> snapshot_env \<Rightarrow> catalog_env \<Rightarrow> (string \<Rightarrow> string option) \<Rightarrow> command \<Rightarrow> cli_error option" where
  "command_error m v k out (Check flags paths) =
     snd (snd (run_check (m_sha m) (check_env_of m flags paths) flags paths))"
| "command_error m v k out (Collect_snapshot flags) = map_option Other_error (fst (run_snapshot (m_sha m) v flags))"
| "command_error m v k out Show_catalogs = map_option Other_error (fst (run_catalog_show k))"
| "command_error m v k out (Scan_catalog provider output) =
     map_option Other_error (sr_error (run_catalog_scan k provider output))"
| "command_error m v k out Print_version = map_option Other_error (run_version out)"
| "command_error m v k out (Bare (Some e)) = Some (Other_error (''printing help: '' @ e))"
| "command_error m v k out (Bare None) = Some NoCommand"
| "command_error m v k out (Help e) = map_option Other_error e"
| "command_error m v k out (Unparsed e) = Some (Other_error e)"

text \<open>\<open>Execute\<close>: the exit code of the process and what is printed last.\<close>

definition revctl :: "machine \<Rightarrow> snapshot_env \<Rightarrow> catalog_env \<Rightarrow> (string \<Rightarrow> string option) \<Rightarrow> command \<Rightarrow> int \<times> string list" where
  "revctl m v k out cmd = execute (command_error m v k out cmd)"

subsection \<open>Properties\<close>

definition grounded :: "machine \<Rightarrow> tf_analyzer \<Rightarrow> changed_file \<Rightarrow> bool" where
  "grounded m tf f \<longleftrightarrow>
     (if analyzed f then grammar_permits (m_grammar m) (p_current f) else True)
     \<and> (if plan_read tf f then plan_harmless (m_plan m) f else True)
     \<and> (if k8s_supports (location_of f) then manifest_readable (m_yaml m) f else True)"

lemma check_command_document:
  assumes "check_command m flags paths = (code, Some (dest, doc), lines)"
  obtains cert said err where "run_check (m_sha m) (check_env_of m flags paths) flags paths = (Some cert, said, err)"
    and "doc = document flags cert" and "dest = fl_output flags" and "emit_certificate m flags cert = None"
    and "code = fst (execute err)"
  using assms by (auto simp: check_command_def split: prod.splits option.splits if_splits)

lemma pass_is_full:
  assumes "c_gate (fst (certify sha e cancelled c given)) = GatePass"
  shows "c_outcome (fst (certify sha e cancelled c given)) = OutcomeAnalyzed
    \<and> c_coverage (fst (certify sha e cancelled c given)) = CoverageFull"
proof -
  have "consistent (fst (certify sha e cancelled c given))"
    by (cases rule: certify_cases [of sha e cancelled c given]) (auto simp: consistent_failure consistent_conclude)
  with assms show ?thesis by (auto simp: consistent_def)
qed

lemma registered_analyzers:
  assumes "eng = new_engine (analyzers_of m tf) pol today ctx"
  shows "postgres_analyzer (Some (parse_sql (m_grammar m) None)) (\<lambda>i. None) \<in> set (e_analyzers eng)"
    and "kubernetes_analyzer (m_yaml m) (m_order m) (\<lambda>i. None) \<in> set (e_analyzers eng)"
    and "terraform_analyzer tf (m_plan m) None \<in> set (e_analyzers eng)"
  by (simp_all add: assms new_engine_def analyzers_of_def)

lemma pass_is_grounded:
  assumes "c_gate (fst (certify sha eng cancelled c given)) = GatePass"
    and "eng = new_engine (analyzers_of m tf) pol today ctx" and "visits_all (m_order m)"
    and "f \<in> set (stamp_located given (locator c))"
  shows "grounded m tf f"
  using passing_grammar [OF assms(1) registered_analyzers(1) [OF assms(2)] assms(4)]
    passing_plans [OF assms(1) registered_analyzers(3) [OF assms(2)]]
    passing_manifests [OF assms(1) registered_analyzers(2) [OF assms(2)] assms(3) refl] assms(4)
  by (simp add: grounded_def list_all_iff)

text \<open>C1. The merge signal, from the document back to the disk: when the JSON that \<open>revctl check\<close> wrote says
  that it passed, it is the certificate of the engine that the flags, the policy found for the paths and the
  context configure, over the changeset that the provider of the flags resolved, of which something was read;
  and of everything that was read every \<open>.sql\<close> up migration is accepted by the grammar with every node
  permitted, every claimed plan decodes and destroys nothing, the side to deploy of every manifest is empty or
  parses, and so does the previous side of a deleted one, and the rollout of every Kubernetes object that is
  defined at most once before and at most once after, and not the same, is safe. The exit code is then not 2.\<close>

theorem merge_signal_is_grounded:
  assumes "check_command m flags paths = (code, Some (dest, doc), lines)" and "fl_format flags = ''json''"
    and "read_certificate doc = Some w" and "passed w" and "visits_all (m_order m)"
  shows "\<exists>pol used ctx tf eng kind source listed given ch.
    resolve_policy (discover_policy m (policy_search_root (m_disk m) paths)) (load_policy m) flags = Inr (pol, used)
    \<and> load_context (m_sha m) (m_fmt_g m) (m_snapshot m) (m_snapshot_json m) (m_now m) 0 (fl_context flags) = Inr ctx
    \<and> terraform_for m flags pol = Inr tf \<and> eng = new_engine (analyzers_of m tf) pol (m_now m) ctx
    \<and> resolve_provider flags paths = Inr kind \<and> provider_of m flags paths kind = Inr source
    \<and> resolve_changes source (chosen eng (root_of m paths kind)) = Inr (listed, given, ch)
    \<and> doc = render_json (fst (certify (m_sha m) eng None (run_config_of (root_of m paths kind) ch) given))
    \<and> list_all (grounded m tf) (stamp_located given (new_locator (fst (root_of m paths kind))))
    \<and> rollouts_safe (m_yaml m) (stamp_located given (new_locator (fst (root_of m paths kind))))
    \<and> given \<noteq> [] \<and> code \<noteq> 2"
proof -
  obtain cert said err where run: "run_check (m_sha m) (check_env_of m flags paths) flags paths = (Some cert, said, err)"
    and doc: "doc = document flags cert" and emit: "emit_certificate m flags cert = None" and code: "code = fst (execute err)"
    by (rule check_command_document [OF assms(1)])
  show ?thesis
  proof (rule run_check_cases [OF run])
    fix pol used min_grade as kind source ctx eng listed given ch
    assume pol: "resolve_policy (ev_discovered (check_env_of m flags paths)) (ev_load_policy (check_env_of m flags paths)) flags = Inr (pol, used)"
      and ctx: "ev_context (check_env_of m flags paths) = Inr ctx"
      and an: "ev_analyzers (check_env_of m flags paths) pol = Inr as"
      and eng: "eng = new_engine as pol (ev_today (check_env_of m flags paths)) ctx"
      and prov: "resolve_provider flags paths = Inr kind" "ev_provider (check_env_of m flags paths) kind = Inr source"
      and res: "resolve_changes source (chosen eng (ev_root (check_env_of m flags paths) kind)) = Inr (listed, given, ch)"
      and cert: "cert = fst (certify (m_sha m) eng None (run_config_of (ev_root (check_env_of m flags paths) kind) ch) given)"
      and err: "err = (case ev_emit (check_env_of m flags paths) cert of Some e \<Rightarrow> Some (Other_error e)
        | None \<Rightarrow> fst (apply_gate cert min_grade))"
    from an obtain tf where as: "as = analyzers_of m tf" and tf: "terraform_for m flags pol = Inr tf"
      by (auto simp: check_env_of_def build_analyzers_def map_sum_def split: sum.splits)
    have "renderer_for ''json'' = Inr Json_renderer" by code_simp
    then have json: "doc = render_json cert" using doc assms(2) by (simp add: document_def)
    then have pass: "c_gate cert = GatePass" using passed_rendered assms(3,4) by blast
    have "list_all (grounded m tf) (stamp_located given (new_locator (fst (root_of m paths kind))))"
      using pass_is_grounded [OF pass [unfolded cert] eng [unfolded as] assms(5)]
      by (simp add: list_all_iff locator_def run_config_of_def check_env_of_def)
    moreover have "rollouts_safe (m_yaml m) (stamp_located given (new_locator (fst (root_of m paths kind))))"
      using passing_manifests [OF pass [unfolded cert] registered_analyzers(2) [OF eng [unfolded as]] assms(5) refl]
      by (simp add: locator_def run_config_of_def check_env_of_def)
    moreover have "given \<noteq> []"
      using pass_evidence [OF pass [unfolded cert]] by (auto simp: evidence_def stamp_located_def)
    moreover have "err = fst (apply_gate cert min_grade)" using err emit by (simp add: check_env_of_def)
    then have "code \<noteq> 2"
      using pass_is_full [OF pass [unfolded cert], folded cert] code by (auto simp: apply_gate_def execute_def Let_def)
    moreover have "resolve_policy (discover_policy m (policy_search_root (m_disk m) paths)) (load_policy m) flags = Inr (pol, used)"
      "load_context (m_sha m) (m_fmt_g m) (m_snapshot m) (m_snapshot_json m) (m_now m) 0 (fl_context flags) = Inr ctx"
      "eng = new_engine (analyzers_of m tf) pol (m_now m) ctx" "provider_of m flags paths kind = Inr source"
      "resolve_changes source (chosen eng (root_of m paths kind)) = Inr (listed, given, ch)"
      "doc = render_json (fst (certify (m_sha m) eng None (run_config_of (root_of m paths kind) ch) given))"
      using pol ctx eng as prov(2) res json cert by (simp_all add: check_env_of_def)
    ultimately show ?thesis using tf prov(1) by blast
  qed
qed

lemma gate_failed_exact:
  assumes "fst (apply_gate x g) = Some GateFailed"
  shows "c_outcome x \<noteq> OutcomeUnsupportedContent"
    and "c_coverage x = CoverageFull" and "g \<noteq> no_grade" and "c_outcome x \<noteq> OutcomeNoCandidates"
    and "grade_rank (if c_effective_grade x = no_grade then c_grade x else c_effective_grade x) < grade_rank g"
  using assms by (auto simp: apply_gate_def Let_def split: if_splits)

lemma certified_outcome:
  "c_outcome (fst (certify sha e cancelled c given)) \<in> {OutcomeAnalyzed, OutcomeNoCandidates, OutcomeUnsupportedContent}"
proof (cases rule: certify_cases [of sha e cancelled c given])
  case 1
  then show ?thesis by (auto simp: failure_result_def)
next
  case (2 findings down errors decision digest version)
  obtain out bad where o: "outcome (supports e) (stamp_located given (locator c))
      (if rc_enumerated c = [] then paths_of (stamp_located given (locator c)) else rc_enumerated c)
      (locator c) = (out, bad)"
    by (rule outcome_pair)
  then have "out \<in> {OutcomeAnalyzed, OutcomeNoCandidates, OutcomeUnsupportedContent}"
    by (auto simp: outcome_def Let_def split: if_splits)
  then show ?thesis unfolding 2(3) conclude_fields(4) [OF o] .
qed

lemma failed_gate_verdict:
  assumes "snd (snd (run_check (m_sha m) (check_env_of m flags paths) flags paths)) = Some GateFailed"
  shows "\<exists>cert said pol used min_grade. run_check (m_sha m) (check_env_of m flags paths) flags paths = (Some cert, said, Some GateFailed)
    \<and> emit_certificate m flags cert = None \<and> c_outcome cert = OutcomeAnalyzed \<and> c_coverage cert = CoverageFull
    \<and> resolve_policy (discover_policy m (policy_search_root (m_disk m) paths)) (load_policy m) flags = Inr (pol, used)
    \<and> resolve_min_grade flags pol = Inr min_grade \<and> min_grade \<noteq> no_grade \<and> grade_rank (c_effective_grade cert) < grade_rank min_grade"
proof -
  let ?r = "run_check (m_sha m) (check_env_of m flags paths) flags paths"
  obtain cert where "fst ?r = Some cert"
    using assms by (auto simp: run_check_def check_changeset_def Let_def split: sum.splits prod.splits option.splits)
  with assms obtain said where run: "?r = (Some cert, said, Some GateFailed)" by (metis prod.collapse)
  show ?thesis
  proof (rule run_check_cases [OF run])
    fix pol used min_grade as kind source ctx eng listed files ch
    assume pol: "resolve_policy (ev_discovered (check_env_of m flags paths)) (ev_load_policy (check_env_of m flags paths)) flags = Inr (pol, used)"
      and min_grade: "resolve_min_grade flags pol = Inr min_grade"
      and cert: "cert = fst (certify (m_sha m) eng None (run_config_of (ev_root (check_env_of m flags paths) kind) ch) files)"
      and err: "Some GateFailed = (case ev_emit (check_env_of m flags paths) cert of Some e \<Rightarrow> Some (Other_error e)
        | None \<Rightarrow> fst (apply_gate cert min_grade))"
    from err have "emit_certificate m flags cert = None" and g: "fst (apply_gate cert min_grade) = Some GateFailed"
      by (auto simp: check_env_of_def split: option.splits)
    moreover note gate_failed_exact [OF g] certified_outcome [of "m_sha m" eng None "run_config_of (ev_root (check_env_of m flags paths) kind) ch" files]
      effective_grade_named [of "m_sha m" eng None "run_config_of (ev_root (check_env_of m flags paths) kind) ch" files]
    moreover have "resolve_policy (discover_policy m (policy_search_root (m_disk m) paths)) (load_policy m) flags = Inr (pol, used)"
      using pol by (simp add: check_env_of_def)
    ultimately show ?thesis using run cert min_grade by auto
  qed
qed

text \<open>C39. The exit codes of the program. 1 is a verdict and nothing else: the command was \<open>check\<close>, a certificate was
  issued and printed that says of the changeset that it was analyzed and covered, and its effective grade is
  below the threshold that the flags and the policy of the run (the one that is configured or found for the
  paths) resolve to. A run that analyzes nothing because no command was given is not a success.\<close>

theorem exit_one_is_a_verdict:
  "fst (revctl m v k out cmd) \<in> {0, 1, 2}
   \<and> fst (revctl m v k out (Bare e)) = 2
   \<and> (fst (revctl m v k out cmd) = 1 \<longleftrightarrow>
        (\<exists>flags paths cert said pol used min_grade. cmd = Check flags paths
          \<and> run_check (m_sha m) (check_env_of m flags paths) flags paths = (Some cert, said, Some GateFailed)
          \<and> emit_certificate m flags cert = None
          \<and> c_outcome cert = OutcomeAnalyzed \<and> c_coverage cert = CoverageFull
          \<and> resolve_policy (discover_policy m (policy_search_root (m_disk m) paths)) (load_policy m) flags = Inr (pol, used)
          \<and> resolve_min_grade flags pol = Inr min_grade \<and> min_grade \<noteq> no_grade
          \<and> grade_rank (c_effective_grade cert) < grade_rank min_grade))"
proof -
  have one: "fst (revctl m v k out cmd) = 1 \<longleftrightarrow> command_error m v k out cmd = Some GateFailed" for cmd
    by (simp add: revctl_def exit_code_cases(2) [unfolded exit_code_def])
  have check: "\<exists>flags paths. cmd = Check flags paths" if "command_error m v k out cmd = Some GateFailed"
    using that by (cases "(m, v, k, out, cmd)" rule: command_error.cases) auto
  have "fst (execute err) \<in> {0, 1, 2}" for err by (auto simp: execute_def split: option.splits cli_error.splits)
  moreover have "fst (revctl m v k out (Bare e)) = 2" by (cases e) (simp_all add: revctl_def execute_def)
  ultimately show ?thesis
    unfolding one using check failed_gate_verdict by (fastforce simp: revctl_def)
qed

text \<open>A directory with a new table, under a grammar that reads it as one, and a build without classified types.\<close>

definition quiet_machine :: machine where
  "quiet_machine =
     \<lparr>m_sha = (\<lambda>b. []), m_grammar = sample_grammar, m_yaml = sample_library [], m_order = in_order,
      m_plan = (\<lambda>t. Inl ''no plan''), m_catalog_yaml = sample_yaml, m_catalog_files = (\<lambda>n. Inr []),
      m_policy_yaml = (\<lambda>t. Inl ''no policy''), m_policy_error = (\<lambda>e. []), m_read = (\<lambda>n. Inl ''no file''),
      m_snapshot = (\<lambda>n. Content []), m_snapshot_json = (\<lambda>t. Inl ''no snapshot''), m_fmt_g = (\<lambda>x. []),
      m_disk = (\<lambda>n. Inr (Directory (Inr [(''1.down.sql'', Regular (Inr ''down'')), (''1.up.sql'', Regular (Inr ''up''))]))),
      m_view = sample_view, m_cwd_error = [], m_has_policy = (\<lambda>d. False), m_has_git = (\<lambda>d. False),
      m_git_lookup = None, m_git_where = [], m_git = (\<lambda>args. \<lparr>go_out = [], go_err = [], go_failed = True\<rparr>), m_create = (\<lambda>p. None),
      m_write = (\<lambda>p s. None), m_now = 0\<rparr>"

definition quiet_terraform :: tf_analyzer where
  "quiet_terraform = (case terraform_for quiet_machine plain_flags None of Inr a \<Rightarrow> a | Inl e \<Rightarrow> undefined)"

definition quiet_flow :: engine where
  "quiet_flow = new_engine (analyzers_of quiet_machine quiet_terraform) None 0 None"

lemma quiet_emit: "emit_certificate quiet_machine plain_flags x = None"
  by (simp add: emit_certificate_def open_output_def quiet_machine_def plain_flags_def)

lemma quiet_configured: "terraform_for quiet_machine plain_flags None = Inr quiet_terraform"
proof -
  have "case terraform_for quiet_machine plain_flags None of Inr a \<Rightarrow> True | Inl e \<Rightarrow> False" by code_simp
  then show ?thesis by (simp add: quiet_terraform_def split: sum.splits)
qed

lemma quiet_discovered: "discover_policy quiet_machine (policy_search_root (m_disk quiet_machine) [''/repo/db'']) = Inr None"
  by code_simp

lemma quiet_root: "root_of quiet_machine [''/repo/db''] File_trees = (''db'', ''.git'')"
  by code_simp

definition quiet_files :: "changed_file list" where
  "quiet_files = [fs_file ''1.down.sql'' StatusAdded [] ''down'', fs_file ''1.up.sql'' StatusAdded [] ''up'']"

lemma quiet_certificate:
  "c_gate (fst (certify (m_sha quiet_machine) quiet_flow None
     \<lparr>rc_enumerated = [''1.down.sql'', ''1.up.sql''], rc_ignored_by_policy = [], rc_dead_ignores = [],
      rc_root = ''db'', rc_anchor = ''.git''\<rparr> quiet_files)) = GatePass"
  by code_simp

lemma quiet_changes:
  "case resolve_changes (fs_provider (m_disk quiet_machine) None [] [''/repo/db'']) (chosen quiet_flow (''db'', ''.git'')) of
     Inr (listed, given, ch) \<Rightarrow> given = quiet_files \<and> run_config_of (''db'', ''.git'') ch =
     \<lparr>rc_enumerated = [''1.down.sql'', ''1.up.sql''], rc_ignored_by_policy = [], rc_dead_ignores = [],
      rc_root = ''db'', rc_anchor = ''.git''\<rparr>
   | _ \<Rightarrow> False"
  by code_simp

lemma quiet_run:
  "\<exists>x lines. run_check (m_sha quiet_machine) (check_env_of quiet_machine plain_flags [''/repo/db'']) plain_flags [''/repo/db'']
     = (Some x, lines, None) \<and> c_gate x = GatePass"
proof -
  let ?env = "check_env_of quiet_machine plain_flags [''/repo/db'']"
  have env: "ev_renderer ?env ''json'' = None" "ev_discovered ?env = Inr None" "ev_context ?env = Inr None"
    "ev_analyzers ?env None = Inr (analyzers_of quiet_machine quiet_terraform)"
    "ev_provider ?env File_trees = Inr (fs_provider (m_disk quiet_machine) None [] [''/repo/db''])"
    "ev_root ?env File_trees = (''db'', ''.git'')" "ev_today ?env = 0" "ev_emit ?env x = None" for x
    using quiet_discovered quiet_root
    by (simp_all add: check_env_of_def build_analyzers_def quiet_configured quiet_emit, simp_all add: plain_flags_def
        renderer_for_def format_json_def load_context_def quiet_machine_def)
  obtain listed ch where r: "resolve_changes (fs_provider (m_disk quiet_machine) None [] [''/repo/db''])
      (chosen quiet_flow (''db'', ''.git'')) = Inr (listed, quiet_files, ch)"
    and c: "run_config_of (''db'', ''.git'') ch = \<lparr>rc_enumerated = [''1.down.sql'', ''1.up.sql''],
      rc_ignored_by_policy = [], rc_dead_ignores = [], rc_root = ''db'', rc_anchor = ''.git''\<rparr>"
    using quiet_changes by (auto split: sum.splits)
  obtain x e where x: "certify (m_sha quiet_machine) quiet_flow None (run_config_of (''db'', ''.git'') ch) quiet_files = (x, e)"
    by (cases "certify (m_sha quiet_machine) quiet_flow None (run_config_of (''db'', ''.git'') ch) quiet_files")
  with quiet_certificate c have pass: "c_gate x = GatePass" by simp
  have consistent: "c_outcome x = OutcomeAnalyzed" "c_coverage x = CoverageFull"
    using pass_is_full [of "m_sha quiet_machine" quiet_flow None "run_config_of (''db'', ''.git'') ch" quiet_files] x pass
    by simp_all
  have flow: "new_engine (analyzers_of quiet_machine quiet_terraform) None 0 None = quiet_flow"
    by (simp add: quiet_flow_def)
  have flags: "resolve_min_grade plain_flags None = Inr no_grade" "resolve_provider plain_flags [''/repo/db''] = Inr File_trees"
    "fl_no_config plain_flags = False" "fl_config plain_flags = []" "fl_format plain_flags = ''json''"
    by (simp_all add: resolve_min_grade_def resolve_provider_def plain_flags_def)
  have gate: "fst (apply_gate x no_grade) = None" using consistent by (simp add: apply_gate_None)
  have "fst (run_check (m_sha quiet_machine) ?env plain_flags [''/repo/db'']) = Some x"
    "snd (snd (run_check (m_sha quiet_machine) ?env plain_flags [''/repo/db''])) = None"
    using gate by (auto simp: run_check_def resolve_policy_def env flags flow check_changeset_def r x Let_def
        split: prod.splits)
  with pass show ?thesis by (metis prod.collapse)
qed

text \<open>The run of the program on it.\<close>

theorem merge_signal_is_grounded_witness:
  "\<exists>tf given. terraform_for quiet_machine plain_flags None = Inr tf \<and> given \<noteq> [] \<and> list_all (grounded quiet_machine tf)
     (stamp_located given (new_locator (fst (root_of quiet_machine [''/repo/db''] File_trees))))
   \<and> rollouts_safe (m_yaml quiet_machine)
     (stamp_located given (new_locator (fst (root_of quiet_machine [''/repo/db''] File_trees))))"
proof -
  obtain x lines where run: "run_check (m_sha quiet_machine) (check_env_of quiet_machine plain_flags [''/repo/db'']) plain_flags [''/repo/db'']
      = (Some x, lines, None)" and pass: "c_gate x = GatePass"
    using quiet_run by blast
  have f: "fl_format plain_flags = ''json''" "renderer_for ''json'' = Inr Json_renderer"
    by (simp_all add: plain_flags_def renderer_for_def format_json_def)
  have cmd: "check_command quiet_machine plain_flags [''/repo/db'']
      = (0, Some (fl_output plain_flags, render_json x), lines @ [])"
    unfolding check_command_def run by (simp add: execute_def quiet_emit document_def f)
  obtain w where w: "read_certificate (render_json x) = Some w" using read_certificate_json by blast
  then have "passed w" using passed_rendered pass by blast
  moreover have "visits_all (m_order quiet_machine)" by (simp add: quiet_machine_def)
  ultimately obtain kind tf given pol used where k: "resolve_provider plain_flags [''/repo/db''] = Inr kind"
    and pol: "resolve_policy (discover_policy quiet_machine (policy_search_root (m_disk quiet_machine) [''/repo/db'']))
      (load_policy quiet_machine) plain_flags = Inr (pol, used)"
    and tf: "terraform_for quiet_machine plain_flags pol = Inr tf"
    and g: "list_all (grounded quiet_machine tf) (stamp_located given (new_locator (fst (root_of quiet_machine [''/repo/db''] kind))))"
      "rollouts_safe (m_yaml quiet_machine) (stamp_located given (new_locator (fst (root_of quiet_machine [''/repo/db''] kind))))"
      "given \<noteq> []"
    using merge_signal_is_grounded [OF cmd f(1) w] by blast
  have "pol = None" using pol quiet_discovered by (simp add: resolve_policy_def plain_flags_def)
  from k have "kind = File_trees" by (simp add: resolve_provider_def plain_flags_def)
  with g tf \<open>pol = None\<close> show ?thesis by blast
qed

end
