(* ===== verification/Provider_Github.thy ===== *)
theory Provider_Github
  imports Provider_Git
begin

text \<open>
  The provider that reads a changeset from the GitHub API, \<open>internal/provider/github.go\<close>. The two calls it
  makes are parameters: the comparison of two commits, one page at a time, and the contents of a path at a
  commit. The loop over the pages ends when the API says there is no next page, which nothing else
  enforces, so its result is \<open>None\<close> when it does not end.
\<close>

subsection \<open>The API\<close>

record commit_file =
  cf_filename :: string
  cf_previous :: string
  cf_status :: string

datatype api_error = Rate_limited string string | Abuse_limited string | Api_failed string

record dir_entry =
  de_type :: string
  de_path :: string

record blob_file =
  bf_size :: int
  bf_content :: "string + string"

datatype contents =
    Contents_failed "int option" api_error
  | Contents_file blob_file
  | Contents_dir "dir_entry list"

record api_client =
  api_compare :: "string \<Rightarrow> string \<Rightarrow> string \<Rightarrow> string \<Rightarrow> int \<Rightarrow> api_error + commit_file list \<times> int"
  api_contents :: "string \<Rightarrow> string \<Rightarrow> string \<Rightarrow> string \<Rightarrow> contents"

fun api_error_text :: "string \<Rightarrow> api_error \<Rightarrow> string" where
  "api_error_text what (Rate_limited reset err) =
     ''github provider: '' @ what @ '': rate limited until '' @ reset @ '': '' @ err"
| "api_error_text what (Abuse_limited err) =
     ''github provider: '' @ what @ '': secondary rate limit: '' @ err"
| "api_error_text what (Api_failed err) = ''github provider: '' @ what @ '': '' @ err"

subsection \<open>References\<close>

definition make_ref :: "string \<Rightarrow> string \<Rightarrow> string \<Rightarrow> string \<Rightarrow> string" where
  "make_ref owner repo base head = owner @ ''/'' @ repo @ ''@'' @ base @ ''...'' @ head"

record parsed_ref =
  pr_owner :: string
  pr_repo :: string
  pr_base :: string
  pr_head :: string

text \<open>Cutting a text at the first or the last occurrence of a character, and at a separator.\<close>

fun cut_first :: "char \<Rightarrow> string \<Rightarrow> (string \<times> string) option" where
  "cut_first c [] = None"
| "cut_first c (x # xs) =
     (if x = c then Some ([], xs) else map_option (\<lambda>(a, b). (x # a, b)) (cut_first c xs))"

definition cut_last :: "char \<Rightarrow> string \<Rightarrow> (string \<times> string) option" where
  "cut_last c s = map_option (\<lambda>(a, b). (rev b, rev a)) (cut_first c (rev s))"

fun cut_text :: "string \<Rightarrow> string \<Rightarrow> (string \<times> string) option" where
  "cut_text sep [] = (if sep = [] then Some ([], []) else None)"
| "cut_text sep (x # xs) =
     (if has_prefix (x # xs) sep then Some ([], drop (length sep) (x # xs))
      else map_option (\<lambda>(a, b). (x # a, b)) (cut_text sep xs))"

definition malformed :: "string \<Rightarrow> string" where
  "malformed ref = ''github provider: malformed ref '' @ go_quote ref @ '': want owner/repo@base...head''"

definition parse_ref :: "string \<Rightarrow> string + parsed_ref" where
  "parse_ref ref =
     (case cut_last (CHR ''@'') ref of
        None \<Rightarrow> Inl (malformed ref)
      | Some (repo_part, range_part) \<Rightarrow>
          (case cut_first slash repo_part of
             None \<Rightarrow> Inl (malformed ref)
           | Some (owner, repo) \<Rightarrow>
               (case cut_text ''...'' range_part of
                  None \<Rightarrow> Inl (malformed ref)
                | Some (base, head) \<Rightarrow>
                    if base = [] \<or> head = [] then Inl (malformed ref)
                    else if owner = [] \<or> repo = [] then Inl (malformed ref)
                    else Inr \<lparr>pr_owner = owner, pr_repo = repo, pr_base = base, pr_head = head\<rparr>)))"

subsection \<open>Listing\<close>

definition max_changed_files :: nat where "max_changed_files = 500"

definition translate_status :: "string \<Rightarrow> change_status" where
  "translate_status status =
     (if status = ''added'' \<or> status = ''copied'' then StatusAdded
      else if status = ''removed'' then StatusRemoved
      else if status = ''renamed'' then StatusRenamed
      else StatusModified)"

definition too_large :: "string \<Rightarrow> string" where
  "too_large what = ''provider: changeset exceeds the fetch limit: '' @ what"

partial_function (option) compare_pages ::
  "api_client \<Rightarrow> parsed_ref \<Rightarrow> int \<Rightarrow> commit_file list \<Rightarrow> (string + commit_file list) option" where
  "compare_pages c r page out =
     (case api_compare c (pr_owner r) (pr_repo r) (pr_base r) (pr_head r) page of
        Inl e \<Rightarrow> Some (Inl (api_error_text (''comparing '' @ pr_base r @ ''...'' @ pr_head r) e))
      | Inr (files, after') \<Rightarrow>
          (let out' = out @ files in
           if max_changed_files < length out' then
             Some (Inl (too_large (utoa (length out') @ '' files exceeds the limit of '' @ utoa max_changed_files)))
           else if after' = 0 then Some (Inr out')
           else compare_pages c r after' out'))"

definition list_directory :: "api_client \<Rightarrow> parsed_ref \<Rightarrow> string \<Rightarrow> string + string list" where
  "list_directory c r dir =
     (let d = (if dir = ''.'' then [] else dir) in
      case api_contents c (pr_owner r) (pr_repo r) d (pr_base r) of
        Contents_failed status e \<Rightarrow>
          if status = Some 404 then Inr []
          else Inl (api_error_text (''listing directory '' @ go_quote d @ '' at '' @ pr_base r) e)
      | Contents_file f \<Rightarrow> Inr []
      | Contents_dir entries \<Rightarrow> Inr (sort (map de_path (filter (\<lambda>e. de_type e = ''file'') entries))))"

fun keep_siblings :: "string list \<Rightarrow> nat \<Rightarrow> string list \<Rightarrow> string + provider_path list" where
  "keep_siblings known n [] = Inr []"
| "keep_siblings known n (s # ss) =
     (if s \<in> set known then keep_siblings known n ss
      else if Suc n > max_context_files then
        Inl (too_large (''more than '' @ utoa max_context_files @ '' context files''))
      else and_then (keep_siblings (s # known) (Suc n) ss) (\<lambda>ps. Inr (listed_path s StatusModified # ps)))"

fun context_dirs :: "api_client \<Rightarrow> parsed_ref \<Rightarrow> string list \<Rightarrow> nat \<Rightarrow> string list \<Rightarrow> string + provider_path list" where
  "context_dirs c r known n [] = Inr []"
| "context_dirs c r known n (d # ds) =
     and_then (list_directory c r d) (\<lambda>siblings.
     and_then (keep_siblings known n siblings) (\<lambda>ps.
     and_then (context_dirs c r (map pp_path ps @ known) (n + length ps) ds) (\<lambda>qs.
       Inr (ps @ qs))))"

definition github_context :: "api_client \<Rightarrow> parsed_ref \<Rightarrow> provider_path list \<Rightarrow> string + provider_path list" where
  "github_context c r changed =
     context_dirs c r (map pp_path changed @ filter (\<lambda>p. p \<noteq> []) (map pp_prev_path changed)) 0
       (sorted_keys (map (\<lambda>p. path_dir (pp_path p)) changed))"

definition commit_path :: "commit_file \<Rightarrow> provider_path" where
  "commit_path f =
     \<lparr>pp_path = cf_filename f, pp_prev_path = cf_previous f, pp_status = translate_status (cf_status f)\<rparr>"

definition no_client :: string where
  "no_client = ''github provider: no client configured: domain: file provider failed''"

definition github_list ::
  "api_client option \<Rightarrow> string option \<Rightarrow> string \<Rightarrow> (string + provider_path list) option" where
  "github_list client cancelled ref =
     (case client of
        None \<Rightarrow> Some (Inl no_client)
      | Some c \<Rightarrow>
      (case cancelled of
         Some e \<Rightarrow> Some (Inl (''github provider: '' @ e))
       | None \<Rightarrow>
      (case parse_ref ref of
         Inl e \<Rightarrow> Some (Inl e)
       | Inr r \<Rightarrow>
           map_option (\<lambda>res. and_then res (\<lambda>files.
               let changed = map commit_path files in
               and_then (github_context c r changed) (\<lambda>siblings. Inr (sort_paths (changed @ siblings)))))
             (compare_pages c r 0 []))))"

subsection \<open>Reading\<close>

definition fetch_file :: "api_client \<Rightarrow> parsed_ref \<Rightarrow> string \<Rightarrow> string \<Rightarrow> string + string" where
  "fetch_file c r path sha =
     (case api_contents c (pr_owner r) (pr_repo r) path sha of
        Contents_failed status e \<Rightarrow> Inl (api_error_text (''fetching '' @ path @ '' at '' @ sha) e)
      | Contents_dir entries \<Rightarrow>
          Inl (''github provider: '' @ path @ '' at '' @ sha @ '' is not a file'' @ provider_failed)
      | Contents_file f \<Rightarrow>
          if max_file_bytes < bf_size f then
            Inl (''github provider: '' @ path @ '' at '' @ sha @ '' is '' @ itoa (bf_size f)
                 @ '' bytes, over the '' @ itoa max_file_bytes @ '' limit'' @ provider_failed)
          else
            (case bf_content f of
               Inl e \<Rightarrow> Inl (''github provider: decoding '' @ path @ '' at '' @ sha @ '': '' @ e)
             | Inr content \<Rightarrow> Inr content))"

definition read_path :: "api_client \<Rightarrow> parsed_ref \<Rightarrow> provider_path \<Rightarrow> string + changed_file" where
  "read_path c r p =
     and_then (if pp_status p \<noteq> StatusAdded
               then fetch_file c r (if pp_prev_path p \<noteq> [] then pp_prev_path p else pp_path p) (pr_base r)
               else Inr []) (\<lambda>previous.
     and_then (if pp_status p \<noteq> StatusRemoved then fetch_file c r (pp_path p) (pr_head r) else Inr []) (\<lambda>current.
       Inr \<lparr>p_path = pp_path p, p_previous_path = pp_prev_path p, p_status = pp_status p,
         p_previous = previous, p_current = current, p_at = []\<rparr>))"

fun read_paths :: "api_client \<Rightarrow> parsed_ref \<Rightarrow> provider_path list \<Rightarrow> string + changed_file list" where
  "read_paths c r [] = Inr []"
| "read_paths c r (p # ps) =
     and_then (read_path c r p) (\<lambda>f. and_then (read_paths c r ps) (\<lambda>fs. Inr (f # fs)))"

definition github_read ::
  "api_client option \<Rightarrow> string option \<Rightarrow> string \<Rightarrow> provider_path list \<Rightarrow> string + changed_file list" where
  "github_read client cancelled ref paths =
     (case client of
        None \<Rightarrow> Inl no_client
      | Some c \<Rightarrow>
      (case cancelled of
         Some e \<Rightarrow> Inl (''github provider: '' @ e)
       | None \<Rightarrow>
           if paths = [] then Inr []
           else and_then (parse_ref ref) (\<lambda>r. and_then (read_paths c r paths) (\<lambda>fs. Inr (sort_by_path fs)))))"

text \<open>The provider of one reference; there is none when the listing does not end.\<close>

definition github_provider :: "api_client option \<Rightarrow> string option \<Rightarrow> string \<Rightarrow> file_provider option" where
  "github_provider client cancelled ref =
     map_option (\<lambda>listing. \<lparr>fp_list = listing, fp_read = github_read client cancelled ref\<rparr>)
       (github_list client cancelled ref)"

subsection \<open>The reference round trip\<close>

lemma cut_first_Some: "cut_first c s = Some (a, b) \<longleftrightarrow> s = a @ c # b \<and> c \<notin> set a"
proof (induction s arbitrary: a)
  case (Cons x xs)
  then show ?case by (cases a) auto
qed simp

lemma cut_last_Some: "cut_last c s = Some (a, b) \<longleftrightarrow> s = a @ c # b \<and> c \<notin> set b"
proof -
  have "cut_last c s = Some (a, b) \<longleftrightarrow> cut_first c (rev s) = Some (rev b, rev a)"
    by (auto simp: cut_last_def)
  also have "\<dots> \<longleftrightarrow> s = a @ c # b \<and> c \<notin> set b"
    unfolding cut_first_Some by (metis append.assoc append_Cons append_Nil rev.simps(2) rev_append rev_rev_ident set_rev)
  finally show ?thesis .
qed

lemma cut_text_sound: "cut_text sep s = Some (a, b) \<Longrightarrow> s = a @ sep @ b"
proof (induction s arbitrary: a)
  case (Cons x xs)
  show ?case
  proof (cases "has_prefix (x # xs) sep")
    case True
    with Cons.prems show ?thesis by (auto simp: has_prefix_def) (metis append_take_drop_id)
  next
    case False
    with Cons show ?thesis by auto
  qed
qed (auto split: if_splits)

lemma cut_text_first: "c \<notin> set a \<Longrightarrow> cut_text (c # sep) (a @ (c # sep) @ b) = Some (a, b)"
proof (induction a)
  case (Cons x xs)
  then have "\<not> has_prefix (x # xs @ c # sep @ b) (c # sep)" by (auto simp: has_prefix_def)
  with Cons show ?case by simp
qed (simp add: has_prefix_def)

text \<open>What \<open>Ref\<close> writes for the names and hashes of a pull request is parsed back, and whatever is
  parsed is written back to the same text.\<close>

theorem ref_round_trip:
  assumes "owner \<noteq> []" "repo \<noteq> []" "base \<noteq> []" "head \<noteq> []" and "slash \<notin> set owner"
    and "CHR ''.'' \<notin> set base" "CHR ''@'' \<notin> set base" "CHR ''@'' \<notin> set head"
  shows "parse_ref (make_ref owner repo base head)
      = Inr \<lparr>pr_owner = owner, pr_repo = repo, pr_base = base, pr_head = head\<rparr>
    \<and> (\<forall>s r. parse_ref s = Inr r \<longrightarrow>
        make_ref (pr_owner r) (pr_repo r) (pr_base r) (pr_head r) = s
        \<and> [] \<notin> {pr_owner r, pr_repo r, pr_base r, pr_head r})"
proof (intro conjI allI impI)
  have "cut_last (CHR ''@'') (make_ref owner repo base head) = Some (owner @ slash # repo, base @ ''...'' @ head)"
    unfolding cut_last_Some using assms by (simp add: make_ref_def)
  moreover have "cut_first slash (owner @ slash # repo) = Some (owner, repo)"
    unfolding cut_first_Some using assms by simp
  moreover have "cut_text ''...'' (base @ ''...'' @ head) = Some (base, head)"
    using assms by (intro cut_text_first)
  ultimately show "parse_ref (make_ref owner repo base head)
      = Inr \<lparr>pr_owner = owner, pr_repo = repo, pr_base = base, pr_head = head\<rparr>"
    using assms(1-4) by (simp add: parse_ref_def)
next
  fix s r
  assume "parse_ref s = Inr r"
  then obtain x y where 1: "cut_last (CHR ''@'') s = Some (x, y)"
    and 2: "cut_first slash x = Some (pr_owner r, pr_repo r)"
    and 3: "cut_text ''...'' y = Some (pr_base r, pr_head r)"
    and 4: "[] \<notin> {pr_owner r, pr_repo r, pr_base r, pr_head r}"
    by (auto simp: parse_ref_def split: option.splits prod.splits if_splits)
  then show "make_ref (pr_owner r) (pr_repo r) (pr_base r) (pr_head r) = s"
    by (auto simp: make_ref_def cut_last_Some cut_first_Some dest!: cut_text_sound)
  from 4 show "[] \<notin> {pr_owner r, pr_repo r, pr_base r, pr_head r}" .
qed

theorem ref_round_trip_witness:
  "parse_ref (make_ref ''acme'' ''widgets'' ''aaa'' ''bbb'')
     = Inr \<lparr>pr_owner = ''acme'', pr_repo = ''widgets'', pr_base = ''aaa'', pr_head = ''bbb''\<rparr>"
  using ref_round_trip [of "''acme''" "''widgets''" "''aaa''" "''bbb''"] by simp

subsection \<open>The pages of a comparison\<close>

text \<open>What the documentation of the API says of pages: each names a later one or none, and they end.\<close>

definition pages_end :: "api_client \<Rightarrow> parsed_ref \<Rightarrow> int \<Rightarrow> bool" where
  "pages_end c r bound \<longleftrightarrow>
     (\<forall>page files after'. api_compare c (pr_owner r) (pr_repo r) (pr_base r) (pr_head r) page = Inr (files, after') \<longrightarrow>
        after' = 0 \<or> page < after' \<and> after' \<le> bound)"

lemma compare_pages_end:
  assumes "pages_end c r bound" and "page \<le> bound"
  shows "\<exists>res. compare_pages c r page out = Some res"
  using assms(2)
proof (induction "nat (bound - page)" arbitrary: page out rule: less_induct)
  case less
  show ?case
  proof (cases "api_compare c (pr_owner r) (pr_repo r) (pr_base r) (pr_head r) page")
    case (Inl e)
    then show ?thesis by (subst compare_pages.simps) simp
  next
    case (Inr res)
    obtain files after' where res: "res = (files, after')" by (cases res)
    with Inr assms(1) have "after' = 0 \<or> page < after' \<and> after' \<le> bound" by (auto simp: pages_end_def)
    then show ?thesis
    proof
      assume "after' = 0"
      with Inr res show ?thesis by (subst compare_pages.simps) (simp add: Let_def)
    next
      assume "page < after' \<and> after' \<le> bound"
      then have "\<exists>res. compare_pages c r after' (out @ files) = Some res"
        by (intro less) (simp_all add: nat_less_iff)
      with Inr res show ?thesis by (subst compare_pages.simps) (auto simp: Let_def)
    qed
  qed
qed

lemma compare_pages_bound:
  assumes "compare_pages c r page out = Some res"
  shows "\<forall>files. res = Inr files \<longrightarrow> length files \<le> max_changed_files"
  by (rule compare_pages.raw_induct [OF _ assms])
    (auto simp: Let_def not_less split: sum.splits prod.splits if_splits)

subsection \<open>Lemmas\<close>

lemma keep_siblings_Inr:
  "keep_siblings known n ss = Inr ps \<Longrightarrow>
     set (map pp_path ps) \<inter> set known = {} \<and> distinct (map pp_path ps)
     \<and> (n \<le> max_context_files \<longrightarrow> n + length ps \<le> max_context_files)"
proof (induction known n ss arbitrary: ps rule: keep_siblings.induct)
  case (2 known n s ss)
  show ?case
  proof (cases "s \<in> set known")
    case True
    with 2 show ?thesis by simp
  next
    case False
    with "2.prems" obtain qs where q: "keep_siblings (s # known) (Suc n) ss = Inr qs"
      and n: "\<not> Suc n > max_context_files" and ps: "ps = listed_path s StatusModified # qs"
      by (auto simp: and_then_Inr split: if_splits)
    from "2.IH"(2) [OF False n q] n False show ?thesis unfolding ps by auto
  qed
qed simp

lemma context_dirs_Inr:
  "context_dirs c r known n ds = Inr ps \<Longrightarrow>
     set (map pp_path ps) \<inter> set known = {} \<and> distinct (map pp_path ps)
     \<and> (n \<le> max_context_files \<longrightarrow> n + length ps \<le> max_context_files)"
proof (induction c r known n ds arbitrary: ps rule: context_dirs.induct)
  case (2 c r known n d ds)
  then obtain siblings ks qs where k: "keep_siblings known n siblings = Inr ks"
    and l: "list_directory c r d = Inr siblings"
    and q: "context_dirs c r (map pp_path ks @ known) (n + length ks) ds = Inr qs" and ps: "ps = ks @ qs"
    by (auto simp: and_then_Inr)
  from keep_siblings_Inr [OF k] "2.IH" [OF q] show ?case unfolding ps by auto
qed simp

lemma keep_siblings_unchanged:
  "keep_siblings known n ss = Inr ps \<Longrightarrow> list_all (\<lambda>p. p = listed_path (pp_path p) StatusModified) ps"
proof (induction known n ss arbitrary: ps rule: keep_siblings.induct)
  case (2 known n s ss)
  then show ?case by (auto simp: and_then_Inr listed_path_def split: if_splits)
qed simp

lemma context_dirs_unchanged:
  "context_dirs c r known n ds = Inr ps \<Longrightarrow> list_all (\<lambda>p. p = listed_path (pp_path p) StatusModified) ps"
proof (induction c r known n ds arbitrary: ps rule: context_dirs.induct)
  case (2 c r known n d ds)
  then obtain siblings ks qs where "keep_siblings known n siblings = Inr ks"
    and "list_directory c r d = Inr siblings"
    and q: "context_dirs c r (map pp_path ks @ known) (n + length ks) ds = Inr qs" and ps: "ps = ks @ qs"
    by (auto simp: and_then_Inr)
  then show ?case using keep_siblings_unchanged "2.IH" [OF q] by simp
qed simp

lemma read_paths_entries:
  "read_paths c r ps = Inr fs \<Longrightarrow> map file_entry fs = map path_entry ps"
  by (induction ps arbitrary: fs) (auto simp: and_then_Inr read_path_def file_entry_def path_entry_def)

lemma github_read_entries:
  assumes "github_read client cancelled ref ps = Inr fs"
  shows "mset (map file_entry fs) = mset (map path_entry ps) \<and> sorted (map p_path fs)"
proof (cases "ps = []")
  case True
  with assms show ?thesis by (auto simp: github_read_def split: option.splits)
next
  case False
  with assms obtain c r gs where "read_paths c r ps = Inr gs" and "fs = sort_by_path gs"
    by (auto simp: github_read_def and_then_Inr split: option.splits)
  then show ?thesis
    by (metis mset_map mset_sort_by_path(1) read_paths_entries sorted_sort_by_path)
qed

lemma github_list_Inr:
  assumes "github_list client cancelled ref = Some (Inr listed)"
  obtains c r files siblings where "client = Some c" and "parse_ref ref = Inr r"
    and "compare_pages c r 0 [] = Some (Inr files)"
    and "github_context c r (map commit_path files) = Inr siblings"
    and "listed = sort_paths (map commit_path files @ siblings)"
  using assms by (auto simp: github_list_def and_then_Inr Let_def split: option.splits sum.splits)

lemma github_contract:
  assumes "github_provider client cancelled ref = Some p"
  shows "provider_contract (fp_list p) (fp_read p)"
proof -
  from assms have p: "github_list client cancelled ref = Some (fp_list p)"
    "fp_read p = github_read client cancelled ref"
    by (auto simp: github_provider_def)
  show ?thesis
  proof
    fix listed
    assume "fp_list p = Inr listed"
    with p(1) show "sorted (map pp_path listed)" by (auto elim: github_list_Inr)
  next
    fix ps files
    assume "fp_read p ps = Inr files"
    with p(2) github_read_entries show "sorted (map p_path files)" by auto
  next
    fix listed Q files
    assume "fp_read p (filter (\<lambda>x. Q (pp_path x)) listed) = Inr files"
    with p(2) github_read_entries
    show "mset (map file_entry files) = mset (map path_entry (filter (\<lambda>x. Q (pp_path x)) listed))" by metis
  qed
qed

lemma read_paths_each:
  "read_paths c r ps = Inr fs \<Longrightarrow> f \<in> set fs \<Longrightarrow> \<exists>p\<in>set ps. read_path c r p = Inr f"
  by (induction ps arbitrary: fs) (auto simp: and_then_Inr)

lemma fetch_file_Inr:
  "fetch_file c r path sha = Inr content \<longleftrightarrow>
     (\<exists>f. api_contents c (pr_owner r) (pr_repo r) path sha = Contents_file f
        \<and> bf_size f \<le> max_file_bytes \<and> bf_content f = Inr content)"
  by (auto simp: fetch_file_def not_less split: contents.splits sum.splits if_splits)

subsection \<open>Properties\<close>


text \<open>Both sides of what is read: a file that is not added has the content its previous path has at the
  base commit, one that is not removed the content its path has at the head, and neither is larger than
  2 MiB by what the API reports.\<close>

theorem github_reads_both_sides:
  assumes "github_read (Some c) cancelled ref paths = Inr files" and "f \<in> set files"
  shows "\<exists>r p. parse_ref ref = Inr r \<and> p \<in> set paths \<and> file_entry f = path_entry p
    \<and> (p_status f \<noteq> StatusAdded \<longrightarrow>
        (\<exists>b. api_contents c (pr_owner r) (pr_repo r)
            (if p_previous_path f \<noteq> [] then p_previous_path f else p_path f) (pr_base r) = Contents_file b
          \<and> bf_content b = Inr (p_previous f) \<and> bf_size b \<le> max_file_bytes))
    \<and> (p_status f \<noteq> StatusRemoved \<longrightarrow>
        (\<exists>b. api_contents c (pr_owner r) (pr_repo r) (p_path f) (pr_head r) = Contents_file b
          \<and> bf_content b = Inr (p_current f) \<and> bf_size b \<le> max_file_bytes))"
proof -
  from assms obtain r fs where r: "parse_ref ref = Inr r" and fs: "read_paths c r paths = Inr fs"
    and f: "f \<in> set fs"
    by (auto simp: github_read_def and_then_Inr split: option.splits if_splits)
  from read_paths_each [OF fs f] obtain p where p: "p \<in> set paths" "read_path c r p = Inr f" by blast
  from p(2) r p(1) show ?thesis
    by (intro exI [of _ r] exI [of _ p])
      (auto simp: read_path_def and_then_Inr fetch_file_Inr file_entry_def path_entry_def split: if_splits)
qed

subsection \<open>A sample repository\<close>

text \<open>A pull request that adds \<open>k/b.yaml\<close> beside \<open>k/a.yaml\<close>, which the base branch has edited since
  the pull request branched off: the comparison, which is made from where it branched off, names only the
  first.\<close>

definition api_text :: "string \<Rightarrow> contents" where
  "api_text t = Contents_file \<lparr>bf_size = int (length t), bf_content = Inr t\<rparr>"

definition sample_api :: api_client where
  "sample_api = \<lparr>
     api_compare = (\<lambda>owner repo base head page.
       Inr ([\<lparr>cf_filename = ''k/b.yaml'', cf_previous = [], cf_status = ''added''\<rparr>], 0)),
     api_contents = (\<lambda>owner repo path sha.
       if path = ''k'' then Contents_dir [\<lparr>de_type = ''file'', de_path = ''k/a.yaml''\<rparr>]
       else if path = ''k/a.yaml'' then api_text (if sha = ''base'' then ''replicas: 3'' else ''replicas: 2'')
       else api_text ''kind: ConfigMap'')\<rparr>"

definition sample_ref :: string where "sample_ref = make_ref ''acme'' ''widgets'' ''base'' ''head''"

lemma sample_parse:
  "parse_ref sample_ref
     = Inr \<lparr>pr_owner = ''acme'', pr_repo = ''widgets'', pr_base = ''base'', pr_head = ''head''\<rparr>"
  by code_simp

lemma sample_pages:
  "compare_pages sample_api r 0 [] = Some (Inr [\<lparr>cf_filename = ''k/b.yaml'', cf_previous = [], cf_status = ''added''\<rparr>])"
  by (subst compare_pages.simps) (simp add: sample_api_def max_changed_files_def)

lemma sample_github_list:
  "github_list (Some sample_api) None sample_ref
     = Some (Inr [listed_path ''k/a.yaml'' StatusModified, listed_path ''k/b.yaml'' StatusAdded])"
proof -
  have "and_then (github_context sample_api
        \<lparr>pr_owner = ''acme'', pr_repo = ''widgets'', pr_base = ''base'', pr_head = ''head''\<rparr>
        [commit_path \<lparr>cf_filename = ''k/b.yaml'', cf_previous = [], cf_status = ''added''\<rparr>])
      (\<lambda>siblings. Inr (sort_paths (commit_path \<lparr>cf_filename = ''k/b.yaml'', cf_previous = [], cf_status = ''added''\<rparr> # siblings)))
    = (Inr [listed_path ''k/a.yaml'' StatusModified, listed_path ''k/b.yaml'' StatusAdded] :: string + provider_path list)"
    by code_simp
  then show ?thesis by (simp add: github_list_def sample_parse sample_pages Let_def)
qed

lemma sample_github_read:
  "github_read (Some sample_api) None sample_ref
     [listed_path ''k/a.yaml'' StatusModified, listed_path ''k/b.yaml'' StatusAdded]
     = Inr [git_file ''k/a.yaml'' StatusModified ''replicas: 3'' ''replicas: 2'',
         git_file ''k/b.yaml'' StatusAdded [] ''kind: ConfigMap'']"
  by code_simp


theorem github_reads_both_sides_witness:
  "\<exists>b. api_contents sample_api ''acme'' ''widgets'' ''k/b.yaml'' ''head'' = Contents_file b
     \<and> bf_content b = Inr ''kind: ConfigMap''"
  using github_reads_both_sides [OF sample_github_read, of "git_file ''k/b.yaml'' StatusAdded [] ''kind: ConfigMap''"]
    sample_parse
  by (simp add: git_file_def) auto

text \<open>The previous side is read at the tip of the base branch and not where the pull request branched off,
  from which the comparison is made. A neighbour that nobody touched in the pull request, and that the base
  branch has edited, is read with two sides that differ: the edit of the base branch, undone.\<close>

theorem neighbour_differs_when_base_moves:
  "\<exists>f. github_read (Some sample_api) None sample_ref [listed_path ''k/a.yaml'' StatusModified] = Inr [f]
     \<and> p_previous f = ''replicas: 3'' \<and> p_current f = ''replicas: 2''
     \<and> (\<exists>files. api_compare sample_api ''acme'' ''widgets'' ''base'' ''head'' 0 = Inr (files, 0)
          \<and> ''k/a.yaml'' \<notin> set (map cf_filename files))"
proof -
  have "github_read (Some sample_api) None sample_ref [listed_path ''k/a.yaml'' StatusModified]
      = Inr [git_file ''k/a.yaml'' StatusModified ''replicas: 3'' ''replicas: 2'']"
    by code_simp
  then show ?thesis by (simp add: git_file_def sample_api_def)
qed

end
