(* ===== verification/Github_Webhook.thy ===== *)
theory Github_Webhook
  imports Provider_Git
begin

text \<open>
  The webhook of the GitHub app: authentication of a delivery, \<open>internal/delivery/github/signature.go\<close>,
  the handler \<open>webhook.go\<close>, and the life of the server around it, \<open>Run\<close> of \<open>server.go\<close>. SHA-256 is the
  parameter \<open>sha\<close>, from which the keyed hash is built; how \<open>json.Unmarshal\<close> fills an event is the
  parameter \<open>decode\<close>. A handler's answer is its response and the job it dispatches, if any; logging is
  left out. The server is a step relation: deliveries, jobs that end, the signal to stop and the exit.
\<close>

subsection \<open>Signatures\<close>

definition xor_byte :: "nat \<Rightarrow> char \<Rightarrow> char" where
  "xor_byte n c = char_of (xor n (of_char c))"

definition hmac :: "(string \<Rightarrow> string) \<Rightarrow> string \<Rightarrow> string \<Rightarrow> string" where
  "hmac sha secret body =
     (let k = (if 64 < length secret then sha secret else secret);
          block = k @ replicate (64 - length k) (CHR 0x00)
      in sha (map (xor_byte 0x5C) block @ sha (map (xor_byte 0x36) block @ body)))"

definition signature_header :: string where "signature_header = ''X-Hub-Signature-256''"

definition signature_prefix :: string where "signature_prefix = ''sha256=''"

definition max_payload_bytes :: nat where "max_payload_bytes = 26214400"

definition hex_value :: "char \<Rightarrow> nat option" where
  "hex_value c =
     (let n = of_char c :: nat in
      if 48 \<le> n \<and> n \<le> 57 then Some (n - 48)
      else if 97 \<le> n \<and> n \<le> 102 then Some (n - 87)
      else if 65 \<le> n \<and> n \<le> 70 then Some (n - 55)
      else None)"

fun hex_decode :: "string \<Rightarrow> string option" where
  "hex_decode [] = Some []"
| "hex_decode [x] = None"
| "hex_decode (x # y # s) =
     (case (hex_value x, hex_value y) of
        (Some a, Some b) \<Rightarrow> map_option (\<lambda>t. char_of (16 * a + b) # t) (hex_decode s)
      | _ \<Rightarrow> None)"

definition valid_signature :: "(string \<Rightarrow> string) \<Rightarrow> string \<Rightarrow> string \<Rightarrow> string \<Rightarrow> bool" where
  "valid_signature sha body signature secret \<longleftrightarrow>
     has_prefix (to_lower signature) signature_prefix
     \<and> hex_decode (drop (length signature_prefix) signature) = Some (hmac sha secret body)"

definition sign :: "(string \<Rightarrow> string) \<Rightarrow> string \<Rightarrow> string \<Rightarrow> string" where
  "sign sha body secret = signature_prefix @ hex_encode (hmac sha secret body)"

text \<open>A request; reading its body may fail.\<close>

record request =
  rq_method :: string
  rq_header :: "string \<Rightarrow> string"
  rq_body :: "string + string"

datatype verify_error = No_secret | Missing_signature | Malformed_body string | Invalid_signature

definition read_body :: "request \<Rightarrow> string + string" where
  "read_body rq =
     (case rq_body rq of
        Inl e \<Rightarrow> Inl e
      | Inr body \<Rightarrow> if max_payload_bytes < length body then Inl ''http: request body too large'' else Inr body)"

definition verify_payload :: "(string \<Rightarrow> string) \<Rightarrow> request \<Rightarrow> string \<Rightarrow> verify_error + string" where
  "verify_payload sha rq secret =
     (if secret = [] then Inl No_secret
      else
        (let signature = rq_header rq signature_header in
         if signature = [] then Inl Missing_signature
         else case read_body rq of
           Inl e \<Rightarrow> Inl (Malformed_body e)
         | Inr body \<Rightarrow>
             if \<not> valid_signature sha body signature secret then Inl Invalid_signature else Inr body))"

subsection \<open>Deliveries\<close>

definition event_header :: string where "event_header = ''X-GitHub-Event''"

definition delivery_header :: string where "delivery_header = ''X-GitHub-Delivery''"

definition analyzed_actions :: "string list" where
  "analyzed_actions = [''opened'', ''reopened'', ''synchronize'', ''ready_for_review'']"

record pull_request_event =
  pe_action :: string
  pe_number :: int
  pe_pr_number :: int
  pe_base :: string
  pe_head :: string
  pe_repo :: string
  pe_owner :: string
  pe_installation :: int

record pr_target =
  tg_owner :: string
  tg_repo :: string
  tg_number :: int

definition target_text :: "pr_target \<Rightarrow> string" where
  "target_text t = tg_owner t @ ''/'' @ tg_repo t @ ''#'' @ itoa (tg_number t)"

record job =
  jb_target :: pr_target
  jb_base :: string
  jb_head :: string
  jb_installation :: int
  jb_delivery :: string

definition job_of :: "pull_request_event \<Rightarrow> string \<Rightarrow> string + job" where
  "job_of e delivery =
     (let number = (if pe_pr_number e = 0 then pe_number e else pe_pr_number e) in
      if pe_owner e = [] \<or> pe_repo e = [] then Inl ''payload names no repository''
      else if number = 0 then Inl ''payload names no pull request number''
      else if pe_base e = [] then Inl ''payload carries no base commit''
      else if pe_head e = [] then Inl ''payload carries no head commit''
      else Inr \<lparr>jb_target = \<lparr>tg_owner = pe_owner e, tg_repo = pe_repo e, tg_number = number\<rparr>,
          jb_base = pe_base e, jb_head = pe_head e, jb_installation = pe_installation e,
          jb_delivery = delivery\<rparr>)"

record response =
  rs_status :: int
  rs_body :: string

text \<open>\<open>respond\<close> and \<open>http.Error\<close> write the message with a newline.\<close>

definition respond :: "int \<Rightarrow> string \<Rightarrow> response" where
  "respond status message = \<lparr>rs_status = status, rs_body = message @ newline\<rparr>"

definition reject_unauthenticated :: "verify_error \<Rightarrow> response" where
  "reject_unauthenticated err =
     respond (if err = Invalid_signature \<or> err = No_secret then 403 else 401) ''signature verification failed''"

definition handle_pull_request ::
  "(string \<Rightarrow> string + pull_request_event) \<Rightarrow> string \<Rightarrow> string \<Rightarrow> response \<times> job option" where
  "handle_pull_request decode body delivery =
     (case decode body of
        Inl e \<Rightarrow> (respond 400 ''malformed pull_request payload'', None)
      | Inr event \<Rightarrow>
          if pe_action event \<notin> set analyzed_actions then
            (respond 200 (''action '' @ go_quote (pe_action event) @ '' ignored''), None)
          else case job_of event delivery of
            Inl e \<Rightarrow> (respond 400 e, None)
          | Inr j \<Rightarrow> (respond 202 ''accepted'', Some j))"

definition serve_http ::
  "(string \<Rightarrow> string) \<Rightarrow> (string \<Rightarrow> string + pull_request_event) \<Rightarrow> string \<Rightarrow> request \<Rightarrow> response \<times> job option" where
  "serve_http sha decode secret rq =
     (if rq_method rq \<noteq> ''POST'' then (respond 405 ''only POST is accepted'', None)
      else case verify_payload sha rq secret of
        Inl err \<Rightarrow> (reject_unauthenticated err, None)
      | Inr body \<Rightarrow>
          (let event = rq_header rq event_header in
           if event = ''ping'' then (respond 200 ''pong'', None)
           else if event = ''pull_request'' then
             handle_pull_request decode body (rq_header rq delivery_header)
           else (respond 200 (''event '' @ go_quote event @ '' ignored''), None)))"

definition event_names :: string where
  "event_names = ''pull_request: '' @ join '', '' (sort analyzed_actions)"

subsection \<open>The life of the server\<close>

record server =
  sv_accepting :: bool
  sv_exited :: bool
  sv_deliveries :: "request list"
  sv_running :: "job list"
  sv_processed :: "job list"
  sv_lost :: "job list"

definition started :: server where
  "started = \<lparr>sv_accepting = True, sv_exited = False, sv_deliveries = [], sv_running = [], sv_processed = [],
     sv_lost = []\<rparr>"

text \<open>A delivery is answered and its job runs on by itself; \<open>Shutdown\<close> waits for the handlers, which have
  all answered, and not for the jobs, so that the process may end while some still run.\<close>

inductive server_step ::
  "(string \<Rightarrow> string) \<Rightarrow> (string \<Rightarrow> string + pull_request_event) \<Rightarrow> string \<Rightarrow> server \<Rightarrow> server \<Rightarrow> bool"
  for sha decode secret where
  deliver: "sv_accepting s \<Longrightarrow> serve_http sha decode secret rq = (resp, dispatched) \<Longrightarrow>
    server_step sha decode secret s
      (s\<lparr>sv_deliveries := rq # sv_deliveries s,
         sv_running := (case dispatched of None \<Rightarrow> sv_running s | Some j \<Rightarrow> j # sv_running s)\<rparr>)"
| finish: "\<not> sv_exited s \<Longrightarrow> j \<in> set (sv_running s) \<Longrightarrow>
    server_step sha decode secret s
      (s\<lparr>sv_running := remove1 j (sv_running s), sv_processed := j # sv_processed s\<rparr>)"
| stop: "sv_accepting s \<Longrightarrow> server_step sha decode secret s (s\<lparr>sv_accepting := False\<rparr>)"
| leave: "\<not> sv_accepting s \<Longrightarrow> \<not> sv_exited s \<Longrightarrow>
    server_step sha decode secret s
      (s\<lparr>sv_exited := True, sv_running := [], sv_lost := sv_running s\<rparr>)"

inductive reachable ::
  "(string \<Rightarrow> string) \<Rightarrow> (string \<Rightarrow> string + pull_request_event) \<Rightarrow> string \<Rightarrow> server \<Rightarrow> bool"
  for sha decode secret where
  initial: "reachable sha decode secret started"
| further: "reachable sha decode secret s \<Longrightarrow> server_step sha decode secret s s' \<Longrightarrow>
    reachable sha decode secret s'"

subsection \<open>Lemmas\<close>

lemma of_lower_char:
  "(of_char (lower_char c) :: nat) =
     (if 65 \<le> (of_char c :: nat) \<and> (of_char c :: nat) \<le> 90 then of_char c + 32 else of_char c)"
  by (simp add: lower_char_def of_char_of)

lemma of_hex_digit: "a < 16 \<Longrightarrow> (of_char (hex_digit a) :: nat) = (if a < 10 then 48 + a else 87 + a)"
  by (simp add: hex_digit_def of_char_of)

lemma hex_value_Some: "hex_value c = Some a \<longleftrightarrow> a < 16 \<and> lower_char c = hex_digit a"
proof -
  have "lower_char c = hex_digit a \<longleftrightarrow> (of_char (lower_char c) :: nat) = of_char (hex_digit a)"
    by (simp only: of_char_eq_iff)
  then have "a < 16 \<Longrightarrow> lower_char c = hex_digit a \<longleftrightarrow>
      (if 65 \<le> (of_char c :: nat) \<and> (of_char c :: nat) \<le> 90 then of_char c + 32 else of_char c)
      = (if a < 10 then 48 + a else 87 + a)"
    by (simp only: of_lower_char of_hex_digit)
  then show ?thesis
    by (cases "a < 16") (auto simp: hex_value_def Let_def split: if_splits)
qed

lemma hex_decode_Some: "hex_decode s = Some t \<longleftrightarrow> to_lower s = hex_encode t"
proof (induction s arbitrary: t rule: induct_list012)
  case 1
  show ?case by (cases t) (auto simp: to_lower_def hex_encode_def)
next
  case (2 x)
  show ?case by (cases t) (auto simp: to_lower_def hex_encode_def)
next
  case (3 x y s)
  have div: "(of_char c :: nat) div 16 < 16" for c
    using nat_of_char_less_256 [of c] by (simp add: less_mult_imp_div_less)
  have pair: "char_of (16 * a + b) = c \<longleftrightarrow> a = of_char c div 16 \<and> b = of_char c mod 16"
    if "a < 16" "b < 16" for a b :: nat and c
  proof
    assume "char_of (16 * a + b) = c"
    moreover have "16 * a + b < 256" using that by simp
    ultimately have "of_char c = 16 * a + b" by (metis of_char_of mod_less)
    with that show "a = of_char c div 16 \<and> b = of_char c mod 16" by simp
  next
    assume "a = of_char c div 16 \<and> b = of_char c mod 16"
    then have "16 * a + b = of_char c" by simp
    then show "char_of (16 * a + b) = c" by simp
  qed
  have "hex_decode (x # y # s) = Some t \<longleftrightarrow>
      (\<exists>c cs. t = c # cs \<and> hex_value x = Some (of_char c div 16) \<and> hex_value y = Some (of_char c mod 16)
        \<and> hex_decode s = Some cs)"
  proof
    assume "hex_decode (x # y # s) = Some t"
    then obtain a b cs where h: "hex_value x = Some a" "hex_value y = Some b" and s: "hex_decode s = Some cs"
      and t: "t = char_of (16 * a + b) # cs"
      by (auto split: option.splits)
    from h have "a < 16" "b < 16" by (simp_all add: hex_value_Some)
    with pair [of a b "char_of (16 * a + b)"] h s t show "\<exists>c cs. t = c # cs
        \<and> hex_value x = Some (of_char c div 16) \<and> hex_value y = Some (of_char c mod 16)
        \<and> hex_decode s = Some cs"
      by (intro exI [of _ "char_of (16 * a + b)"] exI [of _ cs]) simp
  next
    assume "\<exists>c cs. t = c # cs \<and> hex_value x = Some (of_char c div 16) \<and> hex_value y = Some (of_char c mod 16)
        \<and> hex_decode s = Some cs"
    then show "hex_decode (x # y # s) = Some t" by auto
  qed
  also have "\<dots> \<longleftrightarrow> to_lower (x # y # s) = hex_encode t"
    using div by (cases t) (auto simp: hex_value_Some "3.IH"(1) to_lower_def hex_encode_def)
  finally show ?case .
qed

lemma prefix_split: "has_prefix s p \<longleftrightarrow> s = p @ drop (length p) s"
  by (auto simp: has_prefix_def) (metis append_take_drop_id, metis append_eq_conv_conj)

lemma valid_signature_iff: "valid_signature sha body signature secret \<longleftrightarrow> to_lower signature = sign sha body secret"
proof -
  have l: "drop n (to_lower s) = to_lower (drop n s)" for n s
    by (simp add: to_lower_def drop_map)
  show ?thesis
    unfolding valid_signature_def hex_decode_Some sign_def prefix_split [of "to_lower signature"] l
    by (metis append_eq_conv_conj l)
qed

lemma to_lower_hex: "to_lower (hex_encode t) = hex_encode t"
proof -
  have lower: "lower_char (hex_digit a) = hex_digit a" if "a < 16" for a
    using that unfolding of_char_eq_iff [where 'a = nat, symmetric] of_lower_char of_hex_digit [OF that]
    by simp
  have "(of_char c :: nat) div 16 < 16" for c
    using nat_of_char_less_256 [of c] by (simp add: less_mult_imp_div_less)
  with lower show ?thesis by (simp add: to_lower_def hex_encode_def map_concat comp_def)
qed

lemma to_lower_sign [simp]: "to_lower (sign sha body secret) = sign sha body secret"
proof -
  have "to_lower (p @ q) = to_lower p @ to_lower q" for p q by (simp add: to_lower_def)
  moreover have "to_lower signature_prefix = signature_prefix" by code_simp
  ultimately show ?thesis by (simp only: sign_def to_lower_hex)
qed

text \<open>What an authentic delivery is.\<close>

definition authentic :: "(string \<Rightarrow> string) \<Rightarrow> string \<Rightarrow> request \<Rightarrow> string \<Rightarrow> bool" where
  "authentic sha secret rq body \<longleftrightarrow>
     secret \<noteq> [] \<and> rq_body rq = Inr body \<and> length body \<le> max_payload_bytes
     \<and> to_lower (rq_header rq signature_header) = sign sha body secret"

lemma verify_payload_Inr: "verify_payload sha rq secret = Inr body \<longleftrightarrow> authentic sha secret rq body"
proof -
  have "sign sha b secret \<noteq> to_lower []" for b by (simp add: sign_def signature_prefix_def to_lower_def)
  then show ?thesis
    by (auto simp: verify_payload_def authentic_def read_body_def valid_signature_iff Let_def not_less
        split: sum.splits if_splits) metis+
qed

lemma dispatched_iff:
  "snd (serve_http sha decode secret rq) = Some j \<longleftrightarrow>
     rq_method rq = ''POST'' \<and> rq_header rq event_header = ''pull_request''
     \<and> (\<exists>body event. authentic sha secret rq body \<and> decode body = Inr event
          \<and> pe_action event \<in> set analyzed_actions \<and> job_of event (rq_header rq delivery_header) = Inr j)"
  unfolding verify_payload_Inr [symmetric]
  by (auto simp: serve_http_def handle_pull_request_def Let_def split: sum.splits)

lemma running_jobs_authentic:
  "reachable sha decode secret s \<Longrightarrow> j \<in> set (sv_running s) \<union> set (sv_processed s) \<union> set (sv_lost s) \<Longrightarrow>
     \<exists>rq\<in>set (sv_deliveries s). snd (serve_http sha decode secret rq) = Some j"
proof (induction rule: reachable.induct)
  case initial
  then show ?case by (simp add: started_def)
next
  case (further s s')
  from further.hyps(2) show ?case
  proof (cases rule: server_step.cases)
    case (deliver rq resp dispatched)
    with further.IH further.prems show ?thesis by (auto split: option.splits)
  next
    case (finish j')
    with further.IH further.prems show ?thesis using set_remove1_subset [of j' "sv_running s"] by auto
  qed (use further.IH further.prems in auto)
qed

subsection \<open>Properties\<close>

text \<open>A signature is accepted exactly when it is, up to the case of its letters, the one \<open>Sign\<close> writes for
  the body and the secret: the prefix, an odd number of digits or a digit that is none make no difference
  that this does not show.\<close>

theorem signature_exact:
  "valid_signature sha body signature secret \<longleftrightarrow> to_lower signature = sign sha body secret"
  by (rule valid_signature_iff)

text \<open>The answer to every delivery: 405 for a method that is not POST, 401 or 403 for a body that is not
  authenticated, 400 for an authentic pull request event that cannot be used, 202 exactly when a job is
  dispatched, and 200 for everything that is ignored.\<close>

theorem statuses_exact:
  "rs_status (fst (serve_http sha decode secret rq)) =
     (if rq_method rq \<noteq> ''POST'' then 405
      else case verify_payload sha rq secret of
        Inl err \<Rightarrow> if err = Invalid_signature \<or> err = No_secret then 403 else 401
      | Inr body \<Rightarrow>
          if rq_header rq event_header \<noteq> ''pull_request'' then 200
          else case decode body of
            Inl e \<Rightarrow> 400
          | Inr event \<Rightarrow>
              if pe_action event \<notin> set analyzed_actions then 200
              else case job_of event (rq_header rq delivery_header) of Inl e \<Rightarrow> 400 | Inr j \<Rightarrow> 202)
   \<and> (rs_status (fst (serve_http sha decode secret rq)) = 202 \<longleftrightarrow> snd (serve_http sha decode secret rq) \<noteq> None)"
proof (cases "verify_payload sha rq secret")
  case (Inl err)
  then show ?thesis by (simp add: serve_http_def reject_unauthenticated_def respond_def)
next
  case (Inr body)
  then show ?thesis
    by (simp add: serve_http_def handle_pull_request_def respond_def Let_def split: sum.split)
qed

text \<open>C27. Authenticity, over the whole life of the server: every job that is running, has been processed or
  was lost stems from a delivery that was received, by POST, whose body carries the signature the holder of
  the secret writes, and it names the repository, both commits and the installation that body names, the number
  of its pull request (of the event where the pull request has none), which is not 0, and the identifier of
  that delivery.\<close>

theorem jobs_stem_from_signed_deliveries:
  assumes "reachable sha decode secret s"
    and "j \<in> set (sv_running s) \<union> set (sv_processed s) \<union> set (sv_lost s)"
  shows "secret \<noteq> [] \<and> (\<exists>rq\<in>set (sv_deliveries s). rq_method rq = ''POST''
    \<and> (\<exists>body event. rq_body rq = Inr body \<and> decode body = Inr event
        \<and> to_lower (rq_header rq signature_header) = sign sha body secret
        \<and> pe_action event \<in> set analyzed_actions \<and> jb_base j = pe_base event \<and> jb_head j = pe_head event
        \<and> tg_owner (jb_target j) = pe_owner event \<and> tg_repo (jb_target j) = pe_repo event
        \<and> tg_number (jb_target j) = (if pe_pr_number event \<noteq> 0 then pe_pr_number event else pe_number event)
        \<and> jb_installation j = pe_installation event \<and> jb_delivery j = rq_header rq delivery_header
        \<and> jb_base j \<noteq> [] \<and> jb_head j \<noteq> [] \<and> tg_number (jb_target j) \<noteq> 0))"
proof -
  from running_jobs_authentic [OF assms] obtain rq where rq: "rq \<in> set (sv_deliveries s)"
    and j: "snd (serve_http sha decode secret rq) = Some j" by blast
  from j obtain body event where a: "authentic sha secret rq body" and d: "decode body = Inr event"
    and e: "pe_action event \<in> set analyzed_actions" "job_of event (rq_header rq delivery_header) = Inr j"
    and m: "rq_method rq = ''POST''"
    unfolding dispatched_iff by blast
  from e(2) have "jb_base j = pe_base event \<and> jb_head j = pe_head event
      \<and> tg_owner (jb_target j) = pe_owner event \<and> tg_repo (jb_target j) = pe_repo event
      \<and> tg_number (jb_target j) = (if pe_pr_number event \<noteq> 0 then pe_pr_number event else pe_number event)
      \<and> jb_installation j = pe_installation event \<and> jb_delivery j = rq_header rq delivery_header
      \<and> jb_base j \<noteq> [] \<and> jb_head j \<noteq> [] \<and> tg_number (jb_target j) \<noteq> 0"
    by (auto simp: job_of_def Let_def split: if_splits)
  with a d e(1) m rq show ?thesis unfolding authentic_def by blast
qed

subsection \<open>A sample delivery\<close>

definition sample_event :: pull_request_event where
  "sample_event = \<lparr>pe_action = ''opened'', pe_number = 7, pe_pr_number = 7, pe_base = ''aaa'', pe_head = ''bbb'',
     pe_repo = ''widgets'', pe_owner = ''acme'', pe_installation = 1\<rparr>"

definition sample_job :: job where
  "sample_job = \<lparr>jb_target = \<lparr>tg_owner = ''acme'', tg_repo = ''widgets'', tg_number = 7\<rparr>, jb_base = ''aaa'',
     jb_head = ''bbb'', jb_installation = 1, jb_delivery = ''d1''\<rparr>"

text \<open>With a hash that is the identity, which is enough for an example.\<close>

definition sample_request :: "string \<Rightarrow> request" where
  "sample_request signature = \<lparr>rq_method = ''POST'',
     rq_header = (\<lambda>h. if h = signature_header then signature else if h = event_header then ''pull_request''
       else if h = delivery_header then ''d1'' else []), rq_body = Inr ''{}''\<rparr>"

lemma sample_served:
  "serve_http (\<lambda>x. x) (\<lambda>b. Inr sample_event) ''key'' (sample_request (sign (\<lambda>x. x) ''{}'' ''key''))
     = (respond 202 ''accepted'', Some sample_job)"
proof -
  have h: "event_header \<noteq> signature_header" "delivery_header \<noteq> signature_header" "delivery_header \<noteq> event_header"
    by code_simp+
  have "verify_payload (\<lambda>x. x) (sample_request (sign (\<lambda>x. x) ''{}'' ''key'')) ''key'' = Inr ''{}''"
    unfolding verify_payload_Inr by (simp add: authentic_def sample_request_def max_payload_bytes_def)
  moreover have "job_of sample_event ''d1'' = Inr sample_job"
    by (simp add: job_of_def sample_event_def sample_job_def)
  ultimately show ?thesis
    using h by (simp add: serve_http_def handle_pull_request_def sample_request_def Let_def)
      (simp add: sample_event_def analyzed_actions_def)
qed

lemma sample_running:
  "reachable (\<lambda>x. x) (\<lambda>b. Inr sample_event) ''key''
     (started\<lparr>sv_deliveries := [sample_request (sign (\<lambda>x. x) ''{}'' ''key'')], sv_running := [sample_job]\<rparr>)"
  using reachable.further [OF reachable.initial server_step.deliver [OF _ sample_served]]
  by (simp add: started_def)

theorem jobs_stem_from_signed_deliveries_witness:
  "\<exists>s. reachable (\<lambda>x. x) (\<lambda>b. Inr sample_event) ''key'' s \<and> sv_running s = [sample_job]
     \<and> (\<exists>rq\<in>set (sv_deliveries s). rq_method rq = ''POST'')"
  using jobs_stem_from_signed_deliveries [OF sample_running, of sample_job] sample_running by auto

text \<open>Stopping loses work: a job of a delivery that was answered with 202 may still be running when the
  process ends, because what \<open>Shutdown\<close> waits for are the handlers.\<close>

theorem shutdown_loses_running_jobs:
  "\<exists>s. reachable (\<lambda>x. x) (\<lambda>b. Inr sample_event) ''key'' s \<and> sv_exited s \<and> sv_lost s = [sample_job]
     \<and> sv_processed s = []"
proof -
  let ?s = "started\<lparr>sv_deliveries := [sample_request (sign (\<lambda>x. x) ''{}'' ''key'')], sv_running := [sample_job]\<rparr>"
  have "reachable (\<lambda>x. x) (\<lambda>b. Inr sample_event) ''key'' (?s\<lparr>sv_accepting := False\<rparr>)"
    by (rule reachable.further [OF sample_running server_step.stop]) (simp add: started_def)
  from reachable.further [OF this server_step.leave] show ?thesis
    by (auto simp: started_def intro!: exI)
qed

text \<open>The answer to a delivery that is not authenticated is not uniform: a missing signature is told from a
  wrong one by the status.\<close>

theorem missing_signature_is_told_from_wrong:
  "rs_status (fst (serve_http sha decode ''key'' (sample_request []))) = 401
   \<and> rs_status (fst (serve_http sha decode ''key'' (sample_request ''sha256=zz''))) = 403"
proof -
  have "hex_decode (drop (length signature_prefix) ''sha256=zz'') = None" by code_simp
  then have "verify_payload sha (sample_request ''sha256=zz'') ''key'' = Inl Invalid_signature"
    by (simp add: verify_payload_def sample_request_def read_body_def max_payload_bytes_def valid_signature_def)
  moreover have "verify_payload sha (sample_request []) ''key'' = Inl Missing_signature"
    by (simp add: verify_payload_def sample_request_def)
  ultimately show ?thesis
    by (simp add: serve_http_def reject_unauthenticated_def respond_def) (simp add: sample_request_def)
qed

end
