(* ===== verification/Github_Comment.thy ===== *)
theory Github_Comment
  imports Github_Webhook
begin

text \<open>
  The one comment the app keeps on a pull request, \<open>internal/delivery/github/comment.go\<close>. The three calls
  of \<open>CommentPoster\<close> are a record of functions, bound to one pull request; a page of a listing comes with
  the number of the page after it, 0 when there is none. Posting is a value, the call that is made; what a
  call does to the comments of the pull request is \<open>apply_call\<close>. The locale \<open>comment_pages\<close> states what the
  loop relies on of a listing, and the pages of a list of comments interpret it.
\<close>

subsection \<open>The calls\<close>

record comment =
  cm_id :: int
  cm_body :: string

record comment_poster =
  ps_list :: "int \<Rightarrow> string + comment list \<times> int"
  ps_create :: "string \<Rightarrow> string option"
  ps_edit :: "int \<Rightarrow> string \<Rightarrow> string option"

datatype comment_call = Create_comment string | Edit_comment int string

fun call_body :: "comment_call \<Rightarrow> string" where
  "call_body (Create_comment body) = body"
| "call_body (Edit_comment i body) = body"

definition comment_marker :: string where
  "comment_marker = ''<!-- reversibility-engine:certificate -->''"

definition marked_body :: "string \<Rightarrow> string" where
  "marked_body body = comment_marker @ newline @ body"

definition own_comment :: "comment \<Rightarrow> bool" where
  "own_comment c \<longleftrightarrow> contains (cm_body c) comment_marker"

partial_function (option) find_own_comment ::
  "(int \<Rightarrow> string + comment list \<times> int) \<Rightarrow> pr_target \<Rightarrow> int \<Rightarrow> (string + comment option) option" where
  "find_own_comment pages target page =
     (case pages page of
        Inl e \<Rightarrow> Some (Inl (''listing comments on '' @ target_text target @ '': '' @ e))
      | Inr (comments, after') \<Rightarrow>
          (case find own_comment comments of
             Some c \<Rightarrow> Some (Inr (Some c))
           | None \<Rightarrow> if after' = 0 then Some (Inr None) else find_own_comment pages target after'))"

text \<open>The call \<open>upsertComment\<close> makes, if any, and the error it returns.\<close>

definition upsert_comment ::
  "comment_poster \<Rightarrow> pr_target \<Rightarrow> string \<Rightarrow> (comment_call option \<times> string option) option" where
  "upsert_comment poster target body =
     map_option (\<lambda>existing.
       case existing of
         Inl e \<Rightarrow> (None, Some e)
       | Inr (Some c) \<Rightarrow>
           (Some (Edit_comment (cm_id c) (marked_body body)),
            map_option (\<lambda>e. ''updating comment '' @ itoa (cm_id c) @ '' on '' @ target_text target @ '': '' @ e)
              (ps_edit poster (cm_id c) (marked_body body)))
       | Inr None \<Rightarrow>
           (Some (Create_comment (marked_body body)),
            map_option (\<lambda>e. ''creating comment on '' @ target_text target @ '': '' @ e)
              (ps_create poster (marked_body body))))
     (find_own_comment (ps_list poster) target 0)"

subsection \<open>What a listing promises\<close>

text \<open>Each page carries the comments from its number on, up to the page after it, and the pages end.\<close>

locale comment_pages =
  fixes pages :: "int \<Rightarrow> string + comment list \<times> int"
    and from_page :: "int \<Rightarrow> comment list"
    and bound :: int
  assumes page_ok: "\<exists>cs after'. pages n = Inr (cs, after')
    \<and> from_page n = cs @ (if after' = 0 then [] else from_page after')
    \<and> (after' = 0 \<or> n < after' \<and> after' \<le> bound)"
begin

lemma own_found: "find_own_comment pages target n = Some (Inr (find own_comment (from_page n)))"
proof (induction "nat (bound - n)" arbitrary: n rule: less_induct)
  case less
  obtain cs after' where p: "pages n = Inr (cs, after')"
    and f: "from_page n = cs @ (if after' = 0 then [] else from_page after')"
    and a: "after' = 0 \<or> n < after' \<and> after' \<le> bound"
    using page_ok [of n] by blast
  have "find own_comment (cs @ ds)
      = (case find own_comment cs of Some c \<Rightarrow> Some c | None \<Rightarrow> find own_comment ds)" for ds
    by (induction cs) auto
  with less [of after'] a f p show ?case
    by (subst find_own_comment.simps) (auto split: option.splits)
qed

end

subsection \<open>The comments of a pull request\<close>

text \<open>A list of comments in pages of 100, which is what the code asks for, and the effect of a call.\<close>

definition from_page :: "comment list \<Rightarrow> int \<Rightarrow> comment list" where
  "from_page thread n = drop (100 * nat (n - 1)) thread"

definition thread_page :: "comment list \<Rightarrow> int \<Rightarrow> string + comment list \<times> int" where
  "thread_page thread n =
     Inr (take 100 (from_page thread n), if length (from_page thread n) \<le> 100 then 0 else max n 1 + 1)"

definition thread_poster :: "comment list \<Rightarrow> comment_poster" where
  "thread_poster thread =
     \<lparr>ps_list = thread_page thread, ps_create = (\<lambda>body. None), ps_edit = (\<lambda>i body. None)\<rparr>"

fun apply_call :: "comment_call \<Rightarrow> int \<Rightarrow> comment list \<Rightarrow> comment list" where
  "apply_call (Create_comment body) new_id thread = thread @ [\<lparr>cm_id = new_id, cm_body = body\<rparr>]"
| "apply_call (Edit_comment i body) new_id thread =
     map (\<lambda>c. if cm_id c = i then c\<lparr>cm_body := body\<rparr> else c) thread"

interpretation listing: comment_pages "thread_page thread" "from_page thread" "int (length thread) + 2"
  for thread
proof
  fix n
  have "from_page thread n = take 100 (from_page thread n) @ from_page thread (max n 1 + 1)"
  proof -
    have "from_page thread (max n 1 + 1) = drop 100 (from_page thread n)"
      by (cases "1 \<le> n") (simp_all add: from_page_def max_def nat_diff_distrib algebra_simps)
    then show ?thesis by simp
  qed
  moreover have "100 < length (from_page thread n) \<Longrightarrow> max n 1 + 1 \<le> int (length thread) + 2"
    by (simp add: from_page_def)
  ultimately show "\<exists>cs after'. thread_page thread n = Inr (cs, after')
      \<and> from_page thread n = cs @ (if after' = 0 then [] else from_page thread after')
      \<and> (after' = 0 \<or> n < after' \<and> after' \<le> int (length thread) + 2)"
    by (auto simp: thread_page_def)
qed

text \<open>The life of a pull request: people comment, and the app certifies, one call after another. The last
  certificate is kept beside the comments.\<close>

inductive conversation :: "comment list \<Rightarrow> string option \<Rightarrow> bool" where
  opened: "conversation [] None"
| said: "conversation thread latest \<Longrightarrow> i \<notin> cm_id ` set thread \<Longrightarrow> \<not> contains remark comment_marker \<Longrightarrow>
    conversation (thread @ [\<lparr>cm_id = i, cm_body = remark\<rparr>]) latest"
| certified: "conversation thread latest \<Longrightarrow> i \<notin> cm_id ` set thread \<Longrightarrow>
    upsert_comment (thread_poster thread) target body = Some (Some call, None) \<Longrightarrow>
    conversation (apply_call call i thread) (Some body)"

subsection \<open>Lemmas\<close>

lemma contains_prefix: "contains (p @ s) p"
  using has_prefix_append [of p s] by (cases "p @ s") auto

lemma own_marked_body [simp]: "contains (marked_body body) comment_marker"
  unfolding marked_body_def by (rule contains_prefix)

lemma upsert_on_thread:
  "upsert_comment (thread_poster thread) target body =
     Some (Some (case find own_comment thread of
       Some c \<Rightarrow> Edit_comment (cm_id c) (marked_body body)
     | None \<Rightarrow> Create_comment (marked_body body)), None)"
proof -
  have "find_own_comment (thread_page thread) target 0 = Some (Inr (find own_comment thread))"
    using listing.own_found [of thread target 0] by (simp add: from_page_def)
  then show ?thesis
    by (simp add: upsert_comment_def thread_poster_def split: option.splits)
qed

lemma find_split: "find P xs = Some x \<Longrightarrow> \<exists>ys zs. xs = ys @ x # zs \<and> (\<forall>y\<in>set ys. \<not> P y) \<and> P x"
proof (induction xs)
  case (Cons a xs)
  show ?case
  proof (cases "P a")
    case True
    with Cons.prems show ?thesis by (intro exI [of _ "[]"] exI [of _ xs]) auto
  next
    case False
    with Cons obtain ys zs where "xs = ys @ x # zs" "\<forall>y\<in>set ys. \<not> P y" "P x" by auto
    with False show ?thesis by (intro exI [of _ "a # ys"] exI [of _ zs]) auto
  qed
qed simp

lemma edit_found:
  assumes "find own_comment thread = Some c" and "distinct (map cm_id thread)"
  obtains ys zs where "thread = ys @ c # zs" and "filter own_comment ys = []" and "own_comment c"
    and "\<And>body. apply_call (Edit_comment (cm_id c) body) i thread = ys @ c\<lparr>cm_body := body\<rparr> # zs"
proof -
  obtain ys zs where t: "thread = ys @ c # zs" and ys: "\<forall>y\<in>set ys. \<not> own_comment y" and c: "own_comment c"
    using find_split [OF assms(1)] by blast
  have other: "d \<in> set ys \<union> set zs \<Longrightarrow> cm_id d \<noteq> cm_id c" for d
    using assms(2) unfolding t by (auto simp: image_iff)
  have "apply_call (Edit_comment (cm_id c) body) i thread = ys @ c\<lparr>cm_body := body\<rparr> # zs" for body
    using other unfolding t by (auto intro!: map_idI)
  moreover have "filter own_comment ys = []" using ys by (simp add: filter_empty_conv)
  ultimately show thesis using t c that by blast
qed

definition one_certificate :: "comment list \<Rightarrow> string option \<Rightarrow> bool" where
  "one_certificate thread latest \<longleftrightarrow>
     distinct (map cm_id thread)
     \<and> map cm_body (filter own_comment thread) = (case latest of None \<Rightarrow> [] | Some body \<Rightarrow> [marked_body body])"

lemma one_certificate_step:
  assumes "one_certificate thread latest" and "i \<notin> cm_id ` set thread"
    and "upsert_comment (thread_poster thread) target body = Some (Some call, None)"
  shows "one_certificate (apply_call call i thread) (Some body)"
    and "filter (\<lambda>c. \<not> own_comment c) (apply_call call i thread) = filter (\<lambda>c. \<not> own_comment c) thread"
proof -
  have own: "own_comment (c\<lparr>cm_body := marked_body body\<rparr>)" for c by (simp add: own_comment_def)
  have ids: "distinct (map cm_id thread)" using assms(1) by (simp add: one_certificate_def)
  have "one_certificate (apply_call call i thread) (Some body)
    \<and> filter (\<lambda>c. \<not> own_comment c) (apply_call call i thread) = filter (\<lambda>c. \<not> own_comment c) thread"
  proof (cases "find own_comment thread")
    case None
    with assms(3) have "call = Create_comment (marked_body body)" by (simp add: upsert_on_thread)
    moreover from None have "filter own_comment thread = []" by (simp add: find_None_iff filter_empty_conv)
    ultimately show ?thesis
      using ids assms(2) by (simp add: one_certificate_def own_comment_def)
  next
    case (Some c)
    then obtain ys zs where t: "thread = ys @ c # zs" and ys: "filter own_comment ys = []" and c: "own_comment c"
      and a: "\<And>b. apply_call (Edit_comment (cm_id c) b) i thread = ys @ c\<lparr>cm_body := b\<rparr> # zs"
      using edit_found ids by metis
    from Some assms(3) have call: "call = Edit_comment (cm_id c) (marked_body body)" by (simp add: upsert_on_thread)
    from assms(1) t ys c have "filter own_comment zs = []"
      by (auto simp: one_certificate_def split: option.splits)
    then show ?thesis
      using ids ys own c unfolding call a one_certificate_def by (simp add: t)
  qed
  then show "one_certificate (apply_call call i thread) (Some body)"
    and "filter (\<lambda>c. \<not> own_comment c) (apply_call call i thread) = filter (\<lambda>c. \<not> own_comment c) thread"
    by simp_all
qed

lemma conversation_one_certificate: "conversation thread latest \<Longrightarrow> one_certificate thread latest"
proof (induction rule: conversation.induct)
  case opened
  show ?case by (simp add: one_certificate_def)
next
  case (said thread latest i remark)
  then show ?case by (auto simp: one_certificate_def own_comment_def)
next
  case (certified thread latest i target body call)
  then show ?case by (intro one_certificate_step(1))
qed

subsection \<open>Properties\<close>

text \<open>C26. However often the app certifies a pull request, and however many people comment in between, the
  pull request carries one comment of the app, which holds the latest certificate, and none before the
  first; what people wrote stays as it was. This is said of a \<open>conversation\<close>, in which no remark holds the
  marker of the app, nobody edits or deletes a comment of the app, comments have numbers of their own, the
  jobs of the app run one after another, and their calls succeed. Without the first condition a remark is
  overwritten and without the fourth a second certificate stays, as theorems below show.\<close>

theorem one_certificate_per_pull_request:
  assumes "conversation thread latest"
  shows "map cm_body (filter own_comment thread) = (case latest of None \<Rightarrow> [] | Some body \<Rightarrow> [marked_body body])
    \<and> (\<exists>call. upsert_comment (thread_poster thread) target body = Some (Some call, None)
        \<and> call_body call = marked_body body
        \<and> (\<forall>i. i \<notin> cm_id ` set thread \<longrightarrow>
             filter (\<lambda>c. \<not> own_comment c) (apply_call call i thread) = filter (\<lambda>c. \<not> own_comment c) thread
             \<and> map cm_body (filter own_comment (apply_call call i thread)) = [marked_body body]))"
proof -
  have one: "one_certificate thread latest" using assms by (rule conversation_one_certificate)
  obtain call where call: "upsert_comment (thread_poster thread) target body = Some (Some call, None)"
    and b: "call_body call = marked_body body"
    by (auto simp: upsert_on_thread split: option.splits)
  from one_certificate_step [OF one _ call] have "filter (\<lambda>c. \<not> own_comment c) (apply_call call i thread)
        = filter (\<lambda>c. \<not> own_comment c) thread
      \<and> map cm_body (filter own_comment (apply_call call i thread)) = [marked_body body]"
    if "i \<notin> cm_id ` set thread" for i
    using that by (auto simp: one_certificate_def)
  with one call b show ?thesis by (auto simp: one_certificate_def)
qed

lemma sample_conversation:
  "conversation [\<lparr>cm_id = 1, cm_body = ''why?''\<rparr>, \<lparr>cm_id = 2, cm_body = marked_body ''B''\<rparr>] (Some ''B'')"
proof -
  have 1: "conversation [\<lparr>cm_id = 1, cm_body = ''why?''\<rparr>] None"
    using said [OF opened, of 1 "''why?''"] by (simp add: comment_marker_def has_prefix_def)
  have "upsert_comment (thread_poster [\<lparr>cm_id = 1, cm_body = ''why?''\<rparr>]) target ''B''
      = Some (Some (Create_comment (marked_body ''B'')), None)" for target
    by (simp add: upsert_on_thread own_comment_def comment_marker_def has_prefix_def)
  from certified [OF 1 _ this, of 2] show ?thesis by simp
qed

theorem one_certificate_per_pull_request_witness:
  "map cm_body (filter own_comment [\<lparr>cm_id = 1, cm_body = ''why?''\<rparr>, \<lparr>cm_id = 2, cm_body = marked_body ''B''\<rparr>])
     = [marked_body ''B'']"
  using one_certificate_per_pull_request [OF sample_conversation] by simp

text \<open>Two deliveries for one pull request run at the same time. Both list the comments before either has
  posted, both create a comment, and from then on the second one is never updated.\<close>

theorem concurrent_jobs_post_twice:
  assumes "i \<noteq> j"
  shows "\<exists>call call'. upsert_comment (thread_poster []) target old = Some (Some call, None)
    \<and> upsert_comment (thread_poster []) target new = Some (Some call', None)
    \<and> map cm_body (apply_call call' j (apply_call call i [])) = [marked_body old, marked_body new]
    \<and> (\<exists>later. upsert_comment (thread_poster (apply_call call' j (apply_call call i []))) target newest
            = Some (Some later, None)
        \<and> map cm_body (apply_call later k (apply_call call' j (apply_call call i [])))
            = [marked_body newest, marked_body new])"
  using assms by (simp add: upsert_on_thread own_comment_def)

theorem concurrent_jobs_post_twice_witness:
  "\<exists>call. upsert_comment (thread_poster []) (jb_target sample_job) ''old'' = Some (Some call, None)"
proof -
  from concurrent_jobs_post_twice [of 1 2 "jb_target sample_job" "''old''" "''new''" "''newest''" 3]
  show ?thesis by auto
qed

text \<open>A comment counts as the app's own when the marker stands anywhere in it, whoever wrote it: a
  reviewer's answer that quotes the certificate is overwritten.\<close>

theorem quoted_marker_is_overwritten:
  assumes "contains text comment_marker"
  shows "\<exists>call. upsert_comment (thread_poster [\<lparr>cm_id = i, cm_body = text\<rparr>]) target body = Some (Some call, None)
    \<and> apply_call call j [\<lparr>cm_id = i, cm_body = text\<rparr>] = [\<lparr>cm_id = i, cm_body = marked_body body\<rparr>]"
  using assms by (simp add: upsert_on_thread own_comment_def)

theorem quoted_marker_is_overwritten_witness:
  "\<exists>call. apply_call call 9 [\<lparr>cm_id = 7, cm_body = marked_body ''> quoted''\<rparr>]
     = [\<lparr>cm_id = 7, cm_body = marked_body ''B''\<rparr>]"
  using quoted_marker_is_overwritten [of "marked_body ''> quoted''" 7 "jb_target sample_job" "''B''" 9] by auto

end
