(* ===== verification/Github_App.thy ===== *)
theory Github_App
  imports Provider_Github Github_Comment Render_Markdown Postgres_Analyzer Kubernetes_Analyzer
begin

text \<open>
  What the app does with a job, \<open>internal/delivery/github/processor.go\<close>: it lists and reads the changeset
  through the GitHub provider, certifies it with the two analyzers it is built with, renders the certificate
  as Markdown and leaves it on the pull request. A client is what the API calls and the comment calls return;
  the two contexts say whether fetching and analyzing were cancelled. A value of \<open>None\<close> stands for a run
  that does not end, because the pages of an answer do not.
\<close>

subsection \<open>Certifying a pull request\<close>

record app_client =
  ac_api :: api_client
  ac_comments :: "pr_target \<Rightarrow> comment_poster"

definition app_engine ::
  "sql_parser option \<Rightarrow> yaml_library \<Rightarrow> map_order \<Rightarrow> (nat \<Rightarrow> string option) \<Rightarrow> instant \<Rightarrow> engine" where
  "app_engine parser lib ord ctx today =
     new_engine [postgres_analyzer parser ctx, kubernetes_analyzer lib ord ctx] None today None"

definition job_ref :: "job \<Rightarrow> string" where
  "job_ref j = make_ref (tg_owner (jb_target j)) (tg_repo (jb_target j)) (jb_base j) (jb_head j)"

definition claimed_paths :: "engine \<Rightarrow> provider_path list \<Rightarrow> provider_path list" where
  "claimed_paths eng listed = filter (\<lambda>p. supports eng (identity_locator (pp_path p))) listed"

definition listed_run :: "provider_path list \<Rightarrow> run_config" where
  "listed_run listed =
     \<lparr>rc_enumerated = map pp_path listed, rc_ignored_by_policy = [], rc_dead_ignores = [], rc_root = [],
      rc_anchor = []\<rparr>"

definition certify_job ::
  "(string \<Rightarrow> string) \<Rightarrow> engine \<Rightarrow> string option \<Rightarrow> string option \<Rightarrow> api_client \<Rightarrow> job \<Rightarrow>
     (certificate \<times> string option) option" where
  "certify_job sha eng fetching analyzing api j =
     map_option (\<lambda>source.
       case resolve_changes source (\<lambda>listed. (claimed_paths eng listed, ())) of
         Inl e \<Rightarrow> (unavailable_certificate rule_provider_error e, Some e)
       | Inr (listed, files, s) \<Rightarrow>
           (case certify sha eng analyzing (listed_run listed) files of
              (cert, None) \<Rightarrow> (cert, None)
            | (cert, Some e) \<Rightarrow> (cert, Some (''certifying '' @ target_text (jb_target j) @ '': '' @ e))))
     (github_provider (Some api) fetching (job_ref j))"

subsection \<open>Processing a job\<close>

definition report :: "comment_poster \<Rightarrow> pr_target \<Rightarrow> certificate \<Rightarrow> (comment_call option \<times> string option) option" where
  "report poster target cert = upsert_comment poster target (render_markdown cert)"

text \<open>The comment call that is made, if any, and the error \<open>Process\<close> returns.\<close>

definition process_job ::
  "(string \<Rightarrow> string) \<Rightarrow> engine \<Rightarrow> string option \<Rightarrow> string option \<Rightarrow> (int \<Rightarrow> string + app_client) \<Rightarrow> job \<Rightarrow>
     (comment_call option \<times> string option) option" where
  "process_job sha eng fetching analyzing new_client j =
     (case new_client (jb_installation j) of
        Inl e \<Rightarrow> Some (None, Some (''authenticating for installation '' @ itoa (jb_installation j) @ '': '' @ e))
      | Inr client \<Rightarrow>
          (case certify_job sha eng fetching analyzing (ac_api client) j of
             None \<Rightarrow> None
           | Some (cert, analysis_err) \<Rightarrow>
               map_option (\<lambda>(call, err).
                 case err of
                   Some e \<Rightarrow> (call, Some (''reporting on '' @ target_text (jb_target j) @ '': '' @ e))
                 | None \<Rightarrow> (call, analysis_err))
               (report (ac_comments client (jb_target j)) (jb_target j) cert)))"

subsection \<open>Lemmas\<close>

lemma certify_error_grades_F:
  assumes "snd (certify sha e cancelled c given) \<noteq> None"
  shows "c_grade (fst (certify sha e cancelled c given)) = GradeF
    \<and> c_gate (fst (certify sha e cancelled c given)) = GateFail
    \<and> c_blockers (fst (certify sha e cancelled c given)) \<noteq> []"
proof (cases rule: certify_cases [of sha e cancelled c given])
  case 1
  then show ?thesis by (auto simp: failure_result_def)
next
  case (2 findings down errors decision digest version)
  let ?files = "stamp_located given (locator c)"
  obtain out bad where o: "outcome (supports e) ?files
      (if rc_enumerated c = [] then paths_of ?files else rc_enumerated c) (locator c) = (out, bad)"
    by (rule outcome_pair)
  let ?i = "\<lparr>i_findings = n_all decision, i_down_migrations = down, i_analyzer_errors = errors,
      i_outcome = out, i_unsupported = bad\<rparr>"
  have "errors \<noteq> []" using 2(4) assms by auto
  then have F: "r_grade (score ?i) = GradeF" using score_F [of ?i] by simp
  have "r_blockers (score ?i) \<noteq> []" using F score_reasons [of ?i] by simp
  with F show ?thesis
    unfolding 2(3) conclude_fields(1,3,8) [OF o] score_of_def by (simp add: gate_def)
qed

lemma resolve_Inr:
  assumes "resolve_changes source (\<lambda>listed. (claimed_paths eng listed, ())) = Inr (listed, files, s)"
  shows "fp_list source = Inr listed \<and> fp_read source (claimed_paths eng listed) = Inr files"
  using assms by (auto simp: resolve_changes_def split: sum.splits)

lemma certify_job_cases:
  assumes "certify_job sha eng fetching analyzing api j = Some (cert, err)"
  obtains (unread) e where "cert = unavailable_certificate rule_provider_error e" and "err = Some e"
  | (read) source listed files where "github_provider (Some api) fetching (job_ref j) = Some source"
      and "fp_list source = Inr listed" and "fp_read source (claimed_paths eng listed) = Inr files"
      and "cert = fst (certify sha eng analyzing (listed_run listed) files)"
      and "err = None \<longleftrightarrow> snd (certify sha eng analyzing (listed_run listed) files) = None"
proof -
  from assms obtain source where source: "github_provider (Some api) fetching (job_ref j) = Some source"
    and c: "(cert, err) = (case resolve_changes source (\<lambda>listed. (claimed_paths eng listed, ())) of
         Inl e \<Rightarrow> (unavailable_certificate rule_provider_error e, Some e)
       | Inr (listed, files, s) \<Rightarrow>
           (case certify sha eng analyzing (listed_run listed) files of
              (cert, None) \<Rightarrow> (cert, None)
            | (cert, Some e) \<Rightarrow> (cert, Some (''certifying '' @ target_text (jb_target j) @ '': '' @ e))))"
    by (auto simp: certify_job_def)
  show thesis
  proof (cases "resolve_changes source (\<lambda>listed. (claimed_paths eng listed, ()))")
    case (Inl e)
    with c show thesis by (intro unread [of e]) simp_all
  next
    case (Inr r)
    obtain listed files s where r: "r = (listed, files, s)" by (metis prod_cases3)
    obtain x y where x: "certify sha eng analyzing (listed_run listed) files = (x, y)" by fastforce
    from resolve_Inr [OF Inr [unfolded r]] c show thesis
      by (intro read [of source listed files]) (auto simp: source Inr r x split: option.splits)
  qed
qed

lemma unavailable_fails [simp]:
  "c_grade (unavailable_certificate rule e) = GradeF" "c_gate (unavailable_certificate rule e) = GateFail"
  "c_blockers (unavailable_certificate rule e) \<noteq> []"
  by (simp_all add: unavailable_certificate_def Let_def)

lemma certify_job_fails_closed:
  assumes "certify_job sha eng fetching analyzing api j = Some (cert, Some e)"
  shows "c_grade cert = GradeF \<and> c_gate cert = GateFail \<and> c_blockers cert \<noteq> []"
  using assms
proof (cases rule: certify_job_cases)
  case (unread e')
  then show ?thesis by simp
next
  case (read source listed files)
  then show ?thesis using certify_error_grades_F [of sha eng analyzing "listed_run listed" files] by simp
qed

subsection \<open>Properties\<close>

text \<open>C25. No delivery ends in silence: when the app can authenticate, the pages of the comparison end and the
  comments can be read and written, a job leaves one comment, the rendered certificate below the marker;
  and whatever went wrong on the way, the certificate then grades F with the gate closed and a reason.\<close>

theorem every_job_ends_in_a_certificate:
  assumes "new_client (jb_installation j) = Inr client"
    and "ac_comments client (jb_target j) = thread_poster thread"
    and "\<forall>r. parse_ref (job_ref j) = Inr r \<longrightarrow> pages_end (ac_api client) r bound" and "0 \<le> bound"
  shows "\<exists>call err cert. process_job sha eng fetching analyzing new_client j = Some (Some call, err)
    \<and> certify_job sha eng fetching analyzing (ac_api client) j = Some (cert, err)
    \<and> call_body call = marked_body (render_markdown cert)
    \<and> (err \<noteq> None \<longrightarrow> c_grade cert = GradeF \<and> c_gate cert = GateFail \<and> c_blockers cert \<noteq> [])"
proof -
  have "\<exists>res. github_list (Some (ac_api client)) fetching (job_ref j) = Some res"
    using assms(3,4) compare_pages_end [of "ac_api client" _ bound 0 "[]"]
    by (auto simp: github_list_def split: option.splits sum.splits)
  then have "certify_job sha eng fetching analyzing (ac_api client) j \<noteq> None"
    by (auto simp: certify_job_def github_provider_def)
  then obtain cert err where c: "certify_job sha eng fetching analyzing (ac_api client) j = Some (cert, err)"
    by fastforce
  obtain call where call: "upsert_comment (thread_poster thread) (jb_target j) (render_markdown cert)
      = Some (Some call, None)" and b: "call_body call = marked_body (render_markdown cert)"
    by (auto simp: upsert_on_thread split: option.splits)
  have "process_job sha eng fetching analyzing new_client j = Some (Some call, err)"
    using assms(1,2) c call by (simp add: process_job_def report_def)
  then show ?thesis using c b certify_job_fails_closed by (cases err) blast+
qed

text \<open>What a certificate on a pull request that says \<open>PASS\<close> rests on: the listing of the comparison was
  complete, every file of it that an analyzer claims was read and nothing else was, no other file may be a
  migration, the analyzers returned without an error, and there is evidence for every file that was read.\<close>

theorem passing_comment_has_evidence:
  assumes "certify_job sha eng fetching analyzing api j = Some (cert, err)" and "c_gate cert = GatePass"
  shows "err = None \<and> (\<exists>listed files. github_list (Some api) fetching (job_ref j) = Some (Inr listed)
    \<and> github_read (Some api) fetching (job_ref j) (claimed_paths eng listed) = Inr files
    \<and> mset (map file_entry files) = mset (map path_entry (claimed_paths eng listed))
    \<and> (\<forall>p\<in>set listed. candidate (identity_locator (pp_path p)) \<longrightarrow> p \<in> set (claimed_paths eng listed))
    \<and> evidence eng (listed_run listed) (stamp_located files identity_locator))"
  using assms(1)
proof (cases rule: certify_job_cases)
  case (unread e)
  with assms(2) show ?thesis by simp
next
  case (read source listed files)
  have loc: "locator (listed_run listed) = identity_locator"
    by (simp add: locator_def listed_run_def identity_locator_def)
  from pass_evidence [of sha eng analyzing "listed_run listed" files] assms(2) read(4)
  have ok: "snd (certify sha eng analyzing (listed_run listed) files) = None"
    and ev: "evidence eng (listed_run listed) (stamp_located files identity_locator)"
    by (simp_all add: loc)
  from read(1) have source: "github_list (Some api) fetching (job_ref j) = Some (fp_list source)"
    "fp_read source = github_read (Some api) fetching (job_ref j)"
    by (auto simp: github_provider_def)
  have "p \<in> set (claimed_paths eng listed)"
    if "p \<in> set listed" "candidate (identity_locator (pp_path p))" for p
    using ev that by (auto simp: evidence_def uncovered_def listed_run_def locator_def claimed_paths_def
        identity_locator_def split: if_splits)
  moreover have "mset (map file_entry files) = mset (map path_entry (claimed_paths eng listed))"
    using github_read_entries read(3) source(2) by metis
  ultimately show ?thesis
    using read(2,3,5) ok ev source by (intro conjI exI [of _ listed] exI [of _ files]) auto
qed

subsection \<open>A sample job\<close>

definition passing_api :: api_client where
  "passing_api = \<lparr>
     api_compare = (\<lambda>owner repo base head page.
       Inr ([\<lparr>cf_filename = ''a.sql'', cf_previous = [], cf_status = ''added''\<rparr>], 0)),
     api_contents = (\<lambda>owner repo path sha. if path = [] then Contents_dir [] else api_text ''SELECT 1'')\<rparr>"

definition passing_client :: app_client where
  "passing_client = \<lparr>ac_api = passing_api, ac_comments = (\<lambda>target. thread_poster [])\<rparr>"

definition quiet_engine :: engine where "quiet_engine = new_engine [quiet_analyzer] None 0 None"

lemma passing_pages:
  "compare_pages passing_api r 0 [] = Some (Inr [\<lparr>cf_filename = ''a.sql'', cf_previous = [], cf_status = ''added''\<rparr>])"
  by (subst compare_pages.simps) (simp add: passing_api_def max_changed_files_def)

lemma passing_ref:
  "parse_ref (job_ref sample_job)
     = Inr \<lparr>pr_owner = ''acme'', pr_repo = ''widgets'', pr_base = ''aaa'', pr_head = ''bbb''\<rparr>"
  by code_simp

lemma passing_list:
  "github_list (Some passing_api) None (job_ref sample_job) = Some (Inr [listed_path ''a.sql'' StatusAdded])"
proof -
  have "and_then (github_context passing_api
        \<lparr>pr_owner = ''acme'', pr_repo = ''widgets'', pr_base = ''aaa'', pr_head = ''bbb''\<rparr>
        [commit_path \<lparr>cf_filename = ''a.sql'', cf_previous = [], cf_status = ''added''\<rparr>])
      (\<lambda>siblings. Inr (sort_paths (commit_path \<lparr>cf_filename = ''a.sql'', cf_previous = [], cf_status = ''added''\<rparr> # siblings)))
    = (Inr [listed_path ''a.sql'' StatusAdded] :: string + provider_path list)"
    by code_simp
  then show ?thesis by (simp add: github_list_def passing_ref passing_pages Let_def)
qed

lemma passing_read:
  "resolve_changes \<lparr>fp_list = Inr [listed_path ''a.sql'' StatusAdded],
       fp_read = github_read (Some passing_api) None (job_ref sample_job)\<rparr>
     (\<lambda>listed. (claimed_paths quiet_engine listed, ()))
   = Inr ([listed_path ''a.sql'' StatusAdded], [git_file ''a.sql'' StatusAdded [] ''SELECT 1''], ())"
  by code_simp

lemma passing_gate:
  "c_gate (fst (certify (\<lambda>b. b) quiet_engine None (listed_run [listed_path ''a.sql'' StatusAdded])
      [git_file ''a.sql'' StatusAdded [] ''SELECT 1''])) = GatePass
   \<and> snd (certify (\<lambda>b. b) quiet_engine None (listed_run [listed_path ''a.sql'' StatusAdded])
      [git_file ''a.sql'' StatusAdded [] ''SELECT 1'']) = None"
  by code_simp

lemma passing_job:
  "\<exists>cert. certify_job (\<lambda>b. b) quiet_engine None None passing_api sample_job = Some (cert, None)
     \<and> c_gate cert = GatePass"
proof -
  obtain x y where x: "certify (\<lambda>b. b) quiet_engine None (listed_run [listed_path ''a.sql'' StatusAdded])
      [git_file ''a.sql'' StatusAdded [] ''SELECT 1''] = (x, y)" by fastforce
  with passing_gate show ?thesis
    by (simp add: certify_job_def github_provider_def passing_list passing_read)
qed

theorem passing_comment_has_evidence_witness:
  "\<exists>files. evidence quiet_engine (listed_run [listed_path ''a.sql'' StatusAdded]) (stamp_located files identity_locator)"
proof -
  from passing_job obtain cert where
    "certify_job (\<lambda>b. b) quiet_engine None None passing_api sample_job = Some (cert, None)"
    and "c_gate cert = GatePass" by blast
  from passing_comment_has_evidence [OF this] show ?thesis by (auto simp: passing_list)
qed

theorem every_job_ends_in_a_certificate_witness:
  "\<exists>call err. process_job (\<lambda>b. b) quiet_engine None None (\<lambda>i. Inr passing_client) sample_job = Some (Some call, err)"
proof -
  have "\<forall>r. parse_ref (job_ref sample_job) = Inr r \<longrightarrow> pages_end (ac_api passing_client) r 0"
    by (simp add: pages_end_def passing_client_def passing_api_def)
  from every_job_ends_in_a_certificate [of "\<lambda>i. Inr passing_client" sample_job passing_client "[]", OF _ _ this]
  show ?thesis by (simp add: passing_client_def) blast
qed

end
