(* ===== verification/Github_Auth.thy ===== *)
theory Github_Auth
  imports Github_Webhook
begin

text \<open>
  Configuration and credentials of the GitHub app: \<open>ConfigFromEnv\<close> and \<open>clientFactory\<close> of
  \<open>internal/delivery/github/server.go\<close>, and \<open>auth.go\<close>, the signed assertion and the cache of installation
  tokens. The environment, the disk, the PEM and X.509 parsers, the hash, the RSA signature and the call
  that mints a token are parameters. A client is the token it carries. Time is in seconds; the two readings
  of the clock in one call are two arguments. The cache is a step relation: calls of several jobs
  interleave, and what one has minted is stored in a step of its own.
\<close>

subsection \<open>Configuration\<close>

record server_config =
  sc_addr :: string
  sc_secret :: string
  sc_token :: string
  sc_app_id :: int
  sc_private_key :: string

definition env_addr :: string where "env_addr = ''REVSRV_ADDR''"

definition env_webhook_secret :: string where "env_webhook_secret = ''GITHUB_WEBHOOK_SECRET''"

definition env_token :: string where "env_token = ''GITHUB_TOKEN''"

definition env_app_id :: string where "env_app_id = ''GITHUB_APP_ID''"

definition env_private_key :: string where "env_private_key = ''GITHUB_APP_PRIVATE_KEY''"

definition env_private_key_path :: string where "env_private_key_path = ''GITHUB_APP_PRIVATE_KEY_PATH''"

definition default_addr :: string where "default_addr = '':8080''"

text \<open>\<open>strconv.ParseInt\<close> with base 10 and 64 bits.\<close>

definition parse_int64 :: "string \<Rightarrow> int option" where
  "parse_int64 s =
     (let negative = (case s of c # r \<Rightarrow> c = CHR ''-'' | [] \<Rightarrow> False);
          ds = (case s of c # r \<Rightarrow> if c = CHR ''-'' \<or> c = CHR ''+'' then r else s | [] \<Rightarrow> [])
      in if ds = [] \<or> \<not> list_all is_digit ds then None
         else
           (let n = (if negative then - decimal ds else decimal ds) in
            if - (2 ^ 63) \<le> n \<and> n < 2 ^ 63 then Some n else None))"

definition config_from_env :: "(string \<Rightarrow> string) \<Rightarrow> (string \<Rightarrow> string + string) \<Rightarrow> string + server_config" where
  "config_from_env getenv read_file =
     (let cfg = \<lparr>sc_addr = or_else (getenv env_addr) default_addr, sc_secret = getenv env_webhook_secret,
            sc_token = getenv env_token, sc_app_id = 0, sc_private_key = getenv env_private_key\<rparr>;
          raw = getenv env_app_id;
          path = getenv env_private_key_path
      in if sc_secret cfg = [] then
           Inl (env_webhook_secret @ '' is required: without it the server cannot tell a GitHub delivery from a stranger''
             @ [CHR 0x27] @ ''s'')
         else
           and_then
             (if raw = [] then Inr cfg
              else case parse_int64 raw of
                None \<Rightarrow> Inl (env_app_id @ '' must be a number, got '' @ go_quote raw)
              | Some app_id \<Rightarrow> Inr (cfg\<lparr>sc_app_id := app_id\<rparr>)) (\<lambda>cfg.
           and_then
             (if path \<noteq> [] \<and> sc_private_key cfg = [] then
                (case read_file path of
                   Inl e \<Rightarrow> Inl (''reading '' @ env_private_key @ '' from '' @ path @ '': '' @ e)
                 | Inr k \<Rightarrow> Inr (cfg\<lparr>sc_private_key := k\<rparr>))
              else Inr cfg) (\<lambda>cfg.
             if sc_token cfg = [] \<and> (sc_app_id cfg = 0 \<or> sc_private_key cfg = []) then
               Inl (''credentials are required: set '' @ env_token @ '', or both '' @ env_app_id @ '' and ''
                 @ env_private_key @ '' (or '' @ env_private_key_path @ '')'')
             else Inr cfg)))"

subsection \<open>The private key\<close>

datatype 'k parsed_key = Rsa_key 'k | Other_key string

record 'k key_library =
  kl_pem :: "string \<Rightarrow> string option"
  kl_pkcs1 :: "string \<Rightarrow> string + 'k"
  kl_pkcs8 :: "string \<Rightarrow> string + 'k parsed_key"

definition parse_private_key :: "'k key_library \<Rightarrow> string \<Rightarrow> string + 'k" where
  "parse_private_key lib pem =
     (case kl_pem lib pem of
        None \<Rightarrow> Inl ''github app: private key is not valid PEM''
      | Some bytes \<Rightarrow>
          (case kl_pkcs1 lib bytes of
             Inr k \<Rightarrow> Inr k
           | Inl e1 \<Rightarrow>
               (case kl_pkcs8 lib bytes of
                  Inl e \<Rightarrow> Inl (''github app: private key is neither PKCS#1 nor PKCS#8: '' @ e)
                | Inr (Other_key t) \<Rightarrow> Inl (''github app: private key is '' @ t @ '', want an RSA key'')
                | Inr (Rsa_key k) \<Rightarrow> Inr k)))"

type_synonym token_cache = "int \<Rightarrow> (string \<times> int) option"

record 'k authenticator =
  au_app_id :: int
  au_key :: 'k
  au_tokens :: token_cache

definition new_app_authenticator :: "'k key_library \<Rightarrow> int \<Rightarrow> string \<Rightarrow> string + 'k authenticator" where
  "new_app_authenticator lib app_id pem =
     (if app_id = 0 then Inl ''github app: no app ID configured''
      else and_then (parse_private_key lib pem) (\<lambda>k.
        Inr \<lparr>au_app_id = app_id, au_key = k, au_tokens = Map.empty\<rparr>))"

datatype 'k client_strategy = App_factory "'k authenticator" | Static_token string

definition client_factory :: "'k key_library \<Rightarrow> server_config \<Rightarrow> string + 'k client_strategy \<times> string" where
  "client_factory lib cfg =
     (if sc_app_id cfg \<noteq> 0 \<and> sc_private_key cfg \<noteq> [] then
        and_then (new_app_authenticator lib (sc_app_id cfg) (sc_private_key cfg)) (\<lambda>a.
          Inr (App_factory a, ''GitHub App '' @ itoa (sc_app_id cfg)))
      else if sc_token cfg \<noteq> [] then Inr (Static_token (sc_token cfg), ''static token'')
      else Inl ''no GitHub credentials configured'')"

subsection \<open>The assertion\<close>

definition app_token_lifetime :: int where "app_token_lifetime = 9 * 60"

definition app_token_backdate :: int where "app_token_backdate = 60"

definition installation_token_margin :: int where "installation_token_margin = 5 * 60"

text \<open>\<open>base64.RawURLEncoding\<close>, and its inverse.\<close>

definition base64_char :: "nat \<Rightarrow> char" where
  "base64_char n =
     char_of (if n < 26 then 65 + n else if n < 52 then 71 + n else if n < 62 then n - 4
       else if n = 62 then 45 else 95)"

definition base64_value :: "char \<Rightarrow> nat" where
  "base64_value c =
     (let n = of_char c in
      if 97 \<le> n then n - 71 else if n = 95 then 63 else if 65 \<le> n then n - 65 else if n = 45 then 62 else n + 4)"

fun base64_raw_url :: "nat list \<Rightarrow> string" where
  "base64_raw_url [] = []"
| "base64_raw_url [a] = [base64_char (a div 4), base64_char (a mod 4 * 16)]"
| "base64_raw_url [a, b] =
     [base64_char (a div 4), base64_char (a mod 4 * 16 + b div 16), base64_char (b mod 16 * 4)]"
| "base64_raw_url (a # b # c # s) =
     [base64_char (a div 4), base64_char (a mod 4 * 16 + b div 16), base64_char (b mod 16 * 4 + c div 64),
      base64_char (c mod 64)] @ base64_raw_url s"

fun base64_decode :: "nat list \<Rightarrow> nat list" where
  "base64_decode [v, w] = [v * 4 + w div 16]"
| "base64_decode [v, w, x] = [v * 4 + w div 16, w mod 16 * 16 + x div 4]"
| "base64_decode (v # w # x # y # s) =
     [v * 4 + w div 16, w mod 16 * 16 + x div 4, x mod 4 * 64 + y] @ base64_decode s"
| "base64_decode s = []"

definition encode_bytes :: "string \<Rightarrow> string" where
  "encode_bytes s = base64_raw_url (map of_char s)"

definition decode_bytes :: "string \<Rightarrow> string" where
  "decode_bytes s = map char_of (base64_decode (map base64_value s))"

definition json_member :: "string \<Rightarrow> string \<Rightarrow> string" where
  "json_member name value = [CHR 0x22] @ name @ [CHR 0x22] @ '':'' @ value"

definition json_text :: "string \<Rightarrow> string" where
  "json_text s = [CHR 0x22] @ s @ [CHR 0x22]"

definition jwt_header :: string where
  "jwt_header = ''{'' @ json_member ''alg'' (json_text ''RS256'') @ '','' @ json_member ''typ'' (json_text ''JWT'') @ ''}''"

definition jwt_claims :: "int \<Rightarrow> int \<Rightarrow> string" where
  "jwt_claims app_id now =
     ''{'' @ json_member ''exp'' (itoa (now + app_token_lifetime)) @ '',''
     @ json_member ''iat'' (itoa (now - app_token_backdate)) @ '','' @ json_member ''iss'' (itoa app_id) @ ''}''"

definition sign_jwt ::
  "(string \<Rightarrow> string) \<Rightarrow> ('k \<Rightarrow> string \<Rightarrow> string + string) \<Rightarrow> 'k authenticator \<Rightarrow> int \<Rightarrow> string + string" where
  "sign_jwt sha rsa a now =
     (let input = encode_bytes jwt_header @ ''.'' @ encode_bytes (jwt_claims (au_app_id a) now) in
      case rsa (au_key a) (sha input) of
        Inl e \<Rightarrow> Inl (''github app: signing the assertion: '' @ e)
      | Inr signature \<Rightarrow> Inr (input @ ''.'' @ encode_bytes signature))"

subsection \<open>Installation tokens\<close>

definition cached_token :: "int \<Rightarrow> 'k authenticator \<Rightarrow> int \<Rightarrow> string option" where
  "cached_token now a i =
     (case au_tokens a i of
        None \<Rightarrow> None
      | Some (t, expires) \<Rightarrow> if now + installation_token_margin < expires then Some t else None)"

definition store_token :: "int \<Rightarrow> string \<times> int \<Rightarrow> 'k authenticator \<Rightarrow> 'k authenticator" where
  "store_token i entry a = a\<lparr>au_tokens := (au_tokens a)(i \<mapsto> entry)\<rparr>"

text \<open>What a call returns, and the entry it stores.\<close>

definition installation_token ::
  "(string \<Rightarrow> string) \<Rightarrow> ('k \<Rightarrow> string \<Rightarrow> string + string) \<Rightarrow> (string \<Rightarrow> int \<Rightarrow> string + string \<times> int) \<Rightarrow>
     int \<Rightarrow> int \<Rightarrow> 'k authenticator \<Rightarrow> int \<Rightarrow> (string + string) \<times> (string \<times> int) option" where
  "installation_token sha rsa mint now now' a i =
     (if i = 0 then (Inl ''github app: webhook payload carried no installation ID'', None)
      else case cached_token now a i of
        Some t \<Rightarrow> (Inr t, None)
      | None \<Rightarrow>
          (case sign_jwt sha rsa a now' of
             Inl e \<Rightarrow> (Inl e, None)
           | Inr jwt \<Rightarrow>
               (case mint jwt i of
                  Inl e \<Rightarrow> (Inl (''github app: minting a token for installation '' @ itoa i @ '': '' @ e), None)
                | Inr (t, expires) \<Rightarrow> (Inr t, Some (t, expires)))))"

text \<open>The token a client is made with.\<close>

definition new_client_token ::
  "(string \<Rightarrow> string) \<Rightarrow> ('k \<Rightarrow> string \<Rightarrow> string + string) \<Rightarrow> (string \<Rightarrow> int \<Rightarrow> string + string \<times> int) \<Rightarrow>
     int \<Rightarrow> int \<Rightarrow> 'k client_strategy \<Rightarrow> int \<Rightarrow> string + string" where
  "new_client_token sha rsa mint now now' f i =
     (case f of
        App_factory a \<Rightarrow> fst (installation_token sha rsa mint now now' a i)
      | Static_token t \<Rightarrow> if t = [] then Inl ''no GitHub token configured'' else Inr t)"

text \<open>The cache over time: a call looks and, where it has minted a token, stores it later.\<close>

record 'k token_state =
  tk_auth :: "'k authenticator"
  tk_pending :: "(int \<times> string \<times> int) list"

inductive cache_step ::
  "(string \<Rightarrow> string) \<Rightarrow> ('k \<Rightarrow> string \<Rightarrow> string + string) \<Rightarrow> (string \<Rightarrow> int \<Rightarrow> string + string \<times> int) \<Rightarrow>
     'k token_state \<Rightarrow> 'k token_state \<Rightarrow> bool"
  for sha rsa mint where
  look: "installation_token sha rsa mint now now' (tk_auth s) i = (res, Some entry) \<Longrightarrow>
    cache_step sha rsa mint s (s\<lparr>tk_pending := (i, entry) # tk_pending s\<rparr>)"
| keep: "(i, entry) \<in> set (tk_pending s) \<Longrightarrow>
    cache_step sha rsa mint s
      (s\<lparr>tk_auth := store_token i entry (tk_auth s), tk_pending := remove1 (i, entry) (tk_pending s)\<rparr>)"

inductive cache_reachable ::
  "(string \<Rightarrow> string) \<Rightarrow> ('k \<Rightarrow> string \<Rightarrow> string + string) \<Rightarrow> (string \<Rightarrow> int \<Rightarrow> string + string \<times> int) \<Rightarrow>
     int \<Rightarrow> 'k \<Rightarrow> 'k token_state \<Rightarrow> bool"
  for sha rsa mint app_id k where
  fresh: "cache_reachable sha rsa mint app_id k
    \<lparr>tk_auth = \<lparr>au_app_id = app_id, au_key = k, au_tokens = Map.empty\<rparr>, tk_pending = []\<rparr>"
| further: "cache_reachable sha rsa mint app_id k s \<Longrightarrow> cache_step sha rsa mint s s' \<Longrightarrow>
    cache_reachable sha rsa mint app_id k s'"

subsection \<open>Lemmas\<close>

lemma base64_value_char [simp]: "n < 64 \<Longrightarrow> base64_value (base64_char n) = n"
  by (simp add: base64_value_def base64_char_def of_char_of Let_def) arith

lemma base64_char_no_dot: "n < 64 \<Longrightarrow> base64_char n \<noteq> CHR ''.''"
proof -
  assume "n < 64"
  then have "(of_char (base64_char n) :: nat) \<noteq> of_char (CHR ''.'')"
    by (simp add: base64_char_def of_char_of) arith
  then show ?thesis by metis
qed

lemma sextets:
  fixes a b c :: nat
  shows "a < 256 \<Longrightarrow> a div 4 < 64" and "a mod 4 * 16 < 64" and "b mod 16 * 4 < 64" and "c mod 64 < 64"
    and "b < 256 \<Longrightarrow> a mod 4 * 16 + b div 16 < 64" and "c < 256 \<Longrightarrow> b mod 16 * 4 + c div 64 < 64"
proof -
  have m: "a mod 4 < 4" "b mod 16 < 16" "c mod 64 < 64" by simp_all
  then show "a mod 4 * 16 < 64" "b mod 16 * 4 < 64" "c mod 64 < 64" by linarith+
  show "a < 256 \<Longrightarrow> a div 4 < 64" by (simp add: less_mult_imp_div_less)
  show "a mod 4 * 16 + b div 16 < 64" if "b < 256"
  proof -
    from that have "b div 16 < 16" by (simp add: less_mult_imp_div_less)
    with m show ?thesis by linarith
  qed
  show "b mod 16 * 4 + c div 64 < 64" if "c < 256"
  proof -
    from that have "c div 64 < 4" by (simp add: less_mult_imp_div_less)
    with m show ?thesis by linarith
  qed
qed

lemma octets:
  fixes b c :: nat
  shows "b < 256 \<Longrightarrow> b div 16 div 16 = 0" and "b < 256 \<Longrightarrow> b div 16 mod 16 = b div 16"
    and "c < 256 \<Longrightarrow> c div 64 div 4 = 0" and "c < 256 \<Longrightarrow> c div 64 mod 4 = c div 64"
proof -
  have "b < 256 \<Longrightarrow> b div 16 < 16" and "c < 256 \<Longrightarrow> c div 64 < 4"
    by (simp_all add: less_mult_imp_div_less)
  then show "b < 256 \<Longrightarrow> b div 16 div 16 = 0" and "b < 256 \<Longrightarrow> b div 16 mod 16 = b div 16"
    and "c < 256 \<Longrightarrow> c div 64 div 4 = 0" and "c < 256 \<Longrightarrow> c div 64 mod 4 = c div 64"
    by simp_all
qed

lemma base64_decode_encode:
  "\<forall>a\<in>set s. a < 256 \<Longrightarrow> base64_decode (map base64_value (base64_raw_url s)) = s"
  by (induction s rule: base64_raw_url.induct) (simp_all add: sextets octets)

lemma base64_no_dot: "\<forall>a\<in>set s. a < 256 \<Longrightarrow> CHR ''.'' \<notin> set (base64_raw_url s)"
  by (induction s rule: base64_raw_url.induct) (simp_all add: sextets base64_char_no_dot [THEN not_sym])

lemma byte_bounds: "\<forall>a\<in>set (map of_char s). a < (256 :: nat)"
  by (simp add: nat_of_char_less_256)

lemma decode_encode_bytes [simp]: "decode_bytes (encode_bytes s) = s"
  by (simp add: decode_bytes_def encode_bytes_def base64_decode_encode [OF byte_bounds] comp_def)

lemma encode_bytes_no_dot: "CHR ''.'' \<notin> set (encode_bytes s)"
  unfolding encode_bytes_def by (rule base64_no_dot [OF byte_bounds])

lemma split_assertion:
  "split_on (CHR ''.'') (encode_bytes h @ ''.'' @ encode_bytes c @ ''.'' @ encode_bytes sig)
     = [encode_bytes h, encode_bytes c, encode_bytes sig]"
  by (simp add: seg_simps encode_bytes_no_dot)

text \<open>Every entry of the cache, stored or on its way, was minted for its installation.\<close>

definition minted :: "(string \<Rightarrow> int \<Rightarrow> string + string \<times> int) \<Rightarrow> int \<times> string \<times> int \<Rightarrow> bool" where
  "minted mint entry \<longleftrightarrow> fst entry \<noteq> 0 \<and> (\<exists>jwt. mint jwt (fst entry) = Inr (snd entry))"

lemma installation_token_cases:
  assumes "installation_token sha rsa mint now now' a i = (res, entry)"
  shows "case entry of
      Some e \<Rightarrow> minted mint (i, e) \<and> res = Inr (fst e) \<and> cached_token now a i = None
    | None \<Rightarrow> (\<forall>t. res = Inr t \<longrightarrow> i \<noteq> 0 \<and> cached_token now a i = Some t)"
  using assms
  by (auto simp: installation_token_def minted_def split: if_splits option.splits sum.splits prod.splits)

lemma cache_minted:
  assumes "cache_reachable sha rsa mint app_id k s"
  shows "(\<forall>i e. au_tokens (tk_auth s) i = Some e \<longrightarrow> minted mint (i, e)) \<and> list_all (minted mint) (tk_pending s)
    \<and> au_app_id (tk_auth s) = app_id \<and> au_key (tk_auth s) = k"
  using assms
proof (induction rule: cache_reachable.induct)
  case fresh
  show ?case by simp
next
  case (further s s')
  from further.hyps(2) show ?case
  proof (cases rule: cache_step.cases)
    case (look now now' i res entry)
    with installation_token_cases [OF look(2)] further.IH show ?thesis by simp
  next
    case (keep i entry)
    with further.IH show ?thesis
      by (auto simp: store_token_def list_all_iff dest: in_set_remove1 [THEN iffD1, rotated] notin_set_remove1 set_remove1_subset [THEN subsetD])
  qed
qed

subsection \<open>Properties\<close>

text \<open>A server that starts can authenticate deliveries and has credentials: its secret is not empty, and
  the client factory uses the App's key, which may turn out not to be one, or a token that is not empty.\<close>

theorem started_server_has_credentials:
  assumes "config_from_env getenv read_file = Inr cfg"
  shows "sc_secret cfg \<noteq> [] \<and> sc_addr cfg \<noteq> []
    \<and> (\<forall>rq. verify_payload sha rq (sc_secret cfg) \<noteq> Inl No_secret)
    \<and> (case client_factory lib cfg of
         Inr (Static_token t, d) \<Rightarrow> t = sc_token cfg \<and> t \<noteq> []
       | Inr (App_factory a, d) \<Rightarrow> au_app_id a = sc_app_id cfg \<and> au_app_id a \<noteq> 0
           \<and> parse_private_key lib (sc_private_key cfg) = Inr (au_key a) \<and> au_tokens a = Map.empty
       | Inl e \<Rightarrow> sc_app_id cfg \<noteq> 0 \<and> parse_private_key lib (sc_private_key cfg) = Inl e)"
proof -
  have c: "sc_secret cfg \<noteq> [] \<and> sc_addr cfg \<noteq> [] \<and> (sc_token cfg \<noteq> [] \<or> sc_app_id cfg \<noteq> 0 \<and> sc_private_key cfg \<noteq> [])"
    using assms by (auto simp: config_from_env_def and_then_Inr Let_def default_addr_def
        split: if_splits option.splits sum.splits)
  moreover have "verify_payload sha rq (sc_secret cfg) \<noteq> Inl No_secret" for rq
    using c by (auto simp: verify_payload_def Let_def split: sum.splits)
  ultimately show ?thesis
    by (auto simp: client_factory_def new_app_authenticator_def and_then_def split: sum.splits)
qed

text \<open>The assertion says what it has to: its three segments decode to the header, to the claims of this App
  with a minute of clock skew and nine minutes of life, and to the signature over the hash of the first two.\<close>

theorem assertion_round_trip:
  assumes "sign_jwt sha rsa a now = Inr jwt"
  shows "\<exists>h c s. split_on (CHR ''.'') jwt = [h, c, s]
    \<and> decode_bytes h = jwt_header \<and> decode_bytes c = jwt_claims (au_app_id a) now
    \<and> rsa (au_key a) (sha (h @ ''.'' @ c)) = Inr (decode_bytes s)"
proof -
  let ?h = "encode_bytes jwt_header" and ?c = "encode_bytes (jwt_claims (au_app_id a) now)"
  from assms obtain sig where s: "rsa (au_key a) (sha (?h @ ''.'' @ ?c)) = Inr sig"
    and "jwt = (?h @ ''.'' @ ?c) @ ''.'' @ encode_bytes sig"
    by (auto simp: sign_jwt_def Let_def split: sum.splits)
  then have "split_on (CHR ''.'') jwt = [?h, ?c, encode_bytes sig]"
    using split_assertion by simp
  with s show ?thesis by simp
qed

text \<open>C28. Tokens stay with their installation and are not used close to their end, however the calls
  interleave: a call that returns a token names an installation, and the token was minted for it, just now
  or with an expiry more than five minutes ahead.\<close>

theorem tokens_belong_to_their_installation:
  assumes "cache_reachable sha rsa mint app_id k s"
    and "installation_token sha rsa mint now now' (tk_auth s) i = (Inr t, entry)"
  shows "i \<noteq> 0 \<and> (\<exists>jwt expires. mint jwt i = Inr (t, expires)
    \<and> (entry = Some (t, expires) \<or> entry = None \<and> now + installation_token_margin < expires))"
proof (cases entry)
  case None
  with installation_token_cases [OF assms(2)] have i: "i \<noteq> 0" and "cached_token now (tk_auth s) i = Some t"
    by auto
  then obtain expires where e: "au_tokens (tk_auth s) i = Some (t, expires)"
    and n: "now + installation_token_margin < expires"
    by (auto simp: cached_token_def split: option.splits if_splits)
  from cache_minted [OF assms(1)] e have "minted mint (i, t, expires)" by blast
  with i n None show ?thesis by (auto simp: minted_def)
next
  case (Some e)
  with installation_token_cases [OF assms(2)] show ?thesis by (cases e) (auto simp: minted_def)
qed

text \<open>An App id survives the way through the environment, for every 64-bit value.\<close>

theorem app_id_round_trip:
  assumes "- (2 ^ 63) \<le> n" and "n < 2 ^ 63"
  shows "parse_int64 (itoa n) = Some n"
proof (cases "n < 0")
  case True
  with assms show ?thesis
    by (simp add: parse_int64_def itoa_def digits_digits decimal_digits Let_def)
next
  case False
  obtain c r where d: "digits n = c # r" by (cases "digits n") auto
  have "c \<noteq> CHR ''-'' \<and> c \<noteq> CHR ''+''" using digits_no_sign [OF _ d] False by simp
  moreover have "list_all is_digit (c # r)" "decimal (c # r) = n"
    using digits_digits [of n] decimal_digits [of n] False unfolding d by simp_all
  ultimately show ?thesis
    using assms False by (simp add: parse_int64_def itoa_def d Let_def)
qed

subsection \<open>Samples\<close>

theorem app_id_round_trip_witness: "parse_int64 (itoa (- 9223372036854775808)) = Some (- 9223372036854775808)"
  using app_id_round_trip [of "- 9223372036854775808"] by simp

definition sample_env :: "string \<Rightarrow> string" where
  "sample_env name = (if name = env_webhook_secret then ''key'' else if name = env_token then ''t0'' else [])"

definition no_keys :: "string key_library" where
  "no_keys = \<lparr>kl_pem = (\<lambda>s. None), kl_pkcs1 = (\<lambda>s. Inl ''none''), kl_pkcs8 = (\<lambda>s. Inl ''none'')\<rparr>"

lemma sample_config:
  "config_from_env sample_env (\<lambda>path. Inl ''no disk'')
     = Inr \<lparr>sc_addr = '':8080'', sc_secret = ''key'', sc_token = ''t0'', sc_app_id = 0, sc_private_key = []\<rparr>"
  by code_simp

theorem started_server_has_credentials_witness:
  "\<exists>d. client_factory no_keys
     \<lparr>sc_addr = '':8080'', sc_secret = ''key'', sc_token = ''t0'', sc_app_id = 0, sc_private_key = []\<rparr>
       = Inr (Static_token ''t0'', d)"
  using started_server_has_credentials [OF sample_config, of "\<lambda>x. x" no_keys]
  by (simp add: client_factory_def)

definition sample_auth :: "string authenticator" where
  "sample_auth = \<lparr>au_app_id = 5, au_key = ''k'', au_tokens = Map.empty\<rparr>"

definition mint_hour :: "string \<Rightarrow> int \<Rightarrow> string + string \<times> int" where
  "mint_hour jwt i = Inr (''token'', 3600)"

theorem assertion_round_trip_witness:
  "\<exists>jwt h c s. split_on (CHR ''.'') jwt = [h, c, s] \<and> decode_bytes c = jwt_claims 5 1000"
proof -
  obtain jwt where "sign_jwt (\<lambda>x. x) (\<lambda>k x. Inr x) sample_auth 1000 = Inr jwt"
    by (simp add: sign_jwt_def Let_def)
  from assertion_round_trip [OF this] show ?thesis by (auto simp: sample_auth_def)
qed

lemma sample_reachable:
  "cache_reachable (\<lambda>x. x) (\<lambda>k x. Inr x) mint_hour 5 ''k''
     \<lparr>tk_auth = store_token 7 (''token'', 3600) sample_auth, tk_pending = []\<rparr>"
proof -
  have "installation_token (\<lambda>x. x) (\<lambda>k x. Inr x) mint_hour 0 0 sample_auth 7 = (Inr ''token'', Some (''token'', 3600))"
    by (simp add: installation_token_def cached_token_def sample_auth_def sign_jwt_def mint_hour_def Let_def)
  then have "cache_reachable (\<lambda>x. x) (\<lambda>k x. Inr x) mint_hour 5 ''k''
      \<lparr>tk_auth = sample_auth, tk_pending = [(7, ''token'', 3600)]\<rparr>"
    using cache_reachable.further [OF cache_reachable.fresh cache_step.look, of "\<lambda>x. x" "\<lambda>k x. Inr x" mint_hour 0 0 5 "''k''"
        7 "Inr ''token''" "(''token'', 3600)"]
    by (simp add: sample_auth_def)
  from cache_reachable.further [OF this cache_step.keep, of 7 "(''token'', 3600)"] show ?thesis by simp
qed

theorem tokens_belong_to_their_installation_witness:
  "\<exists>expires. (1000 :: int) + installation_token_margin < expires \<and> mint_hour [] 7 = Inr (''token'', expires)"
proof -
  have "installation_token (\<lambda>x. x) (\<lambda>k x. Inr x) mint_hour 1000 1000
      (tk_auth \<lparr>tk_auth = store_token 7 (''token'', 3600) sample_auth, tk_pending = []\<rparr>) 7 = (Inr ''token'', None)"
    by (simp add: installation_token_def cached_token_def store_token_def installation_token_margin_def)
  from tokens_belong_to_their_installation [OF sample_reachable this] show ?thesis
    by (auto simp: mint_hour_def)
qed

end
