(* ===== verification/Revsrv.thy ===== *)
theory Revsrv
  imports Github_App Github_Auth Postgres_Adapter Terraform_Analyzer
begin

text \<open>
  The program \<open>revsrv\<close>: \<open>NewServer\<close> and \<open>Run\<close> of \<open>internal/delivery/github/server.go\<close> with the choice a
  \<open>http.ServeMux\<close> makes between its two patterns, \<open>cmd/revsrv/main.go\<close>, and the app over PostgreSQL's grammar.
  A request is that of the webhook with a path beside it, in which no byte is escaped. How listening and shutting down end is a parameter.
\<close>

subsection \<open>Routes\<close>

datatype route = To_webhook | To_health | Moved string | Not_allowed string | Not_found

text \<open>What \<open>ServeMux\<close> takes the path of a request for, and redirects to when it is another.\<close>

definition mux_path :: "string \<Rightarrow> string" where
  "mux_path p =
     (let rooted = (if is_rooted p then p else slash # p);
          np = path_clean rooted
      in if p = [] then ''/''
         else if last rooted = slash \<and> np \<noteq> ''/'' then np @ ''/'' else np)"

definition route_of :: "string \<Rightarrow> string \<Rightarrow> route" where
  "route_of verb path =
     (if verb \<noteq> ''CONNECT'' \<and> mux_path path \<noteq> path then Moved (mux_path path)
      else if path = ''/webhook'' then (if verb = ''POST'' then To_webhook else Not_allowed ''POST'')
      else if path = ''/healthz'' then (if verb = ''GET'' \<or> verb = ''HEAD'' then To_health else Not_allowed ''GET, HEAD'')
      else Not_found)"

subsection \<open>The server\<close>

record 'k app_server =
  as_addr :: string
  as_secret :: string
  as_clients :: "'k client_strategy"

definition new_server :: "'k key_library \<Rightarrow> server_config \<Rightarrow> string + 'k app_server" where
  "new_server lib cfg =
     (case client_factory lib cfg of
        Inl e \<Rightarrow> Inl e
      | Inr (factory, description) \<Rightarrow>
          Inr \<lparr>as_addr = sc_addr cfg, as_secret = sc_secret cfg, as_clients = factory\<rparr>)"

definition health :: response where
  "health = \<lparr>rs_status = 200, rs_body = ''ok'' @ newline\<rparr>"

text \<open>The answer of a route to the webhook or to the probe; the library answers the others by itself.\<close>

definition serve ::
  "(string \<Rightarrow> string) \<Rightarrow> (string \<Rightarrow> string + pull_request_event) \<Rightarrow> 'k app_server \<Rightarrow> string \<Rightarrow> request \<Rightarrow>
     route \<times> response option \<times> job option" where
  "serve sha decode s path rq =
     (case route_of (rq_method rq) path of
        To_webhook \<Rightarrow>
          (case serve_http sha decode (as_secret s) rq of (answer, j) \<Rightarrow> (To_webhook, Some answer, j))
      | To_health \<Rightarrow> (To_health, Some health, None)
      | r \<Rightarrow> (r, None, None))"

subsection \<open>Running\<close>

text \<open>How a server ends: it stops listening, with an error or without, or it is interrupted and shuts down.\<close>

datatype server_end = Listen_failed string | Listen_closed | Interrupted "string option"

definition run_server :: "'k key_library \<Rightarrow> ('k app_server \<Rightarrow> server_end) \<Rightarrow> server_config \<Rightarrow> string option" where
  "run_server lib life cfg =
     (case new_server lib cfg of
        Inl e \<Rightarrow> Some e
      | Inr s \<Rightarrow>
          (case life s of
             Listen_failed e \<Rightarrow> Some e
           | Listen_closed \<Rightarrow> None
           | Interrupted err \<Rightarrow> map_option (\<lambda>e. ''shutting down: '' @ e) err))"

text \<open>The exit code and what is printed.\<close>

definition revsrv_run ::
  "(string \<Rightarrow> string) \<Rightarrow> (string \<Rightarrow> string + string) \<Rightarrow> 'k key_library \<Rightarrow> ('k app_server \<Rightarrow> server_end) \<Rightarrow>
     int \<times> string option" where
  "revsrv_run getenv read_file lib life =
     (case config_from_env getenv read_file of
        Inl e \<Rightarrow> (2, Some e)
      | Inr cfg \<Rightarrow> (case run_server lib life cfg of Some e \<Rightarrow> (1, Some e) | None \<Rightarrow> (0, None)))"

definition revsrv_main ::
  "(string \<Rightarrow> string) \<Rightarrow> (string \<Rightarrow> string + string) \<Rightarrow> 'k key_library \<Rightarrow> ('k app_server \<Rightarrow> server_end) \<Rightarrow>
     int \<times> string list" where
  "revsrv_main getenv read_file lib life =
     (case revsrv_run getenv read_file lib life of
        (code, None) \<Rightarrow> (code, [])
      | (code, Some e) \<Rightarrow> (code, [''revsrv: '' @ e]))"

subsection \<open>Properties\<close>

lemma serve_job:
  assumes "serve sha decode s path rq = (r, answer, Some j)"
  shows "r = To_webhook \<and> path = ''/webhook'' \<and> snd (serve_http sha decode (as_secret s) rq) = Some j"
  using assms by (auto simp: serve_def route_of_def split: if_splits prod.splits)

text \<open>A server that started takes work at one place only: a request that starts a job is a \<open>POST\<close> to
  \<open>/webhook\<close> whose signature is that of its body under the secret of the environment, which is not empty;
  the probe, redirects and every other path answer without one.\<close>

theorem work_enters_by_the_webhook:
  assumes "config_from_env getenv read_file = Inr cfg" and "new_server lib cfg = Inr s"
    and "serve sha decode s path rq = (r, answer, Some j)"
  shows "path = ''/webhook'' \<and> rq_method rq = ''POST'' \<and> getenv env_webhook_secret \<noteq> []
    \<and> (\<exists>body event. rq_body rq = Inr body \<and> decode body = Inr event
        \<and> to_lower (rq_header rq signature_header) = sign sha body (getenv env_webhook_secret)
        \<and> pe_action event \<in> set analyzed_actions
        \<and> job_of event (rq_header rq delivery_header) = Inr j)"
proof -
  have secret: "as_secret s = getenv env_webhook_secret" "getenv env_webhook_secret \<noteq> []"
    using assms(1,2) by (auto simp: config_from_env_def new_server_def and_then_Inr Let_def
        split: if_splits option.splits sum.splits)
  from serve_job [OF assms(3)] have path: "path = ''/webhook''"
    and j: "snd (serve_http sha decode (as_secret s) rq) = Some j" by simp_all
  from j show ?thesis unfolding dispatched_iff using path secret by (auto simp: authentic_def)
qed

text \<open>The comment of \<open>main.go\<close> says that 2 means the server could not start and 1 that it stopped with an
  error. A key that does not parse and an address that is taken keep it from starting, and are 1.\<close>

theorem failed_starts_exit_with_one:
  assumes "config_from_env getenv read_file = Inr cfg"
    and "client_factory lib cfg = Inl e \<or> (\<exists>s. new_server lib cfg = Inr s \<and> life s = Listen_failed e)"
  shows "revsrv_main getenv read_file lib life = (1, [''revsrv: '' @ e])"
  using assms by (auto simp: revsrv_main_def revsrv_run_def run_server_def new_server_def)

text \<open>A token that is given no address to listen on, and an App whose key is not one.\<close>

definition token_env :: "string \<Rightarrow> string" where
  "token_env name = (if name = env_webhook_secret then ''key'' else if name = env_token then ''t0'' else [])"

definition app_env :: "string \<Rightarrow> string" where
  "app_env name =
     (if name = env_webhook_secret then ''key'' else if name = env_app_id then ''5''
      else if name = env_private_key then ''x'' else [])"

definition no_file :: "string \<Rightarrow> string + string" where "no_file path = Inl ''no such file''"

lemma token_config:
  "config_from_env token_env no_file = Inr \<lparr>sc_addr = '':8080'', sc_secret = ''key'', sc_token = ''t0'', sc_app_id = 0,
     sc_private_key = []\<rparr>"
  by code_simp

lemma app_config:
  "config_from_env app_env no_file = Inr \<lparr>sc_addr = '':8080'', sc_secret = ''key'', sc_token = [], sc_app_id = 5,
     sc_private_key = ''x''\<rparr>"
  by code_simp

theorem failed_starts_exit_with_one_witness:
  "revsrv_main app_env no_file no_keys (\<lambda>s. Listen_closed)
     = (1, [''revsrv: '' @ ''github app: private key is not valid PEM''])"
  by (rule failed_starts_exit_with_one [OF app_config])
    (simp add: client_factory_def new_app_authenticator_def parse_private_key_def no_keys_def and_then_def)

theorem work_enters_by_the_webhook_witness:
  "snd (snd (serve (\<lambda>x. x) (\<lambda>b. Inr sample_event) (\<lparr>as_addr = '':8080'', as_secret = ''key'',
         as_clients = Static_token ''t0''\<rparr> :: string app_server) ''/webhook'' (sample_request (sign (\<lambda>x. x) ''{}'' ''key'')))) = Some sample_job
   \<and> token_env env_webhook_secret \<noteq> []"
proof -
  let ?s = "\<lparr>as_addr = '':8080'', as_secret = ''key'', as_clients = Static_token ''t0''\<rparr> :: string app_server"
  let ?rq = "sample_request (sign (\<lambda>x. x) ''{}'' ''key'')"
  have "mux_path ''/webhook'' = ''/webhook''" by code_simp
  then have "route_of (rq_method ?rq) ''/webhook'' = To_webhook" by (simp add: route_of_def sample_request_def)
  then have j: "serve (\<lambda>x. x) (\<lambda>b. Inr sample_event) ?s ''/webhook'' ?rq
      = (To_webhook, Some (respond 202 ''accepted''), Some sample_job)"
    by (simp add: serve_def sample_served)
  have "new_server no_keys \<lparr>sc_addr = '':8080'', sc_secret = ''key'', sc_token = ''t0'', sc_app_id = 0, sc_private_key = []\<rparr>
      = Inr ?s"
    by (simp add: new_server_def client_factory_def)
  from work_enters_by_the_webhook [OF token_config this j] have "token_env env_webhook_secret \<noteq> []" by (elim conjE)
  with j show ?thesis by simp
qed

subsection \<open>What a comment rests on\<close>

definition read_whole :: "pg_library \<Rightarrow> yaml_library \<Rightarrow> changed_file \<Rightarrow> bool" where
  "read_whole pg lib f \<longleftrightarrow>
     (if analyzed f then grammar_permits pg (p_current f) else True)
     \<and> (if k8s_supports (location_of f) then manifest_readable lib f else True)"

text \<open>C24. A comment of the app that says \<open>PASS\<close> goes back to what GitHub answered: the listing of the comparison was
  complete, what the analyzers claim of it was read and nothing else was, no other file may be a migration, the
  analyzers returned without an error, and of what was read every \<open>.sql\<close> up migration is accepted by PostgreSQL's
  grammar with every node permitted, the side to deploy of every manifest is empty or parses, and so
  does the previous side of a deleted one, and the rollout of every Kubernetes object that is defined at most
  once before and at most once after, and not the same, is safe.\<close>

theorem passing_comment_is_grounded:
  assumes "certify_job sha (app_engine (Some (parse_sql pg None)) lib ord ctx today) fetching analyzing api j = Some (cert, err)"
    and "c_gate cert = GatePass" and "visits_all ord"
    and "eng = app_engine (Some (parse_sql pg None)) lib ord ctx today"
  shows "err = None \<and> (\<exists>listed files. github_list (Some api) fetching (job_ref j) = Some (Inr listed)
    \<and> github_read (Some api) fetching (job_ref j) (claimed_paths eng listed) = Inr files
    \<and> mset (map file_entry files) = mset (map path_entry (claimed_paths eng listed))
    \<and> (\<forall>p\<in>set listed. candidate (identity_locator (pp_path p)) \<longrightarrow> p \<in> set (claimed_paths eng listed))
    \<and> files \<noteq> [] \<and> list_all (read_whole pg lib) (stamp_located files identity_locator)
    \<and> rollouts_safe lib (stamp_located files identity_locator))"
  using assms(1) unfolding assms(4) [symmetric]
proof (cases rule: certify_job_cases)
  case (unread e)
  with assms(2) show ?thesis by simp
next
  case (read source listed files)
  have loc: "locator (listed_run listed) = identity_locator"
    by (simp add: locator_def listed_run_def identity_locator_def)
  have registered: "postgres_analyzer (Some (parse_sql pg None)) ctx \<in> set (e_analyzers eng)"
    "kubernetes_analyzer lib ord ctx \<in> set (e_analyzers eng)"
    by (simp_all add: assms(4) app_engine_def new_engine_def)
  from assms(2) read(4) have pass: "c_gate (fst (certify sha eng analyzing (listed_run listed) files)) = GatePass" by simp
  have "list_all (read_whole pg lib) (stamp_located files identity_locator)"
    "rollouts_safe lib (stamp_located files identity_locator)"
    using passing_grammar [OF pass registered(1)] passing_manifests [OF pass registered(2) assms(3) refl]
    by (simp_all add: read_whole_def list_all_iff loc)
  moreover have "files \<noteq> []"
    using pass_evidence [OF pass] by (auto simp: evidence_def stamp_located_def)
  moreover have "github_list (Some api) fetching (job_ref j) = Some (Inr listed)"
    "github_read (Some api) fetching (job_ref j) (claimed_paths eng listed) = Inr files"
    using read(1-3) by (auto simp: github_provider_def)
  ultimately show ?thesis
    using passing_comment_has_evidence [OF assms(1) [folded assms(4)] assms(2)] by auto
qed

definition app_api :: api_client where
  "app_api = \<lparr>
     api_compare = (\<lambda>owner repo base head page.
       Inr ([\<lparr>cf_filename = ''db/1.down.sql'', cf_previous = [], cf_status = ''added''\<rparr>,
         \<lparr>cf_filename = ''db/1.up.sql'', cf_previous = [], cf_status = ''added''\<rparr>], 0)),
     api_contents = (\<lambda>owner repo path sha. if path = ''db'' then Contents_dir []
       else api_text (if path = ''db/1.up.sql'' then ''up'' else ''down''))\<rparr>"

abbreviation grammar_app :: engine where
  "grammar_app \<equiv> app_engine (Some (parse_sql sample_grammar None)) (sample_library []) in_order (\<lambda>i. None) 0"

definition app_listing :: "provider_path list" where
  "app_listing = map (\<lambda>p. listed_path p StatusAdded) [''db/1.down.sql'', ''db/1.up.sql'']"

definition app_files :: "changed_file list" where
  "app_files = [git_file ''db/1.down.sql'' StatusAdded [] ''down'', git_file ''db/1.up.sql'' StatusAdded [] ''up'']"

lemma app_pages:
  "compare_pages app_api r 0 [] = Some (Inr [\<lparr>cf_filename = ''db/1.down.sql'', cf_previous = [], cf_status = ''added''\<rparr>,
     \<lparr>cf_filename = ''db/1.up.sql'', cf_previous = [], cf_status = ''added''\<rparr>])"
  by (subst compare_pages.simps) (simp add: app_api_def max_changed_files_def)

lemma app_list: "github_list (Some app_api) None (job_ref sample_job) = Some (Inr app_listing)"
proof -
  have "and_then (github_context app_api
        \<lparr>pr_owner = ''acme'', pr_repo = ''widgets'', pr_base = ''aaa'', pr_head = ''bbb''\<rparr>
        (map commit_path [\<lparr>cf_filename = ''db/1.down.sql'', cf_previous = [], cf_status = ''added''\<rparr>,
          \<lparr>cf_filename = ''db/1.up.sql'', cf_previous = [], cf_status = ''added''\<rparr>]))
      (\<lambda>siblings. Inr (sort_paths (map commit_path [\<lparr>cf_filename = ''db/1.down.sql'', cf_previous = [], cf_status = ''added''\<rparr>,
          \<lparr>cf_filename = ''db/1.up.sql'', cf_previous = [], cf_status = ''added''\<rparr>] @ siblings)))
    = (Inr app_listing :: string + provider_path list)"
    by code_simp
  then show ?thesis by (simp add: github_list_def passing_ref app_pages Let_def)
qed

lemma app_read:
  "resolve_changes \<lparr>fp_list = Inr app_listing, fp_read = github_read (Some app_api) None (job_ref sample_job)\<rparr>
     (\<lambda>listed. (claimed_paths grammar_app listed, ())) = Inr (app_listing, app_files, ())"
  by code_simp

lemma app_gate:
  "c_gate (fst (certify (\<lambda>b. []) grammar_app None (listed_run app_listing) app_files)) = GatePass
   \<and> snd (certify (\<lambda>b. []) grammar_app None (listed_run app_listing) app_files) = None"
  by code_simp

theorem passing_comment_is_grounded_witness:
  "\<exists>files. github_read (Some app_api) None (job_ref sample_job) (claimed_paths grammar_app app_listing) = Inr files
     \<and> files \<noteq> [] \<and> list_all (read_whole sample_grammar (sample_library [])) (stamp_located files identity_locator)
     \<and> rollouts_safe (sample_library []) (stamp_located files identity_locator)"
proof -
  obtain x y where x: "certify (\<lambda>b. []) grammar_app None (listed_run app_listing) app_files = (x, y)" by fastforce
  with app_gate have pass: "c_gate x = GatePass" by simp
  have "certify_job (\<lambda>b. []) grammar_app None None app_api sample_job = Some (x, None)"
    using x app_gate by (simp add: certify_job_def github_provider_def app_list app_read)
  from passing_comment_is_grounded [OF this pass visits_all_samples(1) refl] show ?thesis by (auto simp: app_list)
qed

text \<open>Terraform plans are not among the files: the app is built without their analyzer, so a pull request with a
  migration passes whatever the plan beside it destroys, where \<open>revctl check\<close> claims the plan.\<close>

definition mixed_listing :: "provider_path list" where
  "mixed_listing = map (\<lambda>p. listed_path p StatusAdded) [''db/1.down.sql'', ''db/1.up.sql'', ''infra.tfplan.json'']"

theorem plans_pass_unread:
  "c_gate (fst (certify (\<lambda>b. []) grammar_app None (listed_run mixed_listing) app_files)) = GatePass"
  "map pp_path (claimed_paths grammar_app mixed_listing) = [''db/1.down.sql'', ''db/1.up.sql'']"
  "tf_supports sample_terraform (identity_locator ''infra.tfplan.json'')"
  by code_simp+

end
