(* ===== verification/Provider_Fake.thy ===== *)
theory Provider_Fake
  imports Provider_Fs
begin

text \<open>
  The provider of fixtures, \<open>internal/provider/fake.go\<close>: a reference names a directory, whose shape tells how
  its files became changes. It reads everything and lists what it read. The disk and the walks are those of
  \<open>Provider_Fs\<close>; no directory is left out. An error of \<open>os.Stat\<close> that says that nothing is there is told
  from others by a parameter.
\<close>

subsection \<open>Walks\<close>

definition skip_file :: "string \<Rightarrow> bool" where
  "skip_file name \<longleftrightarrow> name = ''.gitkeep'' \<or> name = ''expected.json'' \<or> has_prefix name ''.''"

definition fixture_content :: "string \<Rightarrow> node \<Rightarrow> string + string" where
  "fixture_content p n = map_sum (\<lambda>e. ''read '' @ p @ '': '' @ e) (\<lambda>x. x) (read_file n)"

fun visit_fixture :: "string \<Rightarrow> (string \<times> string) list visitor" where
  "visit_fixture root name path n out =
     (if skip_file name then Inr out
      else and_then (fixture_content (path_join [root, path]) n) (\<lambda>content. Inr (out @ [(path, content)])))"

definition walk_fixture :: "disk \<Rightarrow> string \<Rightarrow> string + (string \<times> string) list" where
  "walk_fixture disk root = walk_dir (\<lambda>name. False) (visit_fixture root) disk root []"

definition fake_reading :: "string \<Rightarrow> string + 'a \<Rightarrow> string + 'a" where
  "fake_reading what r = map_sum (\<lambda>e. ''fake provider: reading '' @ what @ '': '' @ e) (\<lambda>x. x) r"

definition read_all_added :: "disk \<Rightarrow> string \<Rightarrow> string \<Rightarrow> string + changed_file list" where
  "read_all_added disk dir sub =
     fake_reading sub
       (map_sum (\<lambda>e. e) (map (\<lambda>(p, content). fs_file (path_join [sub, p]) StatusAdded [] content))
          (walk_fixture disk (path_join [dir, sub])))"

text \<open>One side of a pair, or nothing where there is no such directory.\<close>

definition read_tree :: "(string \<Rightarrow> bool) \<Rightarrow> disk \<Rightarrow> string \<Rightarrow> string + (string \<times> string) list option" where
  "read_tree not_exist disk root =
     (case os_stat disk root of
        Inl e \<Rightarrow> if not_exist e then Inr None else fake_reading root (map_sum (\<lambda>e. e) Some (walk_fixture disk root))
      | Inr n \<Rightarrow> fake_reading root (map_sum (\<lambda>e. e) Some (walk_fixture disk root)))"

definition side :: "(string \<times> string) list option \<Rightarrow> (string \<times> string) list" where
  "side t = (case t of None \<Rightarrow> [] | Some fs \<Rightarrow> rev fs)"

definition pair_files :: "(string \<times> string) list \<Rightarrow> (string \<times> string) list \<Rightarrow> changed_file list" where
  "pair_files old new =
     map (\<lambda>p. case (map_of old p, map_of new p) of
            (Some before, Some after) \<Rightarrow> fs_file p StatusModified before after
          | (None, Some after) \<Rightarrow> fs_file p StatusAdded [] after
          | (before, None) \<Rightarrow> fs_file p StatusRemoved (case before of None \<Rightarrow> [] | Some c \<Rightarrow> c) [])
       (remdups (map fst old) @ filter (\<lambda>p. p \<notin> fst ` set old) (remdups (map fst new)))"

definition read_tree_pair :: "(string \<Rightarrow> bool) \<Rightarrow> disk \<Rightarrow> string \<Rightarrow> string + changed_file list" where
  "read_tree_pair not_exist disk dir =
     and_then (read_tree not_exist disk (path_join [dir, ''old''])) (\<lambda>old.
     and_then (read_tree not_exist disk (path_join [dir, ''new''])) (\<lambda>new.
       if old = None \<and> new = None then
         Inl (''fake provider: '' @ dir @ '' has no migrations/, old/ or new/ directory: domain: file provider failed'')
       else Inr (pair_files (side old) (side new))))"

subsection \<open>The provider\<close>

fun is_ok :: "string + 'a \<Rightarrow> bool" where
  "is_ok (Inl e) = False"
| "is_ok (Inr x) = True"

definition fixture_files ::
  "(string \<Rightarrow> bool) \<Rightarrow> disk \<Rightarrow> string \<Rightarrow> string option \<Rightarrow> string \<Rightarrow> string + changed_file list" where
  "fixture_files not_exist disk root cancelled ref =
     (case cancelled of
        Some e \<Rightarrow> Inl (''fake provider: '' @ e)
      | None \<Rightarrow>
          (let dir = path_join [root, ref] in
           case os_stat disk dir of
             Inl e \<Rightarrow> Inl (''fake provider: fixture '' @ go_quote ref @ '': '' @ e)
           | Inr info \<Rightarrow>
               if \<not> is_directory info then
                 Inl (''fake provider: fixture '' @ go_quote ref @ '' is not a directory: domain: file provider failed'')
               else
                 map_sum (\<lambda>e. e) sort_by_path
                   (if is_ok (os_stat disk (path_join [dir, ''migrations''])) then read_all_added disk dir ''migrations''
                    else if is_ok (os_stat disk (path_join [dir, ''plan''])) then read_all_added disk dir ''plan''
                    else read_tree_pair not_exist disk dir)))"

definition fake_list ::
  "(string \<Rightarrow> bool) \<Rightarrow> disk \<Rightarrow> string \<Rightarrow> string option \<Rightarrow> string \<Rightarrow> string + provider_path list" where
  "fake_list not_exist disk root cancelled ref =
     map_sum (\<lambda>e. e) (\<lambda>files. sort_paths (map (\<lambda>f.
         \<lparr>pp_path = p_path f, pp_prev_path = p_previous_path f, pp_status = p_status f\<rparr>) files))
       (fixture_files not_exist disk root cancelled ref)"

definition fake_read ::
  "(string \<Rightarrow> bool) \<Rightarrow> disk \<Rightarrow> string \<Rightarrow> string option \<Rightarrow> string \<Rightarrow> provider_path list \<Rightarrow> string + changed_file list" where
  "fake_read not_exist disk root cancelled ref paths =
     map_sum (\<lambda>e. e) (filter (\<lambda>f. p_path f \<in> pp_path ` set paths)) (fixture_files not_exist disk root cancelled ref)"

definition fake_provider :: "(string \<Rightarrow> bool) \<Rightarrow> disk \<Rightarrow> string \<Rightarrow> string option \<Rightarrow> string \<Rightarrow> file_provider" where
  "fake_provider not_exist disk root cancelled ref =
     \<lparr>fp_list = fake_list not_exist disk root cancelled ref, fp_read = fake_read not_exist disk root cancelled ref\<rparr>"

definition fixture_ref :: "string \<Rightarrow> string \<Rightarrow> string" where
  "fixture_ref kind name = path_join [kind, name]"

subsection \<open>The contract\<close>

lemma sum_Inr: "map_sum (\<lambda>e. e) f r = Inr y \<longleftrightarrow> (\<exists>x. r = Inr x \<and> y = f x)"
  by (cases r) auto

lemma sort_paths_entries:
  "sorted (map p_path files) \<Longrightarrow>
     sort_paths (map (\<lambda>f. \<lparr>pp_path = p_path f, pp_prev_path = p_previous_path f, pp_status = p_status f\<rparr>) files)
       = map (\<lambda>f. \<lparr>pp_path = p_path f, pp_prev_path = p_previous_path f, pp_status = p_status f\<rparr>) files"
  by (simp add: sort_paths_def sort_key_id_if_sorted comp_def)

lemma fixture_files_sorted: "fixture_files not_exist disk root cancelled ref = Inr files \<Longrightarrow> sorted (map p_path files)"
  by (auto simp: fixture_files_def Let_def sum_Inr split: option.splits sum.splits if_splits)

interpretation fixtures: provider_contract
  "fake_list not_exist disk root cancelled ref" "fake_read not_exist disk root cancelled ref"
  for not_exist disk root cancelled ref
proof (unfold_locales, goal_cases)
  case (1 listed)
  then show ?case by (auto simp: fake_list_def sum_Inr)
next
  case (2 ps files)
  then show ?case by (auto simp: fake_read_def sum_Inr sorted_filter dest: fixture_files_sorted)
next
  case (3 listed Q files)
  then obtain all where all: "fixture_files not_exist disk root cancelled ref = Inr all" by (auto simp: fake_list_def sum_Inr)
  note sorted = fixture_files_sorted [OF all]
  from 3(1) all have l: "listed = map (\<lambda>f. \<lparr>pp_path = p_path f, pp_prev_path = p_previous_path f, pp_status = p_status f\<rparr>) all"
    by (simp add: fake_list_def sort_paths_entries [OF sorted])
  from 3(2) all have f: "files = filter (\<lambda>f. p_path f \<in> pp_path ` set (filter (\<lambda>p. Q (pp_path p)) listed)) all"
    by (simp add: fake_read_def)
  also have "\<dots> = filter (\<lambda>f. Q (p_path f)) all"
  proof (rule filter_cong [OF refl])
    fix x assume x: "x \<in> set all"
    have "pp_path ` set (filter (\<lambda>p. Q (pp_path p)) listed) = {p \<in> set (map pp_path listed). Q p}"
      using wanted_paths [of Q listed] by (simp only: set_map)
    also have "map pp_path listed = map p_path all" by (simp add: l comp_def)
    finally show "p_path x \<in> pp_path ` set (filter (\<lambda>p. Q (pp_path p)) listed) \<longleftrightarrow> Q (p_path x)" using x by auto
  qed
  finally show ?case by (simp add: l filter_map comp_def path_entry_def file_entry_def [abs_def])
qed

subsection \<open>Properties\<close>

text \<open>A pair of trees of a fixture becomes the changeset that the provider of the file system makes of two trees
  with those files: what tests see is what a run sees.\<close>

lemma sort_by_path_keys:
  assumes "\<And>k. p_path (F k) = k" and "distinct ks"
  shows "sort_by_path (map F ks) = map F (sorted_keys ks)"
proof (rule map_sorted_distinct_set_unique [where f = p_path])
  show "inj_on p_path (set (sort_by_path (map F ks)) \<union> set (map F (sorted_keys ks)))"
    by (auto simp: inj_on_def assms(1))
  have "distinct (map p_path (map F ks))" using assms(2) by (simp add: comp_def assms(1))
  then show "distinct (map p_path (sort_by_path (map F ks)))"
    by (metis mset_eq_imp_distinct_iff mset_map mset_sort_by_path(1))
qed (simp_all add: comp_def assms(1))

theorem fixtures_become_changes: "sort_by_path (pair_files old new) = diff_trees old new"
proof -
  let ?F = "\<lambda>p. case (map_of old p, map_of new p) of
      (Some before, Some after) \<Rightarrow> fs_file p StatusModified before after
    | (None, Some after) \<Rightarrow> fs_file p StatusAdded [] after
    | (before, None) \<Rightarrow> fs_file p StatusRemoved (case before of None \<Rightarrow> [] | Some c \<Rightarrow> c) []"
  let ?ks = "remdups (map fst old) @ filter (\<lambda>p. p \<notin> fst ` set old) (remdups (map fst new))"
  have "p_path (?F k) = k" for k by (simp split: option.split)
  then have "sort_by_path (map ?F ?ks) = map ?F (sorted_keys ?ks)" by (intro sort_by_path_keys) auto
  moreover have "sorted_keys ?ks = sorted_keys (map fst old @ map fst new)" by (rule sorted_keys_cong) auto
  ultimately show ?thesis by (simp add: pair_files_def diff_trees_def)
qed

text \<open>Reading everything a fixture lists gives its files.\<close>

theorem fixtures_read_what_they_list:
  assumes "fake_list not_exist disk root cancelled ref = Inr listed"
  shows "fake_read not_exist disk root cancelled ref listed = fixture_files not_exist disk root cancelled ref"
proof -
  obtain all where all: "fixture_files not_exist disk root cancelled ref = Inr all"
    and l: "listed = sort_paths (map (\<lambda>f. \<lparr>pp_path = p_path f, pp_prev_path = p_previous_path f, pp_status = p_status f\<rparr>) all)"
    using assms by (auto simp: fake_list_def sum_Inr)
  have "filter (\<lambda>f. p_path f \<in> pp_path ` set listed) all = all" by (auto simp: l image_image filter_id_conv)
  with all show ?thesis by (simp add: fake_read_def)
qed

text \<open>A fixture with one file that changed, one that was added and one that was removed.\<close>

definition fixture_disk :: disk where
  "fixture_disk name =
     (if name = ''testdata/pair/old'' then Inr (Directory (Inr [(''a'', Regular (Inr ''1'')), (''c'', Regular (Inr ''3''))]))
      else if name = ''testdata/pair/new'' then
        Inr (Directory (Inr [(''.gitkeep'', Regular (Inr [])), (''a'', Regular (Inr ''2'')), (''b'', Regular (Inr ''4''))]))
      else if name = ''testdata/pair'' then Inr (Directory (Inr []))
      else Inl ''not there'')"

theorem fixture_example:
  "fixture_files (\<lambda>e. e = ''not there'') fixture_disk ''testdata'' None ''pair'' =
     Inr [fs_file ''a'' StatusModified ''1'' ''2'', fs_file ''b'' StatusAdded [] ''4'', fs_file ''c'' StatusRemoved ''3'' []]"
  by code_simp

theorem fixtures_read_what_they_list_witness:
  "\<exists>listed. fake_list (\<lambda>e. e = ''not there'') fixture_disk ''testdata'' None ''pair'' = Inr listed
     \<and> fake_read (\<lambda>e. e = ''not there'') fixture_disk ''testdata'' None ''pair'' listed
       = fixture_files (\<lambda>e. e = ''not there'') fixture_disk ''testdata'' None ''pair''"
proof -
  obtain listed where "fake_list (\<lambda>e. e = ''not there'') fixture_disk ''testdata'' None ''pair'' = Inr listed"
    by (simp add: fake_list_def fixture_example)
  with fixtures_read_what_they_list [OF this] show ?thesis by blast
qed

end
