(* ===== verification/Spec2Isabelle.thy ===== *)
theory Spec2Isabelle
  imports Revctl Revsrv Provider_Fake
begin

text \<open>
  A verification development for the reversibility engine, a Go program that reads a changeset (SQL
  migrations, Terraform plans, Kubernetes manifests), decides for every statement, resource or object
  whether it can be undone, and issues a certificate with a grade and a gate decision.

  \<^bold>\<open>How the program works.\<close> A provider resolves a changeset. The engine (\<open>internal/engine\<close>) stamps every file
  with its path in the namespace in which decisions are made, hands the files to the registered analyzers
  (\<open>internal/analyzer\<close>), enriches their findings with production statistics (\<open>internal/snapshot\<close>), applies
  the user's policy (\<open>internal/policy\<close>), scores what is left and fills a certificate; a panic or an error
  on the way becomes a certificate of grade F. The command \<open>revctl check\<close> (\<open>internal/delivery/cli\<close>) writes
  the certificate and turns it into an exit code; \<open>revctl snapshot\<close> collects the statistics
  (\<open>internal/snapshot/collect\<close>) that a later check is given, \<open>revctl catalog\<close> prints and extends the classes
  of Terraform types; the GitHub app (\<open>internal/delivery/github\<close>) takes signed deliveries of
  a webhook, certifies the pull request of each and leaves the rendered certificate (\<open>internal/render\<close>) in
  one comment.

  \<^bold>\<open>How the theories follow it.\<close> Definitions keep the names of the code, in its order; a Go struct is a
  record, a string type with named values a datatype with one more constructor for every other string, an
  \<open>error\<close> result the left side of a sum or \<open>Failed\<close>, a panic \<open>Panicked\<close>.

  \<^item> \<^theory_text>\<open>Prelude\<close>: results, bytes, the parts of \<open>strings\<close>, \<open>strconv\<close>, \<open>fmt\<close> and \<open>sort\<close> the program uses.
    \<^theory_text>\<open>Field_Writer\<close>: the length-prefixed stream that is hashed, with the locale \<open>field_code\<close>.
    \<^theory_text>\<open>Go_Path\<close>, \<^theory_text>\<open>Go_Match\<close>: \<open>path.Clean\<close>, \<open>path.Join\<close>, \<open>path.Match\<close>. \<^theory_text>\<open>Go_Float\<close>, \<^theory_text>\<open>Go_Json\<close>:
    \<open>float64\<close> with rounding, values decoded from JSON. \<^theory_text>\<open>Go_Decimal\<close>, \<^theory_text>\<open>Go_Marshal\<close>: decimal digits, JSON
    as it is written, with a reader as the specification.
  \<^item> \<^theory_text>\<open>Domain\<close>: \<open>internal/domain\<close>, with the locale \<open>ceiling\<close> for caps on grades.
  \<^item> \<^theory_text>\<open>Policy_Match\<close>, \<^theory_text>\<open>Policy\<close>, \<^theory_text>\<open>Policy_Load\<close>: \<open>internal/policy\<close>, with the locale \<open>tightening\<close> for steps that
    never make a finding milder.
  \<^item> \<^theory_text>\<open>Candidate\<close>, \<^theory_text>\<open>Scorer\<close>, \<^theory_text>\<open>Digest\<close>, \<^theory_text>\<open>Undo\<close>, \<^theory_text>\<open>Engine\<close>: \<open>internal/engine\<close>; \<^theory_text>\<open>Guarantees\<close>: what a certificate
    promises, for all analyzers, policies and snapshots.
  \<^item> \<^theory_text>\<open>Snapshot\<close>, \<^theory_text>\<open>Estimate\<close>, \<^theory_text>\<open>Enrich\<close>: \<open>internal/snapshot\<close>.
  \<^item> \<^theory_text>\<open>Statement_Text\<close> and \<^theory_text>\<open>Analyzer_Contract\<close>: \<open>internal/analyzer/analyzer.go\<close>, the normal form of a
    statement over UTF-8, and the promises of an analyzer as the locales \<open>analyzer_contract\<close> and
    \<open>canonical_analyzer\<close>, which each analyzer of the development interprets.
  \<^item> \<^theory_text>\<open>Postgres_Parser\<close>, \<^theory_text>\<open>Postgres_Complexity\<close>, \<^theory_text>\<open>Postgres_Schema\<close>, \<^theory_text>\<open>Postgres_Rules\<close>, \<^theory_text>\<open>Postgres_Down\<close>,
    \<^theory_text>\<open>Postgres_Analyzer\<close>: \<open>internal/analyzer/postgres\<close>, the statements a parser hands over, the guard before
    it, the column types a changeset declares, the classification table, down migrations, the run; with the
    locale \<open>column_store\<close> for the schema tracker. \<^theory_text>\<open>Postgres_Adapter\<close>: \<open>parser/pgquery.go\<close>, the parser over
    PostgreSQL's grammar, whose tree is translated node by node.
  \<^item> \<^theory_text>\<open>Terraform_Plan\<close>, \<^theory_text>\<open>Terraform_Catalog\<close>, \<^theory_text>\<open>Terraform_Analyzer\<close>: \<open>internal/analyzer/terraform\<close>.
  \<^item> \<^theory_text>\<open>Kubernetes_Object\<close>, \<^theory_text>\<open>Kubernetes_Rules\<close>, \<^theory_text>\<open>Kubernetes_Analyzer\<close>: \<open>internal/analyzer/kubernetes\<close>.
  \<^item> \<^theory_text>\<open>Provider\<close>: \<open>internal/provider/provider.go\<close>, with the locale \<open>provider_contract\<close>, which the providers
    interpret: \<^theory_text>\<open>Provider_Git\<close> (\<open>git.go\<close>), \<^theory_text>\<open>Provider_Fs\<close> (\<open>fs.go\<close>) and \<^theory_text>\<open>Provider_Github\<close> (\<open>github.go\<close>, where
    the contract is a lemma, since a listing need not end). \<^theory_text>\<open>Provider_Root\<close>: \<open>root.go\<close>, the project a path is in.
    \<^theory_text>\<open>Provider_Fake\<close>: \<open>fake.go\<close>, the fixtures, over the disks of \<open>fs.go\<close>, with an interpretation of its own.
  \<^item> \<^theory_text>\<open>Collect_Redact\<close>, \<^theory_text>\<open>Collect\<close>: \<open>internal/snapshot/collect\<close>, the expressions that scrub a message as matchers, the
    collectors of a database and of a cluster, and \<open>cli/snapshot.go\<close>, the command that writes what they collect.
  \<^item> \<^theory_text>\<open>Cli_Check\<close>: \<open>internal/delivery/cli/check.go\<close>, flags and policy, the choice of files, the gate, exit codes, with
    what it calls as arguments. \<^theory_text>\<open>Cli_Catalog\<close>: \<open>catalog.go\<close>, \<open>version.go\<close> and the embedded catalogs. \<^theory_text>\<open>Revctl\<close>: the
    components of the development in the places of those arguments, so that \<open>revctl check\<close> is one function of a
    \<open>machine\<close>: the disk, git, the clock and the decoders; and the exit code of every command.
  \<^item> \<^theory_text>\<open>Render_Markdown\<close>, \<^theory_text>\<open>Render_Sarif\<close>, \<^theory_text>\<open>Sarif_Format\<close>: \<open>internal/render\<close>, the text of a certificate, its SARIF log
    and the JSON of it.
    \<^theory_text>\<open>Wire_Format\<close>: \<open>pkg/certificate\<close>, the public schema, its JSON form and the choice of a renderer.
  \<^item> \<^theory_text>\<open>Github_Webhook\<close>: \<open>signature.go\<close>, \<open>webhook.go\<close> and the life of the server; \<^theory_text>\<open>Github_Comment\<close>: \<open>comment.go\<close>,
    with the locale \<open>comment_pages\<close> for what a listing of comments promises; \<^theory_text>\<open>Github_App\<close>: \<open>processor.go\<close>, which
    composes the provider, the engine, the renderer and the comments; \<^theory_text>\<open>Github_Auth\<close>: \<open>server.go\<close>, \<open>auth.go\<close>.
    \<^theory_text>\<open>Revsrv\<close>: the server of \<open>server.go\<close> and \<open>cmd/revsrv\<close> with the routes of its two patterns, and the app over the grammar.

  \<^bold>\<open>What is shown.\<close> A gate of \<open>PASS\<close> rests on evidence: every analyzer returned, nothing was left out, and, by
  analyzer, every migration parses, every node of its tree is on the list of what may pass, no plan destroys a resource or switches a recovery
  capability off, every Kubernetes object that differs, and is defined at most once on either side, is a
  pinned workload whose immutable fields and probes stayed.
  Failures and panics grade F; waivers move neither grade nor gate; overrides, evidence and enrichment only
  raise severity; the grade of a run that read everything is the one of the documented scoring table; findings can
  only lower a grade. Each
  analyzer's verdicts are characterised without reference to the order of its rules (for PostgreSQL row by row
  of the documented table), its run does not depend on the order of the files, and the digests determine what was hashed. The complexity guard bounds every
  statement it lets through. A provider reads what was chosen from its listing and nothing else, both sides
  of it, within its limits. A job of the app stems from a signed delivery and ends in one comment, which is
  the only one of the app on the pull request as long as its jobs do not overlap and no remark holds its
  marker; a comment that says \<open>PASS\<close>
  rests on a complete listing and on evidence. The rendered forms agree with the certificate: the badge is
  the gate, every file that was not read is named, levels follow the grade, the JSON form reads back as the
  certificate it was written for. For the whole of \<open>revctl check\<close>, a JSON document that says it passed goes back
  to what was read from the disk or from git, a comment of the app to what GitHub answered; exit code 1 is a verdict
  and nothing else. A collection asks only for read-only connections and repeats no
  credential of the known shapes; the file it writes loads with the metadata that was collected, as far as JSON
  can hold it. Where modelling showed that the
  code does not do what its comments say, a theorem states what it does instead.

  \<^bold>\<open>Parameters.\<close> What is not source of the repository is an argument: PostgreSQL's grammar (\<open>pg.Parse\<close>), the YAML
  decoders, \<open>json.Unmarshal\<close> into structs, SHA-256, RSA and the parsers of keys, git, the file system, how
  listening ends, the calls of the GitHub API, the driver of the database with what it answers to the queries, the client of the cluster,
  the encoder of a snapshot, the terraform program, embedded files, the clock, the order in which Go visits a map. Properties hold for every value
  of these; where one needs more, it is a named hypothesis (no collision on the two streams compared, every
  entry of a map visited once, pages of an API that end).

  \<^bold>\<open>Bounds.\<close> Loops are structural recursion or functions with a termination proof; the two loops over the
  pages of an API, which only the API ends, are partial functions into \<open>option\<close>, with theorems that they
  return when the pages end. No fuel is used. Machine
  integers are words where they are written into a digest, \<open>wrap64\<close> where durations can overflow. Case
  folding and white space are those of ASCII, except in the normal form of statements, which works on
  runes. \<open>float64\<close> values are finite and normal; a quantity beyond the largest one is infinite.

  \<^bold>\<open>Not modelled.\<close> The texts of the SQL queries have no meaning here, only their answers. The parser of the command
  line and help texts, logging, listening and timeouts belong to libraries; the helper of the fixture tests, the sentinel
  errors and the documentation of packages hold no logic beyond the texts that the components repeat.
\<close>

end
